(* ===== verification/Prelude.thy ===== *)
theory Prelude
  imports Main "HOL-Library.Word" "HOL-Library.Char_ord"
begin

unbundle bit_operations_syntax

named_theorems read_back "what a writer writes, the reader of the same value reads"

text \<open>
  Shared vocabulary of the development: the machine types of the sources (\<open>wchar_t\<close> is 16 bits
  wide on Windows, \<open>DWORD\<close> 32, \<open>BYTE\<close> 8; a \<open>char\<close> of a \<open>std::string\<close> is HOL's 8-bit
  \<open>char\<close>), the documented values of the Win32 error codes and limits the sources name, the
  sequencing combinator for the pattern "call, return its error unless ERROR_SUCCESS", and the
  generic lemmas on characters, wide strings and lists.
\<close>

section \<open>Machine types\<close>

type_synonym wchar = "16 word"
type_synonym wstring = "wchar list"
type_synonym dword = "32 word"
type_synonym byte = "8 word"
type_synonym sid = "byte list"

text \<open>A wide literal \<open>L"..."\<close> of ASCII characters.\<close>

definition wide :: "string \<Rightarrow> wstring" where
  "wide s = map of_char s"

text \<open>The two characters an inner string literal cannot spell.\<close>

abbreviation DQ :: char where "DQ \<equiv> CHR 0x22"
abbreviation BS :: char where "BS \<equiv> CHR 0x5C"

section \<open>Win32 constants\<close>

text \<open>Values documented in \<open>winerror.h\<close>, \<open>lmerr.h\<close>, \<open>lmcons.h\<close> and \<open>winnt.h\<close>.\<close>

abbreviation ERROR_SUCCESS :: dword where "ERROR_SUCCESS \<equiv> 0"
abbreviation ERROR_FILE_NOT_FOUND :: dword where "ERROR_FILE_NOT_FOUND \<equiv> 2"
abbreviation ERROR_PATH_NOT_FOUND :: dword where "ERROR_PATH_NOT_FOUND \<equiv> 3"
abbreviation ERROR_ACCESS_DENIED :: dword where "ERROR_ACCESS_DENIED \<equiv> 5"
abbreviation ERROR_INVALID_HANDLE :: dword where "ERROR_INVALID_HANDLE \<equiv> 6"
abbreviation ERROR_INVALID_DATA :: dword where "ERROR_INVALID_DATA \<equiv> 13"
abbreviation ERROR_NOT_READY :: dword where "ERROR_NOT_READY \<equiv> 21"
abbreviation ERROR_WRITE_FAULT :: dword where "ERROR_WRITE_FAULT \<equiv> 29"
abbreviation ERROR_GEN_FAILURE :: dword where "ERROR_GEN_FAILURE \<equiv> 31"
abbreviation ERROR_SHARING_VIOLATION :: dword where "ERROR_SHARING_VIOLATION \<equiv> 32"
abbreviation ERROR_HANDLE_EOF :: dword where "ERROR_HANDLE_EOF \<equiv> 38"
abbreviation ERROR_NOT_SUPPORTED :: dword where "ERROR_NOT_SUPPORTED \<equiv> 50"
abbreviation ERROR_INVALID_PARAMETER :: dword where "ERROR_INVALID_PARAMETER \<equiv> 87"
abbreviation ERROR_BROKEN_PIPE :: dword where "ERROR_BROKEN_PIPE \<equiv> 109"
abbreviation ERROR_INVALID_NAME :: dword where "ERROR_INVALID_NAME \<equiv> 123"
abbreviation ERROR_BAD_PATHNAME :: dword where "ERROR_BAD_PATHNAME \<equiv> 161"
abbreviation ERROR_BUSY :: dword where "ERROR_BUSY \<equiv> 170"
abbreviation ERROR_ALREADY_EXISTS :: dword where "ERROR_ALREADY_EXISTS \<equiv> 183"
abbreviation ERROR_PIPE_BUSY :: dword where "ERROR_PIPE_BUSY \<equiv> 231"
abbreviation ERROR_DIRECTORY :: dword where "ERROR_DIRECTORY \<equiv> 267"
abbreviation ERROR_ELEVATION_REQUIRED :: dword where "ERROR_ELEVATION_REQUIRED \<equiv> 740"
abbreviation ERROR_NOT_FOUND :: dword where "ERROR_NOT_FOUND \<equiv> 1168"
abbreviation ERROR_CANCELLED :: dword where "ERROR_CANCELLED \<equiv> 1223"
abbreviation ERROR_NONE_MAPPED :: dword where "ERROR_NONE_MAPPED \<equiv> 1332"
abbreviation ERROR_ACCOUNT_DISABLED :: dword where "ERROR_ACCOUNT_DISABLED \<equiv> 1331"
abbreviation ERROR_INVALID_ACL :: dword where "ERROR_INVALID_ACL \<equiv> 1336"
abbreviation ERROR_INVALID_SID :: dword where "ERROR_INVALID_SID \<equiv> 1337"
abbreviation ERROR_MEMBER_IN_GROUP :: dword where "ERROR_MEMBER_IN_GROUP \<equiv> 1320"
abbreviation ERROR_TIMEOUT :: dword where "ERROR_TIMEOUT \<equiv> 1460"
abbreviation ERROR_NOT_ENOUGH_QUOTA :: dword where "ERROR_NOT_ENOUGH_QUOTA \<equiv> 1816"
abbreviation NERR_UserNotFound :: dword where "NERR_UserNotFound \<equiv> 2221"
abbreviation NERR_UserExists :: dword where "NERR_UserExists \<equiv> 2224"
definition UNLEN :: nat where UNLEN_def [simp]: "UNLEN = 256"
abbreviation INT_MAX :: nat where "INT_MAX \<equiv> 2147483647"
abbreviation SECURITY_MAX_SID_SIZE :: nat where "SECURITY_MAX_SID_SIZE \<equiv> 68"

section \<open>Calls in sequence\<close>

text \<open>"Call \<open>f\<close>, return its error unless \<open>ERROR_SUCCESS\<close>, then call \<open>g\<close>", over a world \<open>'w\<close>.\<close>

definition and_then :: "('w \<Rightarrow> dword \<times> 'w) \<Rightarrow> ('w \<Rightarrow> dword \<times> 'w) \<Rightarrow> 'w \<Rightarrow> dword \<times> 'w" where
  "and_then f g w = (case f w of (e, w') \<Rightarrow> if e = ERROR_SUCCESS then g w' else (e, w'))"

lemma and_then_successE:
  assumes "and_then f g w = (ERROR_SUCCESS, w')"
  obtains w1 where "f w = (ERROR_SUCCESS, w1)" "g w1 = (ERROR_SUCCESS, w')"
  using assms by (auto simp: and_then_def split: prod.splits if_splits)

lemma and_then_invariant:
  assumes "and_then f g w = (e, w')" and "P w"
    and "\<And>e w w'. P w \<Longrightarrow> f w = (e, w') \<Longrightarrow> P w'" and "\<And>e w w'. P w \<Longrightarrow> g w = (e, w') \<Longrightarrow> P w'"
  shows "P w'"
  using assms(1,2) by (auto simp: and_then_def split: prod.splits if_splits dest: assms(3,4))

section \<open>Characters and wide strings\<close>

lemma of_char_wchar_eq [simp]: "(of_char c :: wchar) = of_char d \<longleftrightarrow> c = d"
proof
  assume eq: "(of_char c :: wchar) = of_char d"
  have u: "unat (of_char x :: wchar) = of_char x" for x
  proof -
    have "(of_char x :: wchar) = of_nat (of_char x)" by (simp add: of_nat_of_char)
    then have "unat (of_char x :: wchar) = of_char x mod 2 ^ 16" by (simp add: unat_of_nat)
    moreover have "of_char x < (256 :: nat)" by (rule nat_of_char_less_256)
    ultimately show ?thesis by simp
  qed
  from eq have "of_char c = (of_char d :: nat)" by (metis u)
  then show "c = d" by simp
qed simp

lemma wide_eq [simp]: "wide s = wide t \<longleftrightarrow> s = t"
  by (simp add: wide_def inj_map_eq_map inj_def)

lemma length_wide [simp]: "length (wide s) = length s"
  by (simp add: wide_def)

lemma wide_append: "wide (s @ t) = wide s @ wide t"
  by (simp add: wide_def)

lemma wide_Nil [simp]: "wide [] = []"
  by (simp add: wide_def)

text \<open>Loops over \<open>index\<close> are \<open>list_all\<close> over \<open>enumerate 0\<close>.\<close>

lemma list_all_enumerate:
  "list_all P (enumerate n xs) \<longleftrightarrow> (\<forall>i<length xs. P (n + i, xs ! i))"
  by (auto simp: list_all_length nth_enumerate_eq)

text \<open>The wide character literal \<open>L'c'\<close>, and \<open>find(character)\<close>, whose \<open>npos\<close> is \<open>None\<close>.\<close>

abbreviation WCHR :: "char \<Rightarrow> wchar" where
  "WCHR c \<equiv> of_char c"

fun find_first :: "'a \<Rightarrow> 'a list \<Rightarrow> nat option" where
  "find_first c [] = None"
| "find_first c (d # s) = (if d = c then Some 0 else map_option Suc (find_first c s))"

lemma find_first_None [simp]: "find_first c s = None \<longleftrightarrow> c \<notin> set s"
  by (induction s) auto

lemma find_first_Some: "find_first c s = Some n \<Longrightarrow>
    n < length s \<and> s ! n = c \<and> c \<notin> set (take n s)"
proof (induction s arbitrary: n)
  case (Cons d s)
  then show ?case by (cases n) (auto split: if_splits)
qed simp

text \<open>\<open>find_first_of(characters, 0) != npos\<close>.\<close>

definition contains_any :: "'a list \<Rightarrow> 'a list \<Rightarrow> bool" where
  "contains_any characters s = list_ex (\<lambda>c. c \<in> set characters) s"

lemma wide_eq_Nil [simp]: "wide s = [] \<longleftrightarrow> s = []"
  by (simp add: wide_def)

section \<open>Numbers in base 64 and small words\<close>

lemma base64_3: "c div 4096 * 4096 + c div 64 mod 64 * 64 + c mod 64 = (c :: nat)"
proof -
  have "c div 64 = c div 4096 * 64 + c div 64 mod 64"
    using div_mult_mod_eq[of "c div 64" 64] by (simp add: div_mult2_eq[symmetric])
  then show ?thesis using div_mult_mod_eq[of c 64] by linarith
qed

lemma base64_4:
  "c div 262144 * 262144 + c div 4096 mod 64 * 4096 + c div 64 mod 64 * 64 + c mod 64 = (c :: nat)"
proof -
  have "c div 4096 = c div 262144 * 64 + c div 4096 mod 64"
    using div_mult_mod_eq[of "c div 4096" 64] by (simp add: div_mult2_eq[symmetric])
  then show ?thesis using base64_3[of c] by linarith
qed

lemma base16_4:
  "c div 4096 * 4096 + c div 256 mod 16 * 256 + c div 16 mod 16 * 16 + c mod 16 = (c :: nat)"
proof -
  have "c div 256 = c div 4096 * 16 + c div 256 mod 16" "c div 16 = c div 256 * 16 + c div 16 mod 16"
    using div_mult_mod_eq[of "c div 256" 16] div_mult_mod_eq[of "c div 16" 16]
    by (simp_all add: div_mult2_eq[symmetric])
  then show ?thesis using div_mult_mod_eq[of c 16] by linarith
qed

lemma unat_of_nat_wchar: "n < 65536 \<Longrightarrow> unat (of_nat n :: wchar) = n"
  by (simp add: unat_of_nat)

section \<open>Bit operations as arithmetic\<close>

lemma or_disjoint:
  assumes "b < 2 ^ k"
  shows "2 ^ k * a OR b = 2 ^ k * a + (b :: nat)"
proof -
  have "\<not> bit b n" if "k \<le> n" for n
  proof -
    have "b < 2 ^ n" using assms that by (meson le_trans not_le one_le_numeral power_increasing)
    then show ?thesis by (simp add: bit_iff_odd)
  qed
  then have "\<not> bit (push_bit k a) n \<or> \<not> bit b n" for n
    by (auto simp: bit_push_bit_iff)
  then have "push_bit k a + b = push_bit k a OR b" by (rule disjunctive_add)
  then show ?thesis by (simp add: push_bit_eq_mult mult.commute)
qed

lemma and_63: "x AND 63 = x mod (64 :: nat)"
  using take_bit_eq_mask[of 6 x] by (simp add: take_bit_nat_def mask_nat_def)

lemma unat_and_15: "unat (w AND 15 :: wchar) = unat w mod 16"
proof -
  have "w AND 15 = take_bit 4 w" by (simp add: take_bit_eq_mask mask_eq_exp_minus_1)
  then show ?thesis by (simp add: unsigned_take_bit_eq take_bit_nat_def)
qed

lemma unat_drop_bit_wchar: "unat (drop_bit k w :: wchar) = unat w div 2 ^ k"
  by (simp add: unat_drop_bit_eq drop_bit_nat_def)

end
