(* ===== verification/Unicode.thy ===== *)
theory Unicode
  imports Prelude
begin

text \<open>
  Text conversion (\<open>src/common/Utf8.h\<close>). The two Win32 conversion calls are not part of the
  repository: they are parameters, and the locale \<open>windows_utf\<close> states what Microsoft documents
  about them for \<open>CP_UTF8\<close> with the strict flags, in terms of the Unicode encoding forms
  \<open>utf8_of\<close> and \<open>utf16_of\<close>. A reference codec that meets the contract interprets the locale.
\<close>

section \<open>The Unicode encoding forms\<close>

definition scalar :: "nat \<Rightarrow> bool" where
  "scalar c \<longleftrightarrow> c < 0xD800 \<or> (0xE000 \<le> c \<and> c < 0x110000)"

definition utf8_of :: "nat \<Rightarrow> string" where
  "utf8_of c =
     (if c < 0x80 then [char_of c]
      else if c < 0x800 then [char_of (0xC0 + c div 64), char_of (0x80 + c mod 64)]
      else if c < 0x10000 then
        [char_of (0xE0 + c div 4096), char_of (0x80 + c div 64 mod 64), char_of (0x80 + c mod 64)]
      else
        [char_of (0xF0 + c div 262144), char_of (0x80 + c div 4096 mod 64),
         char_of (0x80 + c div 64 mod 64), char_of (0x80 + c mod 64)])"

definition utf16_of :: "nat \<Rightarrow> wstring" where
  "utf16_of c =
     (if c < 0x10000 then [of_nat c]
      else [of_nat (0xD800 + (c - 0x10000) div 1024), of_nat (0xDC00 + (c - 0x10000) mod 1024)])"

definition utf8_encode :: "nat list \<Rightarrow> string" where
  "utf8_encode cs = concat (map utf8_of cs)"

definition utf16_encode :: "nat list \<Rightarrow> wstring" where
  "utf16_encode cs = concat (map utf16_of cs)"

definition well_formed_utf16 :: "wstring \<Rightarrow> bool" where
  "well_formed_utf16 w \<longleftrightarrow> (\<exists>cs. list_all scalar cs \<and> w = utf16_encode cs)"

lemma utf8_of_nonempty [simp]: "utf8_of c \<noteq> []"
  by (simp add: utf8_of_def)

lemma utf16_of_nonempty [simp]: "utf16_of c \<noteq> []"
  by (simp add: utf16_of_def)

lemma utf8_encode_simps [simp]:
  "utf8_encode [] = []" "utf8_encode (c # cs) = utf8_of c @ utf8_encode cs"
  by (simp_all add: utf8_encode_def)

lemma utf16_encode_simps [simp]:
  "utf16_encode [] = []" "utf16_encode (c # cs) = utf16_of c @ utf16_encode cs"
  by (simp_all add: utf16_encode_def)

lemma utf8_encode_append: "utf8_encode (xs @ ys) = utf8_encode xs @ utf8_encode ys"
  by (simp add: utf8_encode_def)

lemma utf8_encode_eq_Nil [simp]: "utf8_encode cs = [] \<longleftrightarrow> cs = []"
  by (cases cs) simp_all

lemma utf16_encode_eq_Nil [simp]: "utf16_encode cs = [] \<longleftrightarrow> cs = []"
  by (cases cs) simp_all

lemma length_utf8_encode: "length (utf8_encode cs) \<le> 3 * length (utf16_encode cs)"
  by (induction cs) (auto simp: utf8_of_def utf16_of_def)

lemma length_utf16_encode: "length (utf16_encode cs) \<le> length (utf8_encode cs)"
  by (induction cs) (auto simp: utf8_of_def utf16_of_def)

text \<open>ASCII text is encoded by itself in both forms.\<close>

definition ascii :: "string \<Rightarrow> bool" where
  "ascii s \<longleftrightarrow> list_all (\<lambda>c. (of_char c :: nat) < 0x80) s"

lemma ascii_simps [simp]:
  "ascii []" "ascii (c # s) \<longleftrightarrow> (of_char c :: nat) < 0x80 \<and> ascii s"
  by (simp_all add: ascii_def)

lemma ascii_encode:
  "ascii s \<Longrightarrow> utf8_encode (map of_char s) = s \<and> utf16_encode (map of_char s) = wide s
     \<and> list_all scalar (map of_char s)"
  by (induction s) (auto simp: utf8_of_def utf16_of_def wide_def scalar_def of_nat_of_char)

section \<open>The Win32 conversion calls\<close>

text \<open>
  \<open>None\<close> stands for the documented failure value 0. \<open>MB_ERR_INVALID_CHARS\<close> and
  \<open>WC_ERR_INVALID_CHARS\<close> make both calls fail on ill-formed input. Lengths are \<open>int\<close>.
\<close>

locale windows_utf =
  fixes MultiByteToWideChar :: "string \<Rightarrow> wstring option"
    and WideCharToMultiByte :: "wstring \<Rightarrow> string option"
  assumes mb_decodes: "list_all scalar cs \<Longrightarrow> length (utf8_encode cs) \<le> INT_MAX
      \<Longrightarrow> MultiByteToWideChar (utf8_encode cs) = Some (utf16_encode cs)"
    and mb_strict: "MultiByteToWideChar s = Some w
      \<Longrightarrow> \<exists>cs. list_all scalar cs \<and> s = utf8_encode cs \<and> w = utf16_encode cs"
    and wc_encodes: "list_all scalar cs \<Longrightarrow> length (utf8_encode cs) \<le> INT_MAX
      \<Longrightarrow> WideCharToMultiByte (utf16_encode cs) = Some (utf8_encode cs)"
    and wc_strict: "WideCharToMultiByte w = Some s
      \<Longrightarrow> \<exists>cs. list_all scalar cs \<and> w = utf16_encode cs \<and> s = utf8_encode cs"

section \<open>Utf8.h\<close>

definition IsValidUtf16 :: "(wstring \<Rightarrow> string option) \<Rightarrow> wstring \<Rightarrow> bool" where
  "IsValidUtf16 wc input =
     (if input = [] then True
      else if length input > INT_MAX then False
      else (case wc input of None \<Rightarrow> False | Some bytes \<Rightarrow> length bytes > 0))"

text \<open>
  The output parameter is the value of \<open>Some\<close>; \<open>None\<close> is a return of \<open>false\<close>. The sizing call
  and the converting call have the same arguments, so both see the same result of the API.
\<close>

definition WideToUtf8 :: "(wstring \<Rightarrow> string option) \<Rightarrow> wstring \<Rightarrow> string option" where
  "WideToUtf8 wc input =
     (if input = [] then Some []
      else if \<not> IsValidUtf16 wc input then None
      else (case wc input of
              None \<Rightarrow> None
            | Some bytes \<Rightarrow> if length bytes = 0 then None else Some bytes))"

definition Utf8ToWide :: "(string \<Rightarrow> wstring option) \<Rightarrow> string \<Rightarrow> wstring option" where
  "Utf8ToWide mb input =
     (if input = [] then Some []
      else if length input > INT_MAX then None
      else (case mb input of
              None \<Rightarrow> None
            | Some characters \<Rightarrow> if length characters = 0 then None else Some characters))"

context windows_utf
begin

lemma Utf8ToWide_encode:
  assumes "list_all scalar cs" and "length (utf8_encode cs) \<le> INT_MAX"
  shows "Utf8ToWide MultiByteToWideChar (utf8_encode cs) = Some (utf16_encode cs)"
  using assms mb_decodes[OF assms] by (simp add: Utf8ToWide_def)

lemma Utf8ToWide_ascii:
  assumes "ascii s" and "length s \<le> INT_MAX"
  shows "Utf8ToWide MultiByteToWideChar s = Some (wide s)"
proof -
  note e = ascii_encode[OF assms(1)]
  have "length (utf8_encode (map of_char s)) \<le> INT_MAX" using e assms(2) by simp
  then have "Utf8ToWide MultiByteToWideChar (utf8_encode (map of_char s))
      = Some (utf16_encode (map of_char s))"
    using e by (intro Utf8ToWide_encode) simp_all
  with e show ?thesis by simp
qed

lemma Utf8ToWide_Some:
  assumes "Utf8ToWide MultiByteToWideChar s = Some w"
  obtains cs where "list_all scalar cs" "s = utf8_encode cs" "w = utf16_encode cs"
proof (cases "s = []")
  case True
  with assms have "w = []" by (simp add: Utf8ToWide_def)
  with True show ?thesis using that[of "[]"] by simp
next
  case False
  with assms have "MultiByteToWideChar s = Some w"
    by (auto simp: Utf8ToWide_def split: option.splits if_splits)
  with mb_strict that show ?thesis by blast
qed

lemma IsValidUtf16_well_formed:
  "IsValidUtf16 WideCharToMultiByte w \<Longrightarrow> well_formed_utf16 w"
proof (cases "w = []")
  case True
  then show ?thesis unfolding well_formed_utf16_def by (intro exI[of _ "[]"]) simp
next
  case False
  assume "IsValidUtf16 WideCharToMultiByte w"
  with False obtain s where "WideCharToMultiByte w = Some s"
    by (auto simp: IsValidUtf16_def split: if_splits option.splits)
  with wc_strict show ?thesis unfolding well_formed_utf16_def by blast
qed

lemma IsValidUtf16_iff:
  assumes "3 * length w \<le> INT_MAX"
  shows "IsValidUtf16 WideCharToMultiByte w \<longleftrightarrow> well_formed_utf16 w"
proof
  assume "well_formed_utf16 w"
  then obtain cs where cs: "list_all scalar cs" "w = utf16_encode cs"
    unfolding well_formed_utf16_def by blast
  have "length (utf8_encode cs) \<le> INT_MAX"
    using assms length_utf8_encode[of cs] cs(2) by simp
  with cs wc_encodes have "WideCharToMultiByte w = Some (utf8_encode cs)" by simp
  with cs assms show "IsValidUtf16 WideCharToMultiByte w"
    by (cases "cs = []") (auto simp: IsValidUtf16_def)
qed (rule IsValidUtf16_well_formed)

lemma WideToUtf8_Utf8ToWide:
  assumes "WideToUtf8 WideCharToMultiByte w = Some s" and "length s \<le> INT_MAX"
  shows "Utf8ToWide MultiByteToWideChar s = Some w"
proof (cases "w = []")
  case True
  with assms show ?thesis by (simp add: WideToUtf8_def Utf8ToWide_def)
next
  case False
  with assms(1) have "WideCharToMultiByte w = Some s"
    by (auto simp: WideToUtf8_def split: option.splits if_splits)
  with wc_strict obtain cs where "list_all scalar cs" "w = utf16_encode cs" "s = utf8_encode cs"
    by blast
  with assms(2) show ?thesis by (simp add: Utf8ToWide_encode)
qed

end

section \<open>A reference codec\<close>

text \<open>
  A candidate scalar is read off the leading units and accepted when its encoding is exactly the
  prefix of the input, so ill-formed, overlong and surrogate sequences are refused.
\<close>

fun utf8_candidate :: "string \<Rightarrow> nat" where
  "utf8_candidate (a # b # c # d # _) =
     (let n = of_char a; m = of_char b - 0x80; k = of_char c - 0x80; j = of_char d - 0x80 in
      if n < 0x80 then n
      else if n < 0xE0 then (n - 0xC0) * 64 + m
      else if n < 0xF0 then (n - 0xE0) * 4096 + m * 64 + k
      else (n - 0xF0) * 262144 + m * 4096 + k * 64 + j)"
| "utf8_candidate (a # b # c # _) =
     (let n = of_char a; m = of_char b - 0x80; k = of_char c - 0x80 in
      if n < 0x80 then n
      else if n < 0xE0 then (n - 0xC0) * 64 + m
      else (n - 0xE0) * 4096 + m * 64 + k)"
| "utf8_candidate (a # b # _) =
     (let n = of_char a; m = of_char b - 0x80 in
      if n < 0x80 then n else (n - 0xC0) * 64 + m)"
| "utf8_candidate (a # _) = of_char a"
| "utf8_candidate [] = 0"

function utf8_decode :: "string \<Rightarrow> nat list option" where
  "utf8_decode s =
     (if s = [] then Some []
      else let c = utf8_candidate s; e = utf8_of c in
           if scalar c \<and> take (length e) s = e
           then map_option ((#) c) (utf8_decode (drop (length e) s)) else None)"
  by pat_completeness auto
termination by (relation "measure length") (auto simp: utf8_of_def Let_def)

declare utf8_decode.simps [simp del]

fun utf16_candidate :: "wstring \<Rightarrow> nat" where
  "utf16_candidate (a # b # _) =
     (if 0xD800 \<le> unat a \<and> unat a < 0xDC00
      then 0x10000 + (unat a - 0xD800) * 1024 + (unat b - 0xDC00) else unat a)"
| "utf16_candidate (a # _) = unat a"
| "utf16_candidate [] = 0"

function utf16_decode :: "wstring \<Rightarrow> nat list option" where
  "utf16_decode s =
     (if s = [] then Some []
      else let c = utf16_candidate s; e = utf16_of c in
           if scalar c \<and> take (length e) s = e
           then map_option ((#) c) (utf16_decode (drop (length e) s)) else None)"
  by pat_completeness auto
termination by (relation "measure length") (auto simp: utf16_of_def Let_def)

declare utf16_decode.simps [simp del]

definition reference_mb :: "string \<Rightarrow> wstring option" where
  "reference_mb s = map_option utf16_encode (utf8_decode s)"

definition reference_wc :: "wstring \<Rightarrow> string option" where
  "reference_wc w = map_option utf8_encode (utf16_decode w)"

lemma of_char_char_of_small [simp]: "n < 256 \<Longrightarrow> of_char (char_of n) = (n :: nat)"
  by simp

lemma utf8_candidate_utf8_of:
  assumes "c < 0x110000"
  shows "utf8_candidate (utf8_of c @ rest) = c"
proof -
  consider "c < 0x80" | "0x80 \<le> c" "c < 0x800" | "0x800 \<le> c" "c < 0x10000" | "0x10000 \<le> c"
    by linarith
  then show ?thesis
  proof cases
    case 1
    then show ?thesis
      by (cases "char_of c # rest" rule: utf8_candidate.cases) (auto simp: utf8_of_def Let_def)
  next
    case 2
    then have "c div 64 < 32" and nz: "\<not> c < 0x80" by auto
    with 2 show ?thesis
      by (cases rest rule: utf8_candidate.cases) (simp_all add: utf8_of_def Let_def)
  next
    case 3
    then have "c div 4096 < 16" by simp
    with 3 show ?thesis
      by (cases rest rule: utf8_candidate.cases) (simp_all add: utf8_of_def Let_def base64_3)
  next
    case 4
    with assms have "c div 262144 < 5" by simp
    with 4 show ?thesis
      by (simp add: utf8_of_def Let_def base64_4)
  qed
qed

lemma utf16_candidate_utf16_of:
  assumes "scalar c"
  shows "utf16_candidate (utf16_of c @ rest) = c"
proof (cases "c < 0x10000")
  case True
  with assms show ?thesis
    by (cases rest) (auto simp: utf16_of_def scalar_def unat_of_nat)
next
  case False
  define h l where "h = 0xD800 + (c - 0x10000) div 1024" and "l = 0xDC00 + (c - 0x10000) mod 1024"
  from assms False have b: "(c - 0x10000) div 1024 < 1024" by (auto simp: scalar_def)
  have "h < 0xDC00" "0xD800 \<le> h" "l < 0xE000" using b by (simp_all add: h_def l_def)
  then have u: "unat (of_nat h :: wchar) = h" "unat (of_nat l :: wchar) = l"
    by (simp_all add: unat_of_nat_wchar)
  have "utf16_of c = [of_nat h, of_nat l]"
    using False by (simp only: utf16_of_def h_def l_def if_False)
  with u \<open>h < 0xDC00\<close> \<open>0xD800 \<le> h\<close> have "utf16_candidate (utf16_of c @ rest) = 0x10000 + (h - 0xD800) * 1024 + (l - 0xDC00)"
    by simp
  also have "\<dots> = c"
    using False div_mult_mod_eq[of "c - 0x10000" 1024] by (simp add: h_def l_def)
  finally show ?thesis .
qed

lemma utf8_decode_encode:
  "list_all scalar cs \<Longrightarrow> utf8_decode (utf8_encode cs) = Some cs"
proof (induction cs)
  case Nil
  then show ?case by (simp add: utf8_decode.simps)
next
  case (Cons c cs)
  then have "c < 0x110000" by (auto simp: scalar_def)
  with Cons show ?case
    by (subst utf8_decode.simps) (simp add: utf8_candidate_utf8_of Let_def)
qed

lemma utf16_decode_encode:
  "list_all scalar cs \<Longrightarrow> utf16_decode (utf16_encode cs) = Some cs"
proof (induction cs)
  case Nil
  then show ?case by (simp add: utf16_decode.simps)
next
  case (Cons c cs)
  then show ?case
    by (subst utf16_decode.simps) (simp add: utf16_candidate_utf16_of Let_def)
qed

lemma utf8_decode_strict:
  "utf8_decode s = Some cs \<Longrightarrow> list_all scalar cs \<and> s = utf8_encode cs"
proof (induction s arbitrary: cs rule: utf8_decode.induct)
  case (1 s)
  show ?case
  proof (cases "s = []")
    case True
    with "1.prems" show ?thesis by (simp add: utf8_decode.simps)
  next
    case False
    define c where "c = utf8_candidate s"
    from "1.prems" False obtain cs' where c: "scalar c" "take (length (utf8_of c)) s = utf8_of c"
      and d: "utf8_decode (drop (length (utf8_of c)) s) = Some cs'" and "cs = c # cs'"
      by (auto simp: utf8_decode.simps[of s] Let_def c_def split: if_splits)
    with "1.IH"[OF False c_def refl _ d] show ?thesis
      by (metis append_take_drop_id list.pred_inject(2) utf8_encode_simps(2))
  qed
qed

lemma utf16_decode_strict:
  "utf16_decode s = Some cs \<Longrightarrow> list_all scalar cs \<and> s = utf16_encode cs"
proof (induction s arbitrary: cs rule: utf16_decode.induct)
  case (1 s)
  show ?case
  proof (cases "s = []")
    case True
    with "1.prems" show ?thesis by (simp add: utf16_decode.simps)
  next
    case False
    define c where "c = utf16_candidate s"
    from "1.prems" False obtain cs' where c: "scalar c" "take (length (utf16_of c)) s = utf16_of c"
      and d: "utf16_decode (drop (length (utf16_of c)) s) = Some cs'" and "cs = c # cs'"
      by (auto simp: utf16_decode.simps[of s] Let_def c_def split: if_splits)
    with "1.IH"[OF False c_def refl _ d] show ?thesis
      by (metis append_take_drop_id list.pred_inject(2) utf16_encode_simps(2))
  qed
qed

interpretation reference: windows_utf reference_mb reference_wc
proof
  show "reference_mb (utf8_encode cs) = Some (utf16_encode cs)" if "list_all scalar cs" for cs
    using that by (simp add: reference_mb_def utf8_decode_encode)
  show "reference_wc (utf16_encode cs) = Some (utf8_encode cs)" if "list_all scalar cs" for cs
    using that by (simp add: reference_wc_def utf16_decode_encode)
  show "\<exists>cs. list_all scalar cs \<and> s = utf8_encode cs \<and> w = utf16_encode cs"
    if "reference_mb s = Some w" for s w
    using that by (auto simp: reference_mb_def dest: utf8_decode_strict)
  show "\<exists>cs. list_all scalar cs \<and> w = utf16_encode cs \<and> s = utf8_encode cs"
    if "reference_wc w = Some s" for s w
    using that by (auto simp: reference_wc_def dest: utf16_decode_strict)
qed

text \<open>The encoding forms are injective, so well-formed text has one reading.\<close>

lemma utf16_encode_inject:
  "list_all scalar cs \<Longrightarrow> list_all scalar ds \<Longrightarrow> utf16_encode cs = utf16_encode ds \<longleftrightarrow> cs = ds"
  by (metis option.inject utf16_decode_encode)

lemma well_formed_utf16_ascii [simp]: "ascii s \<Longrightarrow> well_formed_utf16 (wide s)"
  unfolding well_formed_utf16_def using ascii_encode by metis

lemma well_formed_utf16_code [code]: "well_formed_utf16 w \<longleftrightarrow> utf16_decode w \<noteq> None"
  unfolding well_formed_utf16_def
  using utf16_decode_encode utf16_decode_strict by (metis not_None_eq)

end
