(* ===== verification/JsonReader.thy ===== *)
theory JsonReader
  imports Unicode
begin

text \<open>
  The JSON reader and writer of \<open>src/protocol/BrokerProtocol.cpp\<close>. A \<open>JsonReader\<close> is the part
  of \<open>input_\<close> from \<open>position_\<close> on, so advancing \<open>position_\<close> is dropping characters and
  \<open>position_ == input_.size()\<close> is the empty list. A member function returns the remaining input
  with its result; where it returns \<open>false\<close> the callers abandon the message, so \<open>None\<close> (and
  \<open>False\<close> for \<open>Consume\<close>, which callers retry) carries no more. The main results: what
  \<open>AppendJsonString\<close> writes, \<open>String\<close> reads back, for every well-formed UTF-16 text; no reader
  lengthens its input; the fuel of the member loop is always enough.
\<close>

section \<open>JsonReader\<close>

definition JsonReader_SkipWhitespace :: "string \<Rightarrow> string" where
  "JsonReader_SkipWhitespace input =
     dropWhile (\<lambda>c. c = CHR '' '' \<or> c = CHR 0x0A \<or> c = CHR 0x0D \<or> c = CHR 0x09) input"

definition JsonReader_End :: "string \<Rightarrow> bool" where
  "JsonReader_End input = (JsonReader_SkipWhitespace input = [])"

fun consume_char :: "char \<Rightarrow> string \<Rightarrow> bool \<times> string" where
  "consume_char expected [] = (False, [])"
| "consume_char expected (c # rest) = (if c \<noteq> expected then (False, c # rest) else (True, rest))"

definition JsonReader_Consume :: "char \<Rightarrow> string \<Rightarrow> bool \<times> string" where
  "JsonReader_Consume expected input = consume_char expected (JsonReader_SkipWhitespace input)"

text \<open>\<open>ReadUnicodeEscape\<close>: the loop over \<open>index\<close>, with \<open>value <<= 4; value |= digit\<close>.\<close>

fun ReadUnicodeEscape_loop :: "nat \<Rightarrow> nat \<Rightarrow> string \<Rightarrow> (nat \<times> string) option" where
  "ReadUnicodeEscape_loop 0 value input = Some (value, input)"
| "ReadUnicodeEscape_loop (Suc k) value [] = None"
| "ReadUnicodeEscape_loop (Suc k) value (c # rest) =
     (if CHR ''0'' \<le> c \<and> c \<le> CHR ''9'' then
        ReadUnicodeEscape_loop k (push_bit 4 value OR (of_char c - 0x30)) rest
      else if CHR ''a'' \<le> c \<and> c \<le> CHR ''f'' then
        ReadUnicodeEscape_loop k (push_bit 4 value OR (of_char c - 0x61 + 10)) rest
      else if CHR ''A'' \<le> c \<and> c \<le> CHR ''F'' then
        ReadUnicodeEscape_loop k (push_bit 4 value OR (of_char c - 0x41 + 10)) rest
      else None)"

definition JsonReader_ReadUnicodeEscape :: "string \<Rightarrow> (nat \<times> string) option" where
  "JsonReader_ReadUnicodeEscape input =
     (if length input < 4 then None else ReadUnicodeEscape_loop 4 0 input)"

definition AppendUtf8CodePoint :: "nat \<Rightarrow> string \<Rightarrow> string" where
  "AppendUtf8CodePoint codePoint output =
     (if codePoint < 0x80 then output @ [char_of codePoint]
      else if codePoint < 0x800 then
        output @ [char_of (0xC0 OR drop_bit 6 codePoint), char_of (0x80 OR (codePoint AND 0x3F))]
      else if codePoint < 0x10000 then
        output @ [char_of (0xE0 OR drop_bit 12 codePoint),
          char_of (0x80 OR (drop_bit 6 codePoint AND 0x3F)), char_of (0x80 OR (codePoint AND 0x3F))]
      else
        output @ [char_of (0xF0 OR drop_bit 18 codePoint),
          char_of (0x80 OR (drop_bit 12 codePoint AND 0x3F)),
          char_of (0x80 OR (drop_bit 6 codePoint AND 0x3F)), char_of (0x80 OR (codePoint AND 0x3F))])"

definition JsonReader_UnicodeEscape :: "string \<Rightarrow> string \<Rightarrow> (string \<times> string) option" where
  "JsonReader_UnicodeEscape output input =
     (case JsonReader_ReadUnicodeEscape input of
        None \<Rightarrow> None
      | Some (value, rest) \<Rightarrow>
          if 0xD800 \<le> value \<and> value \<le> 0xDBFF then
            (case rest of
               b # u # rest' \<Rightarrow>
                 if b \<noteq> BS \<or> u \<noteq> CHR ''u'' then None
                 else (case JsonReader_ReadUnicodeEscape rest' of
                         None \<Rightarrow> None
                       | Some (lowSurrogate, rest'') \<Rightarrow>
                           if lowSurrogate < 0xDC00 \<or> lowSurrogate > 0xDFFF then None
                           else Some (AppendUtf8CodePoint
                             (0x10000 + push_bit 10 (value - 0xD800) + (lowSurrogate - 0xDC00))
                             output, rest''))
             | _ \<Rightarrow> None)
          else if 0xDC00 \<le> value \<and> value \<le> 0xDFFF then None
          else Some (AppendUtf8CodePoint value output, rest))"

lemma ReadUnicodeEscape_loop_length:
  "ReadUnicodeEscape_loop k v s = Some (w, r) \<Longrightarrow> length r \<le> length s"
  by (induction k v s rule: ReadUnicodeEscape_loop.induct) (auto split: if_splits)

lemma ReadUnicodeEscape_length:
  "JsonReader_ReadUnicodeEscape s = Some (w, r) \<Longrightarrow> length r \<le> length s"
  by (auto simp: JsonReader_ReadUnicodeEscape_def split: if_splits
      dest: ReadUnicodeEscape_loop_length)

lemma UnicodeEscape_length:
  "JsonReader_UnicodeEscape out s = Some (out', r) \<Longrightarrow> length r \<le> length s"
  by (auto simp: JsonReader_UnicodeEscape_def
      split: option.splits if_splits list.splits dest!: ReadUnicodeEscape_length)

text \<open>The loop of \<open>String\<close> after the opening quote; \<open>utf8\<close> is the text read so far.\<close>

function String_loop :: "(string \<Rightarrow> wstring option) \<Rightarrow> string \<Rightarrow> string \<Rightarrow> (wstring \<times> string) option"
where
  "String_loop mb utf8 [] = None"
| "String_loop mb utf8 (character # rest) =
     (if character = DQ then
        (case Utf8ToWide mb utf8 of None \<Rightarrow> None | Some output \<Rightarrow> Some (output, rest))
      else if (of_char character :: nat) < 0x20 then None
      else if character \<noteq> BS then String_loop mb (utf8 @ [character]) rest
      else (case rest of
              [] \<Rightarrow> None
            | e # rest' \<Rightarrow>
                if e = DQ \<or> e = BS \<or> e = CHR ''/'' then String_loop mb (utf8 @ [e]) rest'
                else if e = CHR ''b'' then String_loop mb (utf8 @ [CHR 0x08]) rest'
                else if e = CHR ''f'' then String_loop mb (utf8 @ [CHR 0x0C]) rest'
                else if e = CHR ''n'' then String_loop mb (utf8 @ [CHR 0x0A]) rest'
                else if e = CHR ''r'' then String_loop mb (utf8 @ [CHR 0x0D]) rest'
                else if e = CHR ''t'' then String_loop mb (utf8 @ [CHR 0x09]) rest'
                else if e = CHR ''u'' then
                  (case JsonReader_UnicodeEscape utf8 rest' of
                     None \<Rightarrow> None
                   | Some (utf8', rest'') \<Rightarrow> String_loop mb utf8' rest'')
                else None))"
  by pat_completeness auto
termination
  by (relation "measure (\<lambda>(mb, utf8, s). length s)") (auto dest: UnicodeEscape_length)

definition JsonReader_String :: "(string \<Rightarrow> wstring option) \<Rightarrow> string \<Rightarrow> (wstring \<times> string) option"
where
  "JsonReader_String mb input =
     (case JsonReader_SkipWhitespace input of
        [] \<Rightarrow> None
      | c # rest \<Rightarrow> if c \<noteq> DQ then None else String_loop mb [] rest)"

text \<open>
  \<open>Unsigned\<close>: the run of digits is handed to \<open>std::from_chars\<close> for an \<open>unsigned long\<close>, which
  is 32 bits wide on Windows and reports a value that does not fit.
\<close>

definition digits_value :: "string \<Rightarrow> nat" where
  "digits_value s = foldl (\<lambda>value c. 10 * value + (of_char c - 0x30)) 0 s"

definition from_chars :: "string \<Rightarrow> dword option" where
  "from_chars s =
     (let value = digits_value s in if value > 0xFFFFFFFF then None else Some (of_nat value))"

definition is_digit :: "char \<Rightarrow> bool" where
  "is_digit c \<longleftrightarrow> CHR ''0'' \<le> c \<and> c \<le> CHR ''9''"

definition JsonReader_Unsigned :: "string \<Rightarrow> (dword \<times> string) option" where
  "JsonReader_Unsigned input =
     (let start = JsonReader_SkipWhitespace input;
          digits = takeWhile is_digit start;
          rest = dropWhile is_digit start
      in if digits = [] then None
         else (case from_chars digits of None \<Rightarrow> None | Some value \<Rightarrow> Some (value, rest)))"

definition starts_with :: "'a list \<Rightarrow> 'a list \<Rightarrow> bool" where
  "starts_with prefix s \<longleftrightarrow> take (length prefix) s = prefix"

definition JsonReader_Boolean :: "string \<Rightarrow> (bool \<times> string) option" where
  "JsonReader_Boolean input =
     (let start = JsonReader_SkipWhitespace input
      in if starts_with ''true'' start then Some (True, drop 4 start)
         else if starts_with ''false'' start then Some (False, drop 5 start)
         else None)"

section \<open>Objects and arrays\<close>

text \<open>
  \<open>ReadObject\<close> is a template over \<open>readField\<close>, a closure that mutates captured variables. The
  captured variables are the state \<open>'s\<close>, threaded through. The endless \<open>for\<close> loop gets one unit
  of fuel for each character of the input: every round consumes a member name, so it is enough
  for every reader that does not lengthen its input (\<open>member_loop_enough\<close>).
\<close>

type_synonym 's read_field = "'s \<Rightarrow> wstring \<Rightarrow> string \<Rightarrow> ('s \<times> string) option"

fun ReadObject_loop ::
  "(string \<Rightarrow> wstring option) \<Rightarrow> 's read_field \<Rightarrow> nat \<Rightarrow> 's \<Rightarrow> string \<Rightarrow> ('s \<times> string) option"
where
  "ReadObject_loop mb readField 0 s input = None"
| "ReadObject_loop mb readField (Suc fuel) s input =
     (case JsonReader_String mb input of
        None \<Rightarrow> None
      | Some (name, r1) \<Rightarrow>
          (let (colon, r2) = JsonReader_Consume CHR '':'' r1 in
           if \<not> colon then None
           else (case readField s name r2 of
                   None \<Rightarrow> None
                 | Some (s', r3) \<Rightarrow>
                     (let (close, r4) = JsonReader_Consume CHR ''}'' r3 in
                      if close then Some (s', r4)
                      else (let (comma, r5) = JsonReader_Consume CHR '','' r4 in
                            if \<not> comma then None
                            else ReadObject_loop mb readField fuel s' r5)))))"

definition ReadObject ::
  "(string \<Rightarrow> wstring option) \<Rightarrow> 's read_field \<Rightarrow> 's \<Rightarrow> string \<Rightarrow> ('s \<times> string) option"
where
  "ReadObject mb readField s input =
     (let (open_brace, r) = JsonReader_Consume CHR ''{'' input in
      if \<not> open_brace then None else ReadObject_loop mb readField (Suc (length r)) s r)"

text \<open>\<open>std::exchange\<close> on a flag: the returned value, then the flag.\<close>

definition FirstSeen :: "bool \<Rightarrow> bool \<times> bool" where
  "FirstSeen seen = (\<not> seen, True)"

definition MaximumMessageBytes :: nat where "MaximumMessageBytes = 64 * 1024"
definition MaximumArguments :: nat where "MaximumArguments = 64"

fun ReadStringArray_loop ::
  "(string \<Rightarrow> wstring option) \<Rightarrow> (wstring \<Rightarrow> bool) \<Rightarrow> nat \<Rightarrow> wstring list \<Rightarrow> string
     \<Rightarrow> (wstring list \<times> string) option"
where
  "ReadStringArray_loop mb isValid 0 values input = None"
| "ReadStringArray_loop mb isValid (Suc fuel) values input =
     (case JsonReader_String mb input of
        None \<Rightarrow> None
      | Some (value, r1) \<Rightarrow>
          if \<not> isValid value \<or> length values = MaximumArguments then None
          else (let values' = values @ [value]; (close, r2) = JsonReader_Consume CHR '']'' r1 in
                if close then Some (values', r2)
                else (let (comma, r3) = JsonReader_Consume CHR '','' r2 in
                      if \<not> comma then None else ReadStringArray_loop mb isValid fuel values' r3)))"

definition ReadStringArray ::
  "(string \<Rightarrow> wstring option) \<Rightarrow> (wstring \<Rightarrow> bool) \<Rightarrow> wstring list \<Rightarrow> string
     \<Rightarrow> (wstring list \<times> string) option"
where
  "ReadStringArray mb isValid values input =
     (let (open_bracket, r1) = JsonReader_Consume CHR ''['' input in
      if \<not> open_bracket then None
      else (let (close, r2) = JsonReader_Consume CHR '']'' r1 in
            if close then Some (values, r2)
            else ReadStringArray_loop mb isValid (Suc (length r2)) values r2))"

section \<open>AppendJsonString\<close>

definition hexadecimal :: string where "hexadecimal = ''0123456789ABCDEF''"

definition AppendJsonString_char :: "string \<Rightarrow> wchar \<Rightarrow> string" where
  "AppendJsonString_char output character =
     (if character = of_char DQ \<or> character = of_char BS then
        output @ [BS, char_of (unat character)]
      else if character \<ge> 0x20 \<and> character \<le> 0x7E then output @ [char_of (unat character)]
      else output @ [BS, CHR ''u'',
        hexadecimal ! unat (drop_bit 12 character AND 0xF),
        hexadecimal ! unat (drop_bit 8 character AND 0xF),
        hexadecimal ! unat (drop_bit 4 character AND 0xF),
        hexadecimal ! unat (character AND 0xF)])"

definition AppendJsonString :: "string \<Rightarrow> wstring \<Rightarrow> string" where
  "AppendJsonString output value = foldl AppendJsonString_char (output @ [DQ]) value @ [DQ]"

section \<open>What the writer writes, the reader reads\<close>

lemma AppendUtf8CodePoint_utf8:
  assumes "c < 0x110000"
  shows "AppendUtf8CodePoint c out = out @ utf8_of c"
proof -
  have h: "128 OR x = 128 + x" if "x < 64" for x :: nat
    using or_disjoint[of x 6 2] that by simp
  have a: "192 OR c div 64 = 192 + c div 64" if "c < 2048"
    using or_disjoint[of "c div 64" 6 3] that by simp
  have b: "224 OR c div 4096 = 224 + c div 4096" if "c < 65536"
    using or_disjoint[of "c div 4096" 5 7] that by simp
  have d: "240 OR c div 262144 = 240 + c div 262144"
    using or_disjoint[of "c div 262144" 4 15] assms by simp
  show ?thesis
    by (simp add: AppendUtf8CodePoint_def utf8_of_def drop_bit_nat_def and_63 h a b d)
qed

lemma ReadUnicodeEscape_loop_hex:
  assumes "d < 16"
  shows "ReadUnicodeEscape_loop (Suc k) v (hexadecimal ! d # rest)
     = ReadUnicodeEscape_loop k (16 * v + d) rest"
proof -
  have o: "push_bit 4 v = 16 * v" "16 * v OR x = 16 * v + x" if "x < 16" for x
    using or_disjoint[of x 4 v] that by (simp_all add: push_bit_eq_mult mult.commute)
  from assms have "d = 0 \<or> d = 1 \<or> d = 2 \<or> d = 3 \<or> d = 4 \<or> d = 5 \<or> d = 6 \<or> d = 7
      \<or> d = 8 \<or> d = 9 \<or> d = 10 \<or> d = 11 \<or> d = 12 \<or> d = 13 \<or> d = 14 \<or> d = 15"
    by presburger
  then show ?thesis by (elim disjE) (simp_all add: hexadecimal_def o o(2)[of 1, simplified] o(1)[of 0, simplified])
qed

definition hex_escape :: "wchar \<Rightarrow> string" where
  "hex_escape u =
     [hexadecimal ! (unat u div 4096 mod 16), hexadecimal ! (unat u div 256 mod 16),
      hexadecimal ! (unat u div 16 mod 16), hexadecimal ! (unat u mod 16)]"

lemma ReadUnicodeEscape_hex_escape [simp]:
  "JsonReader_ReadUnicodeEscape (hex_escape u @ rest) = Some (unat u, rest)"
proof -
  have "unat u < 65536" using unsigned_less[of u] by simp
  then have "unat u div 4096 < 16" by simp
  moreover note base16_4[of "unat u"]
  moreover have "(4 :: nat) = Suc (Suc (Suc (Suc 0)))" by simp
  ultimately show ?thesis
    unfolding JsonReader_ReadUnicodeEscape_def hex_escape_def
    by (simp only: ReadUnicodeEscape_loop_hex mod_less_divisor zero_less_numeral append_Cons
        ReadUnicodeEscape_loop.simps(1)) (simp add: algebra_simps)
qed

definition json_char :: "wchar \<Rightarrow> string" where
  "json_char u =
     (if u = of_char DQ \<or> u = of_char BS then [BS, char_of (unat u)]
      else if u \<ge> 0x20 \<and> u \<le> 0x7E then [char_of (unat u)]
      else BS # CHR ''u'' # hex_escape u)"

lemma AppendJsonString_char_eq: "AppendJsonString_char out u = out @ json_char u"
  by (simp add: AppendJsonString_char_def json_char_def hex_escape_def unat_and_15
      unat_drop_bit_wchar)

lemma AppendJsonString_eq: "AppendJsonString out w = out @ DQ # concat (map json_char w) @ [DQ]"
proof -
  have "foldl AppendJsonString_char o' w = o' @ concat (map json_char w)" for o'
    by (induction w arbitrary: o') (simp_all add: AppendJsonString_char_eq)
  then show ?thesis by (simp add: AppendJsonString_def)
qed

lemma char_of_quote: "char_of (34 :: nat) = DQ" "char_of (92 :: nat) = BS"
  by (simp_all add: char_of_eq_iff)

lemma String_loop_scalar:
  assumes "scalar c"
  shows "String_loop mb utf8 (concat (map json_char (utf16_of c)) @ rest)
     = String_loop mb (utf8 @ utf8_of c) rest"
proof (cases "c < 0x10000")
  case False
  define h l where "h = 0xD800 + (c - 0x10000) div 1024" and "l = 0xDC00 + (c - 0x10000) mod 1024"
  from assms have c: "c < 0x110000" by (auto simp: scalar_def)
  with False have b: "(c - 0x10000) div 1024 < 1024" by simp
  then have hl: "0xD800 \<le> h" "h < 0xDC00" "0xDC00 \<le> l" "l < 0xE000" by (simp_all add: h_def l_def)
  then have u: "unat (of_nat h :: wchar) = h" "unat (of_nat l :: wchar) = l"
    by (simp_all add: unat_of_nat_wchar)
  have e: "utf16_of c = [of_nat h, of_nat l]"
    using False by (simp only: utf16_of_def h_def l_def if_False)
  have j: "json_char (of_nat x) = BS # CHR ''u'' # hex_escape (of_nat x)"
    if "0xD800 \<le> x" "x < 0xE000" for x
  proof -
    have "unat (of_nat x :: wchar) = x" using that by (simp add: unat_of_nat_wchar)
    with that show ?thesis
      by (auto simp: json_char_def word_le_nat_alt dest: arg_cong[of _ _ unat])
  qed
  have "0x10000 + push_bit 10 (h - 0xD800) + (l - 0xDC00) = c"
    using False div_mult_mod_eq[of "c - 0x10000" 1024]
    by (simp add: h_def l_def push_bit_eq_mult)
  with hl u c show ?thesis
    by (simp add: e j JsonReader_UnicodeEscape_def AppendUtf8CodePoint_utf8)
next
  case True
  then have e: "utf16_of c = [of_nat c]" by (simp add: utf16_of_def)
  have u: "unat (of_nat c :: wchar) = c" using True by (simp add: unat_of_nat_wchar)
  define ch where "ch = (char_of c :: char)"
  consider "c = 0x22 \<or> c = 0x5C" | "c \<noteq> 0x22" "c \<noteq> 0x5C" "0x20 \<le> c" "c \<le> 0x7E"
    | "c < 0x20 \<or> 0x7E < c" by linarith
  then show ?thesis
  proof cases
    case 1
    then show ?thesis
    proof
      assume "c = 0x22"
      then show ?thesis by (simp add: utf16_of_def json_char_def utf8_of_def char_of_quote)
    next
      assume "c = 0x5C"
      then show ?thesis by (simp add: utf16_of_def json_char_def utf8_of_def char_of_quote)
    qed
  next
    case 2
    have ch: "of_char ch = c" using 2 by (simp add: ch_def)
    with 2 have q: "ch \<noteq> DQ" "ch \<noteq> BS" by auto
    have le: "(0x20 :: wchar) \<le> of_nat c" "of_nat c \<le> (0x7E :: wchar)"
      using 2 u by (simp_all add: word_le_nat_alt)
    have n: "(of_nat c :: wchar) \<noteq> of_char DQ" "(of_nat c :: wchar) \<noteq> of_char BS"
      using 2 u by (auto dest: arg_cong[of _ _ unat])
    have "json_char (of_nat c) = [ch]"
      by (simp only: json_char_def n le u ch_def if_False if_True simp_thms)
    moreover have "utf8_of c = [ch]" using 2 by (simp add: utf8_of_def ch_def)
    moreover have "String_loop mb utf8 (ch # rest) = String_loop mb (utf8 @ [ch]) rest"
      using q ch 2 by simp
    ultimately show ?thesis by (simp add: e)
  next
    case 3
    have "json_char (of_nat c) = BS # CHR ''u'' # hex_escape (of_nat c)"
    proof -
      have "(of_nat c :: wchar) \<noteq> of_char DQ" "(of_nat c :: wchar) \<noteq> of_char BS"
        using 3 u by (auto dest: arg_cong[of _ _ unat])
      moreover have "\<not> (of_nat c \<ge> (0x20 :: wchar) \<and> of_nat c \<le> (0x7E :: wchar))"
        using 3 u by (auto simp: word_le_nat_alt)
      ultimately show ?thesis by (simp add: json_char_def)
    qed
    moreover have "JsonReader_UnicodeEscape utf8 (hex_escape (of_nat c) @ rest)
        = Some (utf8 @ utf8_of c, rest)"
      using assms True
      by (auto simp: JsonReader_UnicodeEscape_def u AppendUtf8CodePoint_utf8 scalar_def)
    ultimately show ?thesis by (simp add: e)
  qed
qed

lemma String_loop_encode:
  "list_all scalar cs \<Longrightarrow>
     String_loop mb utf8 (concat (map json_char (utf16_encode cs)) @ rest)
       = String_loop mb (utf8 @ utf8_encode cs) rest"
proof (induction cs arbitrary: utf8)
  case (Cons c cs)
  then have "String_loop mb utf8 (concat (map json_char (utf16_encode (c # cs))) @ rest)
      = String_loop mb (utf8 @ utf8_of c) (concat (map json_char (utf16_encode cs)) @ rest)"
    using String_loop_scalar[of c mb utf8] by simp
  with Cons show ?case by simp
qed simp

text \<open>The text of a JSON string as the writer produces it.\<close>

definition json_string :: "wstring \<Rightarrow> string" where
  "json_string w = AppendJsonString [] w"

lemma AppendJsonString_json_string: "AppendJsonString out w = out @ json_string w"
  by (simp add: AppendJsonString_eq json_string_def)

lemma SkipWhitespace_DQ [simp]: "JsonReader_SkipWhitespace (DQ # s) = DQ # s"
  by (simp add: JsonReader_SkipWhitespace_def)

lemma json_char_nonempty [simp]: "json_char u \<noteq> []"
  by (simp add: json_char_def)

lemma length_json_string: "length w < length (json_string w)"
proof -
  have "length w \<le> length (concat (map json_char w))"
    by (induction w) (auto simp: json_char_def)
  then show ?thesis by (simp add: json_string_def AppendJsonString_eq)
qed

lemma length_json_string_le: "length (json_string w) \<le> 6 * length w + 2"
proof -
  have "length (concat (map json_char w)) \<le> 6 * length w"
    by (induction w) (auto simp: json_char_def hex_escape_def)
  then show ?thesis by (simp add: json_string_def AppendJsonString_eq)
qed

text \<open>Member names are plain ASCII literals.\<close>

definition plain :: "string \<Rightarrow> bool" where
  "plain s \<longleftrightarrow> list_all (\<lambda>c. 0x20 \<le> (of_char c :: nat) \<and> of_char c < (0x80 :: nat)
     \<and> c \<noteq> DQ \<and> c \<noteq> BS) s \<and> length s \<le> 100"

lemma String_loop_plain:
  "list_all (\<lambda>c. 0x20 \<le> (of_char c :: nat) \<and> of_char c < (0x80 :: nat) \<and> c \<noteq> DQ \<and> c \<noteq> BS) s
     \<Longrightarrow> String_loop mb utf8 (s @ rest) = String_loop mb (utf8 @ s) rest"
  by (induction s arbitrary: utf8) auto

lemma plain_ascii: "plain s \<Longrightarrow> ascii s"
  by (auto simp: plain_def ascii_def list_all_iff)

context windows_utf
begin

lemma String_plain:
  assumes "plain s"
  shows "JsonReader_String MultiByteToWideChar (DQ # s @ DQ # rest) = Some (wide s, rest)"
proof -
  have "Utf8ToWide MultiByteToWideChar s = Some (wide s)"
    using plain_ascii[OF assms] assms by (intro Utf8ToWide_ascii) (auto simp: plain_def)
  with assms show ?thesis
    by (simp add: JsonReader_String_def String_loop_plain plain_def)
qed

lemma String_json_string:
  assumes "well_formed_utf16 w" and "3 * length w \<le> INT_MAX"
  shows "JsonReader_String MultiByteToWideChar (json_string w @ rest) = Some (w, rest)"
proof -
  from assms(1) obtain cs where cs: "list_all scalar cs" "w = utf16_encode cs"
    unfolding well_formed_utf16_def by blast
  have "length (utf8_encode cs) \<le> INT_MAX"
    using assms(2) length_utf8_encode[of cs] cs(2) by simp
  with cs show ?thesis
    by (simp add: json_string_def AppendJsonString_eq JsonReader_String_def String_loop_encode
        Utf8ToWide_encode)
qed

end

section \<open>Numbers\<close>

text \<open>\<open>std::to_string\<close> of a \<open>DWORD\<close>.\<close>

fun decimal :: "nat \<Rightarrow> string" where
  "decimal n = (if n < 10 then [char_of (0x30 + n)] else decimal (n div 10) @ [char_of (0x30 + n mod 10)])"

declare decimal.simps [simp del]

definition to_string :: "dword \<Rightarrow> string" where
  "to_string n = decimal (unat n)"

lemma digit_char: "d < 10 \<Longrightarrow> is_digit (char_of (48 + d)) \<and> of_char (char_of (48 + d) :: char) = 48 + (d :: nat)"
  by (simp add: is_digit_def less_eq_char_def)

lemma decimal_digits: "list_all is_digit (decimal n) \<and> digits_value (decimal n) = n \<and> decimal n \<noteq> []"
proof (induction n rule: decimal.induct)
  case (1 n)
  show ?case
  proof (cases "n < 10")
    case True
    then show ?thesis
      using digit_char[of n] by (simp add: decimal.simps digits_value_def)
  next
    case False
    with 1 have "list_all is_digit (decimal (n div 10))" "digits_value (decimal (n div 10)) = n div 10"
      by auto
    with False digit_char[of "n mod 10"] show ?thesis
      by (subst (1 2 3) decimal.simps) (simp add: digits_value_def)
  qed
qed

lemma SkipWhitespace_digits:
  "s \<noteq> [] \<Longrightarrow> is_digit (hd s) \<Longrightarrow> JsonReader_SkipWhitespace s = s"
  by (cases s) (auto simp: JsonReader_SkipWhitespace_def is_digit_def)

lemma Unsigned_to_string:
  assumes "\<not> is_digit d"
  shows "JsonReader_Unsigned (to_string n @ d # rest) = Some (n, d # rest)"
proof -
  note D = decimal_digits[of "unat n"]
  then have all: "\<forall>c\<in>set (to_string n). is_digit c" and ne: "to_string n \<noteq> []"
    by (simp_all add: to_string_def list_all_iff)
  then have "is_digit (hd (to_string n @ d # rest))" by (cases "to_string n") auto
  then have sk: "JsonReader_SkipWhitespace (to_string n @ d # rest) = to_string n @ d # rest"
    by (intro SkipWhitespace_digits) simp_all
  have "unat n < 2 ^ 32" using unsigned_less[of n] by simp
  then have "from_chars (to_string n) = Some n"
    using D by (simp add: from_chars_def to_string_def Let_def)
  with all ne assms show ?thesis
    by (simp add: JsonReader_Unsigned_def sk takeWhile_append2 dropWhile_append2 Let_def)
qed

end
