(* ===== verification/JsonObject.thy ===== *)
theory JsonObject
  imports JsonReader
begin

text \<open>
  Facts about \<open>ReadObject\<close> and \<open>ReadStringArray\<close> that every parser of the protocol uses: the fuel
  of the loops is never exhausted, invariants of the field reader carry over to the object, and an
  object written member by member is read member by member. The locale \<open>field_reader\<close> is the
  contract of the template parameter \<open>ReadField\<close>: it never gives back more input than it got.
\<close>

section \<open>No reader lengthens its input\<close>

lemma SkipWhitespace_length: "length (JsonReader_SkipWhitespace s) \<le> length s"
  by (simp add: JsonReader_SkipWhitespace_def length_dropWhile_le)

lemma String_loop_length: "String_loop mb u s = Some (w, r) \<Longrightarrow> length r < length s"
proof (induction s arbitrary: u rule: length_induct)
  case (1 s)
  from 1(2) obtain c t where s: "s = c # t" by (cases s) auto
  have IH: "length r < length t'" if "String_loop mb v t' = Some (w, r)" "length t' \<le> length t" for v t'
    using 1(1)[rule_format, of t' v] that by (auto simp: s)
  show ?case
  proof (cases "c = DQ \<or> c \<noteq> BS")
    case True
    with 1(2) IH[of _ t] show ?thesis
      by (auto simp: s split: if_splits option.splits dest: less_SucI)
  next
    case False
    with 1(2) obtain e t' where t: "t = e # t'" by (auto simp: s split: if_splits list.splits)
    show ?thesis
    proof (cases "e = CHR ''u''")
      case True
      with 1(2) False obtain v t'' where
        "JsonReader_UnicodeEscape u t' = Some (v, t'')" "String_loop mb v t'' = Some (w, r)"
        by (auto simp: s t split: if_splits option.splits)
      with IH[of v t''] show ?thesis by (auto simp: s t dest: UnicodeEscape_length)
    next
      case nu: False
      obtain v where "String_loop mb v t' = Some (w, r)"
        using 1(2) False nu by (auto simp: s t split: if_splits)
      with IH[of v t'] show ?thesis by (simp add: s t)
    qed
  qed
qed

lemma String_length: "JsonReader_String mb s = Some (w, r) \<Longrightarrow> length r < length s"
  using SkipWhitespace_length[of s]
  by (auto simp: JsonReader_String_def split: list.splits if_splits dest!: String_loop_length)

lemma Consume_length: "JsonReader_Consume c s = (b, r) \<Longrightarrow> length r \<le> length s"
proof -
  have "length (snd (consume_char c t)) \<le> length t" for t by (cases t) auto
  from this[of "JsonReader_SkipWhitespace s"] show "JsonReader_Consume c s = (b, r) \<Longrightarrow> ?thesis"
    using SkipWhitespace_length[of s] by (auto simp: JsonReader_Consume_def dest: le_trans)
qed

lemma Unsigned_length: "JsonReader_Unsigned s = Some (n, r) \<Longrightarrow> length r \<le> length s"
  using SkipWhitespace_length[of s] length_dropWhile_le[of is_digit "JsonReader_SkipWhitespace s"]
  by (auto simp: JsonReader_Unsigned_def Let_def split: if_splits option.splits)

lemma Boolean_length: "JsonReader_Boolean s = Some (b, r) \<Longrightarrow> length r \<le> length s"
  using SkipWhitespace_length[of s]
  by (auto simp: JsonReader_Boolean_def Let_def split: if_splits)

lemma ReadStringArray_loop_length:
  "ReadStringArray_loop mb v k vs s = Some (ws, r) \<Longrightarrow> length r \<le> length s"
proof (induction k arbitrary: vs s)
  case (Suc k)
  then obtain w r1 where p: "JsonReader_String mb s = Some (w, r1)"
    by (auto split: option.splits)
  obtain b r2 where c: "JsonReader_Consume CHR '']'' r1 = (b, r2)" by fastforce
  obtain b' r3 where c': "JsonReader_Consume CHR '','' r2 = (b', r3)" by fastforce
  show ?case
    using String_length[OF p] Consume_length[OF c] Consume_length[OF c'] Suc.prems
      Suc.IH[of "vs @ [w]" r3]
    by (auto simp: p c c' Let_def split: if_splits)
qed simp

lemma ReadStringArray_length:
  assumes "ReadStringArray mb v vs s = Some (ws, r)"
  shows "length r \<le> length s"
proof -
  obtain b r1 where c: "JsonReader_Consume CHR ''['' s = (b, r1)" by fastforce
  obtain b' r2 where c': "JsonReader_Consume CHR '']'' r1 = (b', r2)" by fastforce
  show ?thesis
    using Consume_length[OF c] Consume_length[OF c'] assms
      ReadStringArray_loop_length[of mb v "Suc (length r2)" vs r2 ws r]
    by (auto simp: ReadStringArray_def c c' split: if_splits simp del: ReadStringArray_loop.simps)
qed

lemmas reader_lengths = String_length Unsigned_length Boolean_length ReadStringArray_length

text \<open>Every round of an array consumes a character, so its fuel is enough as well.\<close>

lemma array_loop_enough:
  "length s < k \<Longrightarrow> ReadStringArray_loop mb v (Suc k) vs s = ReadStringArray_loop mb v k vs s"
proof (induction k arbitrary: vs s)
  case (Suc k)
  show ?case
  proof (cases "JsonReader_String mb s")
    case (Some p)
    then obtain w r1 where p: "JsonReader_String mb s = Some (w, r1)" by (cases p) auto
    obtain b r2 where c: "JsonReader_Consume CHR '']'' r1 = (b, r2)" by fastforce
    obtain b' r3 where c': "JsonReader_Consume CHR '','' r2 = (b', r3)" by fastforce
    have "length r3 < k"
      using String_length[OF p] Consume_length[OF c] Consume_length[OF c'] Suc.prems by simp
    then show ?thesis
      using Suc.IH[of r3] by (subst (1 2) ReadStringArray_loop.simps) (simp add: p c c' Let_def)
  qed simp
qed simp

section \<open>The contract of a field reader\<close>

locale field_reader =
  fixes readField :: "'s read_field"
  assumes field_length: "readField s name r = Some (s', r') \<Longrightarrow> length r' \<le> length r"
begin

lemma member_loop_enough:
  "length r < k \<Longrightarrow> ReadObject_loop mb readField (Suc k) s r = ReadObject_loop mb readField k s r"
proof (induction k arbitrary: s r)
  case (Suc k)
  show ?case
  proof (cases "JsonReader_String mb r")
    case (Some p)
    then obtain name r1 where p: "JsonReader_String mb r = Some (name, r1)" by (cases p) auto
    obtain b r2 where c: "JsonReader_Consume CHR '':'' r1 = (b, r2)" by fastforce
    show ?thesis
    proof (cases "readField s name r2")
      case (Some q)
      then obtain s' r3 where f: "readField s name r2 = Some (s', r3)" by (cases q) auto
      obtain b1 r4 where c1: "JsonReader_Consume CHR ''}'' r3 = (b1, r4)" by fastforce
      obtain b2 r5 where c2: "JsonReader_Consume CHR '','' r4 = (b2, r5)" by fastforce
      have "length r5 < k"
        using String_length[OF p] Consume_length[OF c] field_length[OF f] Consume_length[OF c1]
          Consume_length[OF c2] Suc.prems by simp
      then show ?thesis
        using Suc.IH[of r5] by (subst (1 2) ReadObject_loop.simps) (simp add: p c f c1 c2 Let_def)
    qed (simp add: p c Let_def)
  qed simp
qed simp

lemma member_loop_fuel:
  "length r < k \<Longrightarrow> k \<le> k'
     \<Longrightarrow> ReadObject_loop mb readField k' s r = ReadObject_loop mb readField k s r"
proof (induction k')
  case (Suc k')
  then show ?case
    by (cases "k = Suc k'") (simp_all add: member_loop_enough del: ReadObject_loop.simps)
qed (simp del: ReadObject_loop.simps)

lemma member_loop_length:
  "ReadObject_loop mb readField k s r = Some (s', r') \<Longrightarrow> length r' < length r"
proof (induction k arbitrary: s r)
  case (Suc k)
  then obtain name r1 where p: "JsonReader_String mb r = Some (name, r1)"
    by (auto split: option.splits)
  obtain b r2 where c: "JsonReader_Consume CHR '':'' r1 = (b, r2)" by fastforce
  from Suc.prems obtain s1 r3 where f: "readField s name r2 = Some (s1, r3)"
    by (auto simp: p c split: option.splits if_splits)
  obtain b1 r4 where c1: "JsonReader_Consume CHR ''}'' r3 = (b1, r4)" by fastforce
  obtain b2 r5 where c2: "JsonReader_Consume CHR '','' r4 = (b2, r5)" by fastforce
  show ?case
    using String_length[OF p] Consume_length[OF c] field_length[OF f] Consume_length[OF c1]
      Consume_length[OF c2] Suc.prems Suc.IH[of s1 r5]
    by (auto simp: p c f c1 c2 split: if_splits)
qed simp

lemma ReadObject_length:
  assumes "ReadObject mb readField s r = Some (s', r')"
  shows "length r' < length r"
proof -
  obtain b r1 where c: "JsonReader_Consume CHR ''{'' r = (b, r1)" by fastforce
  show ?thesis
    using Consume_length[OF c] assms member_loop_length[of mb "Suc (length r1)" s r1 s' r']
    by (auto simp: ReadObject_def c split: if_splits simp del: ReadObject_loop.simps)
qed

end

section \<open>A member that is read once\<close>

text \<open>
  The shape \<open>FirstSeen(flag) && reader.X(variable) && check(variable)\<close> of nearly every branch of
  the field readers; \<open>store\<close> assigns the variable and sets the flag.
\<close>

definition read_once ::
  "bool \<Rightarrow> (string \<Rightarrow> ('a \<times> string) option) \<Rightarrow> ('a \<Rightarrow> bool) \<Rightarrow> ('a \<Rightarrow> 's) \<Rightarrow> string
     \<Rightarrow> ('s \<times> string) option"
where
  "read_once seen reader check store input =
     (if \<not> fst (FirstSeen seen) then None
      else (case reader input of
              None \<Rightarrow> None
            | Some (v, rest) \<Rightarrow> if check v then Some (store v, rest) else None))"

lemma read_once_Some [simp]:
  "\<not> seen \<Longrightarrow> reader input = Some (v, rest) \<Longrightarrow> check v
     \<Longrightarrow> read_once seen reader check store input = Some (store v, rest)"
  by (simp add: read_once_def FirstSeen_def)

lemma read_once_seen [simp]: "read_once True reader check store input = None"
  by (simp add: read_once_def FirstSeen_def)

lemma read_once_SomeE [elim!]:
  assumes "read_once seen reader check store input = Some (s', rest)"
  obtains v where "\<not> seen" "reader input = Some (v, rest)" "check v" "s' = store v"
  using assms by (auto simp: read_once_def FirstSeen_def split: if_splits option.splits)

section \<open>Invariants\<close>

lemma member_loop_invariant:
  assumes step: "\<And>s name r s' r'. P s \<Longrightarrow> readField s name r = Some (s', r') \<Longrightarrow> P s'"
  shows "P s \<Longrightarrow> ReadObject_loop mb readField k s r = Some (s', r') \<Longrightarrow> P s'"
proof (induction k arbitrary: s r)
  case (Suc k)
  from Suc.prems(2) obtain name r1 where p: "JsonReader_String mb r = Some (name, r1)"
    by (auto split: option.splits)
  obtain b r2 where c: "JsonReader_Consume CHR '':'' r1 = (b, r2)" by fastforce
  from Suc.prems(2) obtain s1 r3 where f: "readField s name r2 = Some (s1, r3)"
    by (auto simp: p c split: option.splits if_splits)
  obtain b1 r4 where c1: "JsonReader_Consume CHR ''}'' r3 = (b1, r4)" by fastforce
  obtain b2 r5 where c2: "JsonReader_Consume CHR '','' r4 = (b2, r5)" by fastforce
  show ?case
    using step[OF Suc.prems(1) f] Suc.prems(2) Suc.IH[of s1 r5]
    by (auto simp: p c f c1 c2 split: if_splits)
qed simp

lemma ReadObject_invariant:
  assumes step: "\<And>s name r s' r'. P s \<Longrightarrow> readField s name r = Some (s', r') \<Longrightarrow> P s'"
    and "P s" and "ReadObject mb readField s r = Some (s', r')"
  shows "P s'"
proof -
  obtain b r1 where c: "JsonReader_Consume CHR ''{'' r = (b, r1)" by fastforce
  show ?thesis
    using assms(2,3) member_loop_invariant[of P readField s mb "Suc (length r1)" r1 s' r', OF step]
    by (auto simp: ReadObject_def c split: if_splits simp del: ReadObject_loop.simps)
qed

section \<open>Objects written member by member\<close>

text \<open>The text of a member, and of an object.\<close>

definition key :: "string \<Rightarrow> string" where
  "key name = DQ # name @ [DQ, CHR '':'']"

definition member :: "string \<Rightarrow> string \<Rightarrow> string" where
  "member name value = key name @ value"

fun members :: "string list \<Rightarrow> string" where
  "members [] = []"
| "members [m] = m"
| "members (m # n # ms) = m @ '','' @ members (n # ms)"

text \<open>
  \<open>reads mb f s ms s'\<close>: from the state \<open>s\<close> the field reader accepts the members \<open>ms\<close> one after the
  other and ends in \<open>s'\<close>, whatever follows them.
\<close>

inductive reads ::
  "'s read_field \<Rightarrow> 's \<Rightarrow> (string \<times> string) list \<Rightarrow> 's \<Rightarrow> bool" for f :: "'s read_field"
where
  reads_Nil: "reads f s [] s"
| reads_Cons: "plain name \<Longrightarrow>
     (\<And>d rest. d = CHR '','' \<or> d = CHR ''}'' \<Longrightarrow>
        f s (wide name) (value @ d # rest) = Some (s1, d # rest)) \<Longrightarrow>
     reads f s1 ms s2 \<Longrightarrow> reads f s ((name, value) # ms) s2"

inductive_cases reads_ConsE: "reads f s (m # ms) s'"

lemma reads_append: "reads f s ms s1 \<Longrightarrow> reads f s1 ns s2 \<Longrightarrow> reads f s (ms @ ns) s2"
  by (induction rule: reads.induct) (auto intro: reads.intros)

lemma reads_one:
  "plain name \<Longrightarrow> (\<And>d rest. d = CHR '','' \<or> d = CHR ''}'' \<Longrightarrow>
      f s (wide name) (value @ d # rest) = Some (s1, d # rest)) \<Longrightarrow> reads f s [(name, value)] s1"
  by (blast intro: reads.intros)

lemma reads_done: "s = s' \<Longrightarrow> reads f s [] s'"
  by (simp add: reads_Nil)

text \<open>One member of the shape \<open>read_once\<close>, in the order in which the facts can be found.\<close>

lemma reads_field:
  assumes "\<And>r. f s (wide name) r = read_once seen reader check store r" and "\<not> seen"
    and "plain name"
    and "\<And>d rest. d = CHR '','' \<or> d = CHR ''}'' \<Longrightarrow>
      reader (value @ d # rest) = Some (v, d # rest)"
    and "check v" and "reads f (store v) ms s'"
  shows "reads f s ((name, value) # ms) s'"
proof (rule reads_Cons)
  show "f s (wide name) (value @ d # rest) = Some (store v, d # rest)"
    if "d = CHR '','' \<or> d = CHR ''}''" for d rest
    using assms(2,5) assms(4)[OF that] by (simp add: assms(1))
qed (fact assms)+

lemma reads_optional:
  "(b \<Longrightarrow> reads f s [m] s1) \<Longrightarrow> (\<not> b \<Longrightarrow> s1 = s) \<Longrightarrow> reads f s (if b then [m] else []) s1"
  by (auto intro: reads_done)

text \<open>A member that is written only when a flag is set.\<close>

definition optional :: "bool \<Rightarrow> string \<times> string \<Rightarrow> (string \<times> string) list" where
  "optional present m = (if present then [m] else [])"

definition object_text :: "(string \<times> string) list \<Rightarrow> string" where
  "object_text ms = ''{'' @ members (map (\<lambda>(n, v). member n v) ms) @ ''}''"

lemma Consume_same [simp]:
  "c \<noteq> CHR '' '' \<Longrightarrow> c \<noteq> CHR 0x0A \<Longrightarrow> c \<noteq> CHR 0x0D \<Longrightarrow> c \<noteq> CHR 0x09
     \<Longrightarrow> JsonReader_Consume e (c # r) = (if c \<noteq> e then (False, c # r) else (True, r))"
  by (simp add: JsonReader_Consume_def JsonReader_SkipWhitespace_def)

lemma members_Cons: "ns \<noteq> [] \<Longrightarrow> members (m # ns) = m @ '','' @ members ns"
  by (cases ns) simp_all

lemma members_append:
  "ms \<noteq> [] \<Longrightarrow> ns \<noteq> [] \<Longrightarrow> members (ms @ ns) = members ms @ '','' @ members ns"
  by (induction ms rule: members.induct) (auto simp: members_Cons)

context windows_utf
begin

lemma ReadObject_loop_members:
  "reads f s ms s' \<Longrightarrow> ms \<noteq> [] \<Longrightarrow> length ms \<le> k \<Longrightarrow>
     ReadObject_loop MultiByteToWideChar f k s
       (members (map (\<lambda>(n, v). member n v) ms) @ CHR ''}'' # rest) = Some (s', rest)"
proof (induction arbitrary: k rule: reads.induct)
  case (reads_Cons name s "value" s1 ms s2)
  then obtain k' where k: "k = Suc k'" by (cases k) auto
  have str: "JsonReader_String MultiByteToWideChar (DQ # name @ DQ # r) = Some (wide name, r)" for r
    using reads_Cons.hyps(1) by (rule String_plain)
  show ?case
  proof (cases "ms = []")
    case True
    with reads_Cons.hyps(3) have "s2 = s1" by (auto elim: reads.cases)
    with True show ?thesis
      by (simp add: k str member_def key_def reads_Cons.hyps(2))
  next
    case False
    with reads_Cons.IH[of k'] reads_Cons.prems k
    have "ReadObject_loop MultiByteToWideChar f k' s1
        (members (map (\<lambda>(n, v). member n v) ms) @ CHR ''}'' # rest) = Some (s2, rest)" by simp
    with False show ?thesis
      by (simp add: k str member_def key_def reads_Cons.hyps(2) members_Cons)
  qed
qed simp

lemma length_members: "ms \<noteq> [] \<Longrightarrow> length ms \<le> length (members (map (\<lambda>(n, v). member n v) ms))"
proof (induction ms)
  case (Cons m ms)
  then show ?case
    by (cases "ms = []"; cases m) (auto simp: member_def key_def members_Cons)
qed simp

lemma ReadObject_object_text:
  assumes "reads f s ms s'" and "ms \<noteq> []"
  shows "ReadObject MultiByteToWideChar f s (object_text ms @ rest) = Some (s', rest)"
  using ReadObject_loop_members[OF assms] length_members[OF assms(2)] assms(2)
  by (simp add: ReadObject_def object_text_def del: ReadObject_loop.simps)

end

text \<open>A member whose value the field reader rejects rejects the whole object.\<close>

context windows_utf
begin

lemma ReadObject_loop_rejects:
  "reads f s ms s1 \<Longrightarrow> plain name \<Longrightarrow>
     (\<And>rest. f s1 (wide name) (value @ rest) = None) \<Longrightarrow>
     ReadObject_loop MultiByteToWideChar f k s
       (members (map (\<lambda>(n, v). member n v) (ms @ (name, value) # ns)) @ rest) = None"
proof (induction arbitrary: k rule: reads.induct)
  case (reads_Nil s)
  have str: "JsonReader_String MultiByteToWideChar (DQ # name @ DQ # r) = Some (wide name, r)" for r
    using reads_Nil(1) by (rule String_plain)
  have "\<exists>q. members (map (\<lambda>(n, v). member n v) ((name, value) # ns)) @ rest
      = DQ # name @ DQ # CHR '':'' # value @ q"
    by (cases ns) (simp_all add: member_def key_def)
  then show ?case using reads_Nil(2) by (cases k) (auto simp: str)
next
  case (reads_Cons n s v s1' ms s2)
  have str: "JsonReader_String MultiByteToWideChar (DQ # n @ DQ # r) = Some (wide n, r)" for r
    using reads_Cons.hyps(1) by (rule String_plain)
  from reads_Cons show ?case
    by (cases k) (simp_all add: str member_def key_def members_Cons)
qed

lemma ReadObject_rejects:
  assumes "reads f s ms s1" "plain name" "\<And>rest. f s1 (wide name) (value @ rest) = None"
  shows "ReadObject MultiByteToWideChar f s (object_text (ms @ (name, value) # ns) @ rest) = None"
  using ReadObject_loop_rejects[OF assms, where rest = "CHR ''}'' # rest"]
  by (simp add: ReadObject_def object_text_def del: ReadObject_loop.simps)

end

text \<open>Two readers that agree on what they consume stay related.\<close>

lemma member_loop_simulation:
  assumes step: "\<And>s t name r s' r1 t' r2. R s t \<Longrightarrow> f s name r = Some (s', r1)
      \<Longrightarrow> g t name r = Some (t', r2) \<Longrightarrow> r1 = r2 \<and> R s' t'"
  shows "R s t \<Longrightarrow> ReadObject_loop mb f k s r = Some (s', r1)
    \<Longrightarrow> ReadObject_loop mb g k t r = Some (t', r2) \<Longrightarrow> r1 = r2 \<and> R s' t'"
proof (induction k arbitrary: s t r)
  case (Suc k)
  from Suc.prems(2) obtain name p where p: "JsonReader_String mb r = Some (name, p)"
    by (auto split: option.splits)
  obtain b q where c: "JsonReader_Consume CHR '':'' p = (b, q)" by fastforce
  from Suc.prems(2) obtain s1 q1 where f: "f s name q = Some (s1, q1)"
    by (auto simp: p c split: option.splits if_splits)
  from Suc.prems(3) obtain t1 q2 where g: "g t name q = Some (t1, q2)"
    by (auto simp: p c split: option.splits if_splits)
  from step[OF Suc.prems(1) f g] have eq: "q2 = q1" and R: "R s1 t1" by auto
  obtain b1 u1 where c1: "JsonReader_Consume CHR ''}'' q1 = (b1, u1)" by fastforce
  obtain b2 u2 where c2: "JsonReader_Consume CHR '','' u1 = (b2, u2)" by fastforce
  show ?case
    using Suc.prems(2,3) Suc.IH[OF R, of u2] R
    by (auto simp: p c f g eq c1 c2 split: if_splits)
qed simp

lemma ReadObject_simulation:
  assumes step: "\<And>s t name r s' r1 t' r2. R s t \<Longrightarrow> f s name r = Some (s', r1)
      \<Longrightarrow> g t name r = Some (t', r2) \<Longrightarrow> r1 = r2 \<and> R s' t'"
    and "R s t" "ReadObject mb f s r = Some (s', r1)" "ReadObject mb g t r = Some (t', r2)"
  shows "r1 = r2 \<and> R s' t'"
proof -
  obtain b u where c: "JsonReader_Consume CHR ''{'' r = (b, u)" by fastforce
  have loop: "ReadObject_loop mb f (Suc (length u)) s u = Some (s', r1)"
    "ReadObject_loop mb g (Suc (length u)) t u = Some (t', r2)"
    using assms(3,4) by (auto simp: ReadObject_def c split: if_splits simp del: ReadObject_loop.simps)
  show ?thesis
    using assms(2) loop by (rule member_loop_simulation[rotated]) (erule (2) step)
qed

section \<open>Arrays and literals\<close>

definition array_text :: "wstring list \<Rightarrow> string" where
  "array_text ws = ''['' @ members (map json_string ws) @ '']''"

definition bool_text :: "bool \<Rightarrow> string" where
  "bool_text b = (if b then ''true'' else ''false'')"

lemma Boolean_bool_text [simp, read_back]: "JsonReader_Boolean (bool_text b @ rest) = Some (b, rest)"
  by (simp add: JsonReader_Boolean_def JsonReader_SkipWhitespace_def bool_text_def starts_with_def)

definition readable :: "wstring \<Rightarrow> bool" where
  "readable w \<longleftrightarrow> well_formed_utf16 w \<and> 3 * length w \<le> INT_MAX"

lemma json_string_cases: obtains r where "json_string w = DQ # r"
  by (simp add: json_string_def AppendJsonString_eq)

text \<open>Short ASCII literals are readable.\<close>

lemma readable_wide: "ascii s \<Longrightarrow> length s \<le> 1000 \<Longrightarrow> readable (wide s)"
  by (simp add: readable_def)

lemma readable_ascii_word:
  assumes "list_all (\<lambda>c. c < (0x80 :: wchar)) w" and "length w \<le> 1000"
  shows "readable w"
proof -
  have "\<exists>s. w = wide s \<and> ascii s"
    using assms(1)
  proof (induction w)
    case (Cons c w)
    then obtain s where s: "w = wide s" "ascii s" by auto
    have "unat c < 128" using Cons.prems by (simp add: word_less_nat_alt)
    then have "of_char (char_of (unat c) :: char) = unat c" by simp
    moreover from this have "(of_char (char_of (unat c) :: char) :: wchar) = c"
      by (metis of_nat_of_char of_nat_unat ucast_id)
    ultimately show ?case using s \<open>unat c < 128\<close>
      by (intro exI[of _ "char_of (unat c) # s"]) (simp add: wide_def)
  qed (simp add: exI[of _ "[]"])
  with assms(2) show ?thesis by (auto intro: readable_wide)
qed

context windows_utf
begin

lemma String_readable [read_back]:
  "readable w \<Longrightarrow> JsonReader_String MultiByteToWideChar (json_string w @ rest) = Some (w, rest)"
  by (simp add: readable_def String_json_string)

lemma ReadStringArray_loop_members:
  "list_all readable ws \<Longrightarrow> list_all v ws \<Longrightarrow> ws \<noteq> [] \<Longrightarrow> length ws \<le> k \<Longrightarrow>
     length vs + length ws \<le> MaximumArguments \<Longrightarrow>
     ReadStringArray_loop MultiByteToWideChar v k vs
       (members (map json_string ws) @ CHR '']'' # rest) = Some (vs @ ws, rest)"
proof (induction ws arbitrary: k vs)
  case (Cons w ws)
  then obtain k' where k: "k = Suc k'" by (cases k) auto
  show ?case
  proof (cases "ws = []")
    case True
    with Cons.prems show ?thesis by (simp add: k String_readable Let_def)
  next
    case False
    with Cons.IH[of k' "vs @ [w]"] Cons.prems k
    have "ReadStringArray_loop MultiByteToWideChar v k' (vs @ [w])
        (members (map json_string ws) @ CHR '']'' # rest) = Some (vs @ w # ws, rest)" by simp
    with False Cons.prems show ?thesis
      by (simp add: k String_readable members_Cons Let_def)
  qed
qed simp

lemma ReadStringArray_array_text [read_back]:
  assumes "list_all readable ws" "list_all v ws" "length ws \<le> MaximumArguments"
  shows "ReadStringArray MultiByteToWideChar v [] (array_text ws @ rest) = Some (ws, rest)"
proof (cases ws)
  case Nil
  then show ?thesis by (simp add: ReadStringArray_def array_text_def)
next
  case (Cons w ws')
  obtain r where r: "json_string w = DQ # r" by (rule json_string_cases)
  have first: "\<exists>q. members (map json_string ws) @ CHR '']'' # rest = DQ # q"
    using r by (cases "ws' = []") (simp_all add: Cons members_Cons)
  have "length ws \<le> length (members (map json_string ws))"
  proof (induction ws)
    case (Cons a ws)
    then show ?case using length_json_string[of a]
      by (cases "ws = []") (auto simp: members_Cons)
  qed simp
  then have "ReadStringArray_loop MultiByteToWideChar v
      (Suc (length (members (map json_string ws) @ CHR '']'' # rest))) []
      (members (map json_string ws) @ CHR '']'' # rest) = Some (ws, rest)"
    using ReadStringArray_loop_members[OF assms(1,2), of _ "[]"] assms(3) Cons
    by (simp del: ReadStringArray_loop.simps)
  moreover from first obtain q where
    q: "members (map json_string ws) @ CHR '']'' # rest = DQ # q" by blast
  ultimately have "ReadStringArray_loop MultiByteToWideChar v (Suc (length (DQ # q))) [] (DQ # q)
      = Some (ws, rest)" by (simp only:)
  then show ?thesis
    by (simp add: ReadStringArray_def array_text_def q del: ReadStringArray_loop.simps)
qed

end

text \<open>An array longer than the limit is refused.\<close>

context windows_utf
begin

lemma ReadStringArray_loop_too_long:
  "list_all readable ws \<Longrightarrow> MaximumArguments < length vs + length ws \<Longrightarrow>
     length vs \<le> MaximumArguments \<Longrightarrow>
     ReadStringArray_loop MultiByteToWideChar v k vs (members (map json_string ws) @ rest) = None"
proof (induction ws arbitrary: k vs)
  case (Cons w ws)
  then show ?case
  proof (cases "ws = []")
    case True
    with Cons.prems show ?thesis by (cases k) (simp_all add: String_readable)
  next
    case False
    with Cons show ?thesis by (cases k) (simp_all add: String_readable members_Cons)
  qed
qed simp

lemma ReadStringArray_too_long:
  assumes "list_all readable ws" "MaximumArguments < length ws"
  shows "ReadStringArray MultiByteToWideChar v [] (array_text ws @ rest) = None"
proof -
  from assms(2) obtain w ws' where ws: "ws = w # ws'" by (cases ws) auto
  obtain r where r: "json_string w = DQ # r" by (rule json_string_cases)
  have "\<exists>q. members (map json_string ws) @ CHR '']'' # rest = DQ # q"
    using r by (cases "ws' = []") (simp_all add: ws members_Cons)
  then obtain q where q: "members (map json_string ws) @ CHR '']'' # rest = DQ # q" by blast
  have "ReadStringArray_loop MultiByteToWideChar v k [] (DQ # q) = None" for k
    using ReadStringArray_loop_too_long[OF assms(1), of "[]" v k "CHR '']'' # rest"] assms(2)
    by (simp add: q)
  then show ?thesis
    by (simp add: ReadStringArray_def array_text_def q del: ReadStringArray_loop.simps)
qed

end

lemma ReadStringArray_loop_bound:
  "ReadStringArray_loop mb v k vs s = Some (ws, r) \<Longrightarrow> length vs \<le> MaximumArguments \<Longrightarrow>
     list_all v vs \<Longrightarrow> length ws \<le> MaximumArguments \<and> list_all v ws"
proof (induction k arbitrary: vs s)
  case (Suc k)
  from Suc.prems(1) obtain w r1 where v: "v w" "length vs \<noteq> MaximumArguments" and
    "ws = vs @ [w] \<or> (\<exists>r3. ReadStringArray_loop mb v k (vs @ [w]) r3 = Some (ws, r))"
    by (auto simp: Let_def split: option.splits if_splits prod.splits)
  with Suc.IH[of "vs @ [w]"] Suc.prems show ?case by auto
qed simp

lemma ReadStringArray_bound:
  "ReadStringArray mb v [] s = Some (ws, r) \<Longrightarrow> length ws \<le> MaximumArguments \<and> list_all v ws"
  by (auto simp: ReadStringArray_def Let_def split: if_splits prod.splits
      dest!: ReadStringArray_loop_bound simp del: ReadStringArray_loop.simps)

end
