(* ===== verification/BrokerProtocol.thy ===== *)
theory BrokerProtocol
  imports JsonObject
begin

text \<open>
  The requests of \<open>src/protocol/BrokerProtocol.h\<close> and \<open>.cpp\<close>: their data, the validators, the
  builders the client uses and the parser the broker uses. Captured variables of the field readers
  are record extensions of the structure they fill. A parse that fails is \<open>None\<close>: every caller
  drops the half-filled request then. Main results: the parser returns only requests that meet
  \<open>valid_request\<close>, and it reads back every valid request the builders write.
\<close>

section \<open>Data\<close>

record AppContainerOptions =
  enabled :: bool
  capabilities :: "wstring list"

record ConsoleRequest =
  pipeIn :: wstring
  pipeOut :: wstring
  pipeResize :: wstring
  inheritCursor :: bool

record InteractiveLaunchRequest =
  leasePipe :: wstring
  nonce :: wstring

datatype RequestOperation =
  ConsoleLaunch | InteractiveLaunch | Create | TakeOver | List | Forget | Delete

record BrokerRequest =
  operation :: RequestOperation
  requestId :: wstring
  profileId :: wstring
  force :: bool
  restrictAccess :: bool
  lowIntegrity :: bool
  log_access :: bool
  appContainer :: AppContainerOptions
  arguments :: "wstring list"
  workingDirectory :: wstring
  console :: ConsoleRequest
  interactive :: InteractiveLaunchRequest

definition AppContainerOptions_default :: AppContainerOptions where
  "AppContainerOptions_default = \<lparr>enabled = False, capabilities = []\<rparr>"

definition ConsoleRequest_default :: ConsoleRequest where
  "ConsoleRequest_default = \<lparr>pipeIn = [], pipeOut = [], pipeResize = [], inheritCursor = False\<rparr>"

definition InteractiveLaunchRequest_default :: InteractiveLaunchRequest where
  "InteractiveLaunchRequest_default = \<lparr>leasePipe = [], nonce = []\<rparr>"

definition BrokerRequest_default :: BrokerRequest where
  "BrokerRequest_default =
     \<lparr>operation = ConsoleLaunch, requestId = [], profileId = [], force = False,
      restrictAccess = False, lowIntegrity = False, log_access = False,
      appContainer = AppContainerOptions_default, arguments = [], workingDirectory = [],
      console = ConsoleRequest_default, interactive = InteractiveLaunchRequest_default\<rparr>"

section \<open>Validators\<close>

definition hex_digit :: "wchar \<Rightarrow> bool" where
  "hex_digit c \<longleftrightarrow> WCHR CHR ''0'' \<le> c \<and> c \<le> WCHR CHR ''9''
     \<or> WCHR CHR ''a'' \<le> c \<and> c \<le> WCHR CHR ''f'' \<or> WCHR CHR ''A'' \<le> c \<and> c \<le> WCHR CHR ''F''"

definition IsRequestId :: "wstring \<Rightarrow> bool" where
  "IsRequestId v \<longleftrightarrow> length v = 36 \<and>
     list_all (\<lambda>(index, c). if index = 8 \<or> index = 13 \<or> index = 18 \<or> index = 23
       then c = WCHR CHR ''-'' else hex_digit c) (enumerate 0 v)"

definition isDecimal :: "wstring \<Rightarrow> bool" where
  "isDecimal component = list_all (\<lambda>c. c \<ge> WCHR CHR ''0'' \<and> c \<le> WCHR CHR ''9'') component"

definition logon_prefix :: wstring where
  "logon_prefix = wide ''S-1-5-5-''"

definition IsLogonSid :: "wstring \<Rightarrow> bool" where
  "IsLogonSid v =
     (if \<not> starts_with logon_prefix v then False
      else let rest = drop (length logon_prefix) v in
        case find_first (WCHR CHR ''-'') rest of
          None \<Rightarrow> False
        | Some separator \<Rightarrow>
            if separator = 0 \<or> separator + 1 = length rest
              \<or> find_first (WCHR CHR ''-'') (drop (separator + 1) rest) \<noteq> None then False
            else isDecimal (take separator rest) \<and> isDecimal (drop (separator + 1) rest))"

definition pipe_prefix :: wstring where
  "pipe_prefix = wide (BS # BS # CHR ''.'' # BS # ''pipe'' @ BS # ''launch-as-'')"

definition IsConsolePipeName :: "wstring \<Rightarrow> bool" where
  "IsConsolePipeName v \<longleftrightarrow> length v > length pipe_prefix \<and> starts_with pipe_prefix v \<and> length v \<le> 256
     \<and> \<not> contains_any (wide [BS, CHR ''/'']) (drop (length pipe_prefix) v)"

definition interactive_prefix :: wstring where
  "interactive_prefix = pipe_prefix @ wide ''interactive-''"

definition IsInteractiveLeasePipeName :: "wstring \<Rightarrow> bool" where
  "IsInteractiveLeasePipeName v \<longleftrightarrow> length v > length interactive_prefix
     \<and> starts_with interactive_prefix v \<and> length v \<le> 256
     \<and> \<not> contains_any (wide [BS, CHR ''/'']) (drop (length interactive_prefix) v)"

definition IsAppContainerCapability :: "wstring \<Rightarrow> bool" where
  "IsAppContainerCapability v \<longleftrightarrow> v \<noteq> [] \<and> length v \<le> 128 \<and>
     list_all (\<lambda>c. (c \<ge> WCHR CHR ''a'' \<and> c \<le> WCHR CHR ''z'') \<or> (c \<ge> WCHR CHR ''A'' \<and> c \<le> WCHR CHR ''Z'')
       \<or> (c \<ge> WCHR CHR ''0'' \<and> c \<le> WCHR CHR ''9'') \<or> c = WCHR CHR ''-'' \<or> c = WCHR CHR ''_''
       \<or> c = WCHR CHR ''.'') v"

text \<open>The loop compares each capability with those before it (\<open>std::find\<close> up to \<open>index\<close>).\<close>

definition IsValidAppContainerOptions :: "AppContainerOptions \<Rightarrow> bool" where
  "IsValidAppContainerOptions options =
     (if (\<not> enabled options \<and> capabilities options \<noteq> []) \<or> length (capabilities options) > 32 then False
      else list_all (\<lambda>(index, c). IsAppContainerCapability c
             \<and> c \<notin> set (take index (capabilities options)))
           (enumerate 0 (capabilities options)))"

definition IsValidProfileId :: "wstring \<Rightarrow> bool" where
  "IsValidProfileId v \<longleftrightarrow> v \<noteq> [] \<and> length v \<le> UNLEN
     \<and> \<not> contains_any (wide (BS # ''/[]:;|=,+*?<>'' @ [DQ])) v
     \<and> list_all (\<lambda>c. c \<ge> WCHR CHR '' '') v"

fun RequestOperationName :: "RequestOperation \<Rightarrow> string" where
  "RequestOperationName ConsoleLaunch = ''launch''"
| "RequestOperationName InteractiveLaunch = ''launch''"
| "RequestOperationName Create = ''create''"
| "RequestOperationName TakeOver = ''takeover''"
| "RequestOperationName List = ''list''"
| "RequestOperationName Forget = ''forget''"
| "RequestOperationName Delete = ''delete''"

definition IsManagementOperation :: "RequestOperation \<Rightarrow> bool" where
  "IsManagementOperation op \<longleftrightarrow> op \<noteq> ConsoleLaunch \<and> op \<noteq> InteractiveLaunch"

fun RequestOperationSuccessReason :: "RequestOperation \<Rightarrow> string" where
  "RequestOperationSuccessReason Create = ''created''"
| "RequestOperationSuccessReason TakeOver = ''taken_over''"
| "RequestOperationSuccessReason List = ''listed''"
| "RequestOperationSuccessReason Forget = ''forgotten''"
| "RequestOperationSuccessReason Delete = ''deleted''"
| "RequestOperationSuccessReason _ = ''unknown''"

fun RequestOperationFailureReason :: "RequestOperation \<Rightarrow> string" where
  "RequestOperationFailureReason Create = ''create_failed''"
| "RequestOperationFailureReason TakeOver = ''takeover_failed''"
| "RequestOperationFailureReason List = ''list_failed''"
| "RequestOperationFailureReason Forget = ''forget_failed''"
| "RequestOperationFailureReason Delete = ''delete_failed''"
| "RequestOperationFailureReason _ = ''invalid_request''"

lemma starts_with_iff: "starts_with p v \<longleftrightarrow> (\<exists>t. v = p @ t)"
  by (metis append_eq_conv_conj starts_with_def)

text \<open>A logon SID is the prefix and two numbers.\<close>

lemma IsLogonSid_iff:
  "IsLogonSid v \<longleftrightarrow> (\<exists>a b. v = logon_prefix @ a @ WCHR CHR ''-'' # b \<and> a \<noteq> [] \<and> b \<noteq> []
     \<and> isDecimal a \<and> isDecimal b)"
proof
  assume "IsLogonSid v"
  then obtain t n where t: "v = logon_prefix @ t" "find_first (WCHR CHR ''-'') t = Some n"
    "n \<noteq> 0" "n + 1 \<noteq> length t" "isDecimal (take n t)" "isDecimal (drop (n + 1) t)"
    by (auto simp: IsLogonSid_def Let_def starts_with_iff split: if_splits option.splits)
  from find_first_Some[OF t(2)] have "t = take n t @ WCHR CHR ''-'' # drop (n + 1) t" "n < length t"
    using id_take_nth_drop[of n t] by simp_all
  with t show "\<exists>a b. v = logon_prefix @ a @ WCHR CHR ''-'' # b \<and> a \<noteq> [] \<and> b \<noteq> []
      \<and> isDecimal a \<and> isDecimal b"
    by (intro exI[of _ "take n t"] exI[of _ "drop (n + 1) t"]) auto
next
  assume "\<exists>a b. v = logon_prefix @ a @ WCHR CHR ''-'' # b \<and> a \<noteq> [] \<and> b \<noteq> []
      \<and> isDecimal a \<and> isDecimal b"
  then obtain a b where v: "v = logon_prefix @ a @ WCHR CHR ''-'' # b" "a \<noteq> []" "b \<noteq> []"
    "isDecimal a" "isDecimal b" by blast
  have "WCHR CHR ''-'' \<notin> set w" if "isDecimal w" for w
    using that by (force simp: isDecimal_def list_all_iff word_le_nat_alt)
  moreover from this have "find_first (WCHR CHR ''-'') (a @ WCHR CHR ''-'' # b) = Some (length a)"
    using v(4) by (induction a) (auto simp: isDecimal_def)
  ultimately show "IsLogonSid v"
    using v by (auto simp: IsLogonSid_def Let_def starts_with_iff)
qed

section \<open>Nested objects\<close>

record ConsoleReader = ConsoleRequest +
  pipeIn_seen :: bool
  pipeOut_seen :: bool
  pipeResize_seen :: bool
  inheritCursor_seen :: bool

definition ReadConsole_field :: "(string \<Rightarrow> wstring option) \<Rightarrow> ConsoleReader read_field" where
  "ReadConsole_field mb s name r =
     (if name = wide ''pipeIn'' then
        read_once (pipeIn_seen s) (JsonReader_String mb) (\<lambda>_. True)
          (\<lambda>v. s\<lparr>pipeIn := v, pipeIn_seen := True\<rparr>) r
      else if name = wide ''pipeOut'' then
        read_once (pipeOut_seen s) (JsonReader_String mb) (\<lambda>_. True)
          (\<lambda>v. s\<lparr>pipeOut := v, pipeOut_seen := True\<rparr>) r
      else if name = wide ''pipeResize'' then
        read_once (pipeResize_seen s) (JsonReader_String mb) (\<lambda>_. True)
          (\<lambda>v. s\<lparr>pipeResize := v, pipeResize_seen := True\<rparr>) r
      else if name = wide ''inheritCursor'' then
        read_once (inheritCursor_seen s) JsonReader_Boolean (\<lambda>_. True)
          (\<lambda>v. s\<lparr>inheritCursor := v, inheritCursor_seen := True\<rparr>) r
      else None)"

definition ReadConsole ::
  "(string \<Rightarrow> wstring option) \<Rightarrow> ConsoleRequest \<Rightarrow> string \<Rightarrow> (ConsoleRequest \<times> string) option"
where
  "ReadConsole mb c r =
     (case ReadObject mb (ReadConsole_field mb)
             (ConsoleRequest.extend c (ConsoleReader.fields False False False False)) r of
        None \<Rightarrow> None
      | Some (s, r') \<Rightarrow> if pipeIn_seen s \<and> pipeOut_seen s \<and> pipeResize_seen s
                         then Some (ConsoleRequest.truncate s, r') else None)"

record InteractiveLaunchReader = InteractiveLaunchRequest +
  leasePipe_seen :: bool
  nonce_seen :: bool

definition ReadInteractiveLaunch_field ::
  "(string \<Rightarrow> wstring option) \<Rightarrow> InteractiveLaunchReader read_field"
where
  "ReadInteractiveLaunch_field mb s name r =
     (if name = wide ''leasePipe'' then
        read_once (leasePipe_seen s) (JsonReader_String mb) (\<lambda>_. True)
          (\<lambda>v. s\<lparr>leasePipe := v, leasePipe_seen := True\<rparr>) r
      else if name = wide ''nonce'' then
        read_once (nonce_seen s) (JsonReader_String mb) (\<lambda>_. True)
          (\<lambda>v. s\<lparr>nonce := v, nonce_seen := True\<rparr>) r
      else None)"

definition ReadInteractiveLaunch ::
  "(string \<Rightarrow> wstring option) \<Rightarrow> InteractiveLaunchRequest \<Rightarrow> string
     \<Rightarrow> (InteractiveLaunchRequest \<times> string) option"
where
  "ReadInteractiveLaunch mb i r =
     (case ReadObject mb (ReadInteractiveLaunch_field mb)
             (InteractiveLaunchRequest.extend i (InteractiveLaunchReader.fields False False)) r of
        None \<Rightarrow> None
      | Some (s, r') \<Rightarrow> if leasePipe_seen s \<and> nonce_seen s
                         then Some (InteractiveLaunchRequest.truncate s, r') else None)"

section \<open>ParseBrokerRequest\<close>

datatype LaunchMode = Missing | Console | Interactive

record RequestReader = BrokerRequest +
  operationName :: wstring
  launchMode :: LaunchMode
  version_seen :: bool
  requestId_seen :: bool
  operation_seen :: bool
  profile_seen :: bool
  mode_seen :: bool
  arguments_seen :: bool
  workingDirectory_seen :: bool
  console_seen :: bool
  interactive_seen :: bool
  force_seen :: bool
  restrictAccess_seen :: bool
  lowIntegrity_seen :: bool
  log_seen :: bool
  appContainer_seen :: bool
  capabilities_seen :: bool

definition RequestReader_start :: RequestReader where
  "RequestReader_start = BrokerRequest.extend BrokerRequest_default
     (RequestReader.fields [] Missing False False False False False False False False False False
        False False False False False)"

definition LaunchMode_of :: "wstring \<Rightarrow> LaunchMode" where
  "LaunchMode_of v = (if v = wide ''console'' then Console
     else if v = wide ''interactive'' then Interactive else Missing)"

definition ParseBrokerRequest_field :: "(string \<Rightarrow> wstring option) \<Rightarrow> RequestReader read_field"
where
  "ParseBrokerRequest_field mb s name r =
     (if name = wide ''version'' then
        read_once (version_seen s) JsonReader_Unsigned (\<lambda>v. v = 1) (\<lambda>v. s\<lparr>version_seen := True\<rparr>) r
      else if name = wide ''requestId'' then
        read_once (requestId_seen s) (JsonReader_String mb) IsRequestId
          (\<lambda>v. s\<lparr>requestId := v, requestId_seen := True\<rparr>) r
      else if name = wide ''operation'' then
        read_once (operation_seen s) (JsonReader_String mb) (\<lambda>_. True)
          (\<lambda>v. s\<lparr>operationName := v, operation_seen := True\<rparr>) r
      else if name = wide ''profileId'' then
        read_once (profile_seen s) (JsonReader_String mb) IsValidProfileId
          (\<lambda>v. s\<lparr>profileId := v, profile_seen := True\<rparr>) r
      else if name = wide ''mode'' then
        read_once (mode_seen s) (JsonReader_String mb) (\<lambda>v. LaunchMode_of v \<noteq> Missing)
          (\<lambda>v. s\<lparr>launchMode := LaunchMode_of v, mode_seen := True\<rparr>) r
      else if name = wide ''arguments'' then
        read_once (arguments_seen s)
          (ReadStringArray mb (\<lambda>v. length v \<le> 8 * 1024) (arguments s)) (\<lambda>_. True)
          (\<lambda>v. s\<lparr>arguments := v, arguments_seen := True\<rparr>) r
      else if name = wide ''workingDirectory'' then
        read_once (workingDirectory_seen s) (JsonReader_String mb)
          (\<lambda>v. v \<noteq> [] \<and> length v \<le> 32 * 1024)
          (\<lambda>v. s\<lparr>workingDirectory := v, workingDirectory_seen := True\<rparr>) r
      else if name = wide ''console'' then
        read_once (console_seen s) (ReadConsole mb (console s)) (\<lambda>_. True)
          (\<lambda>v. s\<lparr>console := v, console_seen := True\<rparr>) r
      else if name = wide ''interactive'' then
        read_once (interactive_seen s) (ReadInteractiveLaunch mb (interactive s)) (\<lambda>_. True)
          (\<lambda>v. s\<lparr>interactive := v, interactive_seen := True\<rparr>) r
      else if name = wide ''force'' then
        read_once (force_seen s) JsonReader_Boolean (\<lambda>_. True)
          (\<lambda>v. s\<lparr>force := v, force_seen := True\<rparr>) r
      else if name = wide ''restrictAccess'' then
        read_once (restrictAccess_seen s) JsonReader_Boolean (\<lambda>_. True)
          (\<lambda>v. s\<lparr>restrictAccess := v, restrictAccess_seen := True\<rparr>) r
      else if name = wide ''lowIntegrity'' then
        read_once (lowIntegrity_seen s) JsonReader_Boolean (\<lambda>_. True)
          (\<lambda>v. s\<lparr>lowIntegrity := v, lowIntegrity_seen := True\<rparr>) r
      else if name = wide ''log'' then
        read_once (log_seen s) JsonReader_Boolean (\<lambda>_. True)
          (\<lambda>v. s\<lparr>log_access := v, log_seen := True\<rparr>) r
      else if name = wide ''appContainer'' then
        read_once (appContainer_seen s) JsonReader_Boolean (\<lambda>_. True)
          (\<lambda>v. s\<lparr>appContainer := (appContainer s)\<lparr>enabled := v\<rparr>, appContainer_seen := True\<rparr>) r
      else if name = wide ''capabilities'' then
        read_once (capabilities_seen s)
          (ReadStringArray mb IsAppContainerCapability (capabilities (appContainer s))) (\<lambda>_. True)
          (\<lambda>v. s\<lparr>appContainer := (appContainer s)\<lparr>capabilities := v\<rparr>,
                 capabilities_seen := True\<rparr>) r
      else None)"

text \<open>The checks after the object, in the order of the source.\<close>

definition FinishBrokerRequest :: "RequestReader \<Rightarrow> BrokerRequest option" where
  "FinishBrokerRequest s =
     (if \<not> version_seen s \<or> \<not> requestId_seen s \<or> \<not> operation_seen s
        \<or> \<not> IsValidAppContainerOptions (appContainer s)
        \<or> (capabilities_seen s \<and> \<not> enabled (appContainer s))
        \<or> (enabled (appContainer s) \<and> (lowIntegrity s \<or> restrictAccess s)) then None
      else if operationName s = wide ''list'' then
        (if profile_seen s \<or> mode_seen s \<or> arguments_seen s \<or> workingDirectory_seen s
           \<or> console_seen s \<or> interactive_seen s \<or> force_seen s \<or> restrictAccess_seen s
           \<or> lowIntegrity_seen s \<or> log_seen s \<or> appContainer_seen s \<or> capabilities_seen s then None
         else Some ((BrokerRequest.truncate s)\<lparr>operation := List\<rparr>))
      else if \<not> profile_seen s \<or> (force_seen s \<and> operationName s \<noteq> wide ''takeover'') then None
      else if operationName s = wide ''create'' \<or> operationName s = wide ''takeover''
        \<or> operationName s = wide ''forget'' \<or> operationName s = wide ''delete'' then
        (if mode_seen s \<or> arguments_seen s \<or> workingDirectory_seen s \<or> console_seen s
           \<or> interactive_seen s \<or> restrictAccess_seen s \<or> lowIntegrity_seen s \<or> log_seen s
           \<or> appContainer_seen s \<or> capabilities_seen s then None
         else Some ((BrokerRequest.truncate s)\<lparr>operation :=
           if operationName s = wide ''create'' then Create
           else if operationName s = wide ''takeover'' then TakeOver
           else if operationName s = wide ''forget'' then Forget else Delete\<rparr>))
      else if operationName s \<noteq> wide ''launch'' \<or> \<not> arguments_seen s \<or> \<not> workingDirectory_seen s
      then None
      else if launchMode s = Interactive then
        (if appContainer_seen s \<or> capabilities_seen s \<or> console_seen s \<or> \<not> interactive_seen s
           \<or> \<not> IsInteractiveLeasePipeName (leasePipe (interactive s))
           \<or> \<not> IsRequestId (nonce (interactive s)) then None
         else Some ((BrokerRequest.truncate s)\<lparr>operation := InteractiveLaunch\<rparr>))
      else if launchMode s \<noteq> Console \<or> \<not> console_seen s \<or> interactive_seen s
        \<or> \<not> IsConsolePipeName (pipeIn (console s)) \<or> \<not> IsConsolePipeName (pipeOut (console s))
        \<or> \<not> IsConsolePipeName (pipeResize (console s))
        \<or> pipeIn (console s) = pipeOut (console s) \<or> pipeIn (console s) = pipeResize (console s)
        \<or> pipeOut (console s) = pipeResize (console s) then None
      else Some ((BrokerRequest.truncate s)\<lparr>operation := ConsoleLaunch\<rparr>))"

definition ParseBrokerRequest :: "(string \<Rightarrow> wstring option) \<Rightarrow> string \<Rightarrow> BrokerRequest option" where
  "ParseBrokerRequest mb message =
     (if message = [] \<or> length message > MaximumMessageBytes then None
      else (case ReadObject mb (ParseBrokerRequest_field mb) RequestReader_start message of
              None \<Rightarrow> None
            | Some (s, rest) \<Rightarrow> if \<not> JsonReader_End rest then None else FinishBrokerRequest s))"

section \<open>Builders\<close>

definition BuildManagementRequest :: "RequestOperation \<Rightarrow> wstring \<Rightarrow> wstring \<Rightarrow> bool \<Rightarrow> string" where
  "BuildManagementRequest op rid pid with_force =
     (let request = AppendJsonString (''{'' @ key ''version'' @ ''1,'' @ key ''requestId'') rid;
          request = AppendJsonString (request @ '','' @ key ''operation'')
                      (wide (RequestOperationName op));
          request = (if op \<noteq> List then AppendJsonString (request @ '','' @ key ''profileId'') pid
                     else request);
          request = (if with_force then request @ '','' @ key ''force'' @ ''true'' else request)
      in request @ ''}'')"

text \<open>The loop that appends an array's elements, with a comma before all but the first.\<close>

definition AppendJsonStrings :: "string \<Rightarrow> wstring list \<Rightarrow> string" where
  "AppendJsonStrings request values =
     foldl (\<lambda>out (index, v). AppendJsonString (if index \<noteq> 0 then out @ '','' else out) v)
       request (enumerate 0 values)"

definition BeginLaunchRequest ::
  "(wstring \<Rightarrow> string option) \<Rightarrow> wstring \<Rightarrow> wstring \<Rightarrow> string \<Rightarrow> wstring list \<Rightarrow> wstring \<Rightarrow> string option"
where
  "BeginLaunchRequest wc rid pid mode args cwd =
     (if rid = [] \<or> pid = [] \<or> args = [] \<or> cwd = [] \<or> \<not> IsValidUtf16 wc rid
        \<or> \<not> IsValidUtf16 wc pid \<or> \<not> IsValidUtf16 wc cwd \<or> \<not> list_all (IsValidUtf16 wc) args then None
      else
        (let request = AppendJsonString (''{'' @ key ''version'' @ ''1,'' @ key ''requestId'') rid;
             request = AppendJsonString (request @ '','' @ key ''operation'' @ DQ # ''launch''
                         @ DQ # '','' @ key ''profileId'') pid;
             request = request @ '','' @ key ''mode'' @ [DQ];
             request = request @ mode;
             request = AppendJsonStrings (request @ DQ # '','' @ key ''arguments'' @ ''['') args
         in Some (AppendJsonString (request @ ''],'' @ key ''workingDirectory'') cwd)))"

definition BuildConsoleLaunchRequest ::
  "(wstring \<Rightarrow> string option) \<Rightarrow> wstring \<Rightarrow> wstring \<Rightarrow> wstring list \<Rightarrow> wstring \<Rightarrow> ConsoleRequest
     \<Rightarrow> bool \<Rightarrow> bool \<Rightarrow> bool \<Rightarrow> AppContainerOptions \<Rightarrow> string option"
where
  "BuildConsoleLaunchRequest wc rid pid args cwd con restrict low log_on app =
     (if \<not> IsValidAppContainerOptions app \<or> (enabled app \<and> (restrict \<or> low)) \<or> pipeIn con = []
        \<or> pipeOut con = [] \<or> pipeResize con = [] \<or> \<not> IsValidUtf16 wc (pipeIn con)
        \<or> \<not> IsValidUtf16 wc (pipeOut con) \<or> \<not> IsValidUtf16 wc (pipeResize con) then None
      else (case BeginLaunchRequest wc rid pid ''console'' args cwd of
              None \<Rightarrow> None
            | Some request \<Rightarrow>
                let request = (if log_on then request @ '','' @ key ''log'' @ ''true'' else request);
                    request = (if restrict then request @ '','' @ key ''restrictAccess'' @ ''true''
                               else request);
                    request = (if low then request @ '','' @ key ''lowIntegrity'' @ ''true''
                               else request);
                    request = (if enabled app then
                        AppendJsonStrings (request @ '','' @ key ''appContainer'' @ ''true,''
                          @ key ''capabilities'' @ ''['') (capabilities app) @ '']''
                      else request);
                    request = AppendJsonString (request @ '','' @ key ''console'' @ ''{''
                                @ key ''pipeIn'') (pipeIn con);
                    request = AppendJsonString (request @ '','' @ key ''pipeOut'') (pipeOut con);
                    request = AppendJsonString (request @ '','' @ key ''pipeResize'') (pipeResize con);
                    request = request @ '','' @ key ''inheritCursor'';
                    request = request @ (if inheritCursor con then ''true}}'' else ''false}}'')
                in if length request \<le> MaximumMessageBytes then Some request else None))"

definition BuildInteractiveLaunchRequest ::
  "(wstring \<Rightarrow> string option) \<Rightarrow> wstring \<Rightarrow> wstring \<Rightarrow> wstring list \<Rightarrow> wstring
     \<Rightarrow> InteractiveLaunchRequest \<Rightarrow> bool \<Rightarrow> bool \<Rightarrow> bool \<Rightarrow> string option"
where
  "BuildInteractiveLaunchRequest wc rid pid args cwd lease restrict low log_on =
     (if leasePipe lease = [] \<or> nonce lease = [] \<or> \<not> IsValidUtf16 wc (leasePipe lease)
        \<or> \<not> IsValidUtf16 wc (nonce lease) then None
      else (case BeginLaunchRequest wc rid pid ''interactive'' args cwd of
              None \<Rightarrow> None
            | Some request \<Rightarrow>
                let request = (if log_on then request @ '','' @ key ''log'' @ ''true'' else request);
                    request = (if restrict then request @ '','' @ key ''restrictAccess'' @ ''true''
                               else request);
                    request = (if low then request @ '','' @ key ''lowIntegrity'' @ ''true''
                               else request);
                    request = AppendJsonString (request @ '','' @ key ''interactive'' @ ''{''
                                @ key ''leasePipe'') (leasePipe lease);
                    request = AppendJsonString (request @ '','' @ key ''nonce'') (nonce lease);
                    request = request @ ''}}''
                in if length request \<le> MaximumMessageBytes then Some request else None))"

section \<open>The field readers meet their contract\<close>

lemma IsRequestId_length: "IsRequestId v \<Longrightarrow> length v = 36"
  by (simp add: IsRequestId_def)

interpretation console_reader: field_reader "ReadConsole_field mb" for mb
  by unfold_locales
    (auto simp: ReadConsole_field_def split: if_splits dest: reader_lengths intro: less_imp_le)

interpretation interactive_reader: field_reader "ReadInteractiveLaunch_field mb" for mb
  by unfold_locales
    (auto simp: ReadInteractiveLaunch_field_def split: if_splits
      dest: reader_lengths intro: less_imp_le)

lemma ReadConsole_length: "ReadConsole mb c r = Some (c', r') \<Longrightarrow> length r' < length r"
  by (auto simp: ReadConsole_def split: option.splits if_splits
      dest: console_reader.ReadObject_length)

lemma ReadInteractiveLaunch_length:
  "ReadInteractiveLaunch mb c r = Some (c', r') \<Longrightarrow> length r' < length r"
  by (auto simp: ReadInteractiveLaunch_def split: option.splits if_splits
      dest: interactive_reader.ReadObject_length)

interpretation request_reader: field_reader "ParseBrokerRequest_field mb" for mb
  by unfold_locales
    (auto simp: ParseBrokerRequest_field_def split: if_splits
      dest: reader_lengths ReadConsole_length ReadInteractiveLaunch_length intro: less_imp_le)

section \<open>What the parser accepts\<close>

text \<open>
  \<open>valid_request\<close> is the contract of a parsed request: the identifiers are well formed, the sizes
  bounded, and a member that the operation does not use has its default value.
\<close>

definition valid_launch :: "BrokerRequest \<Rightarrow> bool" where
  "valid_launch r \<longleftrightarrow> IsValidProfileId (profileId r) \<and> \<not> force r
     \<and> length (arguments r) \<le> MaximumArguments
     \<and> list_all (\<lambda>a. length a \<le> 8 * 1024) (arguments r)
     \<and> workingDirectory r \<noteq> [] \<and> length (workingDirectory r) \<le> 32 * 1024"

definition valid_request :: "BrokerRequest \<Rightarrow> bool" where
  "valid_request r \<longleftrightarrow> IsRequestId (requestId r) \<and>
     (case operation r of
        List \<Rightarrow> r = BrokerRequest_default\<lparr>requestId := requestId r, operation := List\<rparr>
      | ConsoleLaunch \<Rightarrow> valid_launch r \<and> interactive r = InteractiveLaunchRequest_default
          \<and> IsValidAppContainerOptions (appContainer r)
          \<and> (enabled (appContainer r) \<longrightarrow> \<not> lowIntegrity r \<and> \<not> restrictAccess r)
          \<and> list_all IsConsolePipeName
               [pipeIn (console r), pipeOut (console r), pipeResize (console r)]
          \<and> distinct [pipeIn (console r), pipeOut (console r), pipeResize (console r)]
      | InteractiveLaunch \<Rightarrow> valid_launch r \<and> console r = ConsoleRequest_default
          \<and> appContainer r = AppContainerOptions_default
          \<and> IsInteractiveLeasePipeName (leasePipe (interactive r))
          \<and> IsRequestId (nonce (interactive r))
      | op \<Rightarrow> IsValidProfileId (profileId r)
          \<and> r = BrokerRequest_default\<lparr>requestId := requestId r, operation := op,
                profileId := profileId r, force := force r\<rparr>
          \<and> (force r \<longrightarrow> op = TakeOver))"

text \<open>The invariant of the field reader: a member not yet seen is at its default.\<close>

definition reader_invariant :: "RequestReader \<Rightarrow> bool" where
  "reader_invariant s \<longleftrightarrow> operation s = ConsoleLaunch
     \<and> (requestId_seen s \<longrightarrow> IsRequestId (requestId s))
     \<and> (profile_seen s \<longrightarrow> IsValidProfileId (profileId s))
     \<and> (\<not> profile_seen s \<longrightarrow> profileId s = [])
     \<and> (arguments_seen s \<longrightarrow> length (arguments s) \<le> MaximumArguments
           \<and> list_all (\<lambda>a. length a \<le> 8 * 1024) (arguments s))
     \<and> (\<not> arguments_seen s \<longrightarrow> arguments s = [])
     \<and> (workingDirectory_seen s \<longrightarrow> workingDirectory s \<noteq> []
           \<and> length (workingDirectory s) \<le> 32 * 1024)
     \<and> (\<not> workingDirectory_seen s \<longrightarrow> workingDirectory s = [])
     \<and> (\<not> console_seen s \<longrightarrow> console s = ConsoleRequest_default)
     \<and> (\<not> interactive_seen s \<longrightarrow> interactive s = InteractiveLaunchRequest_default)
     \<and> (\<not> force_seen s \<longrightarrow> \<not> force s) \<and> (\<not> restrictAccess_seen s \<longrightarrow> \<not> restrictAccess s)
     \<and> (\<not> lowIntegrity_seen s \<longrightarrow> \<not> lowIntegrity s) \<and> (\<not> log_seen s \<longrightarrow> \<not> log_access s)
     \<and> (\<not> appContainer_seen s \<longrightarrow> \<not> enabled (appContainer s))
     \<and> (\<not> capabilities_seen s \<longrightarrow> capabilities (appContainer s) = [])"

lemma RequestReader_start_simps [simp]:
  "\<not> version_seen RequestReader_start" "\<not> requestId_seen RequestReader_start"
  "\<not> operation_seen RequestReader_start" "\<not> profile_seen RequestReader_start"
  "\<not> mode_seen RequestReader_start" "\<not> arguments_seen RequestReader_start"
  "\<not> workingDirectory_seen RequestReader_start" "\<not> console_seen RequestReader_start"
  "\<not> interactive_seen RequestReader_start" "\<not> force_seen RequestReader_start"
  "\<not> restrictAccess_seen RequestReader_start" "\<not> lowIntegrity_seen RequestReader_start"
  "\<not> log_seen RequestReader_start" "\<not> appContainer_seen RequestReader_start"
  "\<not> capabilities_seen RequestReader_start" "arguments RequestReader_start = []"
  "appContainer RequestReader_start = AppContainerOptions_default"
  "console RequestReader_start = ConsoleRequest_default"
  "interactive RequestReader_start = InteractiveLaunchRequest_default"
  "BrokerRequest.truncate RequestReader_start = BrokerRequest_default"
  by (simp_all add: RequestReader_start_def BrokerRequest.defs RequestReader.defs
      BrokerRequest_default_def)

lemma reader_invariant_start: "reader_invariant RequestReader_start"
  by (simp add: reader_invariant_def RequestReader_start_def BrokerRequest.defs RequestReader.defs
      BrokerRequest_default_def AppContainerOptions_default_def)

lemma reader_invariant_step:
  assumes "reader_invariant s" and "ParseBrokerRequest_field mb s name r = Some (s', r')"
  shows "reader_invariant s'"
proof -
  have array: "length ws \<le> MaximumArguments \<and> list_all (\<lambda>a. length a \<le> 8 * 1024) ws"
    if "ReadStringArray mb (\<lambda>v. length v \<le> 8 * 1024) (arguments s) r = Some (ws, r')"
      and "\<not> arguments_seen s" for ws
    using ReadStringArray_bound[of mb "\<lambda>v. length v \<le> 8 * 1024" r ws r'] that assms(1)
    by (simp add: reader_invariant_def)
  note inv = assms(1)[unfolded reader_invariant_def]
  from assms(2) show ?thesis
    unfolding ParseBrokerRequest_field_def
    by (simp only: option.distinct split: if_split_asm;
        elim read_once_SomeE; use inv array in \<open>simp add: reader_invariant_def\<close>)
qed

lemma FinishBrokerRequest_valid:
  assumes inv: "reader_invariant s" and fin: "FinishBrokerRequest s = Some request"
  shows "valid_request request"
proof -
  note i = inv[unfolded reader_invariant_def]
  from fin show ?thesis
    unfolding FinishBrokerRequest_def
    by (simp only: option.distinct option.inject de_Morgan_disj not_not split: if_split_asm;
        use i in \<open>auto simp: valid_request_def valid_launch_def BrokerRequest.defs
          BrokerRequest_default_def AppContainerOptions_default_def\<close>)
qed

lemma ParseBrokerRequest_Some:
  assumes "ParseBrokerRequest mb message = Some request"
  obtains s where "reader_invariant s" "FinishBrokerRequest s = Some request"
    "message \<noteq> []" "length message \<le> MaximumMessageBytes"
proof -
  from assms obtain s rest where
    read: "ReadObject mb (ParseBrokerRequest_field mb) RequestReader_start message = Some (s, rest)"
    and fin: "FinishBrokerRequest s = Some request"
    and size: "message \<noteq> []" "length message \<le> MaximumMessageBytes"
    by (auto simp: ParseBrokerRequest_def split: if_splits option.splits)
  have "reader_invariant s"
    using reader_invariant_step reader_invariant_start read by (rule ReadObject_invariant)
  with fin size show ?thesis by (intro that)
qed

section \<open>The builders write objects\<close>

lemma AppendJsonStrings_eq: "AppendJsonStrings out ws = out @ members (map json_string ws)"
proof -
  have tail: "foldl (\<lambda>out (index, v). AppendJsonString (if index \<noteq> 0 then out @ '','' else out) v)
      out (enumerate (Suc n) ws) = out @ concat (map (\<lambda>w. '','' @ json_string w) ws)" for n out ws
    by (induction ws arbitrary: n out) (simp_all add: AppendJsonString_json_string)
  have commas: "members (json_string w # map json_string ws)
      = json_string w @ concat (map (\<lambda>w. '','' @ json_string w) ws)" for w ws
    by (induction ws arbitrary: w) simp_all
  show ?thesis
    by (cases ws)
      (use tail[of _ 0] in \<open>simp_all add: AppendJsonStrings_def commas[simplified]
        AppendJsonString_json_string\<close>)
qed

definition quoted :: "string \<Rightarrow> string" where
  "quoted s = DQ # s @ [DQ]"

definition launch_members ::
  "wstring \<Rightarrow> wstring \<Rightarrow> string \<Rightarrow> wstring list \<Rightarrow> wstring \<Rightarrow> (string \<times> string) list"
where
  "launch_members rid pid mode args cwd =
     [(''version'', ''1''), (''requestId'', json_string rid), (''operation'', quoted ''launch''),
      (''profileId'', json_string pid), (''mode'', quoted mode), (''arguments'', array_text args),
      (''workingDirectory'', json_string cwd)]"

definition console_text :: "ConsoleRequest \<Rightarrow> string" where
  "console_text con = object_text
     [(''pipeIn'', json_string (pipeIn con)), (''pipeOut'', json_string (pipeOut con)),
      (''pipeResize'', json_string (pipeResize con)), (''inheritCursor'', bool_text (inheritCursor con))]"

definition interactive_text :: "InteractiveLaunchRequest \<Rightarrow> string" where
  "interactive_text lease = object_text
     [(''leasePipe'', json_string (leasePipe lease)), (''nonce'', json_string (nonce lease))]"

definition option_members :: "bool \<Rightarrow> bool \<Rightarrow> bool \<Rightarrow> (string \<times> string) list" where
  "option_members restrict low log_on = optional log_on (''log'', ''true'')
     @ optional restrict (''restrictAccess'', ''true'') @ optional low (''lowIntegrity'', ''true'')"

definition container_members :: "AppContainerOptions \<Rightarrow> (string \<times> string) list" where
  "container_members app = (if enabled app then
     [(''appContainer'', ''true''), (''capabilities'', array_text (capabilities app))] else [])"

lemmas text_simps = AppendJsonString_json_string AppendJsonStrings_eq object_text_def member_def
  members_Cons members_append optional_def quoted_def array_text_def bool_text_def

lemma BeginLaunchRequest_eq:
  "BeginLaunchRequest wc rid pid mode args cwd =
     (if rid = [] \<or> pid = [] \<or> args = [] \<or> cwd = [] \<or> \<not> IsValidUtf16 wc rid
        \<or> \<not> IsValidUtf16 wc pid \<or> \<not> IsValidUtf16 wc cwd \<or> \<not> list_all (IsValidUtf16 wc) args
      then None
      else Some (''{'' @ members (map (\<lambda>(n, v). member n v) (launch_members rid pid mode args cwd))))"
  by (simp add: BeginLaunchRequest_def launch_members_def text_simps Let_def)

lemma BuildConsoleLaunchRequest_Some:
  assumes "BuildConsoleLaunchRequest wc rid pid args cwd con restrict low log_on app = Some message"
  shows "message = object_text (launch_members rid pid ''console'' args cwd
      @ option_members restrict low log_on @ container_members app @ [(''console'', console_text con)])"
    and "args \<noteq> []" and "cwd \<noteq> []" and "list_all (IsValidUtf16 wc) (rid # pid # cwd # args)"
    and "list_all (IsValidUtf16 wc) [pipeIn con, pipeOut con, pipeResize con]"
    and "IsValidAppContainerOptions app" and "enabled app \<longrightarrow> \<not> restrict \<and> \<not> low"
    and "length message \<le> MaximumMessageBytes"
  using assms
  by (auto simp: BuildConsoleLaunchRequest_def BeginLaunchRequest_eq Let_def option_members_def
      container_members_def console_text_def launch_members_def text_simps split: if_splits)

lemma BuildInteractiveLaunchRequest_Some:
  assumes "BuildInteractiveLaunchRequest wc rid pid args cwd lease restrict low log_on = Some message"
  shows "message = object_text (launch_members rid pid ''interactive'' args cwd
      @ option_members restrict low log_on @ [(''interactive'', interactive_text lease)])"
    and "args \<noteq> []" and "cwd \<noteq> []" and "list_all (IsValidUtf16 wc) (rid # pid # cwd # args)"
    and "list_all (IsValidUtf16 wc) [leasePipe lease, nonce lease]"
    and "length message \<le> MaximumMessageBytes"
  using assms
  by (auto simp: BuildInteractiveLaunchRequest_def BeginLaunchRequest_eq Let_def option_members_def
      interactive_text_def launch_members_def text_simps split: if_splits)

lemma BuildManagementRequest_eq:
  "BuildManagementRequest op rid pid with_force = object_text
     ([(''version'', ''1''), (''requestId'', json_string rid),
       (''operation'', json_string (wide (RequestOperationName op)))]
      @ optional (op \<noteq> List) (''profileId'', json_string pid)
      @ optional with_force (''force'', ''true''))"
  by (simp add: BuildManagementRequest_def text_simps Let_def)

section \<open>What is written is read back\<close>

lemma Unsigned_one [simp, read_back]:
  "d = CHR '','' \<or> d = CHR ''}'' \<Longrightarrow> JsonReader_Unsigned (CHR ''1'' # d # rest) = Some (1, d # rest)"
  using Unsigned_to_string[of d 1 rest]
  by (auto simp: to_string_def decimal.simps is_digit_def char_of_eq_iff
      intro: back_subst[of "\<lambda>c. JsonReader_Unsigned (c # _) = _"])

lemma Boolean_true [simp, read_back]:
  "JsonReader_Boolean (CHR ''t'' # CHR ''r'' # CHR ''u'' # CHR ''e'' # rest) = Some (True, rest)"
  using Boolean_bool_text[of True rest] by (simp add: bool_text_def del: Boolean_bool_text)

lemma hex_digit_ascii: "hex_digit c \<Longrightarrow> c < 0x80"
  by (auto simp: hex_digit_def word_less_nat_alt word_le_nat_alt)

lemma IsRequestId_readable: "IsRequestId v \<Longrightarrow> readable v"
proof (rule readable_ascii_word)
  assume "IsRequestId v"
  then have "v ! n = WCHR CHR ''-'' \<or> hex_digit (v ! n)" if "n < length v" for n
    using that unfolding IsRequestId_def list_all_enumerate by (force split: if_splits)
  then show "list_all (\<lambda>c. c < 0x80) v"
    by (fastforce simp: list_all_length dest: hex_digit_ascii)
qed (simp add: IsRequestId_length)

lemma IsConsolePipeName_readable: "IsConsolePipeName v \<Longrightarrow> well_formed_utf16 v \<Longrightarrow> readable v"
  by (simp add: readable_def IsConsolePipeName_def)

lemma IsInteractiveLeasePipeName_readable:
  "IsInteractiveLeasePipeName v \<Longrightarrow> well_formed_utf16 v \<Longrightarrow> readable v"
  by (simp add: readable_def IsInteractiveLeasePipeName_def)

lemma IsValidProfileId_readable: "IsValidProfileId v \<Longrightarrow> well_formed_utf16 v \<Longrightarrow> readable v"
  by (simp add: readable_def IsValidProfileId_def)

lemma IsAppContainerCapability_readable: "IsAppContainerCapability v \<Longrightarrow> readable v"
proof (rule readable_ascii_word)
  assume "IsAppContainerCapability v"
  then show "list_all (\<lambda>c. c < 0x80) v"
    by (auto simp: IsAppContainerCapability_def list_all_iff word_less_nat_alt word_le_nat_alt)
qed (simp add: IsAppContainerCapability_def)

lemma IsValidAppContainerOptions_capability:
  "IsValidAppContainerOptions app \<Longrightarrow>
     list_all IsAppContainerCapability (capabilities app) \<and> length (capabilities app) \<le> 32"
  by (auto simp: IsValidAppContainerOptions_def list_all_enumerate split: if_splits)
    (simp add: list_all_length)

text \<open>The initial state after the members common to both launch modes.\<close>

definition launch_read :: "wstring \<Rightarrow> wstring \<Rightarrow> LaunchMode \<Rightarrow> wstring list \<Rightarrow> wstring \<Rightarrow> RequestReader"
where
  "launch_read rid pid mode args cwd = RequestReader_start
     \<lparr>version_seen := True, requestId := rid, requestId_seen := True,
      operationName := wide ''launch'', operation_seen := True,
      profileId := pid, profile_seen := True, launchMode := mode, mode_seen := True,
      arguments := args, arguments_seen := True,
      workingDirectory := cwd, workingDirectory_seen := True\<rparr>"

definition options_read :: "bool \<Rightarrow> bool \<Rightarrow> bool \<Rightarrow> RequestReader \<Rightarrow> RequestReader" where
  "options_read restrict low log_on s = s
     \<lparr>restrictAccess := restrict, restrictAccess_seen := restrict, lowIntegrity := low,
      lowIntegrity_seen := low, log_access := log_on, log_seen := log_on\<rparr>"

definition container_read :: "AppContainerOptions \<Rightarrow> RequestReader \<Rightarrow> RequestReader" where
  "container_read app s = s
     \<lparr>appContainer := app, appContainer_seen := enabled app, capabilities_seen := enabled app\<rparr>"

context windows_utf
begin

lemma String_quoted [read_back]: "plain s \<Longrightarrow>
    JsonReader_String MultiByteToWideChar (quoted s @ rest) = Some (wide s, rest)"
  by (simp add: quoted_def String_plain)

lemma reads_launch:
  assumes "IsRequestId rid" "readable rid" "IsValidProfileId pid" "readable pid"
    and "mode = ''console'' \<or> mode = ''interactive''"
    and "list_all readable args" "list_all (\<lambda>a. length a \<le> 8 * 1024) args"
    and "length args \<le> MaximumArguments"
    and "readable cwd" "cwd \<noteq> []" "length cwd \<le> 32 * 1024"
  shows "reads (ParseBrokerRequest_field MultiByteToWideChar) RequestReader_start
    (launch_members rid pid mode args cwd)
    (launch_read rid pid (LaunchMode_of (wide mode)) args cwd)"
proof -
  have mode: "LaunchMode_of (wide mode) \<noteq> Missing" "plain mode" "plain ''launch''"
    using assms(5) by (auto simp: LaunchMode_of_def plain_def)
  note facts = assms(1-4,6-)[simplified] mode read_back
  show ?thesis
    unfolding launch_members_def launch_read_def
    by (rule reads_field, simp add: ParseBrokerRequest_field_def, simp, simp add: plain_def,
        simp add: facts, simp add: facts)+ (rule reads_done, simp)
qed

lemma reads_options:
  assumes "\<not> restrictAccess_seen s" "\<not> lowIntegrity_seen s" "\<not> log_seen s"
    and "\<not> restrictAccess s" "\<not> lowIntegrity s" "\<not> log_access s"
  shows "reads (ParseBrokerRequest_field MultiByteToWideChar) s (option_members restrict low log_on)
    (options_read restrict low log_on s)"
proof -
  let ?f = "ParseBrokerRequest_field MultiByteToWideChar"
  let ?l = "s\<lparr>log_access := log_on, log_seen := log_on\<rparr>"
  let ?r = "?l\<lparr>restrictAccess := restrict, restrictAccess_seen := restrict\<rparr>"
  have "reads ?f s (optional log_on (''log'', ''true'')) ?l"
    unfolding optional_def using assms
    by (intro reads_optional)
      (rule reads_field, simp add: ParseBrokerRequest_field_def, simp, simp add: plain_def,
        simp, simp, rule reads_done, simp_all)
  moreover have "reads ?f ?l (optional restrict (''restrictAccess'', ''true'')) ?r"
    unfolding optional_def using assms
    by (intro reads_optional)
      (rule reads_field, simp add: ParseBrokerRequest_field_def, simp, simp add: plain_def,
        simp, simp, rule reads_done, simp_all)
  moreover have "reads ?f ?r (optional low (''lowIntegrity'', ''true''))
      (options_read restrict low log_on s)"
    unfolding optional_def using assms
    by (intro reads_optional)
      (rule reads_field, simp add: ParseBrokerRequest_field_def, simp, simp add: plain_def,
        simp, simp, rule reads_done, simp_all add: options_read_def)
  ultimately show ?thesis
    unfolding option_members_def by (intro reads_append)
qed

lemma reads_container:
  assumes "IsValidAppContainerOptions app" "appContainer s = AppContainerOptions_default"
    and "\<not> appContainer_seen s" "\<not> capabilities_seen s"
  shows "reads (ParseBrokerRequest_field MultiByteToWideChar) s (container_members app)
    (container_read app s)"
proof (cases "enabled app")
  case True
  have caps: "list_all IsAppContainerCapability (capabilities app)"
    "list_all readable (capabilities app)" "length (capabilities app) \<le> MaximumArguments"
    using IsValidAppContainerOptions_capability[OF assms(1)]
    by (auto simp: MaximumArguments_def list_all_iff intro: IsAppContainerCapability_readable)
  have "app = \<lparr>enabled = True, capabilities = capabilities app\<rparr>" using True by simp
  then show ?thesis
    using True unfolding container_members_def container_read_def if_P[OF True]
    by - (rule reads_field, simp add: ParseBrokerRequest_field_def, simp add: assms,
        simp add: plain_def, simp add: read_back, simp,
        rule reads_field, simp add: ParseBrokerRequest_field_def, simp add: assms,
        simp add: plain_def, simp add: read_back caps assms AppContainerOptions_default_def, simp,
        rule reads_done, simp add: assms AppContainerOptions_default_def)
next
  case False
  then have "app = AppContainerOptions_default"
    using assms(1) by (simp add: IsValidAppContainerOptions_def AppContainerOptions_default_def
        split: if_splits)
  with False assms show ?thesis
    by (simp add: container_members_def container_read_def AppContainerOptions_default_def reads_done)
qed

lemma ReadConsole_console_text [read_back]:
  assumes "readable (pipeIn con)" "readable (pipeOut con)" "readable (pipeResize con)"
  shows "ReadConsole MultiByteToWideChar c (console_text con @ rest) = Some (con, rest)"
proof -
  let ?s = "ConsoleRequest.extend c (ConsoleReader.fields False False False False)"
  have "reads (ReadConsole_field MultiByteToWideChar) ?s
      [(''pipeIn'', json_string (pipeIn con)), (''pipeOut'', json_string (pipeOut con)),
       (''pipeResize'', json_string (pipeResize con)), (''inheritCursor'', bool_text (inheritCursor con))]
      (ConsoleRequest.extend con (ConsoleReader.fields True True True True))"
    by (rule reads_field, simp add: ReadConsole_field_def ConsoleRequest.defs ConsoleReader.defs,
        simp, simp add: plain_def, simp add: read_back assms, simp)+
      (rule reads_done, simp add: ConsoleRequest.defs ConsoleReader.defs)
  from ReadObject_object_text[OF this, of rest] show ?thesis
    by (simp add: ReadConsole_def console_text_def ConsoleRequest.defs ConsoleReader.defs)
qed

lemma ReadInteractiveLaunch_interactive_text [read_back]:
  assumes "readable (leasePipe lease)" "readable (nonce lease)"
  shows "ReadInteractiveLaunch MultiByteToWideChar c (interactive_text lease @ rest)
    = Some (lease, rest)"
proof -
  let ?s = "InteractiveLaunchRequest.extend c (InteractiveLaunchReader.fields False False)"
  have "reads (ReadInteractiveLaunch_field MultiByteToWideChar) ?s
      [(''leasePipe'', json_string (leasePipe lease)), (''nonce'', json_string (nonce lease))]
      (InteractiveLaunchRequest.extend lease (InteractiveLaunchReader.fields True True))"
    by (rule reads_field, simp add: ReadInteractiveLaunch_field_def InteractiveLaunchRequest.defs
          InteractiveLaunchReader.defs,
        simp, simp add: plain_def, simp add: read_back assms, simp)+
      (rule reads_done, simp add: InteractiveLaunchRequest.defs InteractiveLaunchReader.defs)
  from ReadObject_object_text[OF this, of rest] show ?thesis
    by (simp add: ReadInteractiveLaunch_def interactive_text_def InteractiveLaunchRequest.defs
        InteractiveLaunchReader.defs)
qed

lemma ParseBrokerRequest_object_text:
  assumes "reads (ParseBrokerRequest_field MultiByteToWideChar) RequestReader_start ms s" "ms \<noteq> []"
    and "length (object_text ms) \<le> MaximumMessageBytes"
  shows "ParseBrokerRequest MultiByteToWideChar (object_text ms) = FinishBrokerRequest s"
proof -
  have "object_text ms \<noteq> []" by (simp add: object_text_def)
  with assms(3) ReadObject_object_text[OF assms(1,2), of "[]"] show ?thesis
    by (simp add: ParseBrokerRequest_def JsonReader_End_def JsonReader_SkipWhitespace_def)
qed

lemma valid_readable:
  "list_all (IsValidUtf16 WideCharToMultiByte) ws \<Longrightarrow> list_all (\<lambda>w. length w \<le> 32 * 1024) ws
     \<Longrightarrow> list_all readable ws"
  by (auto simp: list_all_iff readable_def dest: IsValidUtf16_well_formed)

lemma console_roundtrip:
  assumes build: "BuildConsoleLaunchRequest WideCharToMultiByte rid pid args cwd con restrict low
      log_on app = Some message"
    and ids: "IsRequestId rid" "IsValidProfileId pid"
    and sizes: "length args \<le> MaximumArguments" "list_all (\<lambda>a. length a \<le> 8 * 1024) args"
      "length cwd \<le> 32 * 1024"
    and pipes: "list_all IsConsolePipeName [pipeIn con, pipeOut con, pipeResize con]"
      "distinct [pipeIn con, pipeOut con, pipeResize con]"
  shows "ParseBrokerRequest MultiByteToWideChar message = Some
    \<lparr>operation = ConsoleLaunch, requestId = rid, profileId = pid, force = False,
     restrictAccess = restrict, lowIntegrity = low, log_access = log_on, appContainer = app,
     arguments = args, workingDirectory = cwd, console = con,
     interactive = InteractiveLaunchRequest_default\<rparr>"
proof -
  note b = BuildConsoleLaunchRequest_Some[OF build]
  have "list_all readable (rid # pid # cwd # args)"
    using b(4) ids sizes
    by (intro valid_readable)
      (auto simp: IsRequestId_length IsValidProfileId_def list_all_iff)
  moreover have pr: "list_all readable [pipeIn con, pipeOut con, pipeResize con]"
    using b(5) pipes by (intro valid_readable) (auto simp: IsConsolePipeName_def)
  ultimately have "reads (ParseBrokerRequest_field MultiByteToWideChar) RequestReader_start
    (launch_members rid pid ''console'' args cwd)
    (launch_read rid pid (LaunchMode_of (wide ''console'')) args cwd)" (is "reads ?f _ _ ?s1")
    using ids sizes b(3) by (intro reads_launch) auto
  moreover have "reads ?f ?s1 (option_members restrict low log_on) (options_read restrict low log_on ?s1)"
    (is "reads _ _ _ ?s2")
    by (intro reads_options)
      (simp_all add: launch_read_def RequestReader_start_def BrokerRequest.defs RequestReader.defs
        BrokerRequest_default_def)
  moreover have "reads ?f ?s2 (container_members app) (container_read app ?s2)" (is "reads _ _ _ ?s3")
    using b(6) by (intro reads_container) (simp_all add: options_read_def launch_read_def)
  moreover have "reads ?f ?s3 [(''console'', console_text con)]
      (?s3\<lparr>console := con, console_seen := True\<rparr>)"
    using pr
    by - (rule reads_field, simp add: ParseBrokerRequest_field_def,
        simp add: container_read_def options_read_def launch_read_def,
        simp add: plain_def, simp add: read_back, simp, rule reads_done, simp)
  ultimately have "reads ?f RequestReader_start
      (launch_members rid pid ''console'' args cwd @ option_members restrict low log_on
        @ container_members app @ [(''console'', console_text con)])
      (?s3\<lparr>console := con, console_seen := True\<rparr>)"
    by (intro reads_append)
  from ParseBrokerRequest_object_text[OF this] b(1,8)
  have "ParseBrokerRequest MultiByteToWideChar message
    = FinishBrokerRequest (?s3\<lparr>console := con, console_seen := True\<rparr>)" by simp
  then show ?thesis
    using b(6,7) pipes
    by (simp add: FinishBrokerRequest_def container_read_def options_read_def launch_read_def
        LaunchMode_of_def RequestReader_start_def BrokerRequest.defs RequestReader.defs
        BrokerRequest_default_def)
qed

lemma interactive_roundtrip:
  assumes build: "BuildInteractiveLaunchRequest WideCharToMultiByte rid pid args cwd lease restrict
      low log_on = Some message"
    and ids: "IsRequestId rid" "IsValidProfileId pid"
    and sizes: "length args \<le> MaximumArguments" "list_all (\<lambda>a. length a \<le> 8 * 1024) args"
      "length cwd \<le> 32 * 1024"
    and lease: "IsInteractiveLeasePipeName (leasePipe lease)" "IsRequestId (nonce lease)"
  shows "ParseBrokerRequest MultiByteToWideChar message = Some
    \<lparr>operation = InteractiveLaunch, requestId = rid, profileId = pid, force = False,
     restrictAccess = restrict, lowIntegrity = low, log_access = log_on,
     appContainer = AppContainerOptions_default, arguments = args, workingDirectory = cwd,
     console = ConsoleRequest_default, interactive = lease\<rparr>"
proof -
  note b = BuildInteractiveLaunchRequest_Some[OF build]
  have "list_all readable (rid # pid # cwd # args)"
    using b(4) ids sizes
    by (intro valid_readable)
      (auto simp: IsRequestId_length IsValidProfileId_def list_all_iff)
  moreover have pr: "list_all readable [leasePipe lease, nonce lease]"
    using b(5) lease
    by (intro valid_readable) (auto simp: IsInteractiveLeasePipeName_def IsRequestId_length)
  ultimately have "reads (ParseBrokerRequest_field MultiByteToWideChar) RequestReader_start
    (launch_members rid pid ''interactive'' args cwd)
    (launch_read rid pid (LaunchMode_of (wide ''interactive'')) args cwd)" (is "reads ?f _ _ ?s1")
    using ids sizes b(3) by (intro reads_launch) auto
  moreover have "reads ?f ?s1 (option_members restrict low log_on) (options_read restrict low log_on ?s1)"
    (is "reads _ _ _ ?s2")
    by (intro reads_options)
      (simp_all add: launch_read_def RequestReader_start_def BrokerRequest.defs RequestReader.defs
        BrokerRequest_default_def)
  moreover have "reads ?f ?s2 [(''interactive'', interactive_text lease)]
      (?s2\<lparr>interactive := lease, interactive_seen := True\<rparr>)"
    using pr
    by - (rule reads_field, simp add: ParseBrokerRequest_field_def,
        simp add: options_read_def launch_read_def,
        simp add: plain_def, simp add: read_back, simp, rule reads_done, simp)
  ultimately have "reads ?f RequestReader_start
      (launch_members rid pid ''interactive'' args cwd @ option_members restrict low log_on
        @ [(''interactive'', interactive_text lease)])
      (?s2\<lparr>interactive := lease, interactive_seen := True\<rparr>)"
    by (intro reads_append)
  from ParseBrokerRequest_object_text[OF this] b(1,6)
  have "ParseBrokerRequest MultiByteToWideChar message
    = FinishBrokerRequest (?s2\<lparr>interactive := lease, interactive_seen := True\<rparr>)" by simp
  then show ?thesis
    using lease
    by (simp add: FinishBrokerRequest_def options_read_def launch_read_def
        LaunchMode_of_def RequestReader_start_def BrokerRequest.defs RequestReader.defs
        BrokerRequest_default_def AppContainerOptions_default_def IsValidAppContainerOptions_def)
qed

lemma management_roundtrip:
  assumes op: "IsManagementOperation op" and rid: "IsRequestId rid"
    and pid: "IsValidProfileId pid" "well_formed_utf16 pid"
  shows "ParseBrokerRequest MultiByteToWideChar (BuildManagementRequest op rid pid with_force) =
    (if with_force \<and> op \<noteq> TakeOver then None
     else Some (BrokerRequest_default\<lparr>operation := op, requestId := rid,
       profileId := (if op = List then [] else pid), force := with_force\<rparr>))"
proof -
  let ?f = "ParseBrokerRequest_field MultiByteToWideChar"
  let ?name = "RequestOperationName op"
  let ?s1 = "RequestReader_start\<lparr>version_seen := True, requestId := rid, requestId_seen := True,
    operationName := wide ?name, operation_seen := True\<rparr>"
  let ?s2 = "?s1\<lparr>profileId := (if op = List then [] else pid), profile_seen := (op \<noteq> List)\<rparr>"
  let ?s3 = "?s2\<lparr>force := with_force, force_seen := with_force\<rparr>"
  have name: "readable (wide ?name)" by (rule readable_wide; cases op; simp add: ascii_def)
  note facts = rid IsRequestId_readable[OF rid] pid IsValidProfileId_readable[OF pid] name read_back
  have "reads ?f RequestReader_start [(''version'', ''1''), (''requestId'', json_string rid),
      (''operation'', json_string (wide ?name))] ?s1"
    by (rule reads_field, simp add: ParseBrokerRequest_field_def, simp, simp add: plain_def,
        simp add: facts, simp add: facts)+ (rule reads_done, simp)
  moreover have "reads ?f ?s1 (optional (op \<noteq> List) (''profileId'', json_string pid)) ?s2"
    unfolding optional_def
    by (intro reads_optional)
      (rule reads_field, simp add: ParseBrokerRequest_field_def, simp, simp add: plain_def,
        simp add: facts, simp add: facts, rule reads_done,
        simp_all add: RequestReader_start_def BrokerRequest.defs RequestReader.defs
          BrokerRequest_default_def)
  moreover have "reads ?f ?s2 (optional with_force (''force'', ''true'')) ?s3"
    unfolding optional_def
    by (intro reads_optional)
      (rule reads_field, simp add: ParseBrokerRequest_field_def, simp, simp add: plain_def,
        simp, simp, rule reads_done,
        simp_all add: RequestReader_start_def BrokerRequest.defs RequestReader.defs
          BrokerRequest_default_def)
  ultimately have r: "reads ?f RequestReader_start ([(''version'', ''1''),
      (''requestId'', json_string rid), (''operation'', json_string (wide ?name))]
      @ optional (op \<noteq> List) (''profileId'', json_string pid)
      @ optional with_force (''force'', ''true'')) ?s3"
    by (intro reads_append)
  have "length (BuildManagementRequest op rid pid with_force) \<le> MaximumMessageBytes"
    using length_json_string_le[of rid] length_json_string_le[of pid]
      length_json_string_le[of "wide ?name"] IsRequestId_length[OF rid] pid(1)
    by (cases op) (auto simp: BuildManagementRequest_eq text_simps key_def MaximumMessageBytes_def
        IsValidProfileId_def)
  with ParseBrokerRequest_object_text[OF r]
  have "ParseBrokerRequest MultiByteToWideChar (BuildManagementRequest op rid pid with_force)
    = FinishBrokerRequest ?s3" by (simp add: BuildManagementRequest_eq)
  also have "\<dots> = (if with_force \<and> op \<noteq> TakeOver then None
     else Some (BrokerRequest_default\<lparr>operation := op, requestId := rid,
       profileId := (if op = List then [] else pid), force := with_force\<rparr>))"
    using op
    by (cases op) (simp_all add: FinishBrokerRequest_def IsManagementOperation_def
        RequestReader_start_def BrokerRequest.defs RequestReader.defs BrokerRequest_default_def
        AppContainerOptions_default_def IsValidAppContainerOptions_def)
  finally show ?thesis .
qed

end

section \<open>Concrete requests\<close>

definition example_id :: wstring where
  "example_id = wide ''01234567-89ab-CDEF-0123-456789abcdef''"

definition example_pipe :: "string \<Rightarrow> wstring" where
  "example_pipe s = pipe_prefix @ wide s"

definition example_console :: ConsoleRequest where
  "example_console = \<lparr>pipeIn = example_pipe ''in'', pipeOut = example_pipe ''out'',
     pipeResize = example_pipe ''size'', inheritCursor = True\<rparr>"

definition example_container :: AppContainerOptions where
  "example_container = \<lparr>enabled = True, capabilities = [wide ''internetClient'']\<rparr>"

lemma IsValidUtf16_wide: "ascii s \<Longrightarrow> length s \<le> 1000 \<Longrightarrow> IsValidUtf16 reference_wc (wide s)"
  by (subst reference.IsValidUtf16_iff) simp_all

lemmas example_simps = example_id_def example_pipe_def example_console_def example_container_def
  pipe_prefix_def interactive_prefix_def wide_append[symmetric]

lemma json_string_wide_length:
  "length (json_string (wide s)) = 2 + sum_list (map (length \<circ> json_char) (wide s))"
  by (simp add: json_string_def AppendJsonString_eq length_concat)

lemma example_console_build:
  "BuildConsoleLaunchRequest reference_wc example_id (wide ''guest'') [wide ''cmd'', wide ''/c'']
     (wide ''C:'') example_console False False True example_container \<noteq> None"
proof -
  have "IsValidAppContainerOptions example_container"
    by (simp add: example_container_def IsValidAppContainerOptions_def IsAppContainerCapability_def wide_def)
  then show ?thesis
    by (simp add: BuildConsoleLaunchRequest_def BeginLaunchRequest_eq IsValidUtf16_wide example_simps
        ascii_def launch_members_def text_simps key_def Let_def MaximumMessageBytes_def
        json_string_wide_length,
        simp add: wide_def json_char_def hex_escape_def)
qed

definition example_lease :: InteractiveLaunchRequest where
  "example_lease = \<lparr>leasePipe = interactive_prefix @ wide ''1'', nonce = example_id\<rparr>"

lemma example_interactive_build:
  "BuildInteractiveLaunchRequest reference_wc example_id (wide ''guest'') [wide ''cmd'']
     (wide ''C:'') example_lease True False True \<noteq> None"
  by (simp add: BuildInteractiveLaunchRequest_def BeginLaunchRequest_eq IsValidUtf16_wide
      example_simps example_lease_def ascii_def launch_members_def text_simps key_def Let_def
      MaximumMessageBytes_def json_string_wide_length,
    simp add: wide_def json_char_def hex_escape_def)

lemma example_valid:
  "IsRequestId example_id" "IsValidProfileId (wide ''guest'')"
  "list_all IsConsolePipeName
     [pipeIn example_console, pipeOut example_console, pipeResize example_console]"
  "distinct [pipeIn example_console, pipeOut example_console, pipeResize example_console]"
  "IsInteractiveLeasePipeName (leasePipe example_lease)" "IsRequestId (nonce example_lease)"
  by (simp_all add: example_simps example_lease_def IsRequestId_def hex_digit_def wide_def
      IsValidProfileId_def contains_any_def IsConsolePipeName_def IsInteractiveLeasePipeName_def
      starts_with_def pipe_prefix_def interactive_prefix_def)

lemma example_well_formed: "well_formed_utf16 (wide ''guest'')"
  by (simp add: ascii_def)

section \<open>Properties\<close>

text \<open>
  C1: A console launch request that the client builds, with a well-formed request id, a valid
  account name, three different console pipe names and sizes within the limits, is accepted by
  the broker, which reads back exactly the fields the client wrote.
\<close>

theorem ParseBrokerRequest_BuildConsoleLaunchRequest:
  assumes "windows_utf mb wc"
    and "BuildConsoleLaunchRequest wc rid pid args cwd con restrict low log_on app = Some message"
    and "IsRequestId rid" "IsValidProfileId pid" "length args \<le> MaximumArguments"
    and "list_all (\<lambda>a. length a \<le> 8 * 1024) args" "length cwd \<le> 32 * 1024"
    and "list_all IsConsolePipeName [pipeIn con, pipeOut con, pipeResize con]"
    and "distinct [pipeIn con, pipeOut con, pipeResize con]"
  shows "ParseBrokerRequest mb message = Some
    \<lparr>operation = ConsoleLaunch, requestId = rid, profileId = pid, force = False,
     restrictAccess = restrict, lowIntegrity = low, log_access = log_on, appContainer = app,
     arguments = args, workingDirectory = cwd, console = con,
     interactive = InteractiveLaunchRequest_default\<rparr>"
  using windows_utf.console_roundtrip[OF assms] .

lemma ParseBrokerRequest_BuildConsoleLaunchRequest_witness:
  "\<exists>message. BuildConsoleLaunchRequest reference_wc example_id (wide ''guest'')
       [wide ''cmd'', wide ''/c''] (wide ''C:'') example_console False False True example_container
       = Some message
     \<and> map_option requestId (ParseBrokerRequest reference_mb message) = Some example_id"
proof -
  obtain message where m: "BuildConsoleLaunchRequest reference_wc example_id (wide ''guest'')
      [wide ''cmd'', wide ''/c''] (wide ''C:'') example_console False False True example_container
      = Some message" using example_console_build by blast
  from ParseBrokerRequest_BuildConsoleLaunchRequest[OF reference.windows_utf_axioms m
      example_valid(1,2) _ _ _ example_valid(3,4)] m
  show ?thesis by (simp add: MaximumArguments_def)
qed

text \<open>
  C2: An interactive launch request that the client builds, with a valid account name, a lease
  pipe in the broker's name space and a well-formed nonce, is accepted by the broker, which reads
  back exactly the fields the client wrote and leaves the console and AppContainer parts at their
  defaults.
\<close>

theorem ParseBrokerRequest_BuildInteractiveLaunchRequest:
  assumes "windows_utf mb wc"
    and "BuildInteractiveLaunchRequest wc rid pid args cwd lease restrict low log_on = Some message"
    and "IsRequestId rid" "IsValidProfileId pid" "length args \<le> MaximumArguments"
    and "list_all (\<lambda>a. length a \<le> 8 * 1024) args" "length cwd \<le> 32 * 1024"
    and "IsInteractiveLeasePipeName (leasePipe lease)" "IsRequestId (nonce lease)"
  shows "ParseBrokerRequest mb message = Some
    \<lparr>operation = InteractiveLaunch, requestId = rid, profileId = pid, force = False,
     restrictAccess = restrict, lowIntegrity = low, log_access = log_on,
     appContainer = AppContainerOptions_default, arguments = args, workingDirectory = cwd,
     console = ConsoleRequest_default, interactive = lease\<rparr>"
  using windows_utf.interactive_roundtrip[OF assms] .

lemma ParseBrokerRequest_BuildInteractiveLaunchRequest_witness:
  "\<exists>message. BuildInteractiveLaunchRequest reference_wc example_id (wide ''guest'') [wide ''cmd'']
       (wide ''C:'') example_lease True False True = Some message
     \<and> map_option interactive (ParseBrokerRequest reference_mb message) = Some example_lease"
proof -
  obtain message where m: "BuildInteractiveLaunchRequest reference_wc example_id (wide ''guest'')
      [wide ''cmd''] (wide ''C:'') example_lease True False True = Some message"
    using example_interactive_build by blast
  from ParseBrokerRequest_BuildInteractiveLaunchRequest[OF reference.windows_utf_axioms m
      example_valid(1,2) _ _ _ example_valid(5,6)] m
  show ?thesis by (simp add: MaximumArguments_def)
qed

text \<open>
  C3: A management request (create, takeover, list, forget, delete) that the client builds is read
  back with its operation, request id, account and force flag; the broker rejects it exactly when
  force is set on an operation other than takeover.
\<close>

theorem ParseBrokerRequest_BuildManagementRequest:
  assumes "windows_utf mb wc" and "IsManagementOperation op" and "IsRequestId rid"
    and "IsValidProfileId pid" "well_formed_utf16 pid"
  shows "ParseBrokerRequest mb (BuildManagementRequest op rid pid with_force) =
    (if with_force \<and> op \<noteq> TakeOver then None
     else Some (BrokerRequest_default\<lparr>operation := op, requestId := rid,
       profileId := (if op = List then [] else pid), force := with_force\<rparr>))"
  using windows_utf.management_roundtrip[OF assms] .

lemma ParseBrokerRequest_BuildManagementRequest_witness:
  "ParseBrokerRequest reference_mb
     (BuildManagementRequest Delete example_id (wide ''guest'') True) = None"
  using ParseBrokerRequest_BuildManagementRequest[OF reference.windows_utf_axioms _
    example_valid(1,2) example_well_formed, of Delete True]
  by (simp add: IsManagementOperation_def)

text \<open>
  C4: Whatever bytes arrive, a request the broker's parser returns is valid: the message was
  within the size limit, the identifiers are well formed, argument count and lengths are bounded,
  a launch has its own three distinct console pipes or its lease pipe and nonce, AppContainer
  excludes the other restrictions, force comes only with takeover, and every member the operation
  does not use is absent.
\<close>

theorem ParseBrokerRequest_valid:
  assumes "ParseBrokerRequest mb message = Some request"
  shows "valid_request request \<and> message \<noteq> [] \<and> length message \<le> MaximumMessageBytes"
  using assms by (rule ParseBrokerRequest_Some) (auto intro: FinishBrokerRequest_valid)

lemma ParseBrokerRequest_valid_witness:
  "\<exists>request. ParseBrokerRequest reference_mb
      (BuildManagementRequest TakeOver example_id (wide ''guest'') True) = Some request
    \<and> valid_request request"
proof -
  have "ParseBrokerRequest reference_mb
      (BuildManagementRequest TakeOver example_id (wide ''guest'') True) \<noteq> None"
    using windows_utf.management_roundtrip[OF reference.windows_utf_axioms _
      example_valid(1,2) example_well_formed, of TakeOver True] by (simp add: IsManagementOperation_def)
  then show ?thesis using ParseBrokerRequest_valid by blast
qed

end
