(* ===== verification/BrokerResponses.thy ===== *)
theory BrokerResponses
  imports BrokerProtocol
begin

text \<open>
  The responses of \<open>src/protocol/BrokerProtocol.cpp\<close>: builders the broker uses, parsers the client
  and the admin tool use. \<open>ParseResponse\<close> is a template over a reader of additional members; its
  captured variables are the component \<open>extra\<close>. A parser that fails resets its outputs to fixed
  values, so the outputs are \<open>None\<close> then. Main results: each response is read back, no response
  is read both as success and as error, and a list of more than 64 accounts cannot be read.
\<close>

section \<open>ParseResponse\<close>

record 'a ResponseReader =
  rs_version :: bool
  rs_responseId :: bool
  rs_status :: bool
  rs_reason :: bool
  rs_error :: bool
  rs_win32Error :: dword
  extra :: 'a

definition ParseResponse_field ::
  "(string \<Rightarrow> wstring option) \<Rightarrow> wstring \<Rightarrow> wstring \<Rightarrow> wstring \<Rightarrow> dword option \<Rightarrow> 'a read_field
     \<Rightarrow> 'a ResponseReader read_field"
where
  "ParseResponse_field mb rid expectedStatus expectedReason expectedWin32Error parseAdditionalField
     s name r =
     (if name = wide ''version'' then
        read_once (rs_version s) JsonReader_Unsigned (\<lambda>number. number = 1)
          (\<lambda>_. s\<lparr>rs_version := True\<rparr>) r
      else if name = wide ''requestId'' then
        read_once (rs_responseId s) (JsonReader_String mb) (\<lambda>text. text = rid)
          (\<lambda>_. s\<lparr>rs_responseId := True\<rparr>) r
      else if name = wide ''status'' then
        read_once (rs_status s) (JsonReader_String mb) (\<lambda>text. text = expectedStatus)
          (\<lambda>_. s\<lparr>rs_status := True\<rparr>) r
      else if name = wide ''reasonCode'' then
        read_once (rs_reason s) (JsonReader_String mb)
          (\<lambda>text. if expectedReason = [] then text \<noteq> [] else text = expectedReason)
          (\<lambda>_. s\<lparr>rs_reason := True\<rparr>) r
      else if name = wide ''win32Error'' then
        read_once (rs_error s) JsonReader_Unsigned
          (\<lambda>number. case expectedWin32Error of None \<Rightarrow> True | Some e \<Rightarrow> number = e)
          (\<lambda>number. s\<lparr>rs_error := True, rs_win32Error := number\<rparr>) r
      else (case parseAdditionalField (extra s) name r of
              None \<Rightarrow> None
            | Some (x, r') \<Rightarrow> Some (s\<lparr>extra := x\<rparr>, r')))"

definition ResponseReader_start :: "'a \<Rightarrow> 'a ResponseReader" where
  "ResponseReader_start x = \<lparr>rs_version = False, rs_responseId = False, rs_status = False,
     rs_reason = False, rs_error = False, rs_win32Error = ERROR_INVALID_DATA, extra = x\<rparr>"

definition ParseResponse ::
  "(string \<Rightarrow> wstring option) \<Rightarrow> string \<Rightarrow> wstring \<Rightarrow> wstring \<Rightarrow> wstring \<Rightarrow> dword option \<Rightarrow> 'a read_field
     \<Rightarrow> 'a \<Rightarrow> (dword \<times> 'a) option"
where
  "ParseResponse mb response rid expectedStatus expectedReason expectedWin32Error
     parseAdditionalField x =
     (case ReadObject mb (ParseResponse_field mb rid expectedStatus expectedReason
             expectedWin32Error parseAdditionalField) (ResponseReader_start x) response of
        None \<Rightarrow> None
      | Some (s, rest) \<Rightarrow>
          if JsonReader_End rest \<and> rs_version s \<and> rs_responseId s \<and> rs_status s \<and> rs_reason s
            \<and> rs_error s then Some (rs_win32Error s, extra s) else None)"

section \<open>Builders\<close>

definition BuildErrorResponse :: "wstring \<Rightarrow> string \<Rightarrow> dword \<Rightarrow> string" where
  "BuildErrorResponse rid reasonCode win32Error =
     (let response = AppendJsonString (''{'' @ key ''version'' @ ''1,'' @ key ''requestId'') rid;
          response = response @ '','' @ key ''status'' @ DQ # ''error'' @ DQ # '','' @
            key ''reasonCode'' @ [DQ];
          response = response @ reasonCode
      in response @ DQ # '','' @ key ''win32Error'' @ to_string win32Error @ ''}'')"

definition BuildSuccessResponse :: "wstring \<Rightarrow> string \<Rightarrow> string" where
  "BuildSuccessResponse rid reasonCode =
     (let response = AppendJsonString (''{'' @ key ''version'' @ ''1,'' @ key ''requestId'') rid;
          response = response @ '','' @ key ''status'' @ DQ # ''ok'' @ DQ # '','' @
            key ''reasonCode'' @ [DQ];
          response = response @ reasonCode
      in response @ DQ # '','' @ key ''win32Error'' @ ''0}'')"

definition BuildListResponse :: "wstring \<Rightarrow> wstring list \<Rightarrow> string" where
  "BuildListResponse rid accounts =
     (let response = AppendJsonString (''{'' @ key ''version'' @ ''1,'' @ key ''requestId'') rid;
          response = response @ '','' @ key ''status'' @ DQ # ''ok'' @ DQ # '','' @
            key ''accounts'' @ ''['';
          response = AppendJsonStrings response accounts
      in response @ ''],'' @ key ''reasonCode'' @ DQ # ''listed'' @ DQ # '','' @
           key ''win32Error'' @ ''0}'')"

definition BuildLaunchSuccessResponse :: "wstring \<Rightarrow> dword \<Rightarrow> string" where
  "BuildLaunchSuccessResponse rid processId =
     (let response = AppendJsonString (''{'' @ key ''version'' @ ''1,'' @ key ''requestId'') rid;
          response = response @ '','' @ key ''status'' @ DQ # ''ok'' @ DQ # '','' @
            key ''processId'' @ to_string processId
      in response @ '','' @ key ''reasonCode'' @ DQ # ''launched'' @ DQ # '','' @
           key ''win32Error'' @ ''0}'')"

definition BuildLaunchExitResponse :: "wstring \<Rightarrow> dword \<Rightarrow> string" where
  "BuildLaunchExitResponse rid exitCode =
     (let response = AppendJsonString (''{'' @ key ''version'' @ ''1,'' @ key ''requestId'') rid;
          response = response @ '','' @ key ''status'' @ DQ # ''ok'' @ DQ # '','' @
            key ''exitCode'' @ to_string exitCode
      in response @ '','' @ key ''reasonCode'' @ DQ # ''exited'' @ DQ # '','' @
           key ''win32Error'' @ ''0}'')"

definition BuildLaunchHostFailureResponse :: "wstring \<Rightarrow> dword \<Rightarrow> wstring \<Rightarrow> string" where
  "BuildLaunchHostFailureResponse rid hostExitCode diagnostics =
     (let response = AppendJsonString (''{'' @ key ''version'' @ ''1,'' @ key ''requestId'') rid;
          response = response @ '','' @ key ''status'' @ DQ # ''error'' @ DQ # '','' @
            key ''hostExitCode'' @ to_string hostExitCode;
          response = AppendJsonString (response @ '','' @ key ''diagnostic'') diagnostics
      in response @ '','' @ key ''reasonCode'' @ DQ # ''host_failed'' @ DQ # '','' @
           key ''win32Error'' @ to_string ERROR_GEN_FAILURE @ ''}'')"

section \<open>Parsers\<close>

definition no_additional_field :: "unit read_field" where
  "no_additional_field x name r = None"

definition ParseErrorResponse :: "(string \<Rightarrow> wstring option) \<Rightarrow> string \<Rightarrow> wstring \<Rightarrow> dword option" where
  "ParseErrorResponse mb response rid =
     map_option fst (ParseResponse mb response rid (wide ''error'') [] None no_additional_field ())"

text \<open>The captured flag and value of the additional member.\<close>

definition accounts_field :: "(string \<Rightarrow> wstring option) \<Rightarrow> (bool \<times> wstring list) read_field" where
  "accounts_field mb x name r =
     (if name = wide ''accounts'' then
        read_once (fst x) (ReadStringArray mb IsValidProfileId (snd x)) (\<lambda>_. True) (\<lambda>v. (True, v)) r
      else None)"

definition ParseListResponse ::
  "(string \<Rightarrow> wstring option) \<Rightarrow> string \<Rightarrow> wstring \<Rightarrow> wstring list option"
where
  "ParseListResponse mb response rid =
     (case ParseResponse mb response rid (wide ''ok'') (wide ''listed'') (Some ERROR_SUCCESS)
             (accounts_field mb) (False, []) of
        None \<Rightarrow> None
      | Some (_, listedAccounts, accounts) \<Rightarrow> if listedAccounts then Some accounts else None)"

definition processId_field :: "(bool \<times> dword) read_field" where
  "processId_field x name r =
     (if name = wide ''processId'' then
        read_once (fst x) JsonReader_Unsigned (\<lambda>v. v \<noteq> 0) (\<lambda>v. (True, v)) r
      else None)"

definition ParseLaunchSuccessResponse ::
  "(string \<Rightarrow> wstring option) \<Rightarrow> string \<Rightarrow> wstring \<Rightarrow> dword option"
where
  "ParseLaunchSuccessResponse mb response rid =
     (case ParseResponse mb response rid (wide ''ok'') (wide ''launched'') (Some ERROR_SUCCESS)
             processId_field (False, 0) of
        None \<Rightarrow> None
      | Some (_, process, processId) \<Rightarrow> if process then Some processId else None)"

definition exitCode_field :: "(bool \<times> dword) read_field" where
  "exitCode_field x name r =
     (if name = wide ''exitCode'' then
        read_once (fst x) JsonReader_Unsigned (\<lambda>_. True) (\<lambda>v. (True, v)) r
      else None)"

definition ParseLaunchExitResponse ::
  "(string \<Rightarrow> wstring option) \<Rightarrow> string \<Rightarrow> wstring \<Rightarrow> dword option"
where
  "ParseLaunchExitResponse mb response rid =
     (case ParseResponse mb response rid (wide ''ok'') (wide ''exited'') (Some ERROR_SUCCESS)
             exitCode_field (False, 0) of
        None \<Rightarrow> None
      | Some (_, exit, exitCode) \<Rightarrow> if exit then Some exitCode else None)"

record HostFailureReader =
  hf_hostExit :: bool
  hf_hostExitCode :: dword
  hf_diagnostic :: bool
  hf_diagnostics :: wstring

definition hostFailure_field :: "(string \<Rightarrow> wstring option) \<Rightarrow> HostFailureReader read_field" where
  "hostFailure_field mb x name r =
     (if name = wide ''hostExitCode'' then
        read_once (hf_hostExit x) JsonReader_Unsigned (\<lambda>_. True)
          (\<lambda>v. x\<lparr>hf_hostExitCode := v, hf_hostExit := True\<rparr>) r
      else if name = wide ''diagnostic'' then
        read_once (hf_diagnostic x) (JsonReader_String mb) (\<lambda>_. True)
          (\<lambda>v. x\<lparr>hf_diagnostics := v, hf_diagnostic := True\<rparr>) r
      else None)"

definition ParseLaunchHostFailureResponse ::
  "(string \<Rightarrow> wstring option) \<Rightarrow> string \<Rightarrow> wstring \<Rightarrow> (dword \<times> wstring) option"
where
  "ParseLaunchHostFailureResponse mb response rid =
     (case ParseResponse mb response rid (wide ''error'') (wide ''host_failed'')
             (Some ERROR_GEN_FAILURE) (hostFailure_field mb)
             \<lparr>hf_hostExit = False, hf_hostExitCode = 0, hf_diagnostic = False, hf_diagnostics = []\<rparr> of
        None \<Rightarrow> None
      | Some (_, x) \<Rightarrow> if hf_hostExit x \<and> hf_diagnostic x
          then Some (hf_hostExitCode x, hf_diagnostics x) else None)"

section \<open>The builders write objects\<close>

text \<open>Every response is the two leading members, the status and then its own members.\<close>

definition response_members :: "wstring \<Rightarrow> string \<Rightarrow> (string \<times> string) list" where
  "response_members rid status =
     [(''version'', ''1''), (''requestId'', json_string rid), (''status'', quoted status)]"

definition reason_members :: "string \<Rightarrow> dword \<Rightarrow> (string \<times> string) list" where
  "reason_members reason err = [(''reasonCode'', quoted reason), (''win32Error'', to_string err)]"

lemma to_string_zero [simp]: "to_string 0 = ''0''"
  by (simp add: to_string_def decimal.simps) (simp add: char_of_eq_iff)

lemmas response_simps = response_members_def reason_members_def text_simps Let_def

lemma BuildErrorResponse_eq: "BuildErrorResponse rid reason err =
    object_text (response_members rid ''error'' @ reason_members reason err)"
  by (simp add: BuildErrorResponse_def response_simps)

lemma BuildSuccessResponse_eq: "BuildSuccessResponse rid reason =
    object_text (response_members rid ''ok'' @ reason_members reason 0)"
  by (simp add: BuildSuccessResponse_def response_simps)

lemma BuildListResponse_eq: "BuildListResponse rid accounts =
    object_text (response_members rid ''ok'' @ (''accounts'', array_text accounts)
      # reason_members ''listed'' 0)"
  by (simp add: BuildListResponse_def response_simps)

lemma BuildLaunchSuccessResponse_eq: "BuildLaunchSuccessResponse rid pid =
    object_text (response_members rid ''ok'' @ (''processId'', to_string pid)
      # reason_members ''launched'' 0)"
  by (simp add: BuildLaunchSuccessResponse_def response_simps)

lemma BuildLaunchExitResponse_eq: "BuildLaunchExitResponse rid code =
    object_text (response_members rid ''ok'' @ (''exitCode'', to_string code)
      # reason_members ''exited'' 0)"
  by (simp add: BuildLaunchExitResponse_def response_simps)

lemma BuildLaunchHostFailureResponse_eq: "BuildLaunchHostFailureResponse rid code diagnostics =
    object_text (response_members rid ''error'' @ (''hostExitCode'', to_string code)
      # (''diagnostic'', json_string diagnostics) # reason_members ''host_failed'' ERROR_GEN_FAILURE)"
  by (simp add: BuildLaunchHostFailureResponse_def response_simps)

section \<open>What is written is read back\<close>

lemma Unsigned_to_string_member [read_back]:
  "d = CHR '','' \<or> d = CHR ''}'' \<Longrightarrow> JsonReader_Unsigned (to_string n @ d # rest) = Some (n, d # rest)"
  by (rule Unsigned_to_string) (auto simp: is_digit_def)

definition additional :: "string \<Rightarrow> bool" where
  "additional name \<longleftrightarrow> plain name \<and>
     name \<notin> {''version'', ''requestId'', ''status'', ''reasonCode'', ''win32Error''}"

context windows_utf
begin

lemma reads_response:
  assumes "readable rid" "plain status"
  shows "reads (ParseResponse_field MultiByteToWideChar rid (wide status) reason e pf)
    (ResponseReader_start x) (response_members rid status)
    ((ResponseReader_start x)\<lparr>rs_version := True, rs_responseId := True, rs_status := True\<rparr>)"
  unfolding response_members_def
  by (rule reads_field, simp add: ParseResponse_field_def, simp add: ResponseReader_start_def,
      simp add: plain_def, simp add: assms read_back, simp add: assms)+
    (rule reads_done, simp)

lemma reads_reason:
  assumes "plain r" "r \<noteq> []" "reason = [] \<or> reason = wide r" "e = None \<or> e = Some err"
    and "\<not> rs_reason s" "\<not> rs_error s"
  shows "reads (ParseResponse_field MultiByteToWideChar rid status reason e pf) s
    (reason_members r err) (s\<lparr>rs_reason := True, rs_error := True, rs_win32Error := err\<rparr>)"
  unfolding reason_members_def
  by (rule reads_field, simp add: ParseResponse_field_def, simp add: assms,
      simp add: plain_def, simp add: assms read_back, use assms in force)+
    (rule reads_done, simp)

lemma reads_additional:
  assumes "additional name"
    and "\<And>d rest. d = CHR '','' \<or> d = CHR ''}'' \<Longrightarrow>
      pf (extra s) (wide name) (value @ d # rest) = Some (x, d # rest)"
    and "reads (ParseResponse_field MultiByteToWideChar rid status reason e pf) (s\<lparr>extra := x\<rparr>) ms s'"
  shows "reads (ParseResponse_field MultiByteToWideChar rid status reason e pf) s
    ((name, value) # ms) s'"
proof (rule reads_Cons)
  show "plain name" using assms(1) by (simp add: additional_def)
  show "ParseResponse_field MultiByteToWideChar rid status reason e pf s (wide name)
      (value @ d # rest) = Some (s\<lparr>extra := x\<rparr>, d # rest)"
    if "d = CHR '','' \<or> d = CHR ''}''" for d rest
    using assms(1) assms(2)[OF that] by (simp add: ParseResponse_field_def additional_def)
qed (fact assms(3))

lemma ParseResponse_object_text:
  assumes "reads (ParseResponse_field MultiByteToWideChar rid status reason e pf)
      (ResponseReader_start x) ms s" "ms \<noteq> []"
    and "rs_version s" "rs_responseId s" "rs_status s" "rs_reason s" "rs_error s"
  shows "ParseResponse MultiByteToWideChar (object_text ms) rid status reason e pf x
    = Some (rs_win32Error s, extra s)"
  using ReadObject_object_text[OF assms(1,2), of "[]"] assms(3-)
  by (simp add: ParseResponse_def JsonReader_End_def JsonReader_SkipWhitespace_def)

lemma additional_reason_text:
  assumes "readable rid" "plain status" "plain r" "r \<noteq> []" "reason = [] \<or> reason = wide r"
    and "e = None \<or> e = Some err"
    and more: "reads (ParseResponse_field MultiByteToWideChar rid (wide status) reason e pf)
      ((ResponseReader_start x)\<lparr>rs_version := True, rs_responseId := True, rs_status := True\<rparr>) ms
      ((ResponseReader_start y)\<lparr>rs_version := True, rs_responseId := True, rs_status := True\<rparr>)"
  shows "ParseResponse MultiByteToWideChar
      (object_text (response_members rid status @ ms @ reason_members r err)) rid (wide status)
      reason e pf x = Some (err, y)"
proof -
  note reads_append[OF reads_response[OF assms(1,2)] reads_append[OF more
    reads_reason[OF assms(3-6)]]]
  from ParseResponse_object_text[OF this] show ?thesis
    by (simp add: ResponseReader_start_def response_members_def)
qed

lemma ParseErrorResponse_Build:
  assumes "readable rid" "plain reason" "reason \<noteq> []"
  shows "ParseErrorResponse MultiByteToWideChar (BuildErrorResponse rid reason err) rid = Some err"
  using additional_reason_text[OF assms(1) _ assms(2,3), of "''error''" "[]" None err
      no_additional_field "()" "[]" "()"]
  by (simp add: ParseErrorResponse_def BuildErrorResponse_eq plain_def reads_Nil)

lemma ParseListResponse_Build:
  assumes "readable rid" "list_all readable accounts"
    and "list_all IsValidProfileId accounts" "length accounts \<le> MaximumArguments"
  shows "ParseListResponse MultiByteToWideChar (BuildListResponse rid accounts) rid = Some accounts"
proof -
  have "ParseResponse MultiByteToWideChar (object_text (response_members rid ''ok''
      @ [(''accounts'', array_text accounts)] @ reason_members ''listed'' 0)) rid (wide ''ok'')
      (wide ''listed'') (Some 0) (accounts_field MultiByteToWideChar) (False, [])
      = Some (0, (True, accounts))"
    using assms
    by (intro additional_reason_text reads_additional)
      (auto simp: plain_def additional_def accounts_field_def ResponseReader_start_def read_back
        intro: reads_done)
  then show ?thesis by (simp add: ParseListResponse_def BuildListResponse_eq)
qed

lemma ParseListResponse_too_many:
  assumes "readable rid" "list_all readable accounts" "MaximumArguments < length accounts"
  shows "ParseListResponse MultiByteToWideChar (BuildListResponse rid accounts) rid = None"
proof -
  have "ReadObject MultiByteToWideChar (ParseResponse_field MultiByteToWideChar rid (wide ''ok'')
      (wide ''listed'') (Some 0) (accounts_field MultiByteToWideChar)) (ResponseReader_start (False, []))
      (object_text (response_members rid ''ok''
        @ (''accounts'', array_text accounts) # reason_members ''listed'' 0) @ []) = None"
    using assms(1)
    by (rule ReadObject_rejects[OF reads_response])
      (simp_all add: plain_def ParseResponse_field_def accounts_field_def ResponseReader_start_def
        read_once_def FirstSeen_def ReadStringArray_too_long assms(2,3))
  then show ?thesis by (simp add: ParseListResponse_def BuildListResponse_eq ParseResponse_def)
qed

lemma ParseLaunchSuccessResponse_Build:
  assumes "readable rid" "processId \<noteq> 0"
  shows "ParseLaunchSuccessResponse MultiByteToWideChar (BuildLaunchSuccessResponse rid processId) rid
    = Some processId"
proof -
  have "ParseResponse MultiByteToWideChar (object_text (response_members rid ''ok''
      @ [(''processId'', to_string processId)] @ reason_members ''launched'' 0)) rid (wide ''ok'')
      (wide ''launched'') (Some 0) processId_field (False, 0) = Some (0, (True, processId))"
    using assms
    by (intro additional_reason_text reads_additional)
      (auto simp: plain_def additional_def processId_field_def ResponseReader_start_def read_back
        intro: reads_done)
  then show ?thesis by (simp add: ParseLaunchSuccessResponse_def BuildLaunchSuccessResponse_eq)
qed

lemma ParseLaunchExitResponse_Build:
  assumes "readable rid"
  shows "ParseLaunchExitResponse MultiByteToWideChar (BuildLaunchExitResponse rid code) rid = Some code"
proof -
  have "ParseResponse MultiByteToWideChar (object_text (response_members rid ''ok''
      @ [(''exitCode'', to_string code)] @ reason_members ''exited'' 0)) rid (wide ''ok'')
      (wide ''exited'') (Some 0) exitCode_field (False, 0) = Some (0, (True, code))"
    using assms
    by (intro additional_reason_text reads_additional)
      (auto simp: plain_def additional_def exitCode_field_def ResponseReader_start_def read_back
        intro: reads_done)
  then show ?thesis by (simp add: ParseLaunchExitResponse_def BuildLaunchExitResponse_eq)
qed

lemma ParseLaunchHostFailureResponse_Build:
  assumes "readable rid" "readable diagnostics"
  shows "ParseLaunchHostFailureResponse MultiByteToWideChar
    (BuildLaunchHostFailureResponse rid code diagnostics) rid = Some (code, diagnostics)"
proof -
  let ?x = "\<lparr>hf_hostExit = False, hf_hostExitCode = 0, hf_diagnostic = False, hf_diagnostics = []\<rparr>"
  have "ParseResponse MultiByteToWideChar (object_text (response_members rid ''error''
      @ [(''hostExitCode'', to_string code), (''diagnostic'', json_string diagnostics)]
      @ reason_members ''host_failed'' ERROR_GEN_FAILURE)) rid (wide ''error'')
      (wide ''host_failed'') (Some ERROR_GEN_FAILURE) (hostFailure_field MultiByteToWideChar) ?x
      = Some (ERROR_GEN_FAILURE,
          \<lparr>hf_hostExit = True, hf_hostExitCode = code, hf_diagnostic = True,
           hf_diagnostics = diagnostics\<rparr>)"
    using assms
    by (intro additional_reason_text reads_additional[where x = "?x\<lparr>hf_hostExit := True,
          hf_hostExitCode := code\<rparr>"] reads_additional[where x = "\<lparr>hf_hostExit = True,
          hf_hostExitCode = code, hf_diagnostic = True, hf_diagnostics = diagnostics\<rparr>"])
      (auto simp: plain_def additional_def hostFailure_field_def ResponseReader_start_def read_back
        intro: reads_done)
  then show ?thesis
    by (simp add: ParseLaunchHostFailureResponse_def BuildLaunchHostFailureResponse_eq)
qed

end

section \<open>One status per response\<close>

text \<open>
  Two response parsers that disagree on the status cannot both accept a message: the status member
  is read once, by both, at the same place.
\<close>

lemma ParseResponse_exclusive:
  fixes f1 :: "'a read_field" and f2 :: "'b read_field"
  assumes "ParseResponse mb response rid st1 re1 e1 f1 x1 = Some y1"
    and "ParseResponse mb response rid st2 re2 e2 f2 x2 = Some y2"
    and agree: "\<And>x y name r x' r1 y' r2. f1 x name r = Some (x', r1) \<Longrightarrow> f2 y name r = Some (y', r2)
      \<Longrightarrow> r1 = r2"
  shows "st1 = st2"
proof -
  let ?f = "ParseResponse_field mb rid st1 re1 e1 f1" and ?g = "ParseResponse_field mb rid st2 re2 e2 f2"
  define R where "R = (\<lambda>(s :: 'a ResponseReader) (t :: 'b ResponseReader). rs_status s = rs_status t \<and> (rs_status s \<longrightarrow> st1 = st2)
    \<and> rs_version s = rs_version t)"
  from assms(1) obtain s r where s: "ReadObject mb ?f (ResponseReader_start x1) response = Some (s, r)"
    "rs_status s" by (auto simp: ParseResponse_def split: option.splits if_splits)
  from assms(2) obtain t r' where t: "ReadObject mb ?g (ResponseReader_start x2) response = Some (t, r')"
    by (auto simp: ParseResponse_def split: option.splits)
  have step: "r1 = r2 \<and> R s' t'"
    if "R s t" "?f s name r = Some (s', r1)" "?g t name r = Some (t', r2)" for s t name r s' r1 t' r2
    using that agree by (auto simp: ParseResponse_field_def R_def split: if_splits option.splits)
  have "R (ResponseReader_start x1) (ResponseReader_start x2)"
    by (simp add: R_def ResponseReader_start_def)
  with step have "r = r' \<and> R s t" using s(1) t by (rule ReadObject_simulation)
  with s(2) show ?thesis by (simp add: R_def)
qed

section \<open>Properties\<close>

text \<open>
  C5: For every well-formed request id, the client reads back what the broker answers to a launch:
  the process id (never zero), the exit code, the host's exit code with its diagnostics, and the
  error code of an error response.
\<close>

theorem launch_responses_roundtrip:
  assumes "windows_utf mb wc" and "IsRequestId rid" and "processId \<noteq> 0"
    and "well_formed_utf16 diagnostics" "length diagnostics \<le> MaximumMessageBytes"
    and "plain reason" "reason \<noteq> []"
  shows "ParseLaunchSuccessResponse mb (BuildLaunchSuccessResponse rid processId) rid = Some processId
    \<and> ParseLaunchExitResponse mb (BuildLaunchExitResponse rid code) rid = Some code
    \<and> ParseLaunchHostFailureResponse mb (BuildLaunchHostFailureResponse rid code diagnostics) rid
        = Some (code, diagnostics)
    \<and> ParseErrorResponse mb (BuildErrorResponse rid reason err) rid = Some err"
proof -
  have "readable diagnostics" using assms(4,5) by (simp add: readable_def MaximumMessageBytes_def)
  with assms IsRequestId_readable[OF assms(2)] show ?thesis
    using windows_utf.ParseLaunchSuccessResponse_Build windows_utf.ParseLaunchExitResponse_Build
      windows_utf.ParseLaunchHostFailureResponse_Build windows_utf.ParseErrorResponse_Build
    by blast
qed

lemma launch_responses_roundtrip_witness:
  "ParseLaunchSuccessResponse reference_mb (BuildLaunchSuccessResponse example_id 4242) example_id
     = Some 4242"
  using launch_responses_roundtrip[OF reference.windows_utf_axioms example_valid(1), of 4242 "[]"
      "''launch_failed''"] by (simp add: plain_def well_formed_utf16_code utf16_decode.simps)

text \<open>
  C6: The admin tool reads back the account list the broker answers exactly when it has at most
  64 accounts: the builder has no limit, the reader refuses the message of a longer list.
\<close>

theorem ParseListResponse_BuildListResponse:
  assumes "windows_utf mb wc" and "IsRequestId rid"
    and "list_all IsValidProfileId accounts" "list_all well_formed_utf16 accounts"
  shows "ParseListResponse mb (BuildListResponse rid accounts) rid =
    (if length accounts \<le> 64 then Some accounts else None)"
proof -
  have "list_all readable accounts"
    using assms(3,4) by (auto simp: list_all_iff intro: IsValidProfileId_readable)
  with assms IsRequestId_readable[OF assms(2)] show ?thesis
    using windows_utf.ParseListResponse_Build windows_utf.ParseListResponse_too_many
    by (auto simp: MaximumArguments_def)
qed

lemma ParseListResponse_BuildListResponse_witness:
  "ParseListResponse reference_mb (BuildListResponse example_id (replicate 65 (wide ''guest'')))
     example_id = None"
  using ParseListResponse_BuildListResponse[OF reference.windows_utf_axioms example_valid(1),
      of "replicate 65 (wide ''guest'')"] example_valid(2) example_well_formed
  by (auto simp: list_all_iff)

text \<open>
  A message that the client accepts as an error (or host failure) response for its request is
  accepted neither as a launch success, nor as an exit, nor as a list: the outcome a message stands
  for does not depend on which parser is tried first.
\<close>

theorem error_response_exclusive:
  assumes "ParseErrorResponse mb response rid \<noteq> None
    \<or> ParseLaunchHostFailureResponse mb response rid \<noteq> None"
  shows "ParseLaunchSuccessResponse mb response rid = None
    \<and> ParseLaunchExitResponse mb response rid = None \<and> ParseListResponse mb response rid = None"
proof -
  have ne: "wide ''error'' \<noteq> wide ''ok''" by simp
  note x = ParseResponse_exclusive[where ?st1.0 = "wide ''error''" and ?st2.0 = "wide ''ok''" and mb = mb
      and response = response and rid = rid]
  show ?thesis
    using assms ne
    by (auto simp: ParseErrorResponse_def ParseLaunchHostFailureResponse_def no_additional_field_def
        ParseLaunchSuccessResponse_def ParseLaunchExitResponse_def ParseListResponse_def
        processId_field_def exitCode_field_def accounts_field_def hostFailure_field_def
        split: option.splits if_splits dest: x)
qed

lemma error_response_exclusive_witness:
  "ParseLaunchExitResponse reference_mb (BuildErrorResponse example_id ''launch_failed'' 5) example_id
     = None"
  using error_response_exclusive[of reference_mb "BuildErrorResponse example_id ''launch_failed'' 5"
      example_id] reference.ParseErrorResponse_Build[OF IsRequestId_readable[OF example_valid(1)],
      of "''launch_failed''" 5] by (simp add: plain_def)

end
