(* ===== verification/LeaseProtocol.thy ===== *)
theory LeaseProtocol
  imports BrokerResponses
begin

text \<open>
  The messages of the interactive desktop lease in \<open>src/protocol/BrokerProtocol.cpp\<close>, exchanged
  between the broker (client) and the launcher (server) over the lease pipe. A builder that refuses
  its arguments returns the empty text, which no parser accepts. Main results: both directions are
  read back, only messages that carry the expected nonce are accepted, an accepted acquire carries
  a logon SID, and the status of a response agrees with its error code.
\<close>

section \<open>Messages\<close>

datatype InteractiveLeaseOperation = Acquire | Release

record InteractiveLeaseRequest =
  lease_operation :: InteractiveLeaseOperation
  lease_nonce :: wstring
  childLogonSid :: wstring

definition InteractiveLeaseRequest_default :: InteractiveLeaseRequest where
  "InteractiveLeaseRequest_default = \<lparr>lease_operation = Acquire, lease_nonce = [], childLogonSid = []\<rparr>"

definition InteractiveLeaseOperationName :: "InteractiveLeaseOperation \<Rightarrow> string" where
  "InteractiveLeaseOperationName op = (if op = Acquire then ''acquire'' else ''release'')"

definition BuildInteractiveLeaseAcquireRequest :: "wstring \<Rightarrow> wstring \<Rightarrow> string" where
  "BuildInteractiveLeaseAcquireRequest non lsid =
     (if \<not> IsRequestId non \<or> \<not> IsLogonSid lsid then []
      else
        (let request = AppendJsonString (''{'' @ key ''version'' @ ''1,'' @ key ''operation''
                         @ DQ # ''acquire'' @ DQ # '','' @ key ''nonce'') non
         in AppendJsonString (request @ '','' @ key ''childLogonSid'') lsid @ ''}''))"

definition BuildInteractiveLeaseReleaseRequest :: "wstring \<Rightarrow> string" where
  "BuildInteractiveLeaseReleaseRequest non =
     (if \<not> IsRequestId non then []
      else AppendJsonString (''{'' @ key ''version'' @ ''1,'' @ key ''operation''
             @ DQ # ''release'' @ DQ # '','' @ key ''nonce'') non @ ''}'')"

record LeaseRequestReader = InteractiveLeaseRequest +
  lq_operationName :: wstring
  lq_version :: bool
  lq_operation :: bool
  lq_nonce :: bool
  lq_childLogonSid :: bool

definition LeaseRequestReader_start :: LeaseRequestReader where
  "LeaseRequestReader_start = InteractiveLeaseRequest.extend InteractiveLeaseRequest_default
     (LeaseRequestReader.fields [] False False False False)"

definition ParseInteractiveLeaseRequest_field ::
  "(string \<Rightarrow> wstring option) \<Rightarrow> wstring \<Rightarrow> LeaseRequestReader read_field"
where
  "ParseInteractiveLeaseRequest_field mb expectedNonce s name r =
     (if name = wide ''version'' then
        read_once (lq_version s) JsonReader_Unsigned (\<lambda>v. v = 1) (\<lambda>_. s\<lparr>lq_version := True\<rparr>) r
      else if name = wide ''operation'' then
        read_once (lq_operation s) (JsonReader_String mb)
          (\<lambda>v. v = wide ''acquire'' \<or> v = wide ''release'')
          (\<lambda>v. s\<lparr>lq_operationName := v, lq_operation := True\<rparr>) r
      else if name = wide ''nonce'' then
        read_once (lq_nonce s) (JsonReader_String mb) (\<lambda>v. v = expectedNonce)
          (\<lambda>v. s\<lparr>lease_nonce := v, lq_nonce := True\<rparr>) r
      else if name = wide ''childLogonSid'' then
        read_once (lq_childLogonSid s) (JsonReader_String mb) IsLogonSid
          (\<lambda>v. s\<lparr>childLogonSid := v, lq_childLogonSid := True\<rparr>) r
      else None)"

definition ParseInteractiveLeaseRequest ::
  "(string \<Rightarrow> wstring option) \<Rightarrow> string \<Rightarrow> wstring \<Rightarrow> InteractiveLeaseRequest option"
where
  "ParseInteractiveLeaseRequest mb message expectedNonce =
     (if message = [] \<or> length message > MaximumMessageBytes \<or> \<not> IsRequestId expectedNonce then None
      else (case ReadObject mb (ParseInteractiveLeaseRequest_field mb expectedNonce)
                   LeaseRequestReader_start message of
              None \<Rightarrow> None
            | Some (s, rest) \<Rightarrow>
                if \<not> JsonReader_End rest \<or> \<not> lq_version s \<or> \<not> lq_operation s \<or> \<not> lq_nonce s then None
                else if lq_childLogonSid s \<noteq> (lq_operationName s = wide ''acquire'') then None
                else Some ((InteractiveLeaseRequest.truncate s)
                  \<lparr>lease_operation := if lq_childLogonSid s then Acquire else Release\<rparr>)))"

definition BuildInteractiveLeaseResponse ::
  "InteractiveLeaseOperation \<Rightarrow> wstring \<Rightarrow> dword \<Rightarrow> string"
where
  "BuildInteractiveLeaseResponse op non win32Error =
     (if \<not> IsRequestId non then []
      else
        (let response = AppendJsonString (''{'' @ key ''version'' @ ''1,'' @ key ''operation'')
                          (wide (InteractiveLeaseOperationName op));
             response = AppendJsonString (response @ '','' @ key ''nonce'') non;
             response = response @ (if win32Error = ERROR_SUCCESS
                then '','' @ key ''status'' @ DQ # ''ok'' @ DQ # '','' @ key ''win32Error''
                else '','' @ key ''status'' @ DQ # ''error'' @ DQ # '','' @ key ''win32Error'')
         in response @ to_string win32Error @ ''}''))"

record LeaseResponseReader =
  lr_parsedError :: dword
  lr_statusIsOk :: bool
  lr_version :: bool
  lr_operation :: bool
  lr_nonce :: bool
  lr_status :: bool
  lr_error :: bool

definition LeaseResponseReader_start :: LeaseResponseReader where
  "LeaseResponseReader_start = \<lparr>lr_parsedError = ERROR_INVALID_DATA, lr_statusIsOk = False,
     lr_version = False, lr_operation = False, lr_nonce = False, lr_status = False, lr_error = False\<rparr>"

definition ParseInteractiveLeaseResponse_field ::
  "(string \<Rightarrow> wstring option) \<Rightarrow> InteractiveLeaseOperation \<Rightarrow> wstring \<Rightarrow> LeaseResponseReader read_field"
where
  "ParseInteractiveLeaseResponse_field mb expectedOperation expectedNonce s name r =
     (if name = wide ''version'' then
        read_once (lr_version s) JsonReader_Unsigned (\<lambda>v. v = 1) (\<lambda>_. s\<lparr>lr_version := True\<rparr>) r
      else if name = wide ''operation'' then
        read_once (lr_operation s) (JsonReader_String mb)
          (\<lambda>v. v = wide (InteractiveLeaseOperationName expectedOperation))
          (\<lambda>_. s\<lparr>lr_operation := True\<rparr>) r
      else if name = wide ''nonce'' then
        read_once (lr_nonce s) (JsonReader_String mb) (\<lambda>v. v = expectedNonce)
          (\<lambda>_. s\<lparr>lr_nonce := True\<rparr>) r
      else if name = wide ''status'' then
        read_once (lr_status s) (JsonReader_String mb) (\<lambda>v. v = wide ''ok'' \<or> v = wide ''error'')
          (\<lambda>v. s\<lparr>lr_statusIsOk := (v = wide ''ok''), lr_status := True\<rparr>) r
      else if name = wide ''win32Error'' then
        read_once (lr_error s) JsonReader_Unsigned (\<lambda>_. True)
          (\<lambda>v. s\<lparr>lr_parsedError := v, lr_error := True\<rparr>) r
      else None)"

text \<open>The result is \<open>(true, win32Error)\<close> or \<open>(false, ERROR_INVALID_DATA)\<close>; callers use both parts.\<close>

definition ParseInteractiveLeaseResponse ::
  "(string \<Rightarrow> wstring option) \<Rightarrow> string \<Rightarrow> InteractiveLeaseOperation \<Rightarrow> wstring \<Rightarrow> bool \<times> dword"
where
  "ParseInteractiveLeaseResponse mb response expectedOperation expectedNonce =
     (if response = [] \<or> length response > MaximumMessageBytes \<or> \<not> IsRequestId expectedNonce
      then (False, ERROR_INVALID_DATA)
      else (case ReadObject mb (ParseInteractiveLeaseResponse_field mb expectedOperation expectedNonce)
                   LeaseResponseReader_start response of
              None \<Rightarrow> (False, ERROR_INVALID_DATA)
            | Some (s, rest) \<Rightarrow>
                if \<not> JsonReader_End rest \<or> \<not> lr_version s \<or> \<not> lr_operation s \<or> \<not> lr_nonce s
                  \<or> \<not> lr_status s \<or> \<not> lr_error s \<or> lr_statusIsOk s \<noteq> (lr_parsedError s = ERROR_SUCCESS)
                then (False, ERROR_INVALID_DATA) else (True, lr_parsedError s)))"

section \<open>What is written is read back\<close>

lemma IsLogonSid_readable:
  assumes "IsLogonSid v" and "length v \<le> 1000"
  shows "readable v"
proof (rule readable_ascii_word)
  have "isDecimal w \<Longrightarrow> list_all (\<lambda>c. c < (0x80 :: wchar)) w" for w
    by (auto simp: isDecimal_def list_all_iff word_less_nat_alt word_le_nat_alt)
  with assms(1) show "list_all (\<lambda>c. c < 0x80) v"
    by (auto simp: IsLogonSid_iff logon_prefix_def wide_def)
qed (fact assms(2))

definition acquire_members :: "wstring \<Rightarrow> wstring \<Rightarrow> (string \<times> string) list" where
  "acquire_members non lsid = [(''version'', ''1''), (''operation'', quoted ''acquire''),
     (''nonce'', json_string non), (''childLogonSid'', json_string lsid)]"

definition release_members :: "wstring \<Rightarrow> (string \<times> string) list" where
  "release_members non = [(''version'', ''1''), (''operation'', quoted ''release''),
     (''nonce'', json_string non)]"

definition lease_response_members ::
  "InteractiveLeaseOperation \<Rightarrow> wstring \<Rightarrow> dword \<Rightarrow> (string \<times> string) list"
where
  "lease_response_members op non err = [(''version'', ''1''),
     (''operation'', json_string (wide (InteractiveLeaseOperationName op))),
     (''nonce'', json_string non), (''status'', quoted (if err = 0 then ''ok'' else ''error'')),
     (''win32Error'', to_string err)]"

lemma BuildInteractiveLease_eq:
  "IsRequestId non \<Longrightarrow> IsLogonSid lsid \<Longrightarrow>
     BuildInteractiveLeaseAcquireRequest non lsid = object_text (acquire_members non lsid)"
  "IsRequestId non \<Longrightarrow> BuildInteractiveLeaseReleaseRequest non = object_text (release_members non)"
  "IsRequestId non \<Longrightarrow>
     BuildInteractiveLeaseResponse op non err = object_text (lease_response_members op non err)"
  by (simp_all add: BuildInteractiveLeaseAcquireRequest_def BuildInteractiveLeaseReleaseRequest_def
      BuildInteractiveLeaseResponse_def acquire_members_def release_members_def
      lease_response_members_def text_simps Let_def)

lemma length_to_string: "length (to_string n) \<le> 10"
proof -
  have "n < 10 ^ k \<Longrightarrow> 0 < k \<Longrightarrow> length (decimal n) \<le> k" for n k
  proof (induction k arbitrary: n)
    case (Suc k)
    then show ?case
      by (subst decimal.simps) (cases k; simp add: less_mult_imp_div_less)
  qed simp
  moreover have "unat n < 2 ^ 32" using unsigned_less[of n] by simp
  ultimately show ?thesis by (simp add: to_string_def)
qed

context windows_utf
begin

lemma ParseInteractiveLeaseRequest_object_text:
  assumes "reads (ParseInteractiveLeaseRequest_field MultiByteToWideChar non)
      LeaseRequestReader_start ms s" "ms \<noteq> []" "length (object_text ms) \<le> MaximumMessageBytes"
    and "IsRequestId non" "lq_version s" "lq_operation s" "lq_nonce s"
    and "lq_childLogonSid s = (lq_operationName s = wide ''acquire'')"
  shows "ParseInteractiveLeaseRequest MultiByteToWideChar (object_text ms) non
    = Some ((InteractiveLeaseRequest.truncate s)
        \<lparr>lease_operation := if lq_childLogonSid s then Acquire else Release\<rparr>)"
proof -
  have "object_text ms \<noteq> []" by (simp add: object_text_def)
  with ReadObject_object_text[OF assms(1,2), of "[]"] assms(3-) show ?thesis
    by (simp add: ParseInteractiveLeaseRequest_def JsonReader_End_def JsonReader_SkipWhitespace_def)
qed

lemma acquire_roundtrip:
  assumes "IsRequestId non" "IsLogonSid lsid" "length lsid \<le> 1000"
  shows "ParseInteractiveLeaseRequest MultiByteToWideChar
      (BuildInteractiveLeaseAcquireRequest non lsid) non
    = Some \<lparr>lease_operation = Acquire, lease_nonce = non, childLogonSid = lsid\<rparr>"
proof -
  note facts = assms IsRequestId_readable[OF assms(1)] IsLogonSid_readable[OF assms(2,3)]
  have literal: "plain ''acquire''" by (simp add: plain_def)
  have r: "reads (ParseInteractiveLeaseRequest_field MultiByteToWideChar non) LeaseRequestReader_start
    (acquire_members non lsid) (LeaseRequestReader_start\<lparr>lq_version := True,
      lq_operationName := wide ''acquire'', lq_operation := True, lease_nonce := non,
      lq_nonce := True, childLogonSid := lsid, lq_childLogonSid := True\<rparr>)"
    unfolding acquire_members_def
    by (rule reads_field, simp add: ParseInteractiveLeaseRequest_field_def,
        simp add: LeaseRequestReader_start_def InteractiveLeaseRequest.defs LeaseRequestReader.defs,
        simp add: plain_def, simp add: facts literal read_back, simp add: facts)+
      (rule reads_done, simp)
  have "length (object_text (acquire_members non lsid)) \<le> MaximumMessageBytes"
    using length_json_string_le[of non] length_json_string_le[of lsid] IsRequestId_length[OF assms(1)]
      assms(3)
    by (simp add: acquire_members_def text_simps key_def MaximumMessageBytes_def)
  from ParseInteractiveLeaseRequest_object_text[OF r _ this assms(1)] show ?thesis
    by (simp add: BuildInteractiveLease_eq assms acquire_members_def LeaseRequestReader_start_def
        InteractiveLeaseRequest.defs LeaseRequestReader.defs)
qed

lemma release_roundtrip:
  assumes "IsRequestId non"
  shows "ParseInteractiveLeaseRequest MultiByteToWideChar (BuildInteractiveLeaseReleaseRequest non) non
    = Some \<lparr>lease_operation = Release, lease_nonce = non, childLogonSid = []\<rparr>"
proof -
  note facts = assms IsRequestId_readable[OF assms(1)]
  have literal: "plain ''release''" by (simp add: plain_def)
  have r: "reads (ParseInteractiveLeaseRequest_field MultiByteToWideChar non) LeaseRequestReader_start
    (release_members non) (LeaseRequestReader_start\<lparr>lq_version := True,
      lq_operationName := wide ''release'', lq_operation := True, lease_nonce := non,
      lq_nonce := True\<rparr>)"
    unfolding release_members_def
    by (rule reads_field, simp add: ParseInteractiveLeaseRequest_field_def,
        simp add: LeaseRequestReader_start_def InteractiveLeaseRequest.defs LeaseRequestReader.defs,
        simp add: plain_def, simp add: facts literal read_back, simp add: facts)+
      (rule reads_done, simp)
  have "length (object_text (release_members non)) \<le> MaximumMessageBytes"
    using length_json_string_le[of non] IsRequestId_length[OF assms(1)]
    by (simp add: release_members_def text_simps key_def MaximumMessageBytes_def)
  from ParseInteractiveLeaseRequest_object_text[OF r _ this assms(1)] show ?thesis
    by (simp add: BuildInteractiveLease_eq assms release_members_def LeaseRequestReader_start_def
        InteractiveLeaseRequest_default_def InteractiveLeaseRequest.defs LeaseRequestReader.defs)
qed

lemma lease_response_roundtrip:
  assumes "IsRequestId non"
  shows "ParseInteractiveLeaseResponse MultiByteToWideChar
      (BuildInteractiveLeaseResponse op non err) op non = (True, err)"
proof -
  have name: "readable (wide (InteractiveLeaseOperationName op))"
    by (rule readable_wide; cases op; simp add: InteractiveLeaseOperationName_def ascii_def)
  have literal: "plain ''ok''" "plain ''error''" by (simp_all add: plain_def)
  note facts = assms IsRequestId_readable[OF assms] name literal
  have r: "reads (ParseInteractiveLeaseResponse_field MultiByteToWideChar op non)
    LeaseResponseReader_start (lease_response_members op non err)
    \<lparr>lr_parsedError = err, lr_statusIsOk = (err = 0), lr_version = True, lr_operation = True,
     lr_nonce = True, lr_status = True, lr_error = True\<rparr>"
    unfolding lease_response_members_def
    by (rule reads_field, simp add: ParseInteractiveLeaseResponse_field_def,
        simp add: LeaseResponseReader_start_def,
        simp add: plain_def, simp add: facts read_back, simp add: facts)+
      (rule reads_done, simp add: LeaseResponseReader_start_def)
  let ?m = "object_text (lease_response_members op non err)"
  have "length (InteractiveLeaseOperationName op) = 7"
    by (simp add: InteractiveLeaseOperationName_def)
  then have "length ?m \<le> MaximumMessageBytes"
    using length_json_string_le[of non] IsRequestId_length[OF assms] length_to_string[of err]
      length_json_string_le[of "wide (InteractiveLeaseOperationName op)"]
    by (simp add: lease_response_members_def text_simps key_def MaximumMessageBytes_def)
  moreover have "?m \<noteq> []" by (simp add: object_text_def)
  moreover note ReadObject_object_text[OF r, of "[]"]
  ultimately show ?thesis
    by (simp add: BuildInteractiveLease_eq ParseInteractiveLeaseResponse_def JsonReader_End_def
        JsonReader_SkipWhitespace_def assms lease_response_members_def)
qed

end

section \<open>What the lease parsers accept\<close>

lemma ParseInteractiveLeaseRequest_invariant:
  assumes "ReadObject mb (ParseInteractiveLeaseRequest_field mb non) LeaseRequestReader_start message
    = Some (s, rest)"
  shows "(lq_nonce s \<longrightarrow> lease_nonce s = non)
    \<and> (if lq_childLogonSid s then IsLogonSid (childLogonSid s) else childLogonSid s = [])"
  using _ _ assms
proof (rule ReadObject_invariant[where P = "\<lambda>s. (lq_nonce s \<longrightarrow> lease_nonce s = non)
    \<and> (if lq_childLogonSid s then IsLogonSid (childLogonSid s) else childLogonSid s = [])"])
  show "(lq_nonce LeaseRequestReader_start \<longrightarrow> lease_nonce LeaseRequestReader_start = non)
    \<and> (if lq_childLogonSid LeaseRequestReader_start
       then IsLogonSid (childLogonSid LeaseRequestReader_start)
       else childLogonSid LeaseRequestReader_start = [])"
    by (simp add: LeaseRequestReader_start_def InteractiveLeaseRequest.defs LeaseRequestReader.defs
        InteractiveLeaseRequest_default_def)
qed (auto simp: ParseInteractiveLeaseRequest_field_def split: if_split_asm)

section \<open>Properties\<close>

text \<open>
  C7: Every lease message survives the pipe: for a well-formed nonce, the launcher reads back the
  broker's acquire (with the logon SID) and release requests, and the broker reads back the
  launcher's response with its error code, for each operation.
\<close>

theorem lease_messages_roundtrip:
  assumes "windows_utf mb wc" and "IsRequestId non" and "IsLogonSid lsid" "length lsid \<le> 1000"
  shows "ParseInteractiveLeaseRequest mb (BuildInteractiveLeaseAcquireRequest non lsid) non
      = Some \<lparr>lease_operation = Acquire, lease_nonce = non, childLogonSid = lsid\<rparr>
    \<and> ParseInteractiveLeaseRequest mb (BuildInteractiveLeaseReleaseRequest non) non
      = Some \<lparr>lease_operation = Release, lease_nonce = non, childLogonSid = []\<rparr>
    \<and> ParseInteractiveLeaseResponse mb (BuildInteractiveLeaseResponse op non err) op non = (True, err)"
  using assms windows_utf.acquire_roundtrip windows_utf.release_roundtrip
    windows_utf.lease_response_roundtrip by blast

lemma example_logon_sid: "IsLogonSid (wide ''S-1-5-5-0-1'')"
  by (simp add: IsLogonSid_def logon_prefix_def wide_def isDecimal_def starts_with_def)

lemma lease_messages_roundtrip_witness:
  "ParseInteractiveLeaseResponse reference_mb (BuildInteractiveLeaseResponse Release example_id 5)
     Release example_id = (True, 5)"
  using lease_messages_roundtrip[OF reference.windows_utf_axioms example_valid(1)
      example_logon_sid] by simp

text \<open>
  C8: The launcher accepts a lease request only when it carries the nonce it generated; an accepted
  acquire carries a logon SID, an accepted release carries none; nothing is accepted under an
  expected nonce that is not a request id.
\<close>

theorem ParseInteractiveLeaseRequest_sound:
  assumes "ParseInteractiveLeaseRequest mb message expectedNonce = Some request"
  shows "lease_nonce request = expectedNonce \<and> IsRequestId expectedNonce
    \<and> length message \<le> MaximumMessageBytes
    \<and> (case lease_operation request of Acquire \<Rightarrow> IsLogonSid (childLogonSid request)
                                     | Release \<Rightarrow> childLogonSid request = [])"
proof -
  from assms obtain s rest where
    s: "ReadObject mb (ParseInteractiveLeaseRequest_field mb expectedNonce)
      LeaseRequestReader_start message = Some (s, rest)" "lq_nonce s"
    and size: "IsRequestId expectedNonce" "length message \<le> MaximumMessageBytes"
    and r: "request = (InteractiveLeaseRequest.truncate s)
      \<lparr>lease_operation := if lq_childLogonSid s then Acquire else Release\<rparr>"
    by (auto simp: ParseInteractiveLeaseRequest_def split: if_splits option.splits)
  with ParseInteractiveLeaseRequest_invariant[OF s(1)] show ?thesis
    by (auto simp: InteractiveLeaseRequest.defs split: if_splits)
qed

lemma ParseInteractiveLeaseRequest_sound_witness:
  "\<exists>request. ParseInteractiveLeaseRequest reference_mb
      (BuildInteractiveLeaseReleaseRequest example_id) example_id = Some request
    \<and> lease_nonce request = example_id"
  using ParseInteractiveLeaseRequest_sound[of reference_mb
      "BuildInteractiveLeaseReleaseRequest example_id" example_id]
    reference.release_roundtrip[OF example_valid(1)] by blast

end
