(* ===== verification/CommandLine.thy ===== *)
theory CommandLine
  imports Prelude
begin

text \<open>
  Quoting of command lines, \<open>src/common/WindowsCommandLine.cpp\<close>. How the started program splits
  its command line is not code of the repository: the locale \<open>argv_rules\<close> states the rules that
  Microsoft documents for \<open>argv\<close>, for the scanner \<open>scan\<close> of one argument (inside quotes or not,
  acc so far, rest of the line). Main result: the program receives exactly the given arguments, up to
  the first null character, which ends the line.
\<close>

section \<open>Quoting\<close>

definition quote_special :: wstring where
  "quote_special = map WCHR [CHR '' '', CHR 0x09, CHR 0x0A, CHR 0x0B, DQ]"

fun Quote_step :: "wstring \<times> nat \<Rightarrow> wchar \<Rightarrow> wstring \<times> nat" where
  "Quote_step (quoted, backslashes) character =
     (if character = WCHR BS then (quoted, backslashes + 1)
      else if character = WCHR DQ then
        (quoted @ replicate (backslashes * 2 + 1) (WCHR BS) @ [WCHR DQ], 0)
      else (quoted @ replicate backslashes (WCHR BS) @ [character], 0))"

definition QuoteWindowsCommandLineArgument :: "wstring \<Rightarrow> wstring" where
  "QuoteWindowsCommandLineArgument argument =
     (if argument = [] then [WCHR DQ, WCHR DQ]
      else if \<not> contains_any quote_special argument then argument
      else (let (quoted, backslashes) = foldl Quote_step ([WCHR DQ], 0) argument
            in quoted @ replicate (backslashes * 2) (WCHR BS) @ [WCHR DQ]))"

text \<open>The exception for an executable name with a quote is \<open>None\<close>.\<close>

definition BuildWindowsCommandLine :: "wstring \<Rightarrow> wstring list \<Rightarrow> wstring option" where
  "BuildWindowsCommandLine executable arguments =
     (if WCHR DQ \<in> set executable then None
      else Some (foldl (\<lambda>commandLine argument.
               (commandLine @ [WCHR CHR '' '']) @ QuoteWindowsCommandLineArgument argument)
             ([WCHR DQ] @ executable @ [WCHR DQ]) arguments))"

section \<open>How a program splits its command line\<close>

definition blank :: "wchar \<Rightarrow> bool" where
  "blank c \<longleftrightarrow> c = WCHR CHR '' '' \<or> c = WCHR CHR 0x09"

locale argv_rules =
  fixes scan :: "bool \<Rightarrow> wstring \<Rightarrow> wstring \<Rightarrow> wstring \<times> wstring"
  assumes quote_toggles: "\<not> (inside \<and> rest \<noteq> [] \<and> hd rest = WCHR DQ) \<Longrightarrow>
      scan inside acc (replicate (2 * n) (WCHR BS) @ WCHR DQ # rest)
        = scan (\<not> inside) (acc @ replicate n (WCHR BS)) rest"
    and quote_escaped: "scan inside acc (replicate (2 * n + 1) (WCHR BS) @ WCHR DQ # rest)
        = scan inside (acc @ replicate n (WCHR BS) @ [WCHR DQ]) rest"
    and literal: "c \<noteq> 0 \<Longrightarrow> c \<noteq> WCHR BS \<Longrightarrow> c \<noteq> WCHR DQ \<Longrightarrow> inside \<or> \<not> blank c \<Longrightarrow>
      scan inside acc (replicate n (WCHR BS) @ c # rest)
        = scan inside (acc @ replicate n (WCHR BS) @ [c]) rest"
    and ends: "rest = [] \<or> blank (hd rest) \<Longrightarrow>
      scan False acc (replicate n (WCHR BS) @ rest) = (acc @ replicate n (WCHR BS), rest)"
    and ends_quoted: "scan True acc (replicate n (WCHR BS)) = (acc @ replicate n (WCHR BS), [])"

text \<open>
  The line is passed to \<open>CreateProcessAsUserW\<close> in a buffer that ends at the first null character: the
  rules apply to what is before it.
\<close>

definition c_string :: "wstring \<Rightarrow> wstring" where
  "c_string line = takeWhile (\<lambda>c. c \<noteq> 0) line"

text \<open>The arguments after the program name: blanks separate them.\<close>

fun split_arguments ::
  "(bool \<Rightarrow> wstring \<Rightarrow> wstring \<Rightarrow> wstring \<times> wstring) \<Rightarrow> nat \<Rightarrow> wstring \<Rightarrow> wstring list"
where
  "split_arguments scan 0 line = []"
| "split_arguments scan (Suc fuel) line =
     (case dropWhile blank line of
        [] \<Rightarrow> []
      | c # rest \<Rightarrow> (let (argument, line') = scan False [] (c # rest)
                    in argument # split_arguments scan fuel line'))"

text \<open>The program name: in quotes, backslashes are literal and the next quote ends it.\<close>

definition split_command_line ::
  "(bool \<Rightarrow> wstring \<Rightarrow> wstring \<Rightarrow> wstring \<times> wstring) \<Rightarrow> wstring \<Rightarrow> wstring list"
where
  "split_command_line scan line =
     (if line \<noteq> [] \<and> hd line = WCHR DQ then
        takeWhile (\<lambda>c. c \<noteq> WCHR DQ) (tl line) #
          split_arguments scan (length line) (drop 1 (dropWhile (\<lambda>c. c \<noteq> WCHR DQ) (tl line)))
      else takeWhile (\<lambda>c. \<not> blank c) line #
          split_arguments scan (length line) (dropWhile (\<lambda>c. \<not> blank c) line))"

section \<open>A scanner that follows the rules\<close>

text \<open>\<open>k\<close> backslashes have been read and not yet emitted.\<close>

fun reference_scan_from :: "nat \<Rightarrow> bool \<Rightarrow> wstring \<Rightarrow> wstring \<Rightarrow> wstring \<times> wstring" where
  "reference_scan_from k inside acc [] = (acc @ replicate k (WCHR BS), [])"
| "reference_scan_from k inside acc (c # rest) =
     (if c = WCHR BS then reference_scan_from (Suc k) inside acc rest
      else if c = WCHR DQ then
        (if odd k then reference_scan_from 0 inside (acc @ replicate (k div 2) (WCHR BS) @ [c]) rest
         else if inside \<and> rest \<noteq> [] \<and> hd rest = WCHR DQ then
           reference_scan_from 0 inside (acc @ replicate (k div 2) (WCHR BS) @ [c]) (tl rest)
         else reference_scan_from 0 (\<not> inside) (acc @ replicate (k div 2) (WCHR BS)) rest)
      else if \<not> inside \<and> blank c then (acc @ replicate k (WCHR BS), c # rest)
      else reference_scan_from 0 inside (acc @ replicate k (WCHR BS) @ [c]) rest)"

definition reference_scan :: "bool \<Rightarrow> wstring \<Rightarrow> wstring \<Rightarrow> wstring \<times> wstring" where
  "reference_scan = reference_scan_from 0"

lemma reference_scan_backslashes:
  "reference_scan_from k inside acc (replicate n (WCHR BS) @ rest)
     = reference_scan_from (k + n) inside acc rest"
  by (induction n arbitrary: k) simp_all

interpretation reference_argv: argv_rules reference_scan
proof
  fix acc rest :: wstring and n
  assume "rest = [] \<or> blank (hd rest)"
  then show "reference_scan False acc (replicate n (WCHR BS) @ rest)
      = (acc @ replicate n (WCHR BS), rest)"
    unfolding reference_scan_def reference_scan_backslashes
    by (cases rest) (auto simp: blank_def)
next
  show "reference_scan True acc (replicate n (WCHR BS)) = (acc @ replicate n (WCHR BS), [])" for acc n
    using reference_scan_backslashes[of 0 True acc n "[]"] by (simp add: reference_scan_def)
qed (auto simp: reference_scan_def reference_scan_backslashes[simplified])

section \<open>The program receives the arguments\<close>

text \<open>The acc the quoting loop still writes when \<open>k\<close> backslashes are pending.\<close>

fun quoted_tail :: "nat \<Rightarrow> wstring \<Rightarrow> wstring" where
  "quoted_tail k [] = replicate (k * 2) (WCHR BS) @ [WCHR DQ]"
| "quoted_tail k (c # s) =
     (if c = WCHR BS then quoted_tail (k + 1) s
      else if c = WCHR DQ then replicate (k * 2 + 1) (WCHR BS) @ WCHR DQ # quoted_tail 0 s
      else replicate k (WCHR BS) @ c # quoted_tail 0 s)"

lemma Quote_loop:
  "(let (quoted, k') = foldl Quote_step (out, k) s
    in quoted @ replicate (k' * 2) (WCHR BS) @ [WCHR DQ]) = out @ quoted_tail k s"
  by (induction s arbitrary: out k) (auto simp: Let_def split: prod.splits)

definition argument_text :: "wstring list \<Rightarrow> wstring" where
  "argument_text arguments =
     concat (map (\<lambda>a. WCHR CHR '' '' # QuoteWindowsCommandLineArgument a) arguments)"

lemma c_string_append: "c_string (xs @ ys) = (if 0 \<in> set xs then c_string xs else xs @ c_string ys)"
  by (auto simp: c_string_def takeWhile_append)

lemma c_string_simps [simp]:
  "c_string [] = []" "c_string (c # s) = (if c = 0 then [] else c # c_string s)"
  by (simp_all add: c_string_def)

lemma c_string_id: "0 \<notin> set s \<Longrightarrow> c_string s = s"
  by (auto simp: c_string_def takeWhile_eq_all_conv)

lemma wchr_nonzero [simp]: "WCHR BS \<noteq> 0" "WCHR DQ \<noteq> 0" "WCHR CHR '' '' \<noteq> 0"
  "0 \<noteq> WCHR BS" "0 \<noteq> WCHR DQ"
  by simp_all

lemma zero_in_quoted_tail: "0 \<in> set (quoted_tail k s) \<longleftrightarrow> 0 \<in> set s"
  by (induction s arbitrary: k) auto

lemma zero_in_Quote: "0 \<in> set (QuoteWindowsCommandLineArgument s) \<longleftrightarrow> 0 \<in> set s"
  using Quote_loop[of "[WCHR DQ]" 0 s] zero_in_quoted_tail[of 0 s]
  by (auto simp: QuoteWindowsCommandLineArgument_def)

text \<open>
  What is left of the arguments when the line ends at the first null character: those before it, and the
  part before it of the argument that has it, if anything of that was written.
\<close>

fun cut_arguments :: "wstring list \<Rightarrow> wstring list" where
  "cut_arguments [] = []"
| "cut_arguments (a # arguments) =
     (if 0 \<notin> set a then a # cut_arguments arguments
      else if c_string a = [] \<and> \<not> contains_any quote_special a then [] else [c_string a])"

lemma cut_arguments_id: "\<forall>a \<in> set arguments. 0 \<notin> set a \<Longrightarrow> cut_arguments arguments = arguments"
  by (induction arguments) simp_all

lemma cut_arguments_append:
  "\<forall>a \<in> set xs. 0 \<notin> set a \<Longrightarrow> cut_arguments (xs @ ys) = xs @ cut_arguments ys"
  by (induction xs) simp_all

lemma line_without_null:
  assumes "BuildWindowsCommandLine executable arguments = Some line" and "\<forall>a \<in> set (executable # arguments). 0 \<notin> set a"
  shows "c_string line = line"
proof (rule c_string_id)
  have "0 \<in> set (foldl (\<lambda>commandLine argument. (commandLine @ [WCHR CHR '' '']) @ QuoteWindowsCommandLineArgument argument)
      out arguments) \<longleftrightarrow> 0 \<in> set out \<or> (\<exists>a \<in> set arguments. 0 \<in> set a)" for out
    by (induction arguments arbitrary: out) (auto simp: zero_in_Quote)
  with assms show "0 \<notin> set line" by (auto simp: BuildWindowsCommandLine_def split: if_split_asm)
qed

context argv_rules
begin

lemma scan_quoted_tail:
  assumes "rest = [] \<or> blank (hd rest)"
  shows "0 \<notin> set s \<Longrightarrow> scan True acc (quoted_tail k s @ rest) = (acc @ replicate k (WCHR BS) @ s, rest)"
proof (induction s arbitrary: k acc)
  case Nil
  have nq: "\<not> (rest \<noteq> [] \<and> hd rest = WCHR DQ)" using assms by (auto simp: blank_def)
  then have "scan True acc (replicate (2 * k) (WCHR BS) @ WCHR DQ # rest)
      = scan False (acc @ replicate k (WCHR BS)) rest"
    using quote_toggles[of True rest acc k] by simp
  also have "\<dots> = (acc @ replicate k (WCHR BS), rest)"
    using ends[of rest "acc @ replicate k (WCHR BS)" 0] assms by simp
  finally show ?case by (simp add: mult.commute)
next
  case (Cons c s)
  show ?case
  proof (cases "c = WCHR BS")
    case True
    then show ?thesis
      using Cons.IH[of acc "k + 1"] Cons.prems by (simp add: replicate_app_Cons_same)
  next
    case nbs: False
    show ?thesis
    proof (cases "c = WCHR DQ")
      case True
      then show ?thesis
        using quote_escaped[of True acc k "quoted_tail 0 s @ rest"] Cons.IH[of _ 0] Cons.prems
        by (simp add: mult.commute)
    next
      case False
      with nbs show ?thesis
        using literal[of c True acc k "quoted_tail 0 s @ rest"] Cons.IH[of _ 0] Cons.prems by simp
    qed
  qed
qed

lemma scan_quoted_cut:
  "0 \<in> set s \<Longrightarrow> scan True acc (c_string (quoted_tail k s)) = (acc @ replicate k (WCHR BS) @ c_string s, [])"
proof (induction s arbitrary: k acc)
  case (Cons c s)
  consider "c = 0" | "c = WCHR BS" | "c = WCHR DQ" | (other) "c \<noteq> 0" "c \<noteq> WCHR BS" "c \<noteq> WCHR DQ" by blast
  then show ?case
  proof cases
    case 1
    then show ?thesis using ends_quoted[of acc k] by (simp add: c_string_append)
  next
    case 2
    then show ?thesis using Cons.IH[of acc "k + 1"] Cons.prems by (simp add: replicate_app_Cons_same)
  next
    case 3
    then show ?thesis
      using quote_escaped[of True acc k "c_string (quoted_tail 0 s)"] Cons.IH[of _ 0] Cons.prems
      by (simp add: c_string_append mult.commute)
  next
    case other
    then show ?thesis
      using literal[of c True acc k "c_string (quoted_tail 0 s)"] Cons.IH[of _ 0] Cons.prems
      by (simp add: c_string_append)
  qed
qed simp

lemma scan_plain:
  assumes "rest = [] \<or> blank (hd rest)"
  shows "\<not> contains_any quote_special s \<Longrightarrow> 0 \<notin> set s \<Longrightarrow>
    scan False acc (replicate k (WCHR BS) @ s @ rest) = (acc @ replicate k (WCHR BS) @ s, rest)"
proof (induction s arbitrary: k acc)
  case Nil
  then show ?case using ends[OF assms] by simp
next
  case (Cons c s)
  show ?case
  proof (cases "c = WCHR BS")
    case True
    then show ?thesis
      using Cons.IH[of acc "Suc k"] Cons.prems by (simp add: replicate_app_Cons_same contains_any_def)
  next
    case False
    with Cons.prems have "c \<noteq> WCHR DQ" "\<not> blank c"
      by (auto simp: contains_any_def quote_special_def blank_def)
    with False Cons show ?thesis
      using literal[of c False acc k "s @ rest"] Cons.IH[of _ 0] by (simp add: contains_any_def)
  qed
qed

lemma Quote_quoted:
  "s = [] \<or> contains_any quote_special s \<Longrightarrow> QuoteWindowsCommandLineArgument s = WCHR DQ # quoted_tail 0 s"
  using Quote_loop[of "[WCHR DQ]" 0 s]
  by (auto simp: QuoteWindowsCommandLineArgument_def contains_any_def)

lemma scan_Quote:
  assumes "rest = [] \<or> blank (hd rest)" and "0 \<notin> set s"
  shows "scan False [] (QuoteWindowsCommandLineArgument s @ rest) = (s, rest)"
proof (cases "s = [] \<or> contains_any quote_special s")
  case True
  then show ?thesis
    using quote_toggles[of False "quoted_tail 0 s @ rest" "[]" 0] scan_quoted_tail[OF assms, of "[]" 0]
    by (simp add: Quote_quoted)
next
  case False
  then show ?thesis
    using scan_plain[OF assms(1), of s "[]" 0] assms(2) by (simp add: QuoteWindowsCommandLineArgument_def)
qed

lemma plain_cut: "\<not> contains_any quote_special s \<Longrightarrow> \<not> contains_any quote_special (c_string s)"
  by (auto simp: contains_any_def c_string_def list_ex_iff dest: set_takeWhileD)

lemma scan_Quote_cut:
  assumes "0 \<in> set s"
  shows "scan False [] (c_string (QuoteWindowsCommandLineArgument s)) = (c_string s, [])"
proof (cases "contains_any quote_special s")
  case True
  then show ?thesis
    using quote_toggles[of False "c_string (quoted_tail 0 s)" "[]" 0] scan_quoted_cut[OF assms, of "[]" 0]
    by (simp add: Quote_quoted)
next
  case False
  moreover have "s \<noteq> []" "0 \<notin> set (c_string s)" using assms by (auto simp: c_string_def dest: set_takeWhileD)
  ultimately show ?thesis
    using scan_plain[of "[]" "c_string s" "[]" 0] plain_cut[of s] by (simp add: QuoteWindowsCommandLineArgument_def)
qed

lemma Quote_starts:
  "\<exists>c q. QuoteWindowsCommandLineArgument s = c # q \<and> \<not> blank c"
proof (cases "s = [] \<or> contains_any quote_special s")
  case True
  then show ?thesis
    using Quote_loop[of "[WCHR DQ]" 0 s]
    by (auto simp: QuoteWindowsCommandLineArgument_def contains_any_def blank_def)
next
  case False
  then show ?thesis
    by (cases s) (auto simp: QuoteWindowsCommandLineArgument_def contains_any_def quote_special_def blank_def)
qed

lemma split_cut_argument:
  assumes "0 \<in> set a"
  shows "split_arguments scan (Suc fuel) (WCHR CHR '' '' # c_string (QuoteWindowsCommandLineArgument a))
    = (if c_string a = [] \<and> \<not> contains_any quote_special a then [] else [c_string a])"
proof (cases "c_string (QuoteWindowsCommandLineArgument a)")
  case Nil
  have "a \<noteq> []" using assms by auto
  have "\<not> contains_any quote_special a"
    using Nil Quote_quoted[of a] by (auto split: if_split_asm)
  moreover from this Nil assms have "c_string a = []"
    by (auto simp: QuoteWindowsCommandLineArgument_def split: if_split_asm)
  ultimately show ?thesis using Nil by (simp add: blank_def)
next
  case (Cons c q)
  obtain d r where "QuoteWindowsCommandLineArgument a = d # r" "\<not> blank d" using Quote_starts by blast
  with Cons have c: "\<not> blank c" by (auto split: if_split_asm)
  have "c_string a \<noteq> [] \<or> contains_any quote_special a"
    using Cons assms by (auto simp: QuoteWindowsCommandLineArgument_def split: if_split_asm)
  moreover have "split_arguments scan fuel [] = []" by (cases fuel) simp_all
  ultimately show ?thesis
    using c scan_Quote_cut[OF assms, unfolded Cons] by (simp add: Cons blank_def del: split_arguments.simps(2))
      (simp add: blank_def)
qed

lemma split_argument_text:
  "length (cut_arguments arguments) \<le> fuel \<Longrightarrow> split_arguments scan fuel (c_string (argument_text arguments)) = cut_arguments arguments"
proof (induction arguments arbitrary: fuel)
  case Nil
  then show ?case by (cases fuel) (simp_all add: argument_text_def)
next
  case (Cons a as)
  have all: "argument_text (a # as) = WCHR CHR '' '' # QuoteWindowsCommandLineArgument a @ argument_text as"
    by (simp add: argument_text_def)
  show ?case
  proof (cases "0 \<in> set a")
    case True
    then have "c_string (argument_text (a # as)) = WCHR CHR '' '' # c_string (QuoteWindowsCommandLineArgument a)"
      by (simp add: all c_string_append zero_in_Quote)
    with split_cut_argument[OF True] True Cons.prems show ?thesis
      by (cases fuel) (auto simp del: split_arguments.simps(2) split: if_split_asm)
  next
    case False
    with Cons.prems obtain k where k: "fuel = Suc k" by (cases fuel) auto
    obtain c q where q: "QuoteWindowsCommandLineArgument a = c # q" "\<not> blank c"
      using Quote_starts by blast
    have line: "c_string (argument_text (a # as))
        = WCHR CHR '' '' # QuoteWindowsCommandLineArgument a @ c_string (argument_text as)"
      using False by (simp add: all c_string_append zero_in_Quote)
    have "c_string (argument_text as) = [] \<or> blank (hd (c_string (argument_text as)))"
      by (cases as) (simp_all add: argument_text_def blank_def)
    from scan_Quote[OF this False] Cons q k False show ?thesis
      unfolding line by (simp add: blank_def)
  qed
qed

lemma cut_arguments_length: "length (cut_arguments arguments) \<le> length (c_string (argument_text arguments))"
  by (induction arguments) (auto simp: argument_text_def c_string_append zero_in_Quote)

lemma split_BuildWindowsCommandLine:
  assumes "BuildWindowsCommandLine executable arguments = Some line"
  shows "split_command_line scan (c_string line)
    = (if 0 \<in> set executable then [c_string executable] else executable # cut_arguments arguments)"
proof -
  have fold: "foldl (\<lambda>commandLine argument.
       (commandLine @ [WCHR CHR '' '']) @ QuoteWindowsCommandLineArgument argument) out arguments
     = out @ argument_text arguments" for out
    by (induction arguments arbitrary: out) (simp_all add: argument_text_def)
  from assms have ne: "WCHR DQ \<notin> set executable" and
    line: "line = WCHR DQ # executable @ WCHR DQ # argument_text arguments"
    by (auto simp: BuildWindowsCommandLine_def fold[simplified] split: if_splits)
  show ?thesis
  proof (cases "0 \<in> set executable")
    case True
    have "WCHR DQ \<notin> set (c_string executable)" using ne by (auto simp: c_string_def dest: set_takeWhileD)
    then have "\<forall>c \<in> set (c_string executable). c \<noteq> WCHR DQ" by auto
    with True show ?thesis
      by (simp add: split_command_line_def line c_string_append takeWhile_eq_all_conv[THEN iffD2]
          dropWhile_eq_Nil_conv[THEN iffD2])
  next
    case False
    have "c_string line = WCHR DQ # executable @ WCHR DQ # c_string (argument_text arguments)"
      using False by (simp add: line c_string_append)
    with ne False show ?thesis
      using cut_arguments_length[of arguments]
      by (simp add: split_command_line_def takeWhile_append dropWhile_append
        split_argument_text dropWhile_eq_Nil_conv takeWhile_eq_all_conv
        del: split_arguments.simps cut_arguments.simps)
  qed
qed

end

section \<open>Properties\<close>

text \<open>
  C9: A program that splits its command line by the documented rules receives exactly the
  executable name and the arguments the command line was built from, whatever blanks, quotes and
  backslashes they contain; the only refused input is an executable name with a quote. The first null
  character in an argument ends the line: then it receives the arguments before it and what precedes the
  null character in its own.
\<close>

theorem command_line_roundtrip:
  assumes "argv_rules scan" and "WCHR DQ \<notin> set executable"
  shows "\<exists>line. BuildWindowsCommandLine executable arguments = Some line
    \<and> split_command_line scan (c_string line)
      = (if 0 \<in> set executable then [c_string executable] else executable # cut_arguments arguments)
    \<and> ((\<forall>a \<in> set (executable # arguments). 0 \<notin> set a) \<longrightarrow> c_string line = line
        \<and> split_command_line scan line = executable # arguments)"
proof -
  obtain line where line: "BuildWindowsCommandLine executable arguments = Some line"
    using assms(2) by (simp add: BuildWindowsCommandLine_def)
  from argv_rules.split_BuildWindowsCommandLine[OF assms(1) line] line line_without_null[OF line] show ?thesis
    by (auto simp: cut_arguments_id)
qed

lemma command_line_roundtrip_witness:
  "\<exists>line. BuildWindowsCommandLine (wide ''cmd'') [[], wide [CHR ''a'', BS, DQ], wide [CHR '' '', BS]]
      = Some line
    \<and> split_command_line reference_scan line
      = [wide ''cmd'', [], wide [CHR ''a'', BS, DQ], wide [CHR '' '', BS]]"
  using command_line_roundtrip[OF reference_argv.argv_rules_axioms, of "wide ''cmd''"
      "[[], wide [CHR ''a'', BS, DQ], wide [CHR '' '', BS]]"] by (auto simp: wide_def)

end
