(* ===== verification/Invocation.thy ===== *)
theory Invocation
  imports BrokerProtocol CommandLine
begin

text \<open>
  The command lines the programs read: the options of the launcher
  (\<open>src/launcher/LauncherOptions.cpp\<close>), the invocation of the pseudoconsole host
  (\<open>src/conhost/PseudoConsoleHostInvocation.cpp\<close>) and the arguments with which the broker starts
  that host (\<open>src/broker/BrokerApplication.cpp\<close>). \<open>argv\<close> is a list of wide strings, an index that
  moves forward is the rest of the list. Main results: the host reads back what the broker passes,
  through quoting and splitting of the command line; the launcher hands everything after \<open>--\<close> on
  unchanged and reads back every valid set of options.
\<close>

section \<open>Launcher options\<close>

datatype SessionMode = ConsoleMode | InteractiveMode

record Options =
  opt_username :: wstring
  opt_workingDirectory :: wstring
  opt_executablePath :: wstring
  opt_processArguments :: "wstring list"
  opt_sessionMode :: SessionMode
  opt_restrictAccess :: bool
  opt_lowIntegrity :: bool
  opt_log :: bool
  opt_appContainer :: AppContainerOptions

definition Options_default :: Options where
  "Options_default = \<lparr>opt_username = [], opt_workingDirectory = [], opt_executablePath = [],
     opt_processArguments = [], opt_sessionMode = ConsoleMode, opt_restrictAccess = False,
     opt_lowIntegrity = False, opt_log = False, opt_appContainer = AppContainerOptions_default\<rparr>"

text \<open>The loop over \<open>index\<close>; the result also says whether \<open>--\<close> was seen.\<close>

fun ParseOptions_loop :: "bool \<Rightarrow> Options \<Rightarrow> wstring list \<Rightarrow> (Options \<times> bool) option" where
  "ParseOptions_loop modeSeen options [] = Some (options, False)"
| "ParseOptions_loop modeSeen options (name # rest) =
     (if name = wide ''--appcontainer-experimental'' then
        (if enabled (opt_appContainer options) then None
         else ParseOptions_loop modeSeen
           (options\<lparr>opt_appContainer := (opt_appContainer options)\<lparr>enabled := True\<rparr>\<rparr>) rest)
      else if name = wide ''--'' then
        Some (options\<lparr>opt_processArguments := opt_processArguments options @ rest\<rparr>, True)
      else if name = wide ''--log'' then
        (if opt_log options then None
         else ParseOptions_loop modeSeen (options\<lparr>opt_log := True\<rparr>) rest)
      else if name = wide ''--restrict-access'' then
        (if opt_restrictAccess options then None
         else ParseOptions_loop modeSeen (options\<lparr>opt_restrictAccess := True\<rparr>) rest)
      else if name = wide ''--low-integrity'' then
        (if opt_lowIntegrity options then None
         else ParseOptions_loop modeSeen (options\<lparr>opt_lowIntegrity := True\<rparr>) rest)
      else (case rest of
              [] \<Rightarrow> None
            | v # rest' \<Rightarrow>
                if name = wide ''--user'' then
                  ParseOptions_loop modeSeen (options\<lparr>opt_username := v\<rparr>) rest'
                else if name = wide ''--appcontainer-capability'' then
                  ParseOptions_loop modeSeen (options\<lparr>opt_appContainer := (opt_appContainer options)
                    \<lparr>capabilities := capabilities (opt_appContainer options) @ [v]\<rparr>\<rparr>) rest'
                else if name = wide ''--working-directory'' then
                  ParseOptions_loop modeSeen (options\<lparr>opt_workingDirectory := v\<rparr>) rest'
                else if name = wide ''--mode'' \<and> \<not> modeSeen then
                  (if v = wide ''console'' then
                     ParseOptions_loop True (options\<lparr>opt_sessionMode := ConsoleMode\<rparr>) rest'
                   else if v = wide ''interactive'' then
                     ParseOptions_loop True (options\<lparr>opt_sessionMode := InteractiveMode\<rparr>) rest'
                   else None)
                else None))"

definition ParseOptions :: "wstring list \<Rightarrow> Options option" where
  "ParseOptions args =
     (if length args < 2 then None
      else
        (let explicitRun = (args ! 1 = wide ''run'');
             firstOptionIndex = (if explicitRun then 2 else 1)
         in case ParseOptions_loop False Options_default (drop firstOptionIndex args) of
              None \<Rightarrow> None
            | Some (options, processArgumentsStarted) \<Rightarrow>
                if \<not> IsValidAppContainerOptions (opt_appContainer options)
                  \<or> (enabled (opt_appContainer options) \<and> (opt_sessionMode options \<noteq> ConsoleMode
                       \<or> opt_lowIntegrity options \<or> opt_restrictAccess options))
                  \<or> opt_username options = [] \<or> contains_any (wide (BS # ''/@'')) (opt_username options)
                then None
                else if \<not> processArgumentsStarted \<or> opt_processArguments options = [] then None
                else Some (options\<lparr>opt_executablePath := hd (opt_processArguments options),
                                   opt_processArguments := tl (opt_processArguments options)\<rparr>)))"

section \<open>The pseudoconsole host\<close>

record PseudoConsoleHostInvocation =
  host_inheritCursor :: bool
  host_appContainer :: AppContainerOptions
  host_executable :: wstring
  host_processArguments :: "wstring list"
  host_pipeIn :: wstring
  host_pipeOut :: wstring
  host_pipeResize :: wstring

definition PseudoConsoleHostInvocation_default :: PseudoConsoleHostInvocation where
  "PseudoConsoleHostInvocation_default =
     \<lparr>host_inheritCursor = False, host_appContainer = AppContainerOptions_default,
      host_executable = [], host_processArguments = [], host_pipeIn = [], host_pipeOut = [],
      host_pipeResize = []\<rparr>"

definition HostArgument :: wstring where
  "HostArgument = wide ''--internal-pseudoconsole-host''"

definition IsPseudoConsoleHostInvocation :: "wstring list \<Rightarrow> bool" where
  "IsPseudoConsoleHostInvocation args \<longleftrightarrow> length args \<ge> 2 \<and> args ! 1 = HostArgument"

text \<open>The loop up to \<open>--\<close>; the rest of the list starts at \<open>separatorIndex\<close>.\<close>

fun HostInvocation_loop ::
  "PseudoConsoleHostInvocation \<Rightarrow> wstring list \<Rightarrow> (PseudoConsoleHostInvocation \<times> wstring list) option"
where
  "HostInvocation_loop invocation [] = Some (invocation, [])"
| "HostInvocation_loop invocation (name # rest) =
     (if name = wide ''--'' then Some (invocation, name # rest)
      else if name = wide ''--appcontainer-experimental'' \<and> \<not> enabled (host_appContainer invocation) then
        HostInvocation_loop (invocation\<lparr>host_appContainer :=
          (host_appContainer invocation)\<lparr>enabled := True\<rparr>\<rparr>) rest
      else (case rest of
              [] \<Rightarrow> None
            | v # rest' \<Rightarrow>
                if v = [] then None
                else if name = wide ''--appcontainer-capability'' then
                  HostInvocation_loop (invocation\<lparr>host_appContainer := (host_appContainer invocation)
                    \<lparr>capabilities := capabilities (host_appContainer invocation) @ [v]\<rparr>\<rparr>) rest'
                else if name = wide ''--pipe-in'' \<and> host_pipeIn invocation = [] then
                  HostInvocation_loop (invocation\<lparr>host_pipeIn := v\<rparr>) rest'
                else if name = wide ''--pipe-out'' \<and> host_pipeOut invocation = [] then
                  HostInvocation_loop (invocation\<lparr>host_pipeOut := v\<rparr>) rest'
                else if name = wide ''--pipe-resize'' \<and> host_pipeResize invocation = [] then
                  HostInvocation_loop (invocation\<lparr>host_pipeResize := v\<rparr>) rest'
                else None))"

definition ParsePseudoConsoleHostInvocation ::
  "wstring list \<Rightarrow> PseudoConsoleHostInvocation \<Rightarrow> PseudoConsoleHostInvocation option"
where
  "ParsePseudoConsoleHostInvocation args invocation =
     (if length args < 4 \<or> args ! 1 \<noteq> HostArgument then None
      else
        (let invocation = invocation\<lparr>host_inheritCursor := (args ! 2 = wide ''--inherit-cursor'')\<rparr>;
             separatorIndex = (if host_inheritCursor invocation then 3 else 2)
         in case HostInvocation_loop invocation (drop separatorIndex args) of
              None \<Rightarrow> None
            | Some (invocation, rest) \<Rightarrow>
                (case rest of
                   separator # executable # others \<Rightarrow>
                     if separator \<noteq> wide ''--'' then None
                     else
                       (let invocation = invocation\<lparr>host_executable := executable,
                              host_processArguments := host_processArguments invocation @ others\<rparr>
                        in if IsValidAppContainerOptions (host_appContainer invocation)
                             \<and> host_pipeIn invocation \<noteq> [] \<and> host_pipeOut invocation \<noteq> []
                             \<and> host_pipeResize invocation \<noteq> [] then Some invocation else None)
                 | _ \<Rightarrow> None)))"

text \<open>What \<open>BrokerApplication::Launch\<close> passes to the host for a console launch.\<close>

definition conhostArguments :: "BrokerRequest \<Rightarrow> wstring list" where
  "conhostArguments request =
     (let args = [HostArgument];
          args = (if inheritCursor (console request) then args @ [wide ''--inherit-cursor''] else args);
          args = (if enabled (appContainer request) then
                    foldl (\<lambda>a capability. a @ [wide ''--appcontainer-capability'', capability])
                      (args @ [wide ''--appcontainer-experimental''])
                      (capabilities (appContainer request))
                  else args);
          args = args @ [wide ''--pipe-in'', pipeIn (console request),
                         wide ''--pipe-out'', pipeOut (console request),
                         wide ''--pipe-resize'', pipeResize (console request), wide ''--'']
      in args @ arguments request)"

section \<open>The host reads what the broker passes\<close>

lemma capability_arguments:
  "foldl (\<lambda>a capability. a @ [wide ''--appcontainer-capability'', capability]) args caps
     = args @ concat (map (\<lambda>c. [wide ''--appcontainer-capability'', c]) caps)"
  by (induction caps arbitrary: args) simp_all

lemma HostInvocation_loop_capabilities:
  "[] \<notin> set caps \<Longrightarrow> HostInvocation_loop invocation
       (concat (map (\<lambda>c. [wide ''--appcontainer-capability'', c]) caps) @ rest)
     = HostInvocation_loop (invocation\<lparr>host_appContainer := (host_appContainer invocation)
         \<lparr>capabilities := capabilities (host_appContainer invocation) @ caps\<rparr>\<rparr>) rest"
  by (induction caps arbitrary: invocation) auto

text \<open>The words before the pipe names, and those of the pipe names.\<close>

definition conhost_options :: "BrokerRequest \<Rightarrow> wstring list" where
  "conhost_options request = HostArgument # (if inheritCursor (console request) then [wide ''--inherit-cursor''] else [])
     @ (if enabled (appContainer request) then wide ''--appcontainer-experimental''
          # concat (map (\<lambda>c. [wide ''--appcontainer-capability'', c]) (capabilities (appContainer request))) else [])"

definition conhost_pipes :: "BrokerRequest \<Rightarrow> wstring list" where
  "conhost_pipes request = [wide ''--pipe-in'', pipeIn (console request), wide ''--pipe-out'', pipeOut (console request),
     wide ''--pipe-resize'', pipeResize (console request), wide ''--'']"

lemma conhostArguments_eq: "conhostArguments request = conhost_options request @ conhost_pipes request @ arguments request"
  by (simp add: conhostArguments_def conhost_options_def conhost_pipes_def capability_arguments Let_def)

definition pipe_names :: "BrokerRequest \<Rightarrow> wstring list" where
  "pipe_names request = [pipeIn (console request), pipeOut (console request), pipeResize (console request)]"

lemma host_reads_options:
  assumes "IsValidAppContainerOptions (appContainer request)" and "length tail \<ge> 2" and "hd tail \<noteq> wide ''--inherit-cursor''"
    and "hd tail \<noteq> wide ''--appcontainer-experimental''"
  shows "ParsePseudoConsoleHostInvocation (program # conhost_options request @ tail) PseudoConsoleHostInvocation_default
    = (case HostInvocation_loop (PseudoConsoleHostInvocation_default\<lparr>host_inheritCursor := inheritCursor (console request),
          host_appContainer := appContainer request\<rparr>) tail of
         Some (invocation, separator # executable # others) \<Rightarrow>
           if separator = wide ''--'' \<and> host_pipeIn invocation \<noteq> [] \<and> host_pipeOut invocation \<noteq> []
             \<and> host_pipeResize invocation \<noteq> [] \<and> IsValidAppContainerOptions (host_appContainer invocation)
           then Some (invocation\<lparr>host_executable := executable,
             host_processArguments := host_processArguments invocation @ others\<rparr>) else None
       | _ \<Rightarrow> None)"
proof -
  have caps: "[] \<notin> set (capabilities (appContainer request))"
    using IsValidAppContainerOptions_capability[OF assms(1)]
    by (auto simp: list_all_iff IsAppContainerCapability_def)
  have off: "\<not> enabled (appContainer request) \<Longrightarrow> appContainer request = AppContainerOptions_default"
    using assms(1) by (simp add: IsValidAppContainerOptions_def AppContainerOptions_default_def split: if_splits)
  obtain n c where app: "appContainer request = \<lparr>enabled = n, capabilities = c\<rparr>"
    by (cases "appContainer request")
  obtain x y tail' where tail: "tail = x # y # tail'"
    using assms(2) by (cases tail; cases "tl tail") auto
  let ?start = "PseudoConsoleHostInvocation_default\<lparr>host_inheritCursor := inheritCursor (console request)\<rparr>"
  define words where "words = (if n then wide ''--appcontainer-experimental''
        # concat (map (\<lambda>c. [wide ''--appcontainer-capability'', c]) c) else []) @ tail"
  define args where "args = program # conhost_options request @ tail"
  have loop: "HostInvocation_loop ?start words = HostInvocation_loop (?start\<lparr>host_appContainer := appContainer request\<rparr>) tail"
    using off caps by (cases n) (simp_all add: words_def app HostInvocation_loop_capabilities
        PseudoConsoleHostInvocation_default_def AppContainerOptions_default_def)
  have dropped: "drop (if inheritCursor (console request) then 3 else 2) args = words"
    by (simp add: args_def conhost_options_def app words_def)
  have cursor: "args ! 2 = wide ''--inherit-cursor'' \<longleftrightarrow> inheritCursor (console request)"
    using assms(3) by (cases n) (simp_all add: args_def conhost_options_def app tail)
  have start: "\<not> length args < 4" "args ! 1 = HostArgument"
    by (simp_all add: args_def conhost_options_def tail)
  have selected: "host_inheritCursor ?start = inheritCursor (console request)" by simp
  have "ParsePseudoConsoleHostInvocation args PseudoConsoleHostInvocation_default
    = (case HostInvocation_loop (?start\<lparr>host_appContainer := appContainer request\<rparr>) tail of None \<Rightarrow> None
       | Some (invocation, rest) \<Rightarrow> (case rest of separator # executable # others \<Rightarrow>
           if separator \<noteq> wide ''--'' then None
           else (let invocation = invocation\<lparr>host_executable := executable,
                   host_processArguments := host_processArguments invocation @ others\<rparr>
                 in if IsValidAppContainerOptions (host_appContainer invocation) \<and> host_pipeIn invocation \<noteq> []
                   \<and> host_pipeOut invocation \<noteq> [] \<and> host_pipeResize invocation \<noteq> [] then Some invocation else None)
         | _ \<Rightarrow> None))"
    unfolding ParsePseudoConsoleHostInvocation_def Let_def cursor
    by (simp only: start if_False simp_thms selected dropped loop)
  then show ?thesis
    unfolding args_def by (auto simp: Let_def split: option.split prod.split list.split)
qed

section \<open>The launcher's options\<close>

text \<open>
  The grammar of the options: flags, and options with a value; \<open>--mode\<close> at most once, a flag at most
  once. What an option says is what it changes, in the order in which they are written.
\<close>

type_synonym option_word = "wstring \<times> wstring option"

definition option_word :: "option_word \<Rightarrow> bool" where
  "option_word = (\<lambda>(name, value). case value of
     None \<Rightarrow> name \<in> wide ` {''--appcontainer-experimental'', ''--log'', ''--restrict-access'', ''--low-integrity''}
   | Some v \<Rightarrow> name \<in> wide ` {''--user'', ''--appcontainer-capability'', ''--working-directory''}
       \<or> name = wide ''--mode'' \<and> v \<in> wide ` {''console'', ''interactive''})"

definition option_text :: "option_word \<Rightarrow> wstring list" where
  "option_text = (\<lambda>(name, value). name # (case value of None \<Rightarrow> [] | Some v \<Rightarrow> [v]))"

definition said :: "string \<Rightarrow> option_word list \<Rightarrow> wstring list" where
  "said name ws = List.map_filter (\<lambda>(n, v). if n = wide name then v else None) ws"

definition flag_said :: "string \<Rightarrow> option_word list \<Rightarrow> bool" where
  "flag_said name ws \<longleftrightarrow> (wide name, None) \<in> set ws"

text \<open>The options that the words say, over those so far.\<close>

definition read_options :: "Options \<Rightarrow> option_word list \<Rightarrow> Options" where
  "read_options options ws = options\<lparr>opt_username := last (opt_username options # said ''--user'' ws),
     opt_workingDirectory := last (opt_workingDirectory options # said ''--working-directory'' ws),
     opt_sessionMode := last (opt_sessionMode options
       # map (\<lambda>v. if v = wide ''interactive'' then InteractiveMode else ConsoleMode) (said ''--mode'' ws)),
     opt_restrictAccess := (opt_restrictAccess options \<or> flag_said ''--restrict-access'' ws),
     opt_lowIntegrity := (opt_lowIntegrity options \<or> flag_said ''--low-integrity'' ws),
     opt_log := (opt_log options \<or> flag_said ''--log'' ws),
     opt_appContainer := \<lparr>enabled = (enabled (opt_appContainer options) \<or> flag_said ''--appcontainer-experimental'' ws),
       capabilities = capabilities (opt_appContainer options) @ said ''--appcontainer-capability'' ws\<rparr>\<rparr>"

lemma said_simps [simp]:
  "said name [] = []"
  "said name ((n, v) # ws) = (if n = wide name then (case v of None \<Rightarrow> [] | Some x \<Rightarrow> [x]) else []) @ said name ws"
  "flag_said name [] = False" "flag_said name ((n, v) # ws) \<longleftrightarrow> n = wide name \<and> v = None \<or> flag_said name ws"
  by (auto simp: said_def flag_said_def List.map_filter_def split: option.splits)

lemma read_options_Nil [simp]: "read_options options [] = options"
  by (cases options) (auto simp: read_options_def)

text \<open>The arguments are words of the grammar up to the first \<open>--\<close> where an option could stand.\<close>

definition words_read :: "Options \<Rightarrow> Options \<Rightarrow> wstring list \<Rightarrow> bool" where
  "words_read options options' args \<longleftrightarrow> (\<exists>ws process. args = concat (map option_text ws) @ wide ''--'' # process
     \<and> list_all option_word ws
     \<and> options' = (read_options options ws)\<lparr>opt_processArguments := opt_processArguments options @ process\<rparr>)"

lemma words_read_step:
  assumes "words_read options1 options' args" and "option_word word"
    and "opt_processArguments options1 = opt_processArguments options"
    and "\<And>ws. read_options options1 ws = read_options options (word # ws)"
  shows "words_read options options' (option_text word @ args)"
proof -
  from assms(1) obtain ws process where "args = concat (map option_text ws) @ wide ''--'' # process" "list_all option_word ws"
    "options' = (read_options options1 ws)\<lparr>opt_processArguments := opt_processArguments options1 @ process\<rparr>"
    unfolding words_read_def by blast
  with assms(2-) show ?thesis
    unfolding words_read_def by (intro exI[of _ "word # ws"] exI[of _ process]) simp
qed

lemma words_read_flag:
  assumes "words_read options1 options' args"
  shows "options1 = options\<lparr>opt_appContainer := (opt_appContainer options)\<lparr>enabled := True\<rparr>\<rparr> \<Longrightarrow>
      words_read options options' (wide ''--appcontainer-experimental'' # args)"
    and "options1 = options\<lparr>opt_log := True\<rparr> \<Longrightarrow> words_read options options' (wide ''--log'' # args)"
    and "options1 = options\<lparr>opt_restrictAccess := True\<rparr> \<Longrightarrow> words_read options options' (wide ''--restrict-access'' # args)"
    and "options1 = options\<lparr>opt_lowIntegrity := True\<rparr> \<Longrightarrow> words_read options options' (wide ''--low-integrity'' # args)"
  using words_read_step[OF assms, of "(name, None)" options for name]
  by (simp_all add: option_word_def option_text_def read_options_def)

lemma words_read_value:
  assumes "words_read options1 options' args"
  shows "options1 = options\<lparr>opt_username := v\<rparr> \<Longrightarrow> words_read options options' (wide ''--user'' # v # args)"
    and "options1 = options\<lparr>opt_workingDirectory := v\<rparr> \<Longrightarrow> words_read options options' (wide ''--working-directory'' # v # args)"
    and "options1 = options\<lparr>opt_appContainer := (opt_appContainer options)
        \<lparr>capabilities := capabilities (opt_appContainer options) @ [v]\<rparr>\<rparr> \<Longrightarrow>
      words_read options options' (wide ''--appcontainer-capability'' # v # args)"
    and "options1 = options\<lparr>opt_sessionMode := ConsoleMode\<rparr> \<Longrightarrow>
      words_read options options' (wide ''--mode'' # wide ''console'' # args)"
    and "options1 = options\<lparr>opt_sessionMode := InteractiveMode\<rparr> \<Longrightarrow>
      words_read options options' (wide ''--mode'' # wide ''interactive'' # args)"
  using words_read_step[OF assms, of "(name, Some w)" options for name w]
  by (simp_all add: option_word_def option_text_def read_options_def)

lemma ParseOptions_loop_started:
  "ParseOptions_loop modeSeen options args = Some (options', True) \<Longrightarrow> words_read options options' args"
proof (induction modeSeen options args rule: ParseOptions_loop.induct)
  case (2 modeSeen options name rest)
  show ?case
  proof (cases "name = wide ''--''")
    case True
    with "2.prems" show ?thesis
      unfolding words_read_def by - (rule exI[of _ "[]"], rule exI[of _ rest], auto)
  next
    case False
    with 2 show ?thesis
      by (auto split: if_split_asm list.split_asm dest: words_read_flag[OF _ refl] words_read_value[OF _ refl])
  qed
qed simp

text \<open>The options in the order of the usage text, and the arguments that spell them.\<close>

definition render_options :: "Options \<Rightarrow> wstring list" where
  "render_options opts =
     [wide ''--user'', opt_username opts] @
     (if opt_sessionMode opts = InteractiveMode then [wide ''--mode'', wide ''interactive''] else []) @
     (if opt_workingDirectory opts = [] then [] else [wide ''--working-directory'', opt_workingDirectory opts]) @
     (if opt_restrictAccess opts then [wide ''--restrict-access''] else []) @
     (if opt_lowIntegrity opts then [wide ''--low-integrity''] else []) @
     (if opt_log opts then [wide ''--log''] else []) @
     (if enabled (opt_appContainer opts) then [wide ''--appcontainer-experimental''] else []) @
     concat (map (\<lambda>c. [wide ''--appcontainer-capability'', c]) (capabilities (opt_appContainer opts))) @
     wide ''--'' # opt_executablePath opts # opt_processArguments opts"

definition valid_options :: "Options \<Rightarrow> bool" where
  "valid_options opts \<longleftrightarrow> IsValidAppContainerOptions (opt_appContainer opts)
     \<and> (enabled (opt_appContainer opts) \<longrightarrow> opt_sessionMode opts = ConsoleMode
          \<and> \<not> opt_lowIntegrity opts \<and> \<not> opt_restrictAccess opts)
     \<and> opt_username opts \<noteq> [] \<and> \<not> contains_any (wide (BS # ''/@'')) (opt_username opts)"

lemma ParseOptions_loop_capabilities:
  "ParseOptions_loop modeSeen options
       (concat (map (\<lambda>c. [wide ''--appcontainer-capability'', c]) caps) @ rest)
     = ParseOptions_loop modeSeen (options\<lparr>opt_appContainer := (opt_appContainer options)
         \<lparr>capabilities := capabilities (opt_appContainer options) @ caps\<rparr>\<rparr>) rest"
  by (induction caps arbitrary: options) simp_all

lemma ParseOptions_loop_render:
  "ParseOptions_loop False Options_default (render_options options) =
     Some (options\<lparr>opt_executablePath := [],
       opt_processArguments := opt_executablePath options # opt_processArguments options\<rparr>, True)"
proof -
  obtain u w e p m r l g n c where opts: "options = \<lparr>opt_username = u, opt_workingDirectory = w,
      opt_executablePath = e, opt_processArguments = p, opt_sessionMode = m, opt_restrictAccess = r,
      opt_lowIntegrity = l, opt_log = g, opt_appContainer = \<lparr>enabled = n, capabilities = c\<rparr>\<rparr>"
    by (metis (full_types) Options.surjective AppContainerOptions.surjective old.unit.exhaust)
  show ?thesis
    by (cases m) (auto simp: opts render_options_def ParseOptions_loop_capabilities Options_default_def
        AppContainerOptions_default_def)
qed

lemma ParseOptions_render:
  assumes "valid_options options"
  shows "ParseOptions (program # render_options options) = Some options"
proof -
  have "hd (render_options options) = wide ''--user''" "length (render_options options) \<ge> 2"
    by (simp_all add: render_options_def)
  then have "ParseOptions (program # render_options options) =
    (case ParseOptions_loop False Options_default (render_options options) of
       None \<Rightarrow> None
     | Some (options, processArgumentsStarted) \<Rightarrow>
         if \<not> valid_options options then None
         else if \<not> processArgumentsStarted \<or> opt_processArguments options = [] then None
         else Some (options\<lparr>opt_executablePath := hd (opt_processArguments options),
                            opt_processArguments := tl (opt_processArguments options)\<rparr>))"
    by (cases "render_options options")
      (auto simp: ParseOptions_def valid_options_def Let_def split: option.splits)
  with assms show ?thesis
    by (simp add: ParseOptions_loop_render valid_options_def del: ParseOptions_loop.simps)
qed

section \<open>Properties\<close>

lemma conhost_options_null:
  assumes "IsValidAppContainerOptions (appContainer request)" and "a \<in> set (conhost_options request)"
  shows "0 \<notin> set a"
proof -
  have "0 \<notin> set c" if "c \<in> set (capabilities (appContainer request))" for c
    using IsValidAppContainerOptions_capability[OF assms(1)] that
    by (auto simp: list_all_iff IsAppContainerCapability_def dest!: bspec[of _ _ c] bspec[of "set c" _ 0])
  with assms(2) show ?thesis
    by (auto simp: conhost_options_def HostArgument_def wide_def split: if_split_asm)
qed

text \<open>
  C10: For every console launch the broker accepted, the command line it builds for the pseudoconsole
  host, up to the null character that ends it, split by the documented rules, is parsed by the host
  into the pipe names, cursor flag and AppContainer options of the request and its executable and
  arguments: all of them, unless one has a null character (which the broker accepts), where they end. A
  null character in a pipe name, or nothing left to execute, makes the host refuse.
\<close>

theorem host_receives_console_request:
  assumes "argv_rules scan" and "valid_request request" "operation request = ConsoleLaunch"
    and "WCHR DQ \<notin> set program" "0 \<notin> set program"
  shows "\<exists>line. BuildWindowsCommandLine program (conhostArguments request) = Some line
    \<and> IsPseudoConsoleHostInvocation (split_command_line scan (c_string line))
    \<and> ParsePseudoConsoleHostInvocation (split_command_line scan (c_string line)) PseudoConsoleHostInvocation_default
      = (if \<exists>name \<in> set (pipe_names request). 0 \<in> set name then None
         else case cut_arguments (arguments request) of
             [] \<Rightarrow> None
           | executable # others \<Rightarrow> Some \<lparr>host_inheritCursor = inheritCursor (console request),
               host_appContainer = appContainer request, host_executable = executable,
               host_processArguments = others, host_pipeIn = pipeIn (console request),
               host_pipeOut = pipeOut (console request), host_pipeResize = pipeResize (console request)\<rparr>)
    \<and> ((\<forall>a \<in> set (arguments request). 0 \<notin> set a) \<longrightarrow> cut_arguments (arguments request) = arguments request)"
proof -
  from assms(4) obtain line where
    line: "BuildWindowsCommandLine program (conhostArguments request) = Some line"
    by (simp add: BuildWindowsCommandLine_def)
  have app: "IsValidAppContainerOptions (appContainer request)"
    and pipes: "list_all IsConsolePipeName (pipe_names request)"
    using assms(2,3) by (auto simp: valid_request_def pipe_names_def)
  let ?tail = "cut_arguments (conhost_pipes request @ arguments request)"
  have "split_command_line scan (c_string line) = program # conhost_options request @ ?tail"
    using argv_rules.split_BuildWindowsCommandLine[OF assms(1) line] assms(5) conhost_options_null[OF app]
    by (simp add: conhostArguments_eq cut_arguments_append)
  note split = this
  have named: "name \<noteq> []" "c_string name \<noteq> []" if "name \<in> set (pipe_names request)" for name
    using pipes that by (auto simp: list_all_iff IsConsolePipeName_def starts_with_iff pipe_prefix_def wide_def c_string_append)
  have start: "length ?tail \<ge> 2" "hd ?tail \<noteq> wide ''--inherit-cursor''" "hd ?tail \<noteq> wide ''--appcontainer-experimental''"
    using named(2) by (auto simp: conhost_pipes_def pipe_names_def wide_def)
  note parsed = host_reads_options[OF app start, of program, folded split]
  define pi po pr where "pi = pipeIn (console request)" and "po = pipeOut (console request)"
    and "pr = pipeResize (console request)"
  have names: "pi \<noteq> []" "po \<noteq> []" "pr \<noteq> []" "c_string pi \<noteq> []" "c_string po \<noteq> []" "c_string pr \<noteq> []"
    using named by (simp_all add: pi_def po_def pr_def pipe_names_def)
  have pipes: "conhost_pipes request = [wide ''--pipe-in'', pi, wide ''--pipe-out'', po, wide ''--pipe-resize'', pr, wide ''--'']"
    "pipe_names request = [pi, po, pr]"
    by (simp_all add: conhost_pipes_def pipe_names_def pi_def po_def pr_def)
  have words: "0 \<notin> set (wide ''--pipe-in'')" "0 \<notin> set (wide ''--pipe-out'')" "0 \<notin> set (wide ''--pipe-resize'')"
    "0 \<notin> set (wide ''--'')" by (simp_all add: wide_def)
  have "ParsePseudoConsoleHostInvocation (split_command_line scan (c_string line)) PseudoConsoleHostInvocation_default
      = (if \<exists>name \<in> set (pipe_names request). 0 \<in> set name then None
         else case cut_arguments (arguments request) of
             [] \<Rightarrow> None
           | executable # others \<Rightarrow> Some \<lparr>host_inheritCursor = inheritCursor (console request),
               host_appContainer = appContainer request, host_executable = executable,
               host_processArguments = others, host_pipeIn = pipeIn (console request),
               host_pipeOut = pipeOut (console request), host_pipeResize = pipeResize (console request)\<rparr>)"
    unfolding parsed pipes pi_def[symmetric] po_def[symmetric] pr_def[symmetric]
    using names app words
    by (cases "0 \<in> set pi"; cases "0 \<in> set po"; cases "0 \<in> set pr"; cases "cut_arguments (arguments request)")
      (simp_all add: PseudoConsoleHostInvocation_default_def)
  moreover have "IsPseudoConsoleHostInvocation (split_command_line scan (c_string line))"
    unfolding split by (simp add: IsPseudoConsoleHostInvocation_def conhost_options_def)
  ultimately show ?thesis using line cut_arguments_id by blast
qed

definition example_request :: BrokerRequest where
  "example_request = BrokerRequest_default\<lparr>requestId := example_id, profileId := wide ''guest'',
     arguments := [wide ''cmd'', wide ''/c''], workingDirectory := wide ''C:'',
     console := example_console\<rparr>"

lemma example_request_valid: "valid_request example_request"
  using example_valid
  by (simp add: valid_request_def valid_launch_def example_request_def BrokerRequest_default_def
      IsValidAppContainerOptions_def AppContainerOptions_default_def MaximumArguments_def)

lemma host_receives_console_request_witness:
  "\<exists>line. BuildWindowsCommandLine (wide ''conhost'') (conhostArguments example_request) = Some line
    \<and> map_option host_executable (ParsePseudoConsoleHostInvocation
        (split_command_line reference_scan (c_string line)) PseudoConsoleHostInvocation_default)
      = Some (wide ''cmd'')"
proof -
  have ok: "operation example_request = ConsoleLaunch" "WCHR DQ \<notin> set (wide ''conhost'')" "0 \<notin> set (wide ''conhost'')"
    by (simp_all add: example_request_def BrokerRequest_default_def wide_def)
  have "\<not> (\<exists>name \<in> set (pipe_names example_request). 0 \<in> set name)"
    "cut_arguments (arguments example_request) = [wide ''cmd'', wide ''/c'']"
    by (auto simp: pipe_names_def example_request_def example_console_def BrokerRequest_default_def pipe_prefix_def
        example_pipe_def wide_def)
  with host_receives_console_request[OF reference_argv.argv_rules_axioms example_request_valid ok]
  show ?thesis by auto
qed

text \<open>
  C11: The launcher accepts exactly words of its grammar up to the first \<open>--\<close> that stands where an
  option could (a \<open>--\<close> that is the value of an option is that value), hands everything after it on
  unchanged and in order, the first word being the executable, and the options are what the words say;
  they are valid (AppContainer only with a console and without the other restrictions, a plain user name).
\<close>

theorem ParseOptions_sound:
  assumes "ParseOptions args = Some options"
  shows "valid_options options \<and> (\<exists>command ws.
    args = command @ concat (map option_text ws) @ wide ''--'' # opt_executablePath options # opt_processArguments options
    \<and> command = (if args ! 1 = wide ''run'' then [args ! 0, wide ''run''] else [args ! 0])
    \<and> list_all option_word ws
    \<and> options = (read_options Options_default ws)\<lparr>opt_executablePath := opt_executablePath options,
        opt_processArguments := opt_processArguments options\<rparr>)"
proof -
  define k where "k = (if args ! 1 = wide ''run'' then 2 else 1 :: nat)"
  from assms have two: "length args \<ge> 2" by (simp add: ParseOptions_def split: if_splits)
  from assms obtain o' where
    l: "ParseOptions_loop False Options_default (drop k args) = Some (o', True)"
    and ne: "opt_processArguments o' \<noteq> []" and v: "valid_options o'"
    and r: "options = o'\<lparr>opt_executablePath := hd (opt_processArguments o'),
      opt_processArguments := tl (opt_processArguments o')\<rparr>"
    by (auto simp: ParseOptions_def valid_options_def Let_def k_def split: if_splits option.splits)
  from ParseOptions_loop_started[OF l] obtain ws process where
    p: "drop k args = concat (map option_text ws) @ wide ''--'' # process" "list_all option_word ws"
      "o' = (read_options Options_default ws)\<lparr>opt_processArguments := process\<rparr>"
    by (auto simp: words_read_def Options_default_def)
  have "take k args = (if args ! 1 = wide ''run'' then [args ! 0, wide ''run''] else [args ! 0])"
    using two by (cases args; cases "tl args") (auto simp: k_def)
  moreover have "args = take k args @ concat (map option_text ws) @ wide ''--'' # process"
    using p(1) append_take_drop_id[of k args] by simp
  moreover have "process = opt_executablePath options # opt_processArguments options"
    using p(3) ne by (simp add: r)
  moreover have "options = (read_options Options_default ws)\<lparr>opt_executablePath := opt_executablePath options,
      opt_processArguments := opt_processArguments options\<rparr>" using p(3) by (simp add: r)
  moreover have "valid_options options" using v by (simp add: valid_options_def r)
  ultimately show ?thesis using p(2) by metis
qed

lemma ParseOptions_sound_witness:
  "\<exists>ws. list_all option_word ws \<and> [wide ''launch-as'', wide ''run'', wide ''--user'', wide ''--'', wide ''--'',
      wide ''cmd'', wide ''--''] = [wide ''launch-as'', wide ''run''] @ concat (map option_text ws)
        @ [wide ''--'', wide ''cmd'', wide ''--'']
    \<and> opt_username (read_options Options_default ws) = wide ''--''"
proof -
  have "ParseOptions [wide ''launch-as'', wide ''run'', wide ''--user'', wide ''--'', wide ''--'',
      wide ''cmd'', wide ''--'']
    = Some (Options_default\<lparr>opt_username := wide ''--'', opt_executablePath := wide ''cmd'',
        opt_processArguments := [wide ''--'']\<rparr>)"
    by (simp add: ParseOptions_def Options_default_def AppContainerOptions_default_def
        IsValidAppContainerOptions_def contains_any_def) (simp add: wide_def)
  from ParseOptions_sound[OF this] obtain ws where ws: "list_all option_word ws"
      "[wide ''--user'', wide ''--'', wide ''--'', wide ''cmd'', wide ''--'']
        = concat (map option_text ws) @ [wide ''--'', wide ''cmd'', wide ''--'']"
      "Options_default\<lparr>opt_username := wide ''--'', opt_executablePath := wide ''cmd'', opt_processArguments := [wide ''--'']\<rparr>
        = (read_options Options_default ws)\<lparr>opt_executablePath := wide ''cmd'', opt_processArguments := [wide ''--'']\<rparr>"
    by (auto simp: Options_default_def)
  from arg_cong[OF ws(3), of opt_username] have "opt_username (read_options Options_default ws) = wide ''--''" by simp
  with ws(1,2) show ?thesis by (intro exI[of _ ws]) simp
qed

text \<open>
  Every valid set of options can be written as a command line that the launcher reads back
  exactly.
\<close>

theorem ParseOptions_roundtrip:
  assumes "valid_options options"
  shows "ParseOptions (program # render_options options) = Some options"
  using assms by (rule ParseOptions_render)

lemma ParseOptions_roundtrip_witness:
  "\<exists>options. opt_sessionMode options = InteractiveMode \<and> opt_username options = wide ''guest''
     \<and> ParseOptions (wide ''launch-as'' # render_options options) = Some options"
proof -
  let ?o = "Options_default\<lparr>opt_username := wide ''guest'', opt_sessionMode := InteractiveMode\<rparr>"
  have "valid_options ?o"
    by (simp add: valid_options_def Options_default_def AppContainerOptions_default_def
        IsValidAppContainerOptions_def contains_any_def) (simp add: wide_def)
  from ParseOptions_roundtrip[OF this] show ?thesis
    by (intro exI[of _ ?o]) (simp add: Options_default_def)
qed

end
