(* ===== verification/Password.thy ===== *)
theory Password
  imports Prelude "HOL-Library.Multiset"
begin

text \<open>
  Generated account passwords, \<open>src/broker/BrokerPassword.cpp\<close>. The system random generator is a
  list of draws: \<open>Some r\<close> is a 32-bit value, \<open>None\<close> a failed call. A function that still waits for
  a draw when the list ends has not returned, its value is \<open>None\<close>. Main results: an index is
  uniform over its range, the rejection loop returns as soon as a draw below the limit arrives,
  and a generated password has 32 allowed characters, with one of every class.
\<close>

section \<open>SecurePassword\<close>

record SecurePassword =
  characters :: "wchar list"
  password_length :: nat

definition SecurePassword_empty :: SecurePassword where
  "SecurePassword_empty = \<lparr>characters = [], password_length = 0\<rparr>"

definition SecurePassword_Clear :: "SecurePassword \<Rightarrow> SecurePassword" where
  "SecurePassword_Clear p = p\<lparr>characters := [], password_length := 0\<rparr>"

text \<open>The bytes of wide characters in memory, low byte first, and the cast back.\<close>

fun bytes_of_wide :: "wchar list \<Rightarrow> byte list" where
  "bytes_of_wide [] = []"
| "bytes_of_wide (c # cs) = ucast c # ucast (drop_bit 8 c) # bytes_of_wide cs"

fun wide_of_bytes :: "byte list \<Rightarrow> wchar list" where
  "wide_of_bytes (l # h # bs) = (ucast l OR push_bit 8 (ucast h)) # wide_of_bytes bs"
| "wide_of_bytes _ = []"

text \<open>\<open>bytes == nullptr\<close> is \<open>None\<close>.\<close>

definition SecurePassword_Assign :: "byte list option \<Rightarrow> SecurePassword \<Rightarrow> bool \<times> SecurePassword" where
  "SecurePassword_Assign bytes p =
     (case bytes of
        None \<Rightarrow> (False, p)
      | Some bs \<Rightarrow>
          if length bs = 0 \<or> length bs mod 2 \<noteq> 0 then (False, p)
          else (let p = SecurePassword_Clear p; len = length bs div 2
                in (True, p\<lparr>password_length := len, characters := take len (wide_of_bytes bs) @ [0]\<rparr>)))"

section \<open>Random selection\<close>

definition PasswordLength :: nat where "PasswordLength = 32"
definition Uppercase :: wstring where "Uppercase = wide ''ABCDEFGHJKLMNPQRSTUVWXYZ''"
definition Lowercase :: wstring where "Lowercase = wide ''abcdefghijkmnopqrstuvwxyz''"
definition Digits :: wstring where "Digits = wide ''23456789''"
definition Symbols :: wstring where "Symbols = wide ''!#$%&*+-=?@''"
definition AllowedCharacters :: wstring where
  "AllowedCharacters = wide ''ABCDEFGHJKLMNPQRSTUVWXYZabcdefghijkmnopqrstuvwxyz23456789!#$%&*+-=?@''"

type_synonym draws = "dword option list"

definition random_limit :: "nat \<Rightarrow> nat" where
  "random_limit upperBound = (let RandomRange = 0xFFFFFFFF + 1 in RandomRange - RandomRange mod upperBound)"

text \<open>The result is \<open>(error, index)\<close> with the draws that are left.\<close>

fun RandomIndex :: "nat \<Rightarrow> draws \<Rightarrow> ((dword \<times> nat) \<times> draws) option" where
  "RandomIndex upperBound [] = None"
| "RandomIndex upperBound (None # draws) = Some ((ERROR_GEN_FAILURE, 0), draws)"
| "RandomIndex upperBound (Some random # draws) =
     (if unat random \<ge> random_limit upperBound then RandomIndex upperBound draws
      else Some ((ERROR_SUCCESS, unat random mod upperBound), draws))"

definition SelectCharacter :: "wstring \<Rightarrow> draws \<Rightarrow> ((dword \<times> wchar) \<times> draws) option" where
  "SelectCharacter alphabet draws =
     (case RandomIndex (length alphabet) draws of
        None \<Rightarrow> None
      | Some ((randomError, index), rest) \<Rightarrow>
          if randomError \<noteq> ERROR_SUCCESS then Some ((randomError, 0), rest)
          else Some ((ERROR_SUCCESS, alphabet ! index), rest))"

section \<open>GenerateBrokerPassword\<close>

text \<open>The two filling loops, one character per alphabet of the list, and the shuffle.\<close>

fun SelectCharacters :: "wstring list \<Rightarrow> wstring \<Rightarrow> draws \<Rightarrow> ((dword \<times> wstring) \<times> draws) option" where
  "SelectCharacters [] generated draws = Some ((ERROR_SUCCESS, generated), draws)"
| "SelectCharacters (alphabet # alphabets) generated draws =
     (case SelectCharacter alphabet draws of
        None \<Rightarrow> None
      | Some ((randomError, character), rest) \<Rightarrow>
          if randomError \<noteq> ERROR_SUCCESS then Some ((randomError, generated), rest)
          else SelectCharacters alphabets (generated @ [character]) rest)"

definition swap :: "nat \<Rightarrow> nat \<Rightarrow> 'a list \<Rightarrow> 'a list" where
  "swap i j xs = xs[i := xs ! j, j := xs ! i]"

fun Shuffle :: "nat \<Rightarrow> wstring \<Rightarrow> draws \<Rightarrow> ((dword \<times> wstring) \<times> draws) option" where
  "Shuffle 0 generated draws = Some ((ERROR_SUCCESS, generated), draws)"
| "Shuffle (Suc i) generated draws =
     (case RandomIndex (Suc i + 1) draws of
        None \<Rightarrow> None
      | Some ((randomError, swapIndex), rest) \<Rightarrow>
          if randomError \<noteq> ERROR_SUCCESS then Some ((randomError, generated), rest)
          else Shuffle i (swap (Suc i) swapIndex generated) rest)"

definition GenerateBrokerPassword ::
  "SecurePassword \<Rightarrow> draws \<Rightarrow> ((dword \<times> SecurePassword) \<times> draws) option"
where
  "GenerateBrokerPassword password draws =
     (let requiredClasses = [Uppercase, Lowercase, Digits, Symbols] in
      case SelectCharacters (requiredClasses
             @ replicate (PasswordLength - length requiredClasses) AllowedCharacters) [] draws of
        None \<Rightarrow> None
      | Some ((randomError, generated), draws1) \<Rightarrow>
          if randomError \<noteq> ERROR_SUCCESS then Some ((randomError, password), draws1)
          else (case Shuffle (length generated - 1) generated draws1 of
                  None \<Rightarrow> None
                | Some ((shuffleError, shuffled), draws2) \<Rightarrow>
                    if shuffleError \<noteq> ERROR_SUCCESS then Some ((shuffleError, password), draws2)
                    else (let (assigned, password') =
                            SecurePassword_Assign (Some (bytes_of_wide shuffled)) password
                          in Some ((if assigned then ERROR_SUCCESS else ERROR_INVALID_DATA, password'),
                                   draws2))))"

section \<open>The cast of characters to bytes and back\<close>

lemma wide_of_bytes_of_wide [simp]: "wide_of_bytes (bytes_of_wide cs) = cs"
proof (induction cs)
  case (Cons c cs)
  have "(ucast (ucast c :: byte) OR push_bit 8 (ucast (ucast (drop_bit 8 c) :: byte)) :: wchar) = c"
    by (rule bit_word_eqI) (auto simp: bit_simps)
  with Cons show ?case by simp
qed simp

lemma length_bytes_of_wide [simp]: "length (bytes_of_wide cs) = 2 * length cs"
  by (induction cs) simp_all

lemma Assign_bytes_of_wide:
  "cs \<noteq> [] \<Longrightarrow> SecurePassword_Assign (Some (bytes_of_wide cs)) p
     = (True, p\<lparr>characters := cs @ [0], password_length := length cs\<rparr>)"
  by (simp add: SecurePassword_Assign_def SecurePassword_Clear_def Let_def)

section \<open>Selection stays in range and terminates\<close>

lemma random_limit_positive:
  assumes "0 < n" "n \<le> 2 ^ 32"
  shows "0 < random_limit n" and "random_limit n \<le> 2 ^ 32" and "n dvd random_limit n"
proof -
  have eq: "random_limit n = 2 ^ 32 div n * n"
    using minus_mod_eq_div_mult[of "2 ^ 32" n] by (simp add: random_limit_def)
  have "2 ^ 32 div n > 0" using assms by (simp add: div_greater_zero_iff)
  with eq assms show "0 < random_limit n" by simp
  show "random_limit n \<le> 2 ^ 32" unfolding eq by (rule div_times_less_eq_dividend)
  show "n dvd random_limit n" by (simp add: eq)
qed

lemma RandomIndex_range:
  "0 < n \<Longrightarrow> RandomIndex n draws = Some ((ERROR_SUCCESS, i), rest) \<Longrightarrow> i < n"
  by (induction n draws rule: RandomIndex.induct) (auto split: if_splits)

lemma RandomIndex_shorter: "RandomIndex n draws = Some (r, rest) \<Longrightarrow> length rest < length draws"
  by (induction n draws rule: RandomIndex.induct) (auto split: if_splits)

lemma SelectCharacter_member:
  "alphabet \<noteq> [] \<Longrightarrow> SelectCharacter alphabet draws = Some ((ERROR_SUCCESS, c), rest)
     \<Longrightarrow> c \<in> set alphabet"
  by (auto simp: SelectCharacter_def split: option.splits if_splits
      intro!: nth_mem RandomIndex_range[of "length alphabet"])

lemma SelectCharacters_members:
  "SelectCharacters alphabets generated draws = Some ((ERROR_SUCCESS, cs), rest) \<Longrightarrow>
     list_all (\<lambda>a. a \<noteq> []) alphabets \<Longrightarrow>
     \<exists>new. cs = generated @ new \<and> list_all2 (\<lambda>c a. c \<in> set a) new alphabets"
proof (induction alphabets generated draws rule: SelectCharacters.induct)
  case (2 alphabet alphabets generated draws)
  then obtain c rest' where c: "SelectCharacter alphabet draws = Some ((ERROR_SUCCESS, c), rest')"
    by (auto split: option.splits if_splits)
  with 2 obtain new where "cs = (generated @ [c]) @ new" "list_all2 (\<lambda>c a. c \<in> set a) new alphabets"
    by fastforce
  with c 2 show ?case
    by (intro exI[of _ "c # new"]) (auto dest: SelectCharacter_member)
qed simp

lemma mset_swap: "i < length xs \<Longrightarrow> j < length xs \<Longrightarrow> mset (swap i j xs) = mset xs"
  by (simp add: swap_def mset_swap)

lemma length_swap [simp]: "length (swap i j xs) = length xs"
  by (simp add: swap_def)

lemma Shuffle_mset:
  "Shuffle i cs draws = Some ((err, ds), rest) \<Longrightarrow> i < length cs \<Longrightarrow> mset ds = mset cs"
proof (induction i arbitrary: cs draws)
  case (Suc i)
  from Suc.prems(1) obtain e j r where R: "RandomIndex (Suc i + 1) draws = Some ((e, j), r)"
    by (auto split: option.splits)
  show ?case
  proof (cases "e = ERROR_SUCCESS")
    case True
    with R have j: "j < Suc (Suc i)" using RandomIndex_range[of "Suc i + 1"] by simp
    with True R Suc.prems have "mset ds = mset (swap (Suc i) j cs)"
      by (intro Suc.IH) auto
    with j Suc.prems(2) show ?thesis by (simp add: mset_swap)
  next
    case False
    with R Suc.prems show ?thesis by auto
  qed
qed simp

lemma GenerateBrokerPassword_success:
  assumes "GenerateBrokerPassword password draws = Some ((ERROR_SUCCESS, p), rest)"
  obtains cs new where "p = password\<lparr>characters := cs @ [0], password_length := length cs\<rparr>"
    "mset cs = mset new" "list_all2 (\<lambda>c a. c \<in> set a) new
       ([Uppercase, Lowercase, Digits, Symbols] @ replicate 28 AllowedCharacters)"
proof -
  let ?alphabets = "[Uppercase, Lowercase, Digits, Symbols] @ replicate 28 AllowedCharacters"
  have ne: "list_all (\<lambda>a. a \<noteq> []) ?alphabets"
    by (simp add: Uppercase_def Lowercase_def Digits_def Symbols_def AllowedCharacters_def list_all_iff)
  from assms obtain new d1 where
    sel: "SelectCharacters ?alphabets [] draws = Some ((ERROR_SUCCESS, new), d1)"
    by (auto simp: GenerateBrokerPassword_def PasswordLength_def Let_def
        split: option.splits if_splits)
  from SelectCharacters_members[OF sel ne] have all: "list_all2 (\<lambda>c a. c \<in> set a) new ?alphabets"
    by simp
  then have len: "length new = 32" by (simp add: list_all2_lengthD)
  from assms sel obtain cs d2 where
    sh: "Shuffle (length new - 1) new d1 = Some ((ERROR_SUCCESS, cs), d2)" and
    p: "p = snd (SecurePassword_Assign (Some (bytes_of_wide cs)) password)"
    by (auto simp: GenerateBrokerPassword_def PasswordLength_def Let_def
        split: option.splits if_splits prod.splits)
  from Shuffle_mset[OF sh] len have m: "mset cs = mset new" by simp
  then have "length cs = 32" using len by (metis size_mset)
  then have "cs \<noteq> []" by auto
  with p have "p = password\<lparr>characters := cs @ [0], password_length := length cs\<rparr>"
    by (simp add: Assign_bytes_of_wide)
  with m all that show ?thesis by blast
qed

section \<open>Enough draws make it return\<close>

text \<open>A draw that no range up to 68 (the largest alphabet) rejects.\<close>

definition accepted :: "dword option \<Rightarrow> bool" where
  "accepted d \<longleftrightarrow> (case d of None \<Rightarrow> False | Some r \<Rightarrow> unat r < 2 ^ 32 - 68)"

definition accepted_draws :: "draws \<Rightarrow> nat" where
  "accepted_draws draws = length (filter accepted draws)"

lemma accepted_draws_simps [simp]:
  "accepted_draws [] = 0"
  "accepted_draws (d # draws) = (if accepted d then 1 else 0) + accepted_draws draws"
  by (simp_all add: accepted_draws_def)

lemma random_limit_lower: "0 < n \<Longrightarrow> n \<le> 68 \<Longrightarrow> 2 ^ 32 - 68 < random_limit n"
proof -
  assume n: "0 < n" "n \<le> 68"
  have "(2 ^ 32 :: nat) mod n < n" using n by simp
  with n show ?thesis by (simp add: random_limit_def)
qed

lemma RandomIndex_returns:
  "0 < n \<Longrightarrow> n \<le> 68 \<Longrightarrow> None \<notin> set draws \<Longrightarrow> k < accepted_draws draws \<Longrightarrow>
     \<exists>i rest. RandomIndex n draws = Some ((ERROR_SUCCESS, i), rest) \<and> None \<notin> set rest
       \<and> k \<le> accepted_draws rest"
proof (induction n draws rule: RandomIndex.induct)
  case (3 n r draws)
  then show ?case using random_limit_lower[of n] by (auto simp: accepted_def split: if_splits)
qed auto

lemma SelectCharacters_returns:
  "list_all (\<lambda>a. a \<noteq> [] \<and> length a \<le> 68) alphabets \<Longrightarrow> None \<notin> set draws \<Longrightarrow>
     length alphabets + k \<le> accepted_draws draws \<Longrightarrow>
     \<exists>cs rest. SelectCharacters alphabets generated draws = Some ((ERROR_SUCCESS, cs), rest)
       \<and> length cs = length generated + length alphabets
       \<and> None \<notin> set rest \<and> k \<le> accepted_draws rest"
proof (induction alphabets arbitrary: generated draws)
  case (Cons a as)
  then obtain i r where "RandomIndex (length a) draws = Some ((ERROR_SUCCESS, i), r)"
    "None \<notin> set r" "length as + k \<le> accepted_draws r"
    using RandomIndex_returns[of "length a" draws "length as + k"] by auto
  with Cons.IH[of r "generated @ [a ! i]"] Cons.prems show ?case by (auto simp: SelectCharacter_def)
qed auto

lemma Shuffle_returns:
  "i < 68 \<Longrightarrow> None \<notin> set draws \<Longrightarrow> i \<le> accepted_draws draws \<Longrightarrow>
     \<exists>cs rest. Shuffle i generated draws = Some ((ERROR_SUCCESS, cs), rest)
       \<and> length cs = length generated"
proof (induction i arbitrary: generated draws)
  case (Suc i)
  then obtain j r where "RandomIndex (Suc i + 1) draws = Some ((ERROR_SUCCESS, j), r)"
    "None \<notin> set r" "i \<le> accepted_draws r"
    using RandomIndex_returns[of "Suc i + 1" draws i] by auto
  with Suc.IH[of r "swap (Suc i) j generated"] Suc.prems show ?case by auto
qed auto

lemma GenerateBrokerPassword_enough:
  assumes "None \<notin> set draws" and "63 \<le> accepted_draws draws"
  shows "\<exists>p rest. GenerateBrokerPassword password draws = Some ((ERROR_SUCCESS, p), rest)"
proof -
  let ?alphabets = "[Uppercase, Lowercase, Digits, Symbols] @ replicate 28 AllowedCharacters"
  have ok: "list_all (\<lambda>a. a \<noteq> [] \<and> length a \<le> 68) ?alphabets"
    by (simp add: Uppercase_def Lowercase_def Digits_def Symbols_def AllowedCharacters_def list_all_iff)
  from assms obtain cs d1 where sel: "SelectCharacters ?alphabets [] draws = Some ((ERROR_SUCCESS, cs), d1)"
    "length cs = 32" "None \<notin> set d1" "31 \<le> accepted_draws d1"
    using SelectCharacters_returns[OF ok assms(1), of 31 "[]"] by auto
  then obtain ds d2 where sh: "Shuffle 31 cs d1 = Some ((ERROR_SUCCESS, ds), d2)" "length ds = 32"
    using Shuffle_returns[of 31 d1 cs] by auto
  then have "ds \<noteq> []" by auto
  from Assign_bytes_of_wide[OF this, of password] sel sh show ?thesis
    by (simp add: GenerateBrokerPassword_def PasswordLength_def Let_def)
qed

section \<open>Properties\<close>

lemma RandomIndex_one_draw:
  assumes "0 < n" and "n \<le> 2 ^ 32" and "i < n"
  shows "card {r :: dword. unat r < random_limit n \<and> unat r mod n = i} = 2 ^ 32 div n"
proof -
  let ?S = "{r :: dword. unat r < random_limit n \<and> unat r mod n = i}"
  have limit: "random_limit n = 2 ^ 32 div n * n"
    using minus_mod_eq_div_mult[of "2 ^ 32" n] by (simp add: random_limit_def)
  have image: "unat ` ?S = (\<lambda>q. q * n + i) ` {..<2 ^ 32 div n}"
  proof (intro equalityI subsetI)
    fix x assume "x \<in> unat ` ?S"
    then have x: "x < 2 ^ 32 div n * n" "x mod n = i" unfolding limit by auto
    then have "x div n < 2 ^ 32 div n" using assms(1) by (simp add: less_mult_imp_div_less)
    with x show "x \<in> (\<lambda>q. q * n + i) ` {..<2 ^ 32 div n}"
      by (intro image_eqI[of _ _ "x div n"]) auto
  next
    fix x assume "x \<in> (\<lambda>q. q * n + i) ` {..<2 ^ 32 div n}"
    then obtain q where q: "x = q * n + i" "q < 2 ^ 32 div n" by auto
    have "q * n + i < (q + 1) * n" using assms(3) by simp
    also have "\<dots> \<le> 2 ^ 32 div n * n" using q(2) by (intro mult_right_mono) auto
    finally have lt: "x < 2 ^ 32 div n * n" by (simp add: q)
    also have "\<dots> \<le> 2 ^ 32" by (rule div_times_less_eq_dividend)
    finally have "unat (of_nat x :: dword) = x" by (simp add: unat_of_nat)
    moreover have "x mod n = i" using q(1) assms(3) by simp
    ultimately show "x \<in> unat ` ?S"
      unfolding limit using lt by (intro image_eqI[of _ _ "of_nat x"]) auto
  qed
  have "card ?S = card (unat ` ?S)" by (rule card_image[symmetric], rule inj_onI, simp only: word_unat_eq_iff)
  also have "\<dots> = card ((\<lambda>q. q * n + i) ` {..<2 ^ 32 div n})" by (simp only: image)
  also have "\<dots> = card {..<2 ^ 32 div n}"
    using assms(1) by (intro card_image inj_onI) simp
  finally show ?thesis by (simp only: card_lessThan)
qed

lemma card_rejected:
  assumes "random_limit n \<le> 2 ^ 32"
  shows "card {r :: dword. random_limit n \<le> unat r} = 2 ^ 32 - random_limit n"
proof -
  have below: "unat r < 2 ^ 32" for r :: dword
    using unsigned_less[of r] by simp
  have "unat ` {r :: dword. random_limit n \<le> unat r} = {random_limit n..<2 ^ 32}"
  proof (intro equalityI subsetI)
    fix x assume "x \<in> {random_limit n..<2 ^ 32}"
    moreover from this have "unat (of_nat x :: dword) = x" by (simp add: unat_of_nat)
    ultimately show "x \<in> unat ` {r :: dword. random_limit n \<le> unat r}"
      by (intro image_eqI[of _ _ "of_nat x"]) auto
  qed (use below in \<open>auto simp del: One_nat_def\<close>)
  moreover have "card (unat ` {r :: dword. random_limit n \<le> unat r}) = card {r :: dword. random_limit n \<le> unat r}"
    by (rule card_image, rule inj_onI, simp only: word_unat_eq_iff)
  ultimately show ?thesis by simp
qed

text \<open>The sequences of draws that select \<open>i\<close> at their last draw, the others being rejected.\<close>

definition selecting :: "nat \<Rightarrow> nat \<Rightarrow> nat \<Rightarrow> draws \<Rightarrow> dword list set" where
  "selecting n i m later = {ds. length ds = Suc m
     \<and> RandomIndex n (map Some ds @ later) = Some ((ERROR_SUCCESS, i), later)}"

lemma selecting_first: "selecting n i 0 later = (\<lambda>r. [r]) ` {r. unat r < random_limit n \<and> unat r mod n = i}"
proof -
  have "RandomIndex n later = Some ((ERROR_SUCCESS, i), later) \<Longrightarrow> False"
    using RandomIndex_shorter[of n later] by fastforce
  then show ?thesis
    by (auto simp: selecting_def length_Suc_conv image_iff not_le split: if_split_asm)
qed

lemma selecting_Suc:
  "selecting n i (Suc m) later = (\<lambda>(r, ds). r # ds) ` ({r. random_limit n \<le> unat r} \<times> selecting n i m later)"
proof (intro equalityI subsetI)
  fix ds assume "ds \<in> selecting n i (Suc m) later"
  then obtain r rest where d: "ds = r # rest" "length rest = Suc m"
    and s: "RandomIndex n (Some r # map Some rest @ later) = Some ((ERROR_SUCCESS, i), later)"
    by (cases ds) (auto simp: selecting_def simp del: RandomIndex.simps)
  have "random_limit n \<le> unat r"
  proof (rule ccontr)
    assume "\<not> random_limit n \<le> unat r"
    with s have "map Some rest @ later = later" by simp
    with d(2) show False by (metis append_self_conv2 length_map list.size(3) nat.distinct(1))
  qed
  with d s show "ds \<in> (\<lambda>(r, ds). r # ds) ` ({r. random_limit n \<le> unat r} \<times> selecting n i m later)"
    by (auto simp: selecting_def image_iff)
qed (auto simp: selecting_def)

text \<open>
  C12: Random indices are unbiased, whatever the bound n up to 2^32: of the sequences of m+1 draws, the
  same number selects each index below n at the last draw, after exactly m rejected ones, namely
  (2^32 mod n)^m * (2^32 div n); a rejected draw is never used, and no draw after the selection is.
\<close>

theorem RandomIndex_uniform:
  assumes "0 < n" and "n \<le> 2 ^ 32" and "i < n"
  shows "card {ds :: dword list. length ds = Suc m
      \<and> RandomIndex n (map Some ds @ later) = Some ((ERROR_SUCCESS, i), later)}
    = (2 ^ 32 mod n) ^ m * (2 ^ 32 div n)"
proof -
  have rejected: "card {r :: dword. random_limit n \<le> unat r} = 2 ^ 32 mod n"
    using card_rejected[OF random_limit_positive(2)[OF assms(1,2)]] by (simp add: random_limit_def)
  have "card (selecting n i m later) = (2 ^ 32 mod n) ^ m * (2 ^ 32 div n)"
  proof (induction m)
    case 0
    have "card (selecting n i 0 later) = card {r :: dword. unat r < random_limit n \<and> unat r mod n = i}"
      unfolding selecting_first by (rule card_image) (simp add: inj_on_def)
    then show ?case using RandomIndex_one_draw[OF assms] by simp
  next
    case (Suc m)
    have "card (selecting n i (Suc m) later)
        = card ({r :: dword. random_limit n \<le> unat r} \<times> selecting n i m later)"
      unfolding selecting_Suc by (rule card_image) (auto simp: inj_on_def)
    with Suc rejected show ?case by (simp add: card_cartesian_product)
  qed
  then show ?thesis by (simp add: selecting_def)
qed

lemma RandomIndex_uniform_witness:
  "card {ds :: dword list. length ds = Suc 1 \<and> RandomIndex 24 (map Some ds @ []) = Some ((ERROR_SUCCESS, 7), [])}
    = 16 * 178956970"
  using RandomIndex_uniform[of 24 7 1 "[]"] by simp

text \<open>
  C13: When password generation succeeds, whatever the draws, the password has 32 characters of
  the allowed alphabet, among them an upper-case letter, a lower-case letter, a digit and a
  symbol, and its buffer is terminated by a null character.
\<close>

theorem GenerateBrokerPassword_strong:
  assumes "GenerateBrokerPassword password draws = Some ((ERROR_SUCCESS, p), rest)"
  shows "\<exists>cs. characters p = cs @ [0] \<and> password_length p = PasswordLength
    \<and> length cs = PasswordLength \<and> set cs \<subseteq> set AllowedCharacters
    \<and> set cs \<inter> set Uppercase \<noteq> {} \<and> set cs \<inter> set Lowercase \<noteq> {}
    \<and> set cs \<inter> set Digits \<noteq> {} \<and> set cs \<inter> set Symbols \<noteq> {}"
  using assms
proof (rule GenerateBrokerPassword_success)
  fix cs new
  assume p: "p = password\<lparr>characters := cs @ [0], password_length := length cs\<rparr>"
    and m: "mset cs = mset new"
    and all: "list_all2 (\<lambda>c a. c \<in> set a) new
      ([Uppercase, Lowercase, Digits, Symbols] @ replicate 28 AllowedCharacters)"
  have s: "set cs = set new" and l: "length cs = length new"
    using m by (metis set_mset_mset, metis size_mset)
  have sub: "set Uppercase \<subseteq> set AllowedCharacters" "set Lowercase \<subseteq> set AllowedCharacters"
    "set Digits \<subseteq> set AllowedCharacters" "set Symbols \<subseteq> set AllowedCharacters"
    by (simp_all add: Uppercase_def Lowercase_def Digits_def Symbols_def AllowedCharacters_def wide_def)
  from all obtain u w d y cs' where n: "new = u # w # d # y # cs'"
    and mem: "u \<in> set Uppercase" "w \<in> set Lowercase" "d \<in> set Digits" "y \<in> set Symbols"
    and cs': "list_all2 (\<lambda>c a. c \<in> set a) cs' (replicate 28 AllowedCharacters)"
    by (auto simp: list_all2_Cons2)
  from cs' have "set cs' \<subseteq> set AllowedCharacters"
    by (auto simp: list_all2_conv_all_nth in_set_conv_nth)
  moreover have "length new = 32" using all by (simp add: list_all2_lengthD)
  ultimately show ?thesis
    using mem sub n s l p by (auto simp: PasswordLength_def)
qed

lemma GenerateBrokerPassword_strong_witness:
  "\<exists>p :: SecurePassword. length (characters p) = 33 \<and> set (characters p) \<inter> set Digits \<noteq> {}"
proof -
  have n: "None \<notin> set (replicate 63 (Some 1000 :: dword option))" by simp
  have "63 \<le> accepted_draws (replicate 63 (Some 1000 :: dword option))"
    by (simp add: accepted_draws_def accepted_def)
  with GenerateBrokerPassword_enough[OF n] obtain p rest where "GenerateBrokerPassword SecurePassword_empty (replicate 63 (Some 1000))
      = Some ((ERROR_SUCCESS, p), rest)" by blast
  from GenerateBrokerPassword_strong[OF this] obtain cs where
    "characters p = cs @ [0]" "length cs = 32" "set cs \<inter> set Digits \<noteq> {}"
    by (auto simp: PasswordLength_def)
  then show ?thesis by (intro exI[of _ p]) auto
qed

text \<open>
  C14: Password generation returns: with 63 draws that are not rejected (32 characters, 31 swaps)
  and no failing call it succeeds, however many rejected draws come between.
\<close>

theorem GenerateBrokerPassword_returns:
  assumes "None \<notin> set draws" and "63 \<le> accepted_draws draws"
  shows "\<exists>p rest. GenerateBrokerPassword password draws = Some ((ERROR_SUCCESS, p), rest)"
  using assms by (rule GenerateBrokerPassword_enough)

lemma GenerateBrokerPassword_returns_witness:
  "\<exists>p rest. GenerateBrokerPassword SecurePassword_empty (replicate 5 (Some 0xFFFFFFFF) @
     replicate 63 (Some 1000)) = Some ((ERROR_SUCCESS, p), rest)"
  by (rule GenerateBrokerPassword_returns) (auto simp: accepted_draws_def accepted_def)

end
