(* ===== verification/FileSystem.thy ===== *)
theory FileSystem
  imports Prelude
begin

text \<open>
  The Win32 file and SID calls the broker's stores rely on, as parameters: a record of functions
  over an abstract world \<open>'w\<close>, with an error code for a call that returns \<open>FALSE\<close>. A handle is the
  path it was opened for, its file pointer the position passed to \<open>ReadFile\<close>. The locale
  \<open>file_system\<close> states what Microsoft documents of these calls, with \<open>contents\<close> for what a reader
  of a path would read; writes may fail at any point. \<open>sid_api\<close> does the same for security
  identifiers. Both are interpreted by reference implementations: a file map with a disk quota,
  and the documented binary layout of a SID.
\<close>

section \<open>Files\<close>

record 'w files =
  OpenRead :: "wstring \<Rightarrow> 'w \<Rightarrow> dword"
  ReadFile :: "wstring \<Rightarrow> nat \<Rightarrow> nat \<Rightarrow> 'w \<Rightarrow> dword \<times> byte list"
  GetFileSize :: "wstring \<Rightarrow> 'w \<Rightarrow> dword \<times> nat"
  CreateAlways :: "wstring \<Rightarrow> 'w \<Rightarrow> dword \<times> 'w"
  WriteFile :: "wstring \<Rightarrow> byte list \<Rightarrow> 'w \<Rightarrow> (dword \<times> nat) \<times> 'w"
  FlushFileBuffers :: "wstring \<Rightarrow> 'w \<Rightarrow> dword \<times> 'w"
  DeleteFileW :: "wstring \<Rightarrow> 'w \<Rightarrow> dword \<times> 'w"
  MoveFileReplace :: "wstring \<Rightarrow> wstring \<Rightarrow> 'w \<Rightarrow> dword \<times> 'w"

text \<open>File names are compared without regard to case, letter by letter.\<close>

locale file_system =
  fixes F :: "'w files" and contents :: "'w \<Rightarrow> wstring \<Rightarrow> byte list option" and lower :: "wchar \<Rightarrow> wchar"
  assumes lower_ascii: "c < 0x80 \<Longrightarrow> lower c = (if 0x41 \<le> c \<and> c \<le> 0x5A then c + 0x20 else c)"
    and same_file: "map lower p = map lower q \<Longrightarrow> contents w p = contents w q"
    and open_read: "OpenRead F p w = ERROR_SUCCESS \<longleftrightarrow> contents w p \<noteq> None"
    and read_file: "contents w p = Some bs \<Longrightarrow> ReadFile F p pos n w = (ERROR_SUCCESS, take n (drop pos bs))"
    and file_size: "contents w p = Some bs \<Longrightarrow> GetFileSize F p w = (ERROR_SUCCESS, length bs)"
    and create_other: "CreateAlways F p w = (e, w') \<Longrightarrow> map lower q \<noteq> map lower p
      \<Longrightarrow> contents w' q = contents w q"
    and create_success: "CreateAlways F p w = (ERROR_SUCCESS, w') \<Longrightarrow> contents w' p = Some []"
    and write_other: "WriteFile F p bs w = ((e, n), w') \<Longrightarrow> map lower q \<noteq> map lower p
      \<Longrightarrow> contents w' q = contents w q"
    and write_success: "WriteFile F p bs w = ((ERROR_SUCCESS, n), w') \<Longrightarrow> contents w p = Some old
      \<Longrightarrow> contents w' p = Some (old @ take n bs) \<and> n \<le> length bs"
    and flush: "FlushFileBuffers F p w = (e, w') \<Longrightarrow> contents w' = contents w"
    and delete_other: "DeleteFileW F p w = (e, w') \<Longrightarrow> map lower q \<noteq> map lower p
      \<Longrightarrow> contents w' q = contents w q"
    and delete_failure: "DeleteFileW F p w = (e, w') \<Longrightarrow> e \<noteq> ERROR_SUCCESS \<Longrightarrow> contents w' = contents w"
    and delete_success: "DeleteFileW F p w = (ERROR_SUCCESS, w') \<Longrightarrow> contents w' p = None
      \<and> OpenRead F p w' = ERROR_FILE_NOT_FOUND"
    and move_failure: "MoveFileReplace F p r w = (e, w') \<Longrightarrow> e \<noteq> ERROR_SUCCESS
      \<Longrightarrow> contents w' = contents w"
    and move_success: "MoveFileReplace F p r w = (ERROR_SUCCESS, w') \<Longrightarrow> contents w' r = contents w p"
    and move_other: "MoveFileReplace F p r w = (e, w') \<Longrightarrow> map lower q \<noteq> map lower p
      \<Longrightarrow> map lower q \<noteq> map lower r \<Longrightarrow> contents w' q = contents w q"

section \<open>A file map with a quota\<close>

record disk =
  disk_files :: "wstring \<Rightarrow> byte list option"
  disk_free :: nat

definition ascii_lower :: "wchar \<Rightarrow> wchar" where
  "ascii_lower c = (if 0x41 \<le> c \<and> c \<le> 0x5A then c + 0x20 else c)"

abbreviation folded :: "wstring \<Rightarrow> wstring" where
  "folded p \<equiv> map ascii_lower p"

definition disk_contents :: "'a disk_scheme \<Rightarrow> wstring \<Rightarrow> byte list option" where
  "disk_contents d p = disk_files d (folded p)"

text \<open>A write that does not fit writes what fits and reports how much that was.\<close>

definition disk_api :: "'a disk_scheme files" where
  "disk_api = \<lparr>
     OpenRead = (\<lambda>p d. if disk_contents d p = None then ERROR_FILE_NOT_FOUND else ERROR_SUCCESS),
     ReadFile = (\<lambda>p pos n d. case disk_contents d p of
        None \<Rightarrow> (ERROR_INVALID_HANDLE, []) | Some bs \<Rightarrow> (ERROR_SUCCESS, take n (drop pos bs))),
     GetFileSize = (\<lambda>p d. case disk_contents d p of
        None \<Rightarrow> (ERROR_INVALID_HANDLE, 0) | Some bs \<Rightarrow> (ERROR_SUCCESS, length bs)),
     CreateAlways = (\<lambda>p d. (ERROR_SUCCESS, d\<lparr>disk_files := (disk_files d)(folded p \<mapsto> [])\<rparr>)),
     WriteFile = (\<lambda>p bs d. case disk_contents d p of
        None \<Rightarrow> ((ERROR_INVALID_HANDLE, 0), d)
      | Some old \<Rightarrow> (let n = min (length bs) (disk_free d) in
          ((ERROR_SUCCESS, n), d\<lparr>disk_files := (disk_files d)(folded p \<mapsto> old @ take n bs),
             disk_free := disk_free d - n\<rparr>))),
     FlushFileBuffers = (\<lambda>p d. (ERROR_SUCCESS, d)),
     DeleteFileW = (\<lambda>p d. if disk_contents d p = None then (ERROR_FILE_NOT_FOUND, d)
        else (ERROR_SUCCESS, d\<lparr>disk_files := (disk_files d)(folded p := None)\<rparr>)),
     MoveFileReplace = (\<lambda>p r d. case disk_contents d p of
        None \<Rightarrow> (ERROR_FILE_NOT_FOUND, d)
      | Some bs \<Rightarrow> (ERROR_SUCCESS,
          d\<lparr>disk_files := (disk_files d)(folded p := None, folded r \<mapsto> bs)\<rparr>))\<rparr>"

interpretation reference_files: file_system disk_api disk_contents ascii_lower
  by unfold_locales
    (auto simp: disk_api_def disk_contents_def ascii_lower_def Let_def fun_eq_iff
      split: option.splits if_splits)

section \<open>Reading and writing a counted number of bytes\<close>

text \<open>\<open>ReadExactly\<close> and \<open>WriteExactly\<close> of \<open>src/broker/BrokerEnrollmentStore.cpp\<close>.\<close>

definition ReadExactly :: "'w files \<Rightarrow> wstring \<Rightarrow> nat \<Rightarrow> nat \<Rightarrow> 'w \<Rightarrow> dword \<times> byte list" where
  "ReadExactly F p pos n w =
     (let (readError, bs) = ReadFile F p pos n w in
      if readError \<noteq> ERROR_SUCCESS then (readError, [])
      else (if length bs = n then ERROR_SUCCESS else ERROR_HANDLE_EOF, bs))"

definition WriteExactly :: "'w files \<Rightarrow> wstring \<Rightarrow> byte list \<Rightarrow> 'w \<Rightarrow> dword \<times> 'w" where
  "WriteExactly F p bs w =
     (let ((writeError, bytesWritten), w') = WriteFile F p bs w in
      (if writeError \<noteq> ERROR_SUCCESS then writeError
       else if bytesWritten = length bs then ERROR_SUCCESS else ERROR_WRITE_FAULT, w'))"

context file_system
begin

lemma ReadExactly_contents:
  "contents w p = Some bs \<Longrightarrow> ReadExactly F p pos n w =
     (if pos + n \<le> length bs \<or> n = 0 then (ERROR_SUCCESS, take n (drop pos bs))
      else (ERROR_HANDLE_EOF, take n (drop pos bs)))"
  by (auto simp: ReadExactly_def read_file)

lemma WriteExactly_success:
  "WriteExactly F p bs w = (ERROR_SUCCESS, w') \<Longrightarrow> contents w p = Some old
     \<Longrightarrow> contents w' p = Some (old @ bs)"
  by (auto simp: WriteExactly_def Let_def split: prod.splits if_splits dest!: write_success)

lemma WriteExactly_other:
  "WriteExactly F p bs w = (e, w') \<Longrightarrow> map lower q \<noteq> map lower p \<Longrightarrow> contents w' q = contents w q"
  by (auto simp: WriteExactly_def Let_def split: prod.splits dest!: write_other)

end

section \<open>Security identifiers\<close>

locale sid_api =
  fixes IsValidSid :: "sid \<Rightarrow> bool" and GetLengthSid :: "sid \<Rightarrow> nat" and EqualSid :: "sid \<Rightarrow> sid \<Rightarrow> bool"
  assumes length_positive: "IsValidSid s \<Longrightarrow> 0 < GetLengthSid s \<and> GetLengthSid s \<le> SECURITY_MAX_SID_SIZE"
    and equal_sid: "IsValidSid s \<Longrightarrow> IsValidSid t \<Longrightarrow> GetLengthSid s = length s \<Longrightarrow>
      GetLengthSid t = length t \<Longrightarrow> EqualSid s t \<longleftrightarrow> s = t"

text \<open>Revision 1, the number of sub-authorities (at most 15), six bytes of authority, four bytes each.\<close>

definition sid_length :: "sid \<Rightarrow> nat" where
  "sid_length s = 8 + 4 * unat (s ! 1)"

definition sid_valid :: "sid \<Rightarrow> bool" where
  "sid_valid s \<longleftrightarrow> length s \<ge> 8 \<and> s ! 0 = 1 \<and> s ! 1 \<le> 15 \<and> sid_length s \<le> length s"

definition sid_equal :: "sid \<Rightarrow> sid \<Rightarrow> bool" where
  "sid_equal s t \<longleftrightarrow> sid_length s = sid_length t \<and> take (sid_length s) s = take (sid_length t) t"

interpretation reference_sid: sid_api sid_valid sid_length sid_equal
  by unfold_locales (auto simp: sid_valid_def sid_length_def sid_equal_def word_le_nat_alt)

end
