(* ===== verification/EnrollmentStore.thy ===== *)
theory EnrollmentStore
  imports FileSystem "HOL-Library.List_Lexorder"
begin

text \<open>
  The enrollment records, \<open>src/broker/BrokerEnrollmentStore.cpp\<close>: one file per managed account,
  a header, the account's SID and an HMAC under the machine key, written to a temporary file and
  moved into place. Random bytes, the HMAC and the file calls are parameters. Main results: a
  stored record is loaded back, a failed store leaves the old record, other accounts are not
  touched, and a record is accepted only under a valid tag.
\<close>

section \<open>Records\<close>

record EnrollmentRecord =
  accountSid :: sid
  brokerManaged :: bool

definition EnrollmentRecord_default :: EnrollmentRecord where
  "EnrollmentRecord_default = \<lparr>accountSid = [], brokerManaged = False\<rparr>"

abbreviation RecordMagic :: dword where "RecordMagic \<equiv> 0x4553414C"
abbreviation LegacyRecordVersion :: dword where "LegacyRecordVersion \<equiv> 2"
abbreviation RecordVersion :: dword where "RecordVersion \<equiv> 3"
abbreviation BrokerManagedRecordFlag :: dword where "BrokerManagedRecordFlag \<equiv> 1"
abbreviation KnownRecordFlags :: dword where "KnownRecordFlags \<equiv> BrokerManagedRecordFlag"
abbreviation ERROR_NO_MORE_FILES :: dword where "ERROR_NO_MORE_FILES \<equiv> 18"

definition RecordExtension :: wstring where "RecordExtension = wide ''.enrollment''"
definition MachineKeyFileName :: wstring where "MachineKeyFileName = wide (BS # ''enrollment.key'')"
definition MachineKeyBytes :: nat where "MachineKeyBytes = 32"
definition RecordTagBytes :: nat where "RecordTagBytes = 32"

text \<open>The memory layout of a \<open>DWORD\<close> on x86 and ARM64: low byte first.\<close>

definition bytes_of_dword :: "dword \<Rightarrow> byte list" where
  "bytes_of_dword d = [ucast d, ucast (drop_bit 8 d), ucast (drop_bit 16 d), ucast (drop_bit 24 d)]"

definition dword_of_bytes :: "byte list \<Rightarrow> dword" where
  "dword_of_bytes b = ucast (b ! 0) OR push_bit 8 (ucast (b ! 1)) OR push_bit 16 (ucast (b ! 2))
     OR push_bit 24 (ucast (b ! 3))"

text \<open>\<open>RecordHeaderV2\<close> and \<open>RecordHeader\<close>, with the sizes of their structures.\<close>

record RecordHeader =
  magic :: dword
  version :: dword
  sidBytes :: dword
  flags :: dword

definition bytes_of_prefix :: "RecordHeader \<Rightarrow> byte list" where
  "bytes_of_prefix h = bytes_of_dword (magic h) @ bytes_of_dword (version h) @ bytes_of_dword (sidBytes h)"

definition bytes_of_header :: "RecordHeader \<Rightarrow> byte list" where
  "bytes_of_header h = bytes_of_prefix h @ bytes_of_dword (flags h)"

definition prefix_of_bytes :: "byte list \<Rightarrow> RecordHeader" where
  "prefix_of_bytes b = \<lparr>magic = dword_of_bytes (take 4 b), version = dword_of_bytes (take 4 (drop 4 b)),
     sidBytes = dword_of_bytes (take 4 (drop 8 b)), flags = 0\<rparr>"

definition IsValidBrokerAccountName :: "wstring \<Rightarrow> bool" where
  "IsValidBrokerAccountName v \<longleftrightarrow> v \<noteq> [] \<and> length v \<le> UNLEN
     \<and> \<not> contains_any (wide (BS # ''/[]:;|=,+*?<>'' @ [DQ])) v
     \<and> list_all (\<lambda>c. c \<ge> WCHR CHR '' '') v"

section \<open>The environment\<close>

text \<open>
  \<open>BCryptGenRandom\<close> returns whether it succeeded and the bytes; \<open>Hmac\<close> is HMAC-SHA256 under a key,
  \<open>None\<close> when a call of the hash provider fails; \<open>FindFiles\<close> is the search \<open>directory\*.enrollment\<close>:
  the error of \<open>FindFirstFileW\<close>, the names found (with whether each is a directory), and the error
  that ended the search.
\<close>

record 'w store_env =
  files_of :: "'w files"
  BCryptGenRandom :: "nat \<Rightarrow> 'w \<Rightarrow> (bool \<times> byte list) \<times> 'w"
  Hmac :: "byte list \<Rightarrow> byte list \<Rightarrow> byte list option"
  IsValidSid_of :: "sid \<Rightarrow> bool"
  GetLengthSid_of :: "sid \<Rightarrow> nat"
  FindFiles :: "wstring \<Rightarrow> 'w \<Rightarrow> dword \<times> (wstring \<times> bool) list \<times> dword"

section \<open>The machine key\<close>

definition temporary :: "wstring \<Rightarrow> wstring" where
  "temporary path = path @ wide ''.tmp''"

definition delete_on_error :: "'w files \<Rightarrow> wstring \<Rightarrow> dword \<times> 'w \<Rightarrow> dword \<times> 'w" where
  "delete_on_error F path r =
     (if fst r \<noteq> ERROR_SUCCESS then (fst r, snd (DeleteFileW F path (snd r))) else r)"

definition WriteMachineKeyFile :: "'w files \<Rightarrow> wstring \<Rightarrow> byte list \<Rightarrow> 'w \<Rightarrow> dword \<times> 'w" where
  "WriteMachineKeyFile F path k w =
     (let temporaryPath = temporary path; (createError, w) = CreateAlways F temporaryPath w in
      if createError \<noteq> ERROR_SUCCESS then (createError, w)
      else
        (let (writeError, w) = delete_on_error F temporaryPath
               (and_then (WriteExactly F temporaryPath k) (FlushFileBuffers F temporaryPath) w)
         in if writeError \<noteq> ERROR_SUCCESS then (writeError, w)
            else delete_on_error F temporaryPath (MoveFileReplace F temporaryPath path w)))"

definition GenerateMachineKey :: "'w store_env \<Rightarrow> 'w \<Rightarrow> (dword \<times> byte list) \<times> 'w" where
  "GenerateMachineKey env w =
     (let ((ok, bytes), w) = BCryptGenRandom env MachineKeyBytes w
      in ((if ok then ERROR_SUCCESS else ERROR_GEN_FAILURE, bytes), w))"

text \<open>On failure the key buffer is zeroed; no caller reads it then.\<close>

definition LoadOrCreateMachineKey ::
  "'w store_env \<Rightarrow> wstring \<Rightarrow> 'w \<Rightarrow> (dword \<times> byte list) \<times> 'w"
where
  "LoadOrCreateMachineKey env path w =
     (let F = files_of env; zero = replicate MachineKeyBytes 0; openError = OpenRead F path w in
      if openError = ERROR_SUCCESS then
        (let (readError, k) = ReadExactly F path 0 MachineKeyBytes w
         in if readError = ERROR_SUCCESS then ((ERROR_SUCCESS, k), w) else ((readError, zero), w))
      else if openError \<noteq> ERROR_FILE_NOT_FOUND then ((openError, zero), w)
      else
        (let ((generateError, k), w) = GenerateMachineKey env w in
         if generateError \<noteq> ERROR_SUCCESS then ((generateError, zero), w)
         else (let (writeError, w) = WriteMachineKeyFile F path k w
               in if writeError = ERROR_SUCCESS then ((ERROR_SUCCESS, k), w)
                  else ((writeError, zero), w))))"

definition ComputeRecordTag ::
  "'w store_env \<Rightarrow> byte list \<Rightarrow> byte list \<Rightarrow> sid \<Rightarrow> dword \<times> byte list"
where
  "ComputeRecordTag env k serializedHeader s =
     (case Hmac env k (serializedHeader @ s) of
        None \<Rightarrow> (ERROR_GEN_FAILURE, []) | Some tag \<Rightarrow> (ERROR_SUCCESS, tag))"

definition ConstantTimeEqual :: "byte list \<Rightarrow> byte list \<Rightarrow> bool" where
  "ConstantTimeEqual a b =
     (foldl (\<lambda>difference index. difference OR (a ! index XOR b ! index)) 0 [0..<RecordTagBytes] = 0)"

section \<open>The store\<close>

definition RecordPath :: "wstring \<Rightarrow> wstring \<Rightarrow> wstring" where
  "RecordPath directory accountName = directory @ wide [BS] @ accountName @ RecordExtension"

definition MachineKeyPath :: "wstring \<Rightarrow> wstring" where
  "MachineKeyPath directory = directory @ MachineKeyFileName"

definition EnrollmentStore_Store ::
  "'w store_env \<Rightarrow> wstring \<Rightarrow> wstring \<Rightarrow> sid \<Rightarrow> bool \<Rightarrow> 'w \<Rightarrow> dword \<times> 'w"
where
  "EnrollmentStore_Store env directory accountName s managed w =
     (if \<not> IsValidBrokerAccountName accountName \<or> s = [] \<or> \<not> IsValidSid_of env s
      then (ERROR_INVALID_PARAMETER, w)
      else
        (let F = files_of env;
             ((keyError, machineKey), w) = LoadOrCreateMachineKey env (MachineKeyPath directory) w
         in if keyError \<noteq> ERROR_SUCCESS then (keyError, w)
         else
           (let header = \<lparr>magic = RecordMagic, version = RecordVersion,
                  sidBytes = of_nat (length s), flags = if managed then BrokerManagedRecordFlag else 0\<rparr>;
                (tagError, tag) = ComputeRecordTag env machineKey (bytes_of_header header) s
            in if tagError \<noteq> ERROR_SUCCESS then (tagError, w)
            else
              (let path = RecordPath directory accountName; temporaryPath = temporary path;
                   (createError, w) = CreateAlways F temporaryPath w
               in if createError \<noteq> ERROR_SUCCESS then (createError, w)
               else
                 (let (writeError, w) = delete_on_error F temporaryPath
                        (and_then (WriteExactly F temporaryPath (bytes_of_header header))
                          (and_then (WriteExactly F temporaryPath (take (unat (sidBytes header)) s))
                            (and_then (WriteExactly F temporaryPath tag)
                              (FlushFileBuffers F temporaryPath))) w)
                  in if writeError \<noteq> ERROR_SUCCESS then (writeError, w)
                  else delete_on_error F temporaryPath (MoveFileReplace F temporaryPath path w))))))"

definition EnrollmentStore_Load ::
  "'w store_env \<Rightarrow> wstring \<Rightarrow> wstring \<Rightarrow> 'w \<Rightarrow> (dword \<times> EnrollmentRecord) \<times> 'w"
where
  "EnrollmentStore_Load env directory accountName w =
     (let F = files_of env; path = RecordPath directory accountName;
          failed = (\<lambda>e w. ((e, EnrollmentRecord_default), w))
      in
      if \<not> IsValidBrokerAccountName accountName then failed ERROR_INVALID_PARAMETER w
      else if OpenRead F path w \<noteq> ERROR_SUCCESS then failed (OpenRead F path w) w
      else
        (let (readError, prefixBytes) = ReadExactly F path 0 12 w; p = prefix_of_bytes prefixBytes in
         if readError \<noteq> ERROR_SUCCESS then failed readError w
         else if magic p \<noteq> RecordMagic
           \<or> (version p \<noteq> LegacyRecordVersion \<and> version p \<noteq> RecordVersion)
           \<or> sidBytes p = 0 \<or> sidBytes p > of_nat SECURITY_MAX_SID_SIZE
         then failed ERROR_INVALID_DATA w
         else
           (let current = (version p = RecordVersion);
                (flagsError, flagBytes) = (if current then ReadExactly F path 12 4 w else (ERROR_SUCCESS, []));
                header = (if current then p\<lparr>version := RecordVersion, flags := dword_of_bytes flagBytes\<rparr>
                          else p)
            in if flagsError \<noteq> ERROR_SUCCESS then failed flagsError w
            else if current \<and> flags header AND NOT KnownRecordFlags \<noteq> 0 then failed ERROR_INVALID_DATA w
            else
              (let signedHeader = (if current then bytes_of_header header else bytes_of_prefix p);
                   position = length signedHeader; n = unat (sidBytes p);
                   (sidError, s) = ReadExactly F path position n w;
                   (tagReadError, storedTag) = ReadExactly F path (position + n) RecordTagBytes w
               in if sidError \<noteq> ERROR_SUCCESS then failed sidError w
               else if tagReadError \<noteq> ERROR_SUCCESS then failed tagReadError w
               else if \<not> IsValidSid_of env s \<or> GetLengthSid_of env s \<noteq> length s
               then failed ERROR_INVALID_SID w
               else
                 (let ((keyError, machineKey), w) = LoadOrCreateMachineKey env (MachineKeyPath directory) w
                  in if keyError \<noteq> ERROR_SUCCESS then failed keyError w
                  else
                    (let (tagError, expectedTag) = ComputeRecordTag env machineKey signedHeader s in
                     if tagError \<noteq> ERROR_SUCCESS then failed tagError w
                     else if \<not> ConstantTimeEqual storedTag expectedTag then failed ERROR_ACCESS_DENIED w
                     else ((ERROR_SUCCESS, \<lparr>accountSid = s,
                             brokerManaged = (version p = RecordVersion
                               \<and> flags header AND BrokerManagedRecordFlag \<noteq> 0)\<rparr>), w)))))))"

definition EnrollmentStore_LoadSid ::
  "'w store_env \<Rightarrow> wstring \<Rightarrow> wstring \<Rightarrow> 'w \<Rightarrow> (dword \<times> sid) \<times> 'w"
where
  "EnrollmentStore_LoadSid env directory accountName w =
     (let ((loadError, r), w) = EnrollmentStore_Load env directory accountName w
      in ((loadError, if loadError = ERROR_SUCCESS then accountSid r else []), w))"

definition EnrollmentStore_Remove :: "'w store_env \<Rightarrow> wstring \<Rightarrow> wstring \<Rightarrow> 'w \<Rightarrow> dword \<times> 'w" where
  "EnrollmentStore_Remove env directory accountName w =
     (if \<not> IsValidBrokerAccountName accountName then (ERROR_INVALID_PARAMETER, w)
      else (let (removeError, w) = DeleteFileW (files_of env) (RecordPath directory accountName) w
            in (if removeError = ERROR_FILE_NOT_FOUND then ERROR_NOT_FOUND else removeError, w)))"

text \<open>The file name without the extension; a name shorter than the extension is kept whole.\<close>

definition record_name :: "wstring \<Rightarrow> wstring" where
  "record_name name = (if length name < length RecordExtension then name
     else take (length name - length RecordExtension) name)"

definition EnrollmentStore_List :: "'w store_env \<Rightarrow> wstring \<Rightarrow> 'w \<Rightarrow> dword \<times> wstring list" where
  "EnrollmentStore_List env directory w =
     (let (firstError, found, endError) = FindFiles env (directory @ wide [BS, CHR ''*''] @ RecordExtension) w in
      if firstError \<noteq> ERROR_SUCCESS then
        (if firstError = ERROR_FILE_NOT_FOUND then ERROR_SUCCESS else firstError, [])
      else if endError \<noteq> ERROR_NO_MORE_FILES then (endError, [])
      else (ERROR_SUCCESS, sort (map record_name (map fst (filter
             (\<lambda>(name, is_directory). \<not> is_directory \<and> IsValidBrokerAccountName (record_name name)) found)))))"

section \<open>Serialisation\<close>

lemma dword_of_bytes_of_dword [simp]: "dword_of_bytes (bytes_of_dword d) = d"
proof (rule bit_word_eqI)
  fix n assume "n < LENGTH(32)"
  then consider "n < 8" | "8 \<le> n" "n < 16" | "16 \<le> n" "n < 24" | "24 \<le> n" "n < 32" by fastforce
  then show "bit (dword_of_bytes (bytes_of_dword d)) n = bit d n"
    by cases (auto simp: dword_of_bytes_def bytes_of_dword_def bit_simps)
qed

lemma length_bytes_of_dword [simp]: "length (bytes_of_dword d) = 4"
  by (simp add: bytes_of_dword_def)

lemma bit_byte: "8 \<le> n \<Longrightarrow> \<not> bit (b :: byte) n"
  using bit_imp_le_length[of b n] by auto

lemma bytes_of_dword_of_bytes:
  assumes "length b = 4"
  shows "bytes_of_dword (dword_of_bytes b) = b"
proof -
  from assms obtain b0 b1 b2 b3 where b: "b = [b0, b1, b2, b3]"
    by (auto simp: length_Suc_conv eval_nat_numeral)
  have "ucast (dword_of_bytes b) = b0" "ucast (drop_bit 8 (dword_of_bytes b)) = b1"
    "ucast (drop_bit 16 (dword_of_bytes b)) = b2" "ucast (drop_bit 24 (dword_of_bytes b)) = b3"
    unfolding dword_of_bytes_def b
    by (rule bit_word_eqI; simp add: bit_simps bit_byte)+
  then show ?thesis by (simp add: b bytes_of_dword_def)
qed

lemma length_bytes_of_header [simp]:
  "length (bytes_of_prefix h) = 12" "length (bytes_of_header h) = 16"
  by (simp_all add: bytes_of_prefix_def bytes_of_header_def)

lemma prefix_of_bytes_of_prefix [simp]: "prefix_of_bytes (bytes_of_prefix h) = h\<lparr>flags := 0\<rparr>"
  by (simp add: prefix_of_bytes_def bytes_of_prefix_def)

lemma OR_eq_zero: "a OR b = (0 :: byte) \<longleftrightarrow> a = 0 \<and> b = 0"
  by (auto simp: bit_eq_iff bit_simps)

lemma XOR_eq_zero: "a XOR b = (0 :: byte) \<longleftrightarrow> a = b"
  by (auto simp: bit_eq_iff bit_simps)

lemma OR_fold_zero:
  "foldl (\<lambda>d i. d OR f i) d is = (0 :: byte) \<longleftrightarrow> d = 0 \<and> (\<forall>i\<in>set is. f i = 0)"
  by (induction "is" arbitrary: d) (auto simp: OR_eq_zero)

lemma ConstantTimeEqual_iff:
  assumes "length a = RecordTagBytes" "length b = RecordTagBytes"
  shows "ConstantTimeEqual a b \<longleftrightarrow> a = b"
  using assms by (auto simp: ConstantTimeEqual_def OR_fold_zero XOR_eq_zero list_eq_iff_nth_eq)

section \<open>Contract of the environment\<close>

locale store_environment =
  file_system "files_of env" contents lower + sid_api "IsValidSid_of env" "GetLengthSid_of env" EqualSid
  for env :: "'w store_env" and contents lower EqualSid +
  assumes random_contents: "BCryptGenRandom env n w = (r, w') \<Longrightarrow> contents w' = contents w"
    and random_length: "BCryptGenRandom env n w = ((True, bs), w') \<Longrightarrow> length bs = n"
    and hmac_length: "Hmac env k d = Some tag \<Longrightarrow> length tag = RecordTagBytes"

text \<open>Two paths name different files when they end differently.\<close>

lemma different_suffix:
  "length s = length t \<Longrightarrow> map f (wide s) \<noteq> map f (wide t) \<Longrightarrow> map f (p @ wide s) \<noteq> map f (q @ wide t)"
  by (auto simp: append_eq_append_conv)

context store_environment
begin

abbreviation same :: "wstring \<Rightarrow> wstring \<Rightarrow> bool" where
  "same p q \<equiv> map lower p = map lower q"

lemma lower_wide: "map lower (wide ''y'') \<noteq> map lower (wide ''t'')"
  "map lower (wide ''y'') \<noteq> map lower (wide ''p'')" "map lower (wide ''t'') \<noteq> map lower (wide ''p'')"
  "map lower (wide ''y.tmp'') \<noteq> map lower (wide ''t.tmp'')"
  by (simp_all add: wide_def lower_ascii)

lemma path_endings:
  "\<exists>p. RecordPath dir name = p @ wide ''t''" "\<exists>p. MachineKeyPath dir = p @ wide ''y''"
  "\<exists>p. temporary q = p @ wide ''p''"
  "\<exists>p. temporary (RecordPath dir name) = p @ wide ''t.tmp''"
  "\<exists>p. temporary (MachineKeyPath dir) = p @ wide ''y.tmp''"
proof -
  have "RecordExtension = wide ''.enrollmen'' @ wide ''t''" "MachineKeyFileName = wide (BS # ''enrollment.ke'') @ wide ''y''"
    "wide ''.tmp'' = wide ''.tm'' @ wide ''p''" "wide ''t.tmp'' = wide ''t'' @ wide ''.tmp''"
    "wide ''y.tmp'' = wide ''y'' @ wide ''.tmp''"
    by (simp_all add: RecordExtension_def MachineKeyFileName_def wide_def)
  then show "\<exists>p. RecordPath dir name = p @ wide ''t''" "\<exists>p. MachineKeyPath dir = p @ wide ''y''"
    "\<exists>p. temporary q = p @ wide ''p''" "\<exists>p. temporary (RecordPath dir name) = p @ wide ''t.tmp''"
    "\<exists>p. temporary (MachineKeyPath dir) = p @ wide ''y.tmp''"
    unfolding RecordPath_def MachineKeyPath_def temporary_def by (metis append.assoc)+
qed

lemma different_paths:
  "\<not> same (RecordPath dir name) (MachineKeyPath dir')" "\<not> same (RecordPath dir name) (temporary q)"
  "\<not> same (MachineKeyPath dir) (temporary q)"
  "\<not> same (temporary (RecordPath dir name)) (temporary (MachineKeyPath dir'))"
proof -
  note e = path_endings and d = lower_wide
  show "\<not> same (RecordPath dir name) (MachineKeyPath dir')"
    using e(1)[of dir name] e(2)[of dir'] different_suffix[OF _ d(1)] by (metis length_wide list.size(4))
  show "\<not> same (RecordPath dir name) (temporary q)"
    using e(1)[of dir name] e(3)[of q] different_suffix[OF _ d(3)] by (metis length_wide list.size(4))
  show "\<not> same (MachineKeyPath dir) (temporary q)"
    using e(2)[of dir] e(3)[of q] different_suffix[OF _ d(2)] by (metis length_wide list.size(4))
  show "\<not> same (temporary (RecordPath dir name)) (temporary (MachineKeyPath dir'))"
    using e(4)[of dir name] e(5)[of dir'] different_suffix[OF _ d(4)] by (metis length_wide list.size(4))
qed

lemma same_RecordPath: "same (RecordPath dir name) (RecordPath dir name') \<longleftrightarrow> same name name'"
  by (auto simp: RecordPath_def)

lemma delete_on_error_other:
  "delete_on_error (files_of env) p (e0, w) = (e, w') \<Longrightarrow> \<not> same q p
     \<Longrightarrow> contents w' q = contents w q \<and> e = e0"
  by (auto simp: delete_on_error_def split: if_splits prod.splits)
    (metis delete_other surjective_pairing)

lemma delete_on_error_success:
  "delete_on_error (files_of env) p r = (ERROR_SUCCESS, w') \<Longrightarrow> r = (ERROR_SUCCESS, w')"
  by (auto simp: delete_on_error_def split: if_splits)

text \<open>Writing to a temporary file touches only that file.\<close>

lemma write_temporary_other:
  assumes "CreateAlways (files_of env) p w = (e1, w1)"
    and "delete_on_error (files_of env) p (body w1) = (e2, w2)"
    and "\<And>w e w'. body w = (e, w') \<Longrightarrow> contents w' q = contents w q" and "\<not> same q p"
  shows "contents w2 q = contents w q"
proof -
  obtain e w' where b: "body w1 = (e, w')" by fastforce
  with assms show ?thesis
    using create_other[OF assms(1,4)] delete_on_error_other[of p e w' e2 w2 q] assms(3)[OF b] by auto
qed

lemma move_temporary_other:
  assumes "delete_on_error (files_of env) p (MoveFileReplace (files_of env) p r w) = (e, w')"
    and "\<not> same q p" and "\<not> same q r"
  shows "contents w' q = contents w q"
proof -
  obtain e1 w1 where m: "MoveFileReplace (files_of env) p r w = (e1, w1)" by fastforce
  with assms move_other[OF m assms(2,3)] show ?thesis
    by (auto dest: delete_on_error_other)
qed

lemma move_temporary_failure:
  assumes "delete_on_error (files_of env) p (MoveFileReplace (files_of env) p r w) = (e, w')"
    and "e \<noteq> ERROR_SUCCESS" and "\<not> same q p"
  shows "contents w' q = contents w q"
proof -
  obtain e1 w1 where m: "MoveFileReplace (files_of env) p r w = (e1, w1)" by fastforce
  with assms(1) have d: "delete_on_error (files_of env) p (e1, w1) = (e, w')" by simp
  from delete_on_error_other[OF d assms(3)] move_failure[OF m] assms(2) show ?thesis by auto
qed

lemma flush_other: "FlushFileBuffers (files_of env) p w = (e, w') \<Longrightarrow> contents w' q = contents w q"
  by (simp add: flush)

lemma and_then_other:
  assumes "and_then f g w = (e, w')"
    and "\<And>w e w'. f w = (e, w') \<Longrightarrow> contents w' q = contents w q"
    and "\<And>w e w'. g w = (e, w') \<Longrightarrow> contents w' q = contents w q"
  shows "contents w' q = contents w q"
proof -
  obtain e1 w1 where f: "f w = (e1, w1)" by fastforce
  show ?thesis
  proof (cases "e1 = ERROR_SUCCESS")
    case True
    with assms(1) f have "g w1 = (e, w')" by (simp add: and_then_def)
    from assms(3)[OF this] assms(2)[OF f] show ?thesis by simp
  next
    case False
    with assms(1) f have "w' = w1" by (simp add: and_then_def)
    with assms(2)[OF f] show ?thesis by simp
  qed
qed

section \<open>The machine key is stable\<close>

lemma WriteMachineKeyFile_other:
  assumes "WriteMachineKeyFile (files_of env) path k w = (e, w')"
    and "\<not> same q path" "\<not> same q (temporary path)"
  shows "contents w' q = contents w q"
proof -
  let ?t = "temporary path" and ?F = "files_of env"
  let ?body = "and_then (WriteExactly ?F ?t k) (FlushFileBuffers ?F ?t)"
  obtain e1 w1 where c: "CreateAlways ?F ?t w = (e1, w1)" by fastforce
  obtain e2 w2 where b: "delete_on_error ?F ?t (?body w1) = (e2, w2)" by fastforce
  have "contents w2 q = contents w q"
    using c b _ assms(3)
  proof (rule write_temporary_other)
    show "contents w' q = contents w q" if "?body w = (e, w')" for w e w'
      by (rule and_then_other[OF that])
        (rule WriteExactly_other[OF _ assms(3)] flush_other, assumption)+
  qed
  with c b assms create_other[OF c assms(3)] show ?thesis
    by (auto simp: WriteMachineKeyFile_def Let_def split: if_splits dest: move_temporary_other)
qed

lemma WriteMachineKeyFile_success:
  assumes "WriteMachineKeyFile (files_of env) path k w = (ERROR_SUCCESS, w')"
  shows "contents w' path = Some k"
proof -
  let ?t = "temporary path" and ?F = "files_of env"
  let ?body = "and_then (WriteExactly ?F ?t k) (FlushFileBuffers ?F ?t)"
  obtain e1 w1 where c: "CreateAlways ?F ?t w = (e1, w1)" by fastforce
  obtain e2 w2 where b: "delete_on_error ?F ?t (?body w1) = (e2, w2)" by fastforce
  from assms c b have e: "e1 = ERROR_SUCCESS" "e2 = ERROR_SUCCESS"
    and m: "delete_on_error ?F ?t (MoveFileReplace ?F ?t path w2) = (ERROR_SUCCESS, w')"
    by (auto simp: WriteMachineKeyFile_def Let_def split: if_splits)
  from b e have "?body w1 = (ERROR_SUCCESS, w2)" by (auto dest: delete_on_error_success)
  then obtain w3 where w3: "WriteExactly ?F ?t k w1 = (ERROR_SUCCESS, w3)"
    "FlushFileBuffers ?F ?t w3 = (ERROR_SUCCESS, w2)" by (rule and_then_successE)
  have "contents w2 ?t = Some k"
    using WriteExactly_success[OF w3(1), of "[]"] create_success[of ?t w w1] c e flush[OF w3(2)] by simp
  with move_success[of ?t path w2 w'] delete_on_error_success[OF m] show ?thesis by simp
qed

lemma LoadOrCreateMachineKey_other:
  assumes "LoadOrCreateMachineKey env path w = (r, w')"
    and "\<not> same q path" "\<not> same q (temporary path)"
  shows "contents w' q = contents w q"
  using assms
  by (auto simp: LoadOrCreateMachineKey_def GenerateMachineKey_def Let_def
      split: if_splits prod.splits dest!: random_contents WriteMachineKeyFile_other[of path])

text \<open>After a success the key file holds the key, so the next call returns the same one.\<close>

lemma LoadOrCreateMachineKey_success:
  assumes "LoadOrCreateMachineKey env path w = ((ERROR_SUCCESS, k), w')"
  shows "\<exists>bs. contents w' path = Some bs \<and> take MachineKeyBytes bs = k \<and> length k = MachineKeyBytes"
proof (cases "OpenRead (files_of env) path w = ERROR_SUCCESS")
  case True
  then obtain bs where bs: "contents w path = Some bs" using open_read by auto
  with True assms show ?thesis
    by (auto simp: LoadOrCreateMachineKey_def Let_def ReadExactly_contents[OF bs]
        MachineKeyBytes_def split: if_splits)
next
  case False
  with assms obtain w1 where g: "BCryptGenRandom env MachineKeyBytes w = ((True, k), w1)"
    and wr: "WriteMachineKeyFile (files_of env) path k w1 = (ERROR_SUCCESS, w')"
    by (auto simp: LoadOrCreateMachineKey_def GenerateMachineKey_def Let_def
        split: if_splits prod.splits)
  from WriteMachineKeyFile_success[OF wr] random_length[OF g] show ?thesis by simp
qed

lemma LoadOrCreateMachineKey_existing:
  assumes "contents w path = Some bs" "MachineKeyBytes \<le> length bs"
  shows "LoadOrCreateMachineKey env path w = ((ERROR_SUCCESS, take MachineKeyBytes bs), w)"
  using assms open_read[of path w]
  by (simp add: LoadOrCreateMachineKey_def ReadExactly_contents[OF assms(1)] Let_def)

section \<open>Storing\<close>

lemma Store_steps:
  assumes "EnrollmentStore_Store env dir name s managed w = (e, w')"
  obtains (unchanged) "e \<noteq> ERROR_SUCCESS"
      "\<And>q. \<not> same q (MachineKeyPath dir) \<Longrightarrow> \<not> same q (temporary (MachineKeyPath dir)) \<Longrightarrow>
         \<not> same q (temporary (RecordPath dir name)) \<Longrightarrow> contents w' q = contents w q"
    | (moved) h tag k w1 w2 w3 where
      "h = \<lparr>magic = RecordMagic, version = RecordVersion, sidBytes = of_nat (length s),
         flags = if managed then BrokerManagedRecordFlag else 0\<rparr>"
      "IsValidBrokerAccountName name" "IsValidSid_of env s"
      "LoadOrCreateMachineKey env (MachineKeyPath dir) w = ((ERROR_SUCCESS, k), w1)"
      "Hmac env k (bytes_of_header h @ s) = Some tag"
      "CreateAlways (files_of env) (temporary (RecordPath dir name)) w1 = (ERROR_SUCCESS, w2)"
      "and_then (WriteExactly (files_of env) (temporary (RecordPath dir name)) (bytes_of_header h))
         (and_then (WriteExactly (files_of env) (temporary (RecordPath dir name))
            (take (unat (sidBytes h)) s))
           (and_then (WriteExactly (files_of env) (temporary (RecordPath dir name)) tag)
             (FlushFileBuffers (files_of env) (temporary (RecordPath dir name))))) w2
         = (ERROR_SUCCESS, w3)"
      "delete_on_error (files_of env) (temporary (RecordPath dir name)) (MoveFileReplace (files_of env)
         (temporary (RecordPath dir name)) (RecordPath dir name) w3) = (e, w')"
proof -
  let ?F = "files_of env" and ?t = "temporary (RecordPath dir name)"
  let ?h = "\<lparr>magic = RecordMagic, version = RecordVersion, sidBytes = of_nat (length s),
    flags = if managed then BrokerManagedRecordFlag else 0\<rparr>"
  show ?thesis
  proof (cases "\<not> IsValidBrokerAccountName name \<or> s = [] \<or> \<not> IsValidSid_of env s")
    case True
    with assms have "e \<noteq> ERROR_SUCCESS" "w' = w" by (auto simp: EnrollmentStore_Store_def)
    then show ?thesis by (intro unchanged) auto
  next
    case valid: False
    obtain ke k w1 where key: "LoadOrCreateMachineKey env (MachineKeyPath dir) w = ((ke, k), w1)"
      by (metis surj_pair)
    note key_other = LoadOrCreateMachineKey_other[OF key]
    obtain te tag where tag: "ComputeRecordTag env k (bytes_of_header ?h) s = (te, tag)" by fastforce
    obtain ce w2 where create: "CreateAlways ?F ?t w1 = (ce, w2)" by fastforce
    note create_same = create_other[OF create]
    let ?body = "\<lambda>tag. and_then (WriteExactly ?F ?t (bytes_of_header ?h))
      (and_then (WriteExactly ?F ?t (take (unat (sidBytes ?h)) s))
        (and_then (WriteExactly ?F ?t tag) (FlushFileBuffers ?F ?t)))"
    obtain be w3 where body: "delete_on_error ?F ?t (?body tag w2) = (be, w3)" by fastforce
    have body_other: "contents w3 q = contents w1 q" if q: "\<not> same q ?t" for q
      using create body _ q
    proof (rule write_temporary_other)
      show "contents w' q = contents w q" if "?body tag w = (e, w')" for w e w'
        by (rule and_then_other[OF that])
          ((rule WriteExactly_other[OF _ q] flush_other, assumption)
            | (erule and_then_other))+
    qed
    consider "ke \<noteq> 0" | "ke = 0" "te \<noteq> 0" | "ke = 0" "te = 0" "ce \<noteq> 0"
      | "ke = 0" "te = 0" "ce = 0" "be \<noteq> 0" | "ke = 0" "te = 0" "ce = 0" "be = 0" by blast
    then show ?thesis
    proof cases
      case 5
      with assms valid key tag create body
      have m: "delete_on_error ?F ?t (MoveFileReplace ?F ?t (RecordPath dir name) w3) = (e, w')"
        by (simp add: EnrollmentStore_Store_def Let_def)
      have "Hmac env k (bytes_of_header ?h @ s) = Some tag"
        using tag 5 by (cases managed) (auto simp: ComputeRecordTag_def split: option.splits)
      with 5 key create body m valid show ?thesis
        by (intro moved[of ?h k w1 tag w2 w3]) (auto dest: delete_on_error_success)
    qed (use assms valid key tag create body key_other create_same body_other in
        \<open>auto simp: EnrollmentStore_Store_def Let_def intro!: unchanged\<close>)
  qed
qed

text \<open>A store that fails leaves the record; no store touches the records of other accounts.\<close>

lemma Store_failure:
  assumes "EnrollmentStore_Store env dir name s managed w = (e, w')" and "e \<noteq> ERROR_SUCCESS"
  shows "contents w' (RecordPath dir n) = contents w (RecordPath dir n)"
  using assms(1)
proof (cases rule: Store_steps)
  case unchanged
  with different_paths show ?thesis by blast
next
  case (moved h tag k w1 w2 w3)
  let ?F = "files_of env" and ?t = "temporary (RecordPath dir name)" and ?q = "RecordPath dir n"
  note d = different_paths(1)[of dir n dir] different_paths(2)[of dir n]
  have q: "\<not> same ?q ?t" using d by blast
  have "contents w3 ?q = contents w2 ?q"
    using moved(7)
    by (rule and_then_other)
      ((rule WriteExactly_other[OF _ q] flush_other, assumption) | (erule and_then_other))+
  with LoadOrCreateMachineKey_other[OF moved(4) d(1) d(2)] create_other[OF moved(6) q]
    move_temporary_failure[OF moved(8) assms(2) q]
  show ?thesis by simp
qed

lemma Store_other:
  assumes "EnrollmentStore_Store env dir name s managed w = (e, w')" and "\<not> same n name"
  shows "contents w' (RecordPath dir n) = contents w (RecordPath dir n)"
  using assms(1)
proof (cases rule: Store_steps)
  case unchanged
  with different_paths show ?thesis by blast
next
  case (moved h tag k w1 w2 w3)
  let ?F = "files_of env" and ?t = "temporary (RecordPath dir name)" and ?q = "RecordPath dir n"
  note d = different_paths(1)[of dir n dir] different_paths(2)[of dir n]
  have q: "\<not> same ?q ?t" "\<not> same ?q (RecordPath dir name)"
    using d assms(2) same_RecordPath by blast+
  have "contents w3 ?q = contents w2 ?q"
    using moved(7)
    by (rule and_then_other)
      ((rule WriteExactly_other[OF _ q(1)] flush_other, assumption) | (erule and_then_other))+
  with LoadOrCreateMachineKey_other[OF moved(4) d(1) d(2)] create_other[OF moved(6) q(1)]
    move_temporary_other[OF moved(8) q]
  show ?thesis by simp
qed

text \<open>The file of a stored record, and the key under which it was signed.\<close>

definition stored :: "'w \<Rightarrow> wstring \<Rightarrow> wstring \<Rightarrow> sid \<Rightarrow> bool \<Rightarrow> bool" where
  "stored w dir name s managed \<longleftrightarrow> (\<exists>h tag k bs.
     h = \<lparr>magic = RecordMagic, version = RecordVersion, sidBytes = of_nat (length s),
          flags = if managed then BrokerManagedRecordFlag else 0\<rparr>
     \<and> contents w (MachineKeyPath dir) = Some bs \<and> take MachineKeyBytes bs = k
     \<and> length k = MachineKeyBytes
     \<and> Hmac env k (bytes_of_header h @ s) = Some tag
     \<and> contents w (RecordPath dir name) = Some (bytes_of_header h @ s @ tag))"

lemma Store_success:
  assumes "EnrollmentStore_Store env dir name s managed w = (ERROR_SUCCESS, w')"
    and "length s < 2 ^ 32"
  shows "stored w' dir name s managed \<and> IsValidBrokerAccountName name \<and> IsValidSid_of env s"
  using assms(1)
proof (cases rule: Store_steps)
  case unchanged
  then show ?thesis by simp
next
  case (moved h tag k w1 w2 w3)
  let ?F = "files_of env" and ?t = "temporary (RecordPath dir name)"
  let ?kp = "MachineKeyPath dir"
  have take: "take (unat (sidBytes h)) s = s"
    using assms(2) by (simp add: moved(1) unat_of_nat)
  from moved(7) obtain w4 where a: "WriteExactly ?F ?t (bytes_of_header h) w2 = (ERROR_SUCCESS, w4)"
    "and_then (WriteExactly ?F ?t s) (and_then (WriteExactly ?F ?t tag) (FlushFileBuffers ?F ?t)) w4
      = (ERROR_SUCCESS, w3)" unfolding take by (rule and_then_successE)
  from a(2) obtain w5 where b: "WriteExactly ?F ?t s w4 = (ERROR_SUCCESS, w5)"
    "and_then (WriteExactly ?F ?t tag) (FlushFileBuffers ?F ?t) w5 = (ERROR_SUCCESS, w3)"
    by (rule and_then_successE)
  from b(2) obtain w6 where c: "WriteExactly ?F ?t tag w5 = (ERROR_SUCCESS, w6)"
    "FlushFileBuffers ?F ?t w6 = (ERROR_SUCCESS, w3)" by (rule and_then_successE)
  have t: "contents w3 ?t = Some (bytes_of_header h @ s @ tag)"
    using create_success[OF moved(6)] WriteExactly_success[OF a(1)] WriteExactly_success[OF b(1)]
      WriteExactly_success[OF c(1)] flush[OF c(2)] by simp
  note m = delete_on_error_success[OF moved(8)]
  have rcd: "contents w' (RecordPath dir name) = Some (bytes_of_header h @ s @ tag)"
    using move_success[OF m] t by simp
  obtain bs where bs: "contents w1 ?kp = Some bs" "take MachineKeyBytes bs = k"
    "length k = MachineKeyBytes" using LoadOrCreateMachineKey_success[OF moved(4)] by blast
  have q: "\<not> same ?kp ?t" "\<not> same ?kp (RecordPath dir name)" using different_paths by metis+
  have "contents w' ?kp = contents w1 ?kp"
    using create_other[OF moved(6) q(1)] WriteExactly_other[OF a(1) q(1)] WriteExactly_other[OF b(1) q(1)]
      WriteExactly_other[OF c(1) q(1)] flush[OF c(2)] move_other[OF m q] by simp
  with rcd bs moved(1,2,3,5) show ?thesis by (auto simp: stored_def)
qed

lemma Load_stored:
  assumes "stored w dir name s managed" and "IsValidBrokerAccountName name"
    and "IsValidSid_of env s" "GetLengthSid_of env s = length s"
  shows "EnrollmentStore_Load env dir name w
    = ((ERROR_SUCCESS, \<lparr>accountSid = s, brokerManaged = managed\<rparr>), w)"
proof -
  from assms(1) obtain h tag k bs where
    h: "h = \<lparr>magic = RecordMagic, version = RecordVersion, sidBytes = of_nat (length s),
          flags = if managed then BrokerManagedRecordFlag else 0\<rparr>"
    and k: "contents w (MachineKeyPath dir) = Some bs" "take MachineKeyBytes bs = k"
      "length k = MachineKeyBytes"
    and tag: "Hmac env k (bytes_of_header h @ s) = Some tag"
    and c: "contents w (RecordPath dir name) = Some (bytes_of_header h @ s @ tag)"
    unfolding stored_def by blast
  have len: "0 < length s" "length s \<le> SECURITY_MAX_SID_SIZE"
    using length_positive[OF assms(3)] assms(4) by auto
  have tl: "length tag = RecordTagBytes" using tag by (rule hmac_length)
  have n: "unat (of_nat (length s) :: dword) = length s" using len by (simp add: unat_of_nat)
  have size: "(of_nat (length s) :: dword) \<noteq> 0" "\<not> (of_nat (length s) :: dword) > of_nat SECURITY_MAX_SID_SIZE"
    using n len by (auto simp: word_less_nat_alt simp flip: unat_eq_0)
  have "MachineKeyBytes \<le> length bs" using k by auto
  note key = LoadOrCreateMachineKey_existing[OF k(1) this]
  have open_ok: "OpenRead (files_of env) (RecordPath dir name) w = ERROR_SUCCESS"
    using c open_read by auto
  note read = ReadExactly_contents[OF c]
  have r0: "ReadExactly (files_of env) (RecordPath dir name) 0 12 w = (ERROR_SUCCESS, bytes_of_prefix h)"
    and r1: "ReadExactly (files_of env) (RecordPath dir name) 12 4 w
      = (ERROR_SUCCESS, bytes_of_dword (flags h))"
    and r2: "ReadExactly (files_of env) (RecordPath dir name) 16 (length s) w = (ERROR_SUCCESS, s)"
    and r3: "ReadExactly (files_of env) (RecordPath dir name) (16 + length s) RecordTagBytes w
      = (ERROR_SUCCESS, tag)"
    by (simp_all add: read tl) (simp_all add: bytes_of_header_def)
  have f: "magic h = RecordMagic" "version h = RecordVersion" "sidBytes h = of_nat (length s)"
    "flags h AND NOT KnownRecordFlags = 0" "(flags h AND BrokerManagedRecordFlag = 0) = (\<not> managed)"
    by (simp_all add: h)
  have hh: "h\<lparr>version := RecordVersion\<rparr> = h" by (simp add: h)
  have ct: "ConstantTimeEqual tag tag" by (simp add: ConstantTimeEqual_iff tl)
  show ?thesis
    unfolding EnrollmentStore_Load_def Let_def open_ok r0 prod.case
    by (simp add: assms(2-4) f f(4)[simplified] size size(2)[simplified] r1 r2 r3 hh n key k(2) ComputeRecordTag_def tag ct)
qed

section \<open>Loading\<close>

lemma Load_success:
  assumes "EnrollmentStore_Load env dir name w = ((ERROR_SUCCESS, r), w')"
  shows "\<exists>header k bs tag rest. contents w (RecordPath dir name) = Some (header @ accountSid r @ tag @ rest)
    \<and> contents w' (MachineKeyPath dir) = Some bs \<and> take MachineKeyBytes bs = k
    \<and> Hmac env k (header @ accountSid r) = Some tag
    \<and> IsValidBrokerAccountName name
    \<and> IsValidSid_of env (accountSid r) \<and> GetLengthSid_of env (accountSid r) = length (accountSid r)
    \<and> (brokerManaged r \<longrightarrow> length header = 16)"
proof -
  let ?F = "files_of env" and ?path = "RecordPath dir name"
  have name: "IsValidBrokerAccountName name" and op: "OpenRead ?F ?path w = ERROR_SUCCESS"
    using assms by (auto simp: EnrollmentStore_Load_def Let_def split: if_splits)
  from op obtain c where c: "contents w ?path = Some c" using open_read by auto
  note read = ReadExactly_contents[OF c]
  obtain e0 b0 where r0: "ReadExactly ?F ?path 0 12 w = (e0, b0)" by fastforce
  define p where "p = prefix_of_bytes b0"
  define current where "current = (version p = RecordVersion)"
  obtain e1 b1 where r1: "(if current then ReadExactly ?F ?path 12 4 w else (ERROR_SUCCESS, [])) = (e1, b1)"
    by fastforce
  define header where "header = (if current then p\<lparr>version := RecordVersion, flags := dword_of_bytes b1\<rparr> else p)"
  define signed where "signed = (if current then bytes_of_header header else bytes_of_prefix p)"
  define n where "n = unat (sidBytes p)"
  obtain e2 b2 where r2: "ReadExactly ?F ?path (length signed) n w = (e2, b2)" by fastforce
  obtain e3 b3 where r3: "ReadExactly ?F ?path (length signed + n) RecordTagBytes w = (e3, b3)" by fastforce
  obtain ke k w1 where key: "LoadOrCreateMachineKey env (MachineKeyPath dir) w = ((ke, k), w1)"
    by (metis surj_pair)
  obtain te tag where tag: "ComputeRecordTag env k signed b2 = (te, tag)" by fastforce
  note unfold = EnrollmentStore_Load_def Let_def name op r0 p_def[symmetric] current_def[symmetric] r1
    header_def[symmetric] signed_def[symmetric] n_def[symmetric] r2 r3 key tag prod.case
  from assms have ok: "e0 = 0" "e1 = 0" "e2 = 0" "e3 = 0" "ke = 0" "te = 0"
    "ConstantTimeEqual b3 tag" "IsValidSid_of env b2" "GetLengthSid_of env b2 = length b2"
    "magic p = RecordMagic" "w' = w1"
    and r: "r = \<lparr>accountSid = b2, brokerManaged = (version p = RecordVersion
      \<and> flags header AND BrokerManagedRecordFlag \<noteq> 0)\<rparr>"
    unfolding unfold by (auto split: if_split_asm)
  have b0: "b0 = take 12 c" "12 \<le> length c" using r0 ok by (auto simp: read split: if_splits)
  have "bytes_of_prefix p = take 4 b0 @ take 4 (drop 4 b0) @ take 4 (drop 8 b0)"
    using b0 by (simp add: p_def prefix_of_bytes_def bytes_of_prefix_def bytes_of_dword_of_bytes)
  also have "\<dots> = take 12 b0" using take_add[of 4 8 b0] take_add[of 4 4 "drop 4 b0"] by simp
  finally have prefix: "bytes_of_prefix p = take 12 c" using b0 by simp
  have signed: "signed = take (length signed) c \<and> length signed \<le> length c
      \<and> (current \<longrightarrow> length signed = 16)"
  proof (cases current)
    case True
    then have b1: "b1 = take 4 (drop 12 c)" "16 \<le> length c"
      using r1 ok by (auto simp: read split: if_splits)
    have "bytes_of_header header = take 12 c @ bytes_of_dword (dword_of_bytes b1)"
      using True prefix by (simp add: header_def bytes_of_header_def current_def bytes_of_prefix_def)
    also have "\<dots> = take 16 c" using b1 take_add[of 12 4 c] by (simp add: bytes_of_dword_of_bytes)
    finally show ?thesis using True b1 by (simp add: signed_def)
  next
    case False
    with prefix b0 show ?thesis by (simp add: signed_def)
  qed
  have b2: "b2 = take n (drop (length signed) c)" "length b2 = n"
    using r2 ok signed by (auto simp: read split: if_splits)
  have b3: "b3 = take RecordTagBytes (drop (length signed + n) c)" "length b3 = RecordTagBytes"
    using r3 ok by (auto simp: read RecordTagBytes_def split: if_splits)
  have "Hmac env k (signed @ b2) = Some tag"
    using tag ok by (auto simp: ComputeRecordTag_def split: option.splits)
  moreover from this have "b3 = tag"
    using ok ConstantTimeEqual_iff[of b3 tag] b3 hmac_length by simp
  moreover have "c = signed @ b2 @ b3 @ drop (length signed + n + RecordTagBytes) c"
    using signed b2 b3 by (metis append_take_drop_id add.commute drop_drop)
  moreover obtain bs where "contents w1 (MachineKeyPath dir) = Some bs" "take MachineKeyBytes bs = k"
    using LoadOrCreateMachineKey_success key ok by blast
  ultimately show ?thesis
    using name c signed ok r by (auto simp: current_def)
qed

end

section \<open>Removing\<close>

context store_environment
begin

lemma Remove_success:
  assumes "EnrollmentStore_Remove env dir name w = (ERROR_SUCCESS, w')"
  shows "fst (fst (EnrollmentStore_Load env dir name w')) = ERROR_FILE_NOT_FOUND"
    and "\<not> same n name \<Longrightarrow> contents w' (RecordPath dir n) = contents w (RecordPath dir n)"
proof -
  from assms have name: "IsValidBrokerAccountName name"
    and d: "DeleteFileW (files_of env) (RecordPath dir name) w = (ERROR_SUCCESS, w')"
    by (auto simp: EnrollmentStore_Remove_def Let_def split: if_splits prod.splits)
  from delete_success[OF d] name show "fst (fst (EnrollmentStore_Load env dir name w')) = ERROR_FILE_NOT_FOUND"
    by (simp add: EnrollmentStore_Load_def)
  assume "\<not> same n name"
  then show "contents w' (RecordPath dir n) = contents w (RecordPath dir n)"
    using delete_other[OF d] same_RecordPath by blast
qed

end

section \<open>What the store does not touch\<close>

text \<open>Anything the file and random calls leave alone is left alone by the store.\<close>

locale store_frame =
  fixes env :: "'w store_env" and view :: "'w \<Rightarrow> 'v"
  assumes create_view: "CreateAlways (files_of env) p w = (e, w') \<Longrightarrow> view w' = view w"
    and write_view: "WriteFile (files_of env) p bs w = (r, w') \<Longrightarrow> view w' = view w"
    and flush_view: "FlushFileBuffers (files_of env) p w = (e, w') \<Longrightarrow> view w' = view w"
    and delete_view: "DeleteFileW (files_of env) p w = (e, w') \<Longrightarrow> view w' = view w"
    and move_view: "MoveFileReplace (files_of env) p q w = (e, w') \<Longrightarrow> view w' = view w"
    and random_view: "BCryptGenRandom env n w = (b, w') \<Longrightarrow> view w' = view w"
begin

lemma WriteExactly_view: "WriteExactly (files_of env) p bs w = (e, w') \<Longrightarrow> view w' = view w"
  by (auto simp: WriteExactly_def Let_def split: prod.splits dest: write_view)

lemma delete_on_error_view:
  "delete_on_error (files_of env) p r = (e, w') \<Longrightarrow> view (snd r) = v \<Longrightarrow> view w' = v"
  by (auto simp: delete_on_error_def split: if_splits) (metis delete_view surjective_pairing)

lemma and_then_view:
  "and_then f g w = (e, w') \<Longrightarrow> (\<And>w e w'. f w = (e, w') \<Longrightarrow> view w' = view w)
    \<Longrightarrow> (\<And>w e w'. g w = (e, w') \<Longrightarrow> view w' = view w) \<Longrightarrow> view w' = view w"
  by (erule and_then_invariant[where P = "\<lambda>w'. view w' = view w"]) auto

lemma write_out_view:
  assumes "delete_on_error (files_of env) p (f w) = (e, w')"
    and "\<And>w e w'. f w = (e, w') \<Longrightarrow> view w' = view w"
  shows "view w' = view w"
  using assms(1) by (rule delete_on_error_view) (metis assms(2) prod.collapse)

lemma write_key_view:
  "delete_on_error (files_of env) p (and_then (WriteExactly (files_of env) q bs) (FlushFileBuffers (files_of env) q) w)
     = (e, w') \<Longrightarrow> view w' = view w"
  by (erule write_out_view) (erule and_then_view WriteExactly_view flush_view)+

lemma write_record_view:
  "delete_on_error (files_of env) p (and_then (WriteExactly (files_of env) q bs)
     (and_then (WriteExactly (files_of env) q bs') (and_then (WriteExactly (files_of env) q bs'')
       (FlushFileBuffers (files_of env) q))) w) = (e, w') \<Longrightarrow> view w' = view w"
  by (erule write_out_view) (erule and_then_view WriteExactly_view flush_view)+

lemma move_out_view:
  "delete_on_error (files_of env) p (MoveFileReplace (files_of env) q r w) = (e, w') \<Longrightarrow> view w' = view w"
  by (erule delete_on_error_view) (metis move_view prod.collapse)

lemma LoadOrCreateMachineKey_view: "LoadOrCreateMachineKey env p w = (r, w') \<Longrightarrow> view w' = view w"
  by (auto simp: LoadOrCreateMachineKey_def GenerateMachineKey_def WriteMachineKeyFile_def Let_def
      split: prod.splits if_splits
      dest!: random_view create_view move_out_view write_key_view)

lemma Load_view: "EnrollmentStore_Load env dir n w = (r, w') \<Longrightarrow> view w' = view w"
  by (auto simp: EnrollmentStore_Load_def Let_def split: prod.splits if_splits
      dest!: LoadOrCreateMachineKey_view)

lemma Remove_view: "EnrollmentStore_Remove env dir n w = (e, w') \<Longrightarrow> view w' = view w"
  by (auto simp: EnrollmentStore_Remove_def split: prod.splits if_splits dest!: delete_view)

lemma Store_view: "EnrollmentStore_Store env dir n s managed w = (e, w') \<Longrightarrow> view w' = view w"
  by (auto simp: EnrollmentStore_Store_def Let_def split: prod.splits if_split_asm
      dest!: LoadOrCreateMachineKey_view create_view move_out_view write_record_view)

end

section \<open>A reference environment\<close>

definition checksum :: "byte list \<Rightarrow> byte list \<Rightarrow> byte list" where
  "checksum k d = map (\<lambda>i. foldl (\<lambda>a b. 31 * a + b) (k ! i) d) [0..<RecordTagBytes]"

definition reference_env :: "'a disk_scheme store_env" where
  "reference_env = \<lparr>files_of = disk_api, BCryptGenRandom = (\<lambda>n d. ((True, replicate n 7), d)),
     Hmac = (\<lambda>k d. if length k = MachineKeyBytes then Some (checksum k d) else None),
     IsValidSid_of = sid_valid, GetLengthSid_of = sid_length,
     FindFiles = (\<lambda>_ _. (ERROR_FILE_NOT_FOUND, [], ERROR_NO_MORE_FILES))\<rparr>"

interpretation reference_store: store_environment reference_env disk_contents ascii_lower sid_equal
proof (intro store_environment.intro)
  show "file_system (files_of reference_env) disk_contents ascii_lower"
    using reference_files.file_system_axioms by (simp add: reference_env_def)
  show "sid_api (IsValidSid_of reference_env) (GetLengthSid_of reference_env) sid_equal"
    using reference_sid.sid_api_axioms by (simp add: reference_env_def)
qed (unfold_locales, auto simp: reference_env_def checksum_def RecordTagBytes_def split: if_splits)

interpretation reference_frame: store_frame reference_env disk.more
  by unfold_locales (auto simp: reference_env_def disk_api_def Let_def split: option.splits if_splits)

definition example_sid :: sid where
  "example_sid = [1, 2, 0, 0, 0, 0, 0, 5, 32, 0, 0, 0, 33, 2, 0, 0]"

definition example_disk :: disk where
  "example_disk = \<lparr>disk_files = (\<lambda>_. None), disk_free = 1000\<rparr>"

lemma example_store:
  "fst (EnrollmentStore_Store reference_env (wide ''C:'') (wide ''guest'') example_sid True example_disk)
     = ERROR_SUCCESS"
  by code_simp

section \<open>Properties\<close>

text \<open>
  C15: A record that was stored successfully is loaded back with the same SID and ownership flag,
  and loading changes nothing; a removed record is not found any more.
\<close>

theorem enrollment_roundtrip:
  assumes "store_environment env contents lower EqualSid"
    and "GetLengthSid_of env s = length s"
    and "EnrollmentStore_Store env dir name s managed w = (ERROR_SUCCESS, w1)"
    and "EnrollmentStore_Remove env dir name w1 = (ERROR_SUCCESS, w2)"
  shows "EnrollmentStore_Load env dir name w1
      = ((ERROR_SUCCESS, \<lparr>accountSid = s, brokerManaged = managed\<rparr>), w1)
    \<and> fst (fst (EnrollmentStore_Load env dir name w2)) = ERROR_FILE_NOT_FOUND"
proof -
  note env = assms(1)
  have valid: "IsValidSid_of env s"
    using assms(3) by (auto simp: EnrollmentStore_Store_def split: if_splits)
  have api: "sid_api (IsValidSid_of env) (GetLengthSid_of env) EqualSid"
    using env by (simp add: store_environment_def)
  have "length s < 2 ^ 32" using sid_api.length_positive[OF api, of s] valid assms(2) by auto
  then have "store_environment.stored env contents w1 dir name s managed" "IsValidBrokerAccountName name"
    using store_environment.Store_success[OF env assms(3)] by auto
  then show ?thesis
    using store_environment.Load_stored[OF env _ _ valid assms(2)]
      store_environment.Remove_success(1)[OF env assms(4)] by blast
qed

lemma enrollment_roundtrip_witness:
  "EnrollmentStore_Load reference_env (wide ''C:'') (wide ''guest'')
      (snd (EnrollmentStore_Store reference_env (wide ''C:'') (wide ''guest'') example_sid True example_disk))
    = ((ERROR_SUCCESS, \<lparr>accountSid = example_sid, brokerManaged = True\<rparr>),
       snd (EnrollmentStore_Store reference_env (wide ''C:'') (wide ''guest'') example_sid True example_disk))"
proof -
  let ?w1 = "snd (EnrollmentStore_Store reference_env (wide ''C:'') (wide ''guest'') example_sid True example_disk)"
  have "GetLengthSid_of reference_env example_sid = length example_sid"
    by (simp add: reference_env_def sid_length_def example_sid_def)
  moreover have "EnrollmentStore_Store reference_env (wide ''C:'') (wide ''guest'') example_sid True example_disk
      = (ERROR_SUCCESS, ?w1)" by (metis example_store prod.collapse)
  moreover have "fst (EnrollmentStore_Remove reference_env (wide ''C:'') (wide ''guest'') ?w1) = ERROR_SUCCESS"
    by code_simp
  ultimately show ?thesis
    using enrollment_roundtrip[OF reference_store.store_environment_axioms] by (metis prod.collapse)
qed

text \<open>
  C16: Storing is atomic and local: a store that reports an error, at whatever step, leaves every
  record as it was, and no store, successful or not, changes the record of an account with another
  name (names that differ only in case are the same account).
\<close>

theorem enrollment_store_atomic:
  assumes "store_environment env contents lower EqualSid"
    and "EnrollmentStore_Store env dir name s managed w = (e, w')"
    and "e \<noteq> ERROR_SUCCESS \<or> map lower other \<noteq> map lower name"
  shows "contents w' (RecordPath dir other) = contents w (RecordPath dir other)"
  using assms(3) store_environment.Store_failure[OF assms(1,2)] store_environment.Store_other[OF assms(1,2)]
  by blast

lemma enrollment_store_atomic_witness:
  "disk_contents (snd (EnrollmentStore_Store reference_env (wide ''C:'') (wide ''guest'') example_sid True
      (example_disk\<lparr>disk_free := 70\<rparr>))) (RecordPath (wide ''C:'') (wide ''guest'')) = None"
proof -
  let ?d = "example_disk\<lparr>disk_free := 70\<rparr>"
  let ?r = "EnrollmentStore_Store reference_env (wide ''C:'') (wide ''guest'') example_sid True ?d"
  have "fst ?r = ERROR_WRITE_FAULT" by code_simp
  then have "fst ?r \<noteq> ERROR_SUCCESS" by simp
  moreover have "disk_contents ?d p = None" for p by (simp add: disk_contents_def example_disk_def)
  ultimately show ?thesis
    using enrollment_store_atomic[OF reference_store.store_environment_axioms, of _ _ _ _ ?d "fst ?r" "snd ?r"]
    by (metis prod.collapse)
qed

text \<open>
  C17: Only authenticated records are loaded: when a load succeeds, the record file starts with a
  header, the returned SID and a tag that is the HMAC of header and SID under the machine key that
  the key file holds; the SID is complete, and only a version 3 header can mark it broker managed.
\<close>

theorem enrollment_load_authentic:
  assumes "store_environment env contents lower EqualSid"
    and "EnrollmentStore_Load env dir name w = ((ERROR_SUCCESS, r), w')"
  shows "\<exists>header k bs tag rest.
      contents w (RecordPath dir name) = Some (header @ accountSid r @ tag @ rest)
    \<and> contents w' (MachineKeyPath dir) = Some bs \<and> take MachineKeyBytes bs = k
    \<and> Hmac env k (header @ accountSid r) = Some tag
    \<and> IsValidBrokerAccountName name
    \<and> IsValidSid_of env (accountSid r) \<and> GetLengthSid_of env (accountSid r) = length (accountSid r)
    \<and> (brokerManaged r \<longrightarrow> length header = 16)"
  by (rule store_environment.Load_success[OF assms])

lemma enrollment_load_authentic_witness:
  "\<exists>header k tag rest. disk_contents (snd (EnrollmentStore_Store reference_env (wide ''C:'') (wide ''guest'')
        example_sid True example_disk)) (RecordPath (wide ''C:'') (wide ''guest''))
      = Some (header @ example_sid @ tag @ rest)
    \<and> Hmac (reference_env :: disk store_env) k (header @ example_sid) = Some tag \<and> length header = 16"
proof -
  let ?w = "snd (EnrollmentStore_Store reference_env (wide ''C:'') (wide ''guest'') example_sid True example_disk)"
  have "fst (EnrollmentStore_Load reference_env (wide ''C:'') (wide ''guest'') ?w)
      = (ERROR_SUCCESS, \<lparr>accountSid = example_sid, brokerManaged = True\<rparr>)"
    by code_simp
  then have "EnrollmentStore_Load reference_env (wide ''C:'') (wide ''guest'') ?w
      = ((ERROR_SUCCESS, \<lparr>accountSid = example_sid, brokerManaged = True\<rparr>),
         snd (EnrollmentStore_Load reference_env (wide ''C:'') (wide ''guest'') ?w))"
    by (metis prod.collapse)
  from enrollment_load_authentic[OF reference_store.store_environment_axioms this] show ?thesis
    unfolding EnrollmentRecord.simps by blast
qed

end
