(* ===== verification/LogonToken.thy ===== *)
theory LogonToken
  imports Password FileSystem
begin

text \<open>
  The logon tokens of managed accounts, \<open>src/broker/BrokerLogonToken.cpp\<close>, with
  \<open>QueryTokenInformation\<close> and \<open>UniqueHandle\<close> of \<open>src/common/Win32Support\<close>. The kernel's token
  objects are reached through handles; the calls on them, the account database and the local
  security authority are the parameters of \<open>'w token_api\<close>, whose documented contract is the locale
  \<open>token_objects\<close>. Main results: a successful logon yields a token of the expected user that is
  not an administrator's, has only allow-listed privileges and medium integrity; the launch token
  is restricted as requested; and no call leaves a handle open that it does not return.
\<close>

section \<open>Tokens and the calls on them\<close>

type_synonym handle = "64 word"

abbreviation nullptr :: handle where "nullptr \<equiv> 0"
abbreviation INVALID_HANDLE_VALUE :: handle where "INVALID_HANDLE_VALUE \<equiv> - 1"
abbreviation ERROR_INSUFFICIENT_BUFFER :: dword where "ERROR_INSUFFICIENT_BUFFER \<equiv> 122"
abbreviation SE_PRIVILEGE_ENABLED :: dword where "SE_PRIVILEGE_ENABLED \<equiv> 2"
abbreviation SE_GROUP_MANDATORY :: dword where "SE_GROUP_MANDATORY \<equiv> 1"
abbreviation SE_GROUP_USE_FOR_DENY_ONLY :: dword where "SE_GROUP_USE_FOR_DENY_ONLY \<equiv> 0x10"
abbreviation SE_GROUP_INTEGRITY :: dword where "SE_GROUP_INTEGRITY \<equiv> 0x20"
abbreviation SE_GROUP_LOGON_ID :: dword where "SE_GROUP_LOGON_ID \<equiv> 0xC0000000"
abbreviation SECURITY_MANDATORY_MEDIUM_RID :: dword where "SECURITY_MANDATORY_MEDIUM_RID \<equiv> 0x2000"
abbreviation TOKEN_ADJUST_PRIVILEGES :: dword where "TOKEN_ADJUST_PRIVILEGES \<equiv> 0x20"
abbreviation TOKEN_ADJUST_GROUPS :: dword where "TOKEN_ADJUST_GROUPS \<equiv> 0x40"
abbreviation DISABLE_MAX_PRIVILEGE :: dword where "DISABLE_MAX_PRIVILEGE \<equiv> 1"
abbreviation WRITE_RESTRICTED :: dword where "WRITE_RESTRICTED \<equiv> 8"
abbreviation SidTypeUser :: nat where "SidTypeUser \<equiv> 1"

record LUID =
  LowPart :: dword
  HighPart :: dword

type_synonym acl = "(sid \<times> dword) list"

datatype token_class = TokenUser | TokenGroups | TokenPrivileges | TokenIntegrityLevel | TokenDefaultDacl

datatype token_information =
    UserInformation (user_sid: sid)
  | GroupsInformation (group_list: "(sid \<times> dword) list")
  | PrivilegesInformation (privilege_list: "(LUID \<times> dword) list")
  | IntegrityInformation (label_sid: sid)
  | DaclInformation (default_dacl: "acl option")

datatype well_known_sid = WinBuiltinAdministratorsSid | WinWorldSid | WinLowLabelSid

record LSA_UNICODE_STRING =
  Buffer :: "wstring option"
  Length :: "16 word"

text \<open>
  A call that can fail returns its error, \<open>ERROR_SUCCESS\<close> for a call that returns \<open>TRUE\<close>.
  \<open>GetTokenInformationSize\<close> and \<open>LookupAccountNameSize\<close> are the calls with an empty buffer, with
  the error they leave. \<open>AdjustTokenPrivilegesDisableAll\<close> reports its result and the last error.
\<close>

record 'w token_api =
  GetTokenInformationSize :: "handle \<Rightarrow> token_class \<Rightarrow> 'w \<Rightarrow> dword \<times> nat"
  GetTokenInformation :: "handle \<Rightarrow> token_class \<Rightarrow> nat \<Rightarrow> 'w \<Rightarrow> dword \<times> token_information"
  SetTokenInformation :: "handle \<Rightarrow> token_information \<Rightarrow> 'w \<Rightarrow> dword \<times> 'w"
  AdjustTokenPrivilegesDisableAll :: "handle \<Rightarrow> 'w \<Rightarrow> (bool \<times> dword) \<times> 'w"
  CreateRestrictedToken :: "handle \<Rightarrow> dword \<Rightarrow> (LUID \<times> dword) list \<Rightarrow> (sid \<times> dword) list \<Rightarrow> 'w \<Rightarrow> (dword \<times> handle) \<times> 'w"
  LogonUserW :: "wstring \<Rightarrow> wstring \<Rightarrow> 'w \<Rightarrow> (dword \<times> handle) \<times> 'w"
  CloseHandle :: "handle \<Rightarrow> 'w \<Rightarrow> 'w"
  SetEntriesInAclW :: "sid \<Rightarrow> dword \<Rightarrow> acl \<Rightarrow> dword \<times> acl"
  LookupPrivilegeValueW :: "wstring \<Rightarrow> dword \<times> LUID"
  CreateWellKnownSid :: "well_known_sid \<Rightarrow> dword \<times> sid"
  SidValid :: "sid \<Rightarrow> bool"
  SidEqual :: "sid \<Rightarrow> sid \<Rightarrow> bool"
  GetSidSubAuthorityCount :: "sid \<Rightarrow> byte option"
  GetSidSubAuthority :: "sid \<Rightarrow> dword \<Rightarrow> dword option"
  GetComputerNameW :: "dword \<times> wstring"
  LookupAccountNameSize :: "wstring \<Rightarrow> 'w \<Rightarrow> dword \<times> nat \<times> nat"
  LookupAccountNameW :: "wstring \<Rightarrow> 'w \<Rightarrow> dword \<times> sid \<times> nat"
  LsaOpenPolicy :: "'w \<Rightarrow> dword"
  LsaEnumerateAccountRights :: "sid \<Rightarrow> 'w \<Rightarrow> dword \<times> LSA_UNICODE_STRING list"
  LsaNtStatusToWinError :: "dword \<Rightarrow> dword"

section \<open>Handles and queries\<close>

definition UniqueHandle_reset :: "'w token_api \<Rightarrow> handle \<Rightarrow> 'w \<Rightarrow> 'w" where
  "UniqueHandle_reset api h w = (if h \<noteq> nullptr \<and> h \<noteq> INVALID_HANDLE_VALUE then CloseHandle api h w else w)"

definition BrokerLogonToken_Reset :: "'w token_api \<Rightarrow> handle \<Rightarrow> 'w \<Rightarrow> 'w" where
  "BrokerLogonToken_Reset api h w = (if h \<noteq> nullptr then CloseHandle api h w else w)"

text \<open>The information returned with an error is not looked at.\<close>

definition QueryTokenInformation ::
  "'w token_api \<Rightarrow> handle \<Rightarrow> token_class \<Rightarrow> 'w \<Rightarrow> dword \<times> token_information"
where
  "QueryTokenInformation api h cls w =
     (let (sizeError, bytes) = GetTokenInformationSize api h cls w in
      if sizeError \<noteq> ERROR_INSUFFICIENT_BUFFER \<or> bytes = 0 then
        (if sizeError = ERROR_SUCCESS then ERROR_INVALID_DATA else sizeError, UserInformation [])
      else GetTokenInformation api h cls bytes w)"

definition LookupLocalUserSid :: "'w token_api \<Rightarrow> wstring \<Rightarrow> 'w \<Rightarrow> dword \<times> sid" where
  "LookupLocalUserSid api accountName w =
     (let (computerNameError, computerName) = GetComputerNameW api in
      if computerNameError \<noteq> ERROR_SUCCESS then (computerNameError, [])
      else
        (let qualifiedName = computerName @ wide [BS] @ accountName;
             (lookupSizeError, sidBytes, domainCharacters) = LookupAccountNameSize api qualifiedName w
         in if lookupSizeError \<noteq> ERROR_INSUFFICIENT_BUFFER \<or> sidBytes = 0 \<or> domainCharacters = 0
            then (lookupSizeError, [])
            else
              (let (lookupError, s, sidType) = LookupAccountNameW api qualifiedName w in
               if lookupError \<noteq> ERROR_SUCCESS then (lookupError, s)
               else if sidType \<noteq> SidTypeUser \<or> \<not> SidValid api s then (ERROR_INVALID_SID, s)
               else (ERROR_SUCCESS, s))))"

definition GetBrokerAccountSid :: "'w token_api \<Rightarrow> wstring \<Rightarrow> 'w \<Rightarrow> dword \<times> sid" where
  "GetBrokerAccountSid = LookupLocalUserSid"

section \<open>Validation\<close>

definition ValidateTokenUser :: "'w token_api \<Rightarrow> handle \<Rightarrow> sid \<Rightarrow> 'w \<Rightarrow> dword" where
  "ValidateTokenUser api token expectedSid w =
     (let (tokenUserError, user) = QueryTokenInformation api token TokenUser w in
      if tokenUserError \<noteq> ERROR_SUCCESS then tokenUserError
      else if \<not> SidValid api (user_sid user) \<or> \<not> SidEqual api (user_sid user) expectedSid
      then ERROR_ACCESS_DENIED
      else ERROR_SUCCESS)"

definition ValidateNonAdministrativeToken :: "'w token_api \<Rightarrow> handle \<Rightarrow> 'w \<Rightarrow> dword" where
  "ValidateNonAdministrativeToken api token w =
     (let (administratorsSidError, administratorsSid) = CreateWellKnownSid api WinBuiltinAdministratorsSid in
      if administratorsSidError \<noteq> ERROR_SUCCESS then administratorsSidError
      else
        (let (tokenGroupsError, groups) = QueryTokenInformation api token TokenGroups w in
         if tokenGroupsError \<noteq> ERROR_SUCCESS then tokenGroupsError
         else if list_ex (\<lambda>(groupSid, _). SidEqual api groupSid administratorsSid) (group_list groups)
         then ERROR_ACCESS_DENIED
         else ERROR_SUCCESS))"

definition SE_CHANGE_NOTIFY_NAME :: wstring where "SE_CHANGE_NOTIFY_NAME = wide ''SeChangeNotifyPrivilege''"
definition SE_INC_WORKING_SET_NAME :: wstring where "SE_INC_WORKING_SET_NAME = wide ''SeIncreaseWorkingSetPrivilege''"

definition AllowedTokenPrivilegeNames :: "wstring list" where
  "AllowedTokenPrivilegeNames = [SE_CHANGE_NOTIFY_NAME, SE_INC_WORKING_SET_NAME,
     wide ''SeShutdownPrivilege'', wide ''SeUndockPrivilege'', wide ''SeTimeZonePrivilege'']"

definition IsAllowedTokenPrivilege :: "wstring \<Rightarrow> bool" where
  "IsAllowedTokenPrivilege privilegeName =
     list_ex (\<lambda>allowedPrivilege. privilegeName = allowedPrivilege) AllowedTokenPrivilegeNames"

definition LuidEqual :: "LUID \<Rightarrow> LUID \<Rightarrow> bool" where
  "LuidEqual a b \<longleftrightarrow> LowPart a = LowPart b \<and> HighPart a = HighPart b"

fun LookupPrivileges :: "'w token_api \<Rightarrow> wstring list \<Rightarrow> dword \<times> LUID list" where
  "LookupPrivileges api [] = (ERROR_SUCCESS, [])"
| "LookupPrivileges api (name # names) =
     (let (lookupError, luid) = LookupPrivilegeValueW api name in
      if lookupError \<noteq> ERROR_SUCCESS then (lookupError, [])
      else (let (e, luids) = LookupPrivileges api names in (e, luid # luids)))"

definition ValidateTokenPrivilegeAllowList :: "'w token_api \<Rightarrow> handle \<Rightarrow> 'w \<Rightarrow> dword" where
  "ValidateTokenPrivilegeAllowList api token w =
     (let (lookupError, allowedPrivileges) = LookupPrivileges api AllowedTokenPrivilegeNames in
      if lookupError \<noteq> ERROR_SUCCESS then lookupError
      else
        (let (tokenPrivilegesError, privileges) = QueryTokenInformation api token TokenPrivileges w in
         if tokenPrivilegesError \<noteq> ERROR_SUCCESS then tokenPrivilegesError
         else if list_all (\<lambda>(privilege, _). list_ex (\<lambda>allowed. LuidEqual allowed privilege) allowedPrivileges)
                   (privilege_list privileges)
         then ERROR_SUCCESS
         else ERROR_ACCESS_DENIED))"

definition ValidateMediumIntegrityLevel :: "'w token_api \<Rightarrow> handle \<Rightarrow> 'w \<Rightarrow> dword" where
  "ValidateMediumIntegrityLevel api token w =
     (let (integrityError, integrity) = QueryTokenInformation api token TokenIntegrityLevel w in
      if integrityError \<noteq> ERROR_SUCCESS then integrityError
      else if \<not> SidValid api (label_sid integrity) then ERROR_INVALID_SID
      else
        (case GetSidSubAuthorityCount api (label_sid integrity) of
           None \<Rightarrow> ERROR_INVALID_SID
         | Some subAuthorityCount \<Rightarrow>
             if subAuthorityCount = 0 then ERROR_INVALID_SID
             else if GetSidSubAuthority api (label_sid integrity) (ucast (subAuthorityCount - 1))
                  \<noteq> Some SECURITY_MANDATORY_MEDIUM_RID
             then ERROR_ACCESS_DENIED
             else ERROR_SUCCESS))"

definition ValidateRestrictedTokenPrivileges :: "'w token_api \<Rightarrow> handle \<Rightarrow> 'w \<Rightarrow> dword" where
  "ValidateRestrictedTokenPrivileges api token w =
     (let (lookupError, changeNotifyPrivilege) = LookupPrivilegeValueW api SE_CHANGE_NOTIFY_NAME in
      if lookupError \<noteq> ERROR_SUCCESS then lookupError
      else
        (let (tokenPrivilegesError, privileges) = QueryTokenInformation api token TokenPrivileges w in
         if tokenPrivilegesError \<noteq> ERROR_SUCCESS then tokenPrivilegesError
         else if list_ex (\<lambda>(privilege, attributes). attributes AND SE_PRIVILEGE_ENABLED \<noteq> 0
                   \<and> \<not> LuidEqual privilege changeNotifyPrivilege) (privilege_list privileges)
         then ERROR_ACCESS_DENIED
         else ERROR_SUCCESS))"

definition RestrictToken :: "'w token_api \<Rightarrow> handle \<Rightarrow> 'w \<Rightarrow> (dword \<times> handle) \<times> 'w" where
  "RestrictToken api sourceToken w =
     (let ((restrictionError, restrictedToken), w) =
        CreateRestrictedToken api sourceToken DISABLE_MAX_PRIVILEGE [] [] w
      in if restrictionError \<noteq> ERROR_SUCCESS then ((restrictionError, nullptr), w)
      else
        (let integrityError = ValidateMediumIntegrityLevel api restrictedToken w in
         if integrityError \<noteq> ERROR_SUCCESS
         then ((integrityError, nullptr), CloseHandle api restrictedToken w)
         else
           (let privilegesError = ValidateRestrictedTokenPrivileges api restrictedToken w in
            if privilegesError \<noteq> ERROR_SUCCESS
            then ((privilegesError, nullptr), CloseHandle api restrictedToken w)
            else ((ERROR_SUCCESS, restrictedToken), w))))"

definition PrivilegePrefix :: wstring where "PrivilegePrefix = wide ''Se''"
definition PrivilegeSuffix :: wstring where "PrivilegeSuffix = wide ''Privilege''"

definition isPrivilege :: "wstring \<Rightarrow> bool" where
  "isPrivilege rightName \<longleftrightarrow> length rightName \<ge> length PrivilegePrefix + length PrivilegeSuffix
     \<and> take (length PrivilegePrefix) rightName = PrivilegePrefix
     \<and> drop (length rightName - length PrivilegeSuffix) rightName = PrivilegeSuffix"

fun ValidateAccountRights :: "LSA_UNICODE_STRING list \<Rightarrow> dword" where
  "ValidateAccountRights [] = ERROR_SUCCESS"
| "ValidateAccountRights (right # rights) =
     (case Buffer right of
        None \<Rightarrow> ERROR_INVALID_DATA
      | Some buffer \<Rightarrow>
          if unat (Length right) mod 2 \<noteq> 0 then ERROR_INVALID_DATA
          else
            (let rightName = take (unat (Length right) div 2) buffer in
             if isPrivilege rightName \<and> \<not> IsAllowedTokenPrivilege rightName then ERROR_ACCESS_DENIED
             else ValidateAccountRights rights))"

definition ValidateAccountPrivilegeAllowList :: "'w token_api \<Rightarrow> sid \<Rightarrow> 'w \<Rightarrow> dword" where
  "ValidateAccountPrivilegeAllowList api accountSid w =
     (let openStatus = LsaOpenPolicy api w in
      if openStatus \<noteq> 0 then LsaNtStatusToWinError api openStatus
      else
        (let (enumerateStatus, accountRights) = LsaEnumerateAccountRights api accountSid w in
         if enumerateStatus \<noteq> 0 then
           (let enumerateError = LsaNtStatusToWinError api enumerateStatus in
            if enumerateError = ERROR_FILE_NOT_FOUND then ERROR_SUCCESS else enumerateError)
         else ValidateAccountRights accountRights))"


section \<open>Logging on\<close>

text \<open>
  A token member is a handle, null when it holds none; \<open>first_error\<close> is a sequence of checks of
  which the first failing one is reported. The checks only read, so their order does not show in
  the world.
\<close>

fun first_error :: "dword list \<Rightarrow> dword" where
  "first_error [] = ERROR_SUCCESS"
| "first_error (e # es) = (if e \<noteq> ERROR_SUCCESS then e else first_error es)"

definition RestrictLogonToken :: "'w token_api \<Rightarrow> handle \<Rightarrow> bool \<Rightarrow> 'w \<Rightarrow> (dword \<times> handle) \<times> 'w" where
  "RestrictLogonToken api token restrictAccess w =
     (if restrictAccess then ((ERROR_SUCCESS, token), w)
      else
        (let ((restrictionError, restrictedToken), w) = RestrictToken api token w
         in if restrictionError \<noteq> ERROR_SUCCESS
            then ((restrictionError, nullptr), BrokerLogonToken_Reset api token w)
            else ((ERROR_SUCCESS, restrictedToken), BrokerLogonToken_Reset api token w)))"

definition AdmitLogonToken ::
  "'w token_api \<Rightarrow> handle \<Rightarrow> sid \<Rightarrow> bool \<Rightarrow> 'w \<Rightarrow> (dword \<times> handle) \<times> 'w"
where
  "AdmitLogonToken api token expectedSid restrictAccess w =
     (let tokenError = first_error [ValidateTokenUser api token expectedSid w,
            ValidateNonAdministrativeToken api token w,
            ValidateTokenPrivilegeAllowList api token w,
            ValidateMediumIntegrityLevel api token w]
      in if tokenError \<noteq> ERROR_SUCCESS
      then ((tokenError, nullptr), BrokerLogonToken_Reset api token w)
      else
        (let ((restrictionError, token), w) = RestrictLogonToken api token restrictAccess w in
         if restrictionError \<noteq> ERROR_SUCCESS then ((restrictionError, nullptr), w)
         else
           (let restrictedTokenError = first_error [ValidateTokenUser api token expectedSid w,
                  ValidateNonAdministrativeToken api token w]
            in if restrictedTokenError \<noteq> ERROR_SUCCESS
            then ((restrictedTokenError, nullptr), BrokerLogonToken_Reset api token w)
            else ((ERROR_SUCCESS, token), w))))"

definition LogOnBrokerAccount ::
  "'w token_api \<Rightarrow> wstring \<Rightarrow> SecurePassword \<Rightarrow> handle \<Rightarrow> bool \<Rightarrow> 'w \<Rightarrow> (dword \<times> handle) \<times> 'w"
where
  "LogOnBrokerAccount api accountName password token restrictAccess w =
     (let w = BrokerLogonToken_Reset api token w in
      if accountName = [] \<or> password_length password = 0 then ((ERROR_INVALID_PARAMETER, nullptr), w)
      else
        (let (expectedSidError, expectedSid) = LookupLocalUserSid api accountName w in
         if expectedSidError \<noteq> ERROR_SUCCESS then ((expectedSidError, nullptr), w)
         else
           (let accountPrivilegeError = ValidateAccountPrivilegeAllowList api expectedSid w in
            if accountPrivilegeError \<noteq> ERROR_SUCCESS then ((accountPrivilegeError, nullptr), w)
            else
              (let ((logonError, rawToken), w) =
                 LogonUserW api accountName (take (password_length password) (characters password)) w
               in if logonError \<noteq> ERROR_SUCCESS then ((logonError, nullptr), w)
               else AdmitLogonToken api rawToken expectedSid restrictAccess w))))"

section \<open>The token of a launch\<close>

text \<open>The restricting SIDs among the groups; a group that could be removed is refused.\<close>

fun RestrictingGroups :: "(sid \<times> dword) list \<Rightarrow> dword \<times> (sid \<times> dword) list" where
  "RestrictingGroups [] = (ERROR_SUCCESS, [])"
| "RestrictingGroups ((groupSid, attributes) # groups) =
     (if attributes AND (SE_GROUP_MANDATORY OR SE_GROUP_USE_FOR_DENY_ONLY OR SE_GROUP_INTEGRITY) = 0
      then (ERROR_ACCESS_DENIED, [])
      else
        (let (e, restricting) = RestrictingGroups groups in
         (e, if attributes AND SE_GROUP_LOGON_ID = SE_GROUP_LOGON_ID then (groupSid, 0) # restricting
             else restricting)))"

definition CreateAccessRestrictedToken :: "'w token_api \<Rightarrow> handle \<Rightarrow> 'w \<Rightarrow> (dword \<times> handle) \<times> 'w" where
  "CreateAccessRestrictedToken api token w =
     (let (userError, user) = QueryTokenInformation api token TokenUser w;
          (groupsQueryError, groups) = QueryTokenInformation api token TokenGroups w;
          (groupsError, logonGroups) = RestrictingGroups (group_list groups);
          (everyoneError, everyone) = CreateWellKnownSid api WinWorldSid;
          (lookupError, workingSet) = LookupPrivilegeValueW api SE_INC_WORKING_SET_NAME;
          (privilegesError, privileges) = QueryTokenInformation api token TokenPrivileges w;
          queryError = first_error [userError, groupsQueryError, groupsError, everyoneError,
            lookupError, privilegesError];
          restricting = (user_sid user, 0) # logonGroups @ [(everyone, 0)];
          removePrivileges = filter (\<lambda>(luid, _). LowPart luid \<noteq> LowPart workingSet
            \<or> HighPart luid \<noteq> HighPart workingSet) (privilege_list privileges)
      in if queryError \<noteq> ERROR_SUCCESS then ((queryError, nullptr), w)
      else
        (let ((restrictionError, restricted), w) =
           CreateRestrictedToken api token WRITE_RESTRICTED removePrivileges restricting w
         in if restrictionError \<noteq> ERROR_SUCCESS then ((restrictionError, nullptr), w)
         else
           (let failed = (\<lambda>e w. ((e, nullptr), UniqueHandle_reset api restricted w));
                (daclError, dacl) = QueryTokenInformation api restricted TokenDefaultDacl w
            in if daclError \<noteq> ERROR_SUCCESS then failed daclError w
            else
              (case default_dacl dacl of
                 None \<Rightarrow> failed ERROR_INVALID_ACL w
               | Some acl \<Rightarrow>
                   (let (entriesError, newAcl) = SetEntriesInAclW api (fst (hd restricting))
                          (TOKEN_ADJUST_PRIVILEGES OR TOKEN_ADJUST_GROUPS) acl
                    in if entriesError \<noteq> ERROR_SUCCESS then failed entriesError w
                    else
                      (let (setError, w) = SetTokenInformation api restricted (DaclInformation (Some newAcl)) w
                       in if setError \<noteq> ERROR_SUCCESS then failed setError w
                       else ((ERROR_SUCCESS, restricted), w)))))))"

definition CreateBrokerLaunchToken ::
  "'w token_api \<Rightarrow> handle \<Rightarrow> bool \<Rightarrow> bool \<Rightarrow> handle \<Rightarrow> 'w \<Rightarrow> (dword \<times> handle) \<times> 'w"
where
  "CreateBrokerLaunchToken api token restrictAccess lowIntegrity launchToken w =
     (let w = UniqueHandle_reset api launchToken w;
          ((e, prepared), w) =
            (if restrictAccess then CreateAccessRestrictedToken api token w
             else CreateRestrictedToken api token DISABLE_MAX_PRIVILEGE [] [] w)
      in if e \<noteq> ERROR_SUCCESS then ((e, nullptr), w)
      else
        (let failed = (\<lambda>e w. ((e, nullptr), UniqueHandle_reset api prepared w));
             ((adjusted, lastError), w) =
               (if restrictAccess then AdjustTokenPrivilegesDisableAll api prepared w
                else ((True, ERROR_SUCCESS), w))
         in if \<not> adjusted \<or> lastError \<noteq> ERROR_SUCCESS then failed lastError w
         else if \<not> lowIntegrity then ((ERROR_SUCCESS, prepared), w)
         else
           (let (lowSidError, lowSid) = CreateWellKnownSid api WinLowLabelSid in
            if lowSidError \<noteq> ERROR_SUCCESS then failed lowSidError w
            else
              (let (setError, w) = SetTokenInformation api prepared (IntegrityInformation lowSid) w
               in if setError \<noteq> ERROR_SUCCESS then failed setError w
               else ((ERROR_SUCCESS, prepared), w)))))"


section \<open>The contract of the token calls\<close>

record token =
  tok_user :: sid
  tok_groups :: "(sid \<times> dword) list"
  tok_privileges :: "(LUID \<times> dword) list"
  tok_integrity :: sid
  tok_dacl :: "acl option"
  tok_restricting :: "sid list"
  tok_write_restricted :: bool

fun information :: "token \<Rightarrow> token_class \<Rightarrow> token_information" where
  "information t TokenUser = UserInformation (tok_user t)"
| "information t TokenGroups = GroupsInformation (tok_groups t)"
| "information t TokenPrivileges = PrivilegesInformation (tok_privileges t)"
| "information t TokenIntegrityLevel = IntegrityInformation (tok_integrity t)"
| "information t TokenDefaultDacl = DaclInformation (tok_dacl t)"

fun set_information :: "token_information \<Rightarrow> token \<Rightarrow> token" where
  "set_information (IntegrityInformation s) t = t\<lparr>tok_integrity := s\<rparr>"
| "set_information (DaclInformation d) t = t\<lparr>tok_dacl := d\<rparr>"
| "set_information _ t = t"

definition disabled :: "token \<Rightarrow> token" where
  "disabled t = t\<lparr>tok_privileges := map (\<lambda>(l, a). (l, a AND NOT SE_PRIVILEGE_ENABLED)) (tok_privileges t)\<rparr>"

abbreviation enabled :: "token \<Rightarrow> LUID set" where
  "enabled t \<equiv> {l. \<exists>a. (l, a) \<in> set (tok_privileges t) \<and> a AND SE_PRIVILEGE_ENABLED \<noteq> 0}"

text \<open>
  What is documented of a restricted token: same user, groups and integrity; no new privilege, the
  listed ones deleted, and with \<open>DISABLE_MAX_PRIVILEGE\<close> only \<open>SeChangeNotifyPrivilege\<close> enabled; the
  listed restricting SIDs when the source had none, for writing only with \<open>WRITE_RESTRICTED\<close>.
\<close>

definition restriction ::
  "'w token_api \<Rightarrow> dword \<Rightarrow> (LUID \<times> dword) list \<Rightarrow> (sid \<times> dword) list \<Rightarrow> token \<Rightarrow> token \<Rightarrow> bool"
where
  "restriction api flags deleted restricting t t' \<longleftrightarrow>
     tok_user t' = tok_user t \<and> tok_groups t' = tok_groups t \<and> tok_integrity t' = tok_integrity t
   \<and> fst ` set (tok_privileges t') \<subseteq> fst ` set (tok_privileges t) - fst ` set deleted
   \<and> (flags AND DISABLE_MAX_PRIVILEGE \<noteq> 0 \<longrightarrow>
        (\<forall>l. LookupPrivilegeValueW api SE_CHANGE_NOTIFY_NAME = (ERROR_SUCCESS, l) \<longrightarrow> enabled t' \<subseteq> {l}))
   \<and> (tok_restricting t = [] \<longrightarrow> tok_restricting t' = map fst restricting)
   \<and> (flags AND WRITE_RESTRICTED \<noteq> 0 \<longrightarrow> tok_write_restricted t')"

locale token_objects =
  fixes api :: "'w token_api" and obj :: "'w \<Rightarrow> handle \<Rightarrow> token option"
  assumes read_token: "GetTokenInformation api h cls n w = (ERROR_SUCCESS, i) \<Longrightarrow> obj w h = Some t
      \<Longrightarrow> i = information t cls"
    and set_token: "SetTokenInformation api h i w = (e, w') \<Longrightarrow> obj w h = Some t
      \<Longrightarrow> obj w' = (obj w)(h \<mapsto> (if e = ERROR_SUCCESS then set_information i t else t))"
    and adjust_token: "AdjustTokenPrivilegesDisableAll api h w = ((adjusted, e), w') \<Longrightarrow> obj w h = Some t
      \<Longrightarrow> \<exists>t'. obj w' = (obj w)(h \<mapsto> t') \<and> (adjusted \<and> e = ERROR_SUCCESS \<longrightarrow> t' = disabled t)
        \<and> (\<not> adjusted \<longrightarrow> e \<noteq> ERROR_SUCCESS)"
    and restrict_success: "CreateRestrictedToken api h flags deleted restricting w = ((ERROR_SUCCESS, h'), w')
      \<Longrightarrow> obj w h = Some t \<Longrightarrow> h' \<noteq> nullptr \<and> h' \<noteq> INVALID_HANDLE_VALUE \<and> obj w h' = None
        \<and> (\<exists>t'. obj w' = (obj w)(h' \<mapsto> t') \<and> restriction api flags deleted restricting t t')"
    and restrict_failure: "CreateRestrictedToken api h flags deleted restricting w = ((e, h'), w')
      \<Longrightarrow> e \<noteq> ERROR_SUCCESS \<Longrightarrow> obj w' = obj w"
    and logon_success: "LogonUserW api name password w = ((ERROR_SUCCESS, h), w')
      \<Longrightarrow> h \<noteq> nullptr \<and> h \<noteq> INVALID_HANDLE_VALUE \<and> obj w h = None \<and> (\<exists>t. obj w' = (obj w)(h \<mapsto> t))"
    and logon_failure: "LogonUserW api name password w = ((e, h), w') \<Longrightarrow> e \<noteq> ERROR_SUCCESS
      \<Longrightarrow> obj w' = obj w"
    and close_handle: "obj (CloseHandle api h w) = (obj w)(h := None)"

section \<open>What a valid logon token is\<close>

definition medium_integrity :: "'w token_api \<Rightarrow> sid \<Rightarrow> bool" where
  "medium_integrity api s \<longleftrightarrow> (\<exists>n. GetSidSubAuthorityCount api s = Some n \<and> n \<noteq> 0
     \<and> GetSidSubAuthority api s (ucast (n - 1)) = Some SECURITY_MANDATORY_MEDIUM_RID)"

definition valid_logon_token :: "'w token_api \<Rightarrow> sid \<Rightarrow> bool \<Rightarrow> token \<Rightarrow> bool" where
  "valid_logon_token api expectedSid restrictAccess t \<longleftrightarrow>
     SidEqual api (tok_user t) expectedSid
   \<and> (\<exists>administrators. CreateWellKnownSid api WinBuiltinAdministratorsSid = (ERROR_SUCCESS, administrators)
        \<and> (\<forall>g \<in> fst ` set (tok_groups t). \<not> SidEqual api g administrators))
   \<and> (\<forall>l \<in> fst ` set (tok_privileges t). \<exists>name \<in> set AllowedTokenPrivilegeNames.
        LookupPrivilegeValueW api name = (ERROR_SUCCESS, l))
   \<and> medium_integrity api (tok_integrity t)
   \<and> (\<not> restrictAccess \<longrightarrow> (\<exists>l. LookupPrivilegeValueW api SE_CHANGE_NOTIFY_NAME = (ERROR_SUCCESS, l)
        \<and> enabled t \<subseteq> {l}))"

text \<open>
  The token of a read-restricted launch: writing is restricted to the user, its logon sessions and
  Everyone; no group can be removed, and at most the working-set privilege is kept.
\<close>

definition access_restricted :: "'w token_api \<Rightarrow> token \<Rightarrow> token \<Rightarrow> bool" where
  "access_restricted api t t' \<longleftrightarrow> tok_write_restricted t'
   \<and> (\<exists>everyone. CreateWellKnownSid api WinWorldSid = (ERROR_SUCCESS, everyone)
       \<and> (tok_restricting t = [] \<longrightarrow> tok_restricting t' = tok_user t
           # map fst (filter (\<lambda>(_, a). a AND SE_GROUP_LOGON_ID = SE_GROUP_LOGON_ID) (tok_groups t)) @ [everyone]))
   \<and> (\<exists>l. LookupPrivilegeValueW api SE_INC_WORKING_SET_NAME = (ERROR_SUCCESS, l)
       \<and> fst ` set (tok_privileges t') \<subseteq> {l})
   \<and> (\<forall>(g, a) \<in> set (tok_groups t).
       a AND (SE_GROUP_MANDATORY OR SE_GROUP_USE_FOR_DENY_ONLY OR SE_GROUP_INTEGRITY) \<noteq> 0)"

definition launch_token :: "'w token_api \<Rightarrow> bool \<Rightarrow> bool \<Rightarrow> token \<Rightarrow> token \<Rightarrow> bool" where
  "launch_token api restrictAccess lowIntegrity t t' \<longleftrightarrow>
     tok_user t' = tok_user t \<and> tok_groups t' = tok_groups t
   \<and> (if lowIntegrity then CreateWellKnownSid api WinLowLabelSid = (ERROR_SUCCESS, tok_integrity t')
      else tok_integrity t' = tok_integrity t)
   \<and> (if restrictAccess then access_restricted api t t' \<and> enabled t' = {}
      else fst ` set (tok_privileges t') \<subseteq> fst ` set (tok_privileges t)
        \<and> (\<forall>l. LookupPrivilegeValueW api SE_CHANGE_NOTIFY_NAME = (ERROR_SUCCESS, l) \<longrightarrow> enabled t' \<subseteq> {l}))"

text \<open>A call that returns a token opens exactly that handle, or none when it fails.\<close>

definition opens ::
  "('w \<Rightarrow> handle \<Rightarrow> token option) \<Rightarrow> (token \<Rightarrow> bool) \<Rightarrow> 'w \<Rightarrow> (dword \<times> handle) \<times> 'w \<Rightarrow> bool"
where
  "opens obj P w r \<longleftrightarrow> (case r of ((e, h), w') \<Rightarrow>
     if e = ERROR_SUCCESS then h \<noteq> nullptr \<and> h \<noteq> INVALID_HANDLE_VALUE \<and> obj w h = None
       \<and> (\<exists>t. obj w' = (obj w)(h \<mapsto> t) \<and> P t)
     else h = nullptr \<and> obj w' = obj w)"

lemma first_error_success: "first_error es = ERROR_SUCCESS \<longleftrightarrow> (\<forall>e \<in> set es. e = ERROR_SUCCESS)"
  by (induction es) auto

lemma LuidEqual_iff [simp]: "LuidEqual a b \<longleftrightarrow> a = b"
  by (cases a, cases b) (simp add: LuidEqual_def)

lemma LookupPrivileges_success:
  "LookupPrivileges api names = (ERROR_SUCCESS, luids) \<Longrightarrow> l \<in> set luids
     \<Longrightarrow> \<exists>name \<in> set names. LookupPrivilegeValueW api name = (ERROR_SUCCESS, l)"
  by (induction names arbitrary: luids) (auto simp: Let_def split: prod.splits if_splits)

lemma disabled_simps [simp]:
  "tok_user (disabled t) = tok_user t" "tok_groups (disabled t) = tok_groups t"
  "tok_integrity (disabled t) = tok_integrity t" "tok_write_restricted (disabled t) = tok_write_restricted t"
  "tok_restricting (disabled t) = tok_restricting t"
  "fst ` set (tok_privileges (disabled t)) = fst ` set (tok_privileges t)" "enabled (disabled t) = {}"
  by (auto simp: disabled_def image_image case_prod_unfold and.assoc)

lemma access_restricted_disabled [simp]: "access_restricted api t (disabled t') = access_restricted api t t'"
  unfolding access_restricted_def disabled_simps ..

lemma access_restricted_integrity [simp]:
  "access_restricted api t (t'\<lparr>tok_integrity := s\<rparr>) = access_restricted api t t'"
  by (simp add: access_restricted_def)

lemma RestrictingGroups_success:
  "RestrictingGroups gs = (ERROR_SUCCESS, rs) \<Longrightarrow>
     map fst rs = map fst (filter (\<lambda>(_, a). a AND SE_GROUP_LOGON_ID = SE_GROUP_LOGON_ID) gs)
   \<and> (\<forall>(g, a) \<in> set gs. a AND (SE_GROUP_MANDATORY OR SE_GROUP_USE_FOR_DENY_ONLY OR SE_GROUP_INTEGRITY) \<noteq> 0)"
  by (induction gs arbitrary: rs) (auto simp: Let_def simp del: bit.conj_disj_distrib split: prod.splits if_splits)

context token_objects
begin

lemma query: "QueryTokenInformation api h cls w = (ERROR_SUCCESS, i) \<Longrightarrow> obj w h = Some t \<Longrightarrow> i = information t cls"
  using read_token by (auto simp: QueryTokenInformation_def Let_def split: prod.splits if_splits)

lemma ValidateTokenUser_success:
  "ValidateTokenUser api h s w = ERROR_SUCCESS \<Longrightarrow> obj w h = Some t \<Longrightarrow> SidEqual api (tok_user t) s"
  by (auto simp: ValidateTokenUser_def Let_def split: prod.splits if_splits dest: query)

lemma ValidateNonAdministrativeToken_success:
  "ValidateNonAdministrativeToken api h w = ERROR_SUCCESS \<Longrightarrow> obj w h = Some t \<Longrightarrow>
     \<exists>a. CreateWellKnownSid api WinBuiltinAdministratorsSid = (ERROR_SUCCESS, a)
       \<and> (\<forall>g \<in> fst ` set (tok_groups t). \<not> SidEqual api g a)"
  by (auto simp: ValidateNonAdministrativeToken_def Let_def list_ex_iff split: prod.splits if_splits dest!: query)

lemma ValidateTokenPrivilegeAllowList_success:
  "ValidateTokenPrivilegeAllowList api h w = ERROR_SUCCESS \<Longrightarrow> obj w h = Some t \<Longrightarrow> l \<in> fst ` set (tok_privileges t)
     \<Longrightarrow> \<exists>name \<in> set AllowedTokenPrivilegeNames. LookupPrivilegeValueW api name = (ERROR_SUCCESS, l)"
  by (auto simp: ValidateTokenPrivilegeAllowList_def Let_def list_ex_iff list_all_iff
      split: prod.splits if_splits dest!: query) (blast dest: LookupPrivileges_success)

lemma ValidateMediumIntegrityLevel_success:
  "ValidateMediumIntegrityLevel api h w = ERROR_SUCCESS \<Longrightarrow> obj w h = Some t \<Longrightarrow> medium_integrity api (tok_integrity t)"
  by (auto simp: ValidateMediumIntegrityLevel_def medium_integrity_def Let_def
      split: prod.splits if_splits option.splits dest!: query)

lemma ValidateRestrictedTokenPrivileges_success:
  "ValidateRestrictedTokenPrivileges api h w = ERROR_SUCCESS \<Longrightarrow> obj w h = Some t \<Longrightarrow>
     \<exists>l. LookupPrivilegeValueW api SE_CHANGE_NOTIFY_NAME = (ERROR_SUCCESS, l) \<and> enabled t \<subseteq> {l}"
  by (auto simp: ValidateRestrictedTokenPrivileges_def Let_def list_ex_iff
      split: prod.splits if_splits dest!: query)

lemma RestrictToken_outcome:
  assumes "RestrictToken api h w = ((e, h'), w')" and "obj w h = Some t"
  shows "if e = ERROR_SUCCESS then h' \<noteq> nullptr \<and> h' \<noteq> INVALID_HANDLE_VALUE \<and> obj w h' = None
      \<and> (\<exists>t'. obj w' = (obj w)(h' \<mapsto> t') \<and> restriction api DISABLE_MAX_PRIVILEGE [] [] t t'
         \<and> medium_integrity api (tok_integrity t')
         \<and> (\<exists>l. LookupPrivilegeValueW api SE_CHANGE_NOTIFY_NAME = (ERROR_SUCCESS, l) \<and> enabled t' \<subseteq> {l}))
    else obj w' = obj w"
proof -
  obtain e1 r w1 where c: "CreateRestrictedToken api h DISABLE_MAX_PRIVILEGE [] [] w = ((e1, r), w1)"
    by (metis surj_pair)
  show ?thesis
  proof (cases "e1 = ERROR_SUCCESS")
    case False
    with assms(1) c restrict_failure[OF c] show ?thesis by (auto simp: RestrictToken_def)
  next
    case True
    from restrict_success[OF c[unfolded True] assms(2)] obtain t' where
      r: "r \<noteq> nullptr" "r \<noteq> INVALID_HANDLE_VALUE" "obj w r = None" "obj w1 = (obj w)(r \<mapsto> t')"
      and t': "restriction api DISABLE_MAX_PRIVILEGE [] [] t t'" by blast
    then have o: "obj w1 r = Some t'" "(obj w1)(r := None) = obj w" by auto
    show ?thesis
      using assms(1) r t' o ValidateMediumIntegrityLevel_success[OF _ o(1)]
        ValidateRestrictedTokenPrivileges_success[OF _ o(1)]
      by (auto simp: RestrictToken_def c True Let_def close_handle split: if_splits)
  qed
qed

lemma Reset_new:
  "h \<noteq> nullptr \<Longrightarrow> h \<noteq> INVALID_HANDLE_VALUE \<Longrightarrow> obj w h = None \<Longrightarrow> obj w1 = (obj w)(h \<mapsto> t) \<Longrightarrow> obj (BrokerLogonToken_Reset api h w1) = obj w"
    "h \<noteq> nullptr \<Longrightarrow> h \<noteq> INVALID_HANDLE_VALUE \<Longrightarrow> obj w h = None \<Longrightarrow> obj w1 = (obj w)(h \<mapsto> t) \<Longrightarrow> obj (UniqueHandle_reset api h w1) = obj w"
  by (auto simp: BrokerLogonToken_Reset_def UniqueHandle_reset_def close_handle)

lemma RestrictLogonToken_opens:
  assumes "h \<noteq> nullptr" "h \<noteq> INVALID_HANDLE_VALUE" and "obj w0 h = None" and "obj w = (obj w0)(h \<mapsto> t)"
  shows "opens obj (\<lambda>t'. fst ` set (tok_privileges t') \<subseteq> fst ` set (tok_privileges t)
      \<and> (medium_integrity api (tok_integrity t) \<longrightarrow> medium_integrity api (tok_integrity t'))
      \<and> (\<not> restrictAccess \<longrightarrow> (\<exists>l. LookupPrivilegeValueW api SE_CHANGE_NOTIFY_NAME = (ERROR_SUCCESS, l)
          \<and> enabled t' \<subseteq> {l}))) w0 (RestrictLogonToken api h restrictAccess w)"
proof (cases restrictAccess)
  case True
  with assms show ?thesis by (auto simp: RestrictLogonToken_def opens_def)
next
  case False
  obtain e r w1 where q: "RestrictToken api h w = ((e, r), w1)" by (metis surj_pair)
  have t: "obj w h = Some t" by (simp add: assms)
  have closed: "obj (BrokerLogonToken_Reset api h w1) = (obj w1)(h := None)"
    using assms(1) by (simp add: BrokerLogonToken_Reset_def close_handle)
  note outcome = RestrictToken_outcome[OF q t]
  show ?thesis
  proof (cases "e = ERROR_SUCCESS")
    case True
    with outcome obtain t' where r: "r \<noteq> nullptr" "r \<noteq> INVALID_HANDLE_VALUE" "obj w r = None" "obj w1 = (obj w)(r \<mapsto> t')"
      and t': "restriction api DISABLE_MAX_PRIVILEGE [] [] t t'" "medium_integrity api (tok_integrity t')"
        "\<exists>l. LookupPrivilegeValueW api SE_CHANGE_NOTIFY_NAME = (ERROR_SUCCESS, l) \<and> enabled t' \<subseteq> {l}"
      by auto
    then have "r \<noteq> h" using assms by auto
    then have "obj w0 r = None" "(obj w1)(h := None) = (obj w0)(r \<mapsto> t')"
      using r assms by (auto simp: fun_eq_iff split: if_splits)
    then show ?thesis
      using True False r t' by (auto simp: RestrictLogonToken_def q opens_def closed restriction_def)
  next
    case error: False
    have "(obj w0)(h := None) = obj w0" using assms(3) by (simp add: fun_upd_idem)
    with error outcome assms False show ?thesis by (simp add: RestrictLogonToken_def q opens_def closed)
  qed
qed

lemma AdmitLogonToken_opens:
  assumes h: "h \<noteq> nullptr" "h \<noteq> INVALID_HANDLE_VALUE" "obj w0 h = None" "obj w = (obj w0)(h \<mapsto> t)"
  shows "opens obj (valid_logon_token api s restrictAccess) w0 (AdmitLogonToken api h s restrictAccess w)"
proof (cases "first_error [ValidateTokenUser api h s w, ValidateNonAdministrativeToken api h w,
    ValidateTokenPrivilegeAllowList api h w, ValidateMediumIntegrityLevel api h w] = ERROR_SUCCESS")
  case False
  then show ?thesis using Reset_new[OF h] by (simp add: AdmitLogonToken_def Let_def opens_def del: first_error.simps)
next
  case checked: True
  have t: "obj w h = Some t" by (simp add: h)
  from checked have valid: "medium_integrity api (tok_integrity t)"
    "\<forall>l \<in> fst ` set (tok_privileges t).
      \<exists>name \<in> set AllowedTokenPrivilegeNames. LookupPrivilegeValueW api name = (ERROR_SUCCESS, l)"
    using ValidateMediumIntegrityLevel_success[OF _ t] ValidateTokenPrivilegeAllowList_success[OF _ t]
    by (simp_all split: if_split_asm)
  obtain e r w2 where q: "RestrictLogonToken api h restrictAccess w = ((e, r), w2)" by (metis surj_pair)
  note opened = RestrictLogonToken_opens[OF h, of restrictAccess, unfolded q opens_def prod.case]
  show ?thesis
  proof (cases "e = ERROR_SUCCESS")
    case False
    with opened checked show ?thesis
      by (simp add: AdmitLogonToken_def Let_def opens_def q del: first_error.simps)
  next
    case True
    with opened obtain t2 where r: "r \<noteq> nullptr" "r \<noteq> INVALID_HANDLE_VALUE" "obj w0 r = None" "obj w2 = (obj w0)(r \<mapsto> t2)"
      and t2: "fst ` set (tok_privileges t2) \<subseteq> fst ` set (tok_privileges t)"
        "medium_integrity api (tok_integrity t2)"
        "\<not> restrictAccess \<longrightarrow> (\<exists>l. LookupPrivilegeValueW api SE_CHANGE_NOTIFY_NAME = (ERROR_SUCCESS, l)
          \<and> enabled t2 \<subseteq> {l})" using valid(1) by auto
    have o: "obj w2 r = Some t2" by (simp add: r)
    have "valid_logon_token api s restrictAccess t2"
      if "first_error [ValidateTokenUser api r s w2, ValidateNonAdministrativeToken api r w2] = ERROR_SUCCESS"
      unfolding valid_logon_token_def
    proof (intro conjI t2)
      show "SidEqual api (tok_user t2) s" using that ValidateTokenUser_success[OF _ o]
        by (simp split: if_split_asm)
      show "\<exists>a. CreateWellKnownSid api WinBuiltinAdministratorsSid = (ERROR_SUCCESS, a)
          \<and> (\<forall>g \<in> fst ` set (tok_groups t2). \<not> SidEqual api g a)"
        using that by (intro ValidateNonAdministrativeToken_success[OF _ o]) (simp split: if_split_asm)
    qed (use t2(1) valid(2) in blast)
    with checked True r Reset_new[OF r] show ?thesis
      by (auto simp: AdmitLogonToken_def Let_def opens_def q simp del: first_error.simps)
  qed
qed

lemma LogOn_opens:
  assumes "w0 = BrokerLogonToken_Reset api token w"
  shows "opens obj (\<lambda>t. \<exists>s. LookupLocalUserSid api name w0 = (ERROR_SUCCESS, s)
      \<and> valid_logon_token api s restrictAccess t) w0
    (LogOnBrokerAccount api name password token restrictAccess w)"
proof -
  obtain e1 s where sid: "LookupLocalUserSid api name w0 = (e1, s)" by fastforce
  obtain e3 raw w1 where l: "LogonUserW api name (take (password_length password) (characters password)) w0
    = ((e3, raw), w1)" by (metis surj_pair)
  note start = LogOnBrokerAccount_def assms[symmetric] Let_def sid l prod.case
  show ?thesis
  proof (cases "e3 = ERROR_SUCCESS \<and> e1 = ERROR_SUCCESS")
    case False
    then show ?thesis unfolding start using logon_failure[OF l] by (auto simp: opens_def)
  next
    case True
    with logon_success[of name _ w0 raw w1] l obtain t where
      "raw \<noteq> nullptr" "raw \<noteq> INVALID_HANDLE_VALUE" "obj w0 raw = None" "obj w1 = (obj w0)(raw \<mapsto> t)" by blast
    from AdmitLogonToken_opens[OF this] True show ?thesis
      unfolding start by (auto simp: opens_def split: prod.splits)
  qed
qed

lemma CreateAccessRestrictedToken_opens:
  assumes "obj w h = Some t"
  shows "opens obj (\<lambda>t'. tok_user t' = tok_user t \<and> tok_groups t' = tok_groups t
      \<and> tok_integrity t' = tok_integrity t \<and> access_restricted api t t') w
    (CreateAccessRestrictedToken api h w)"
proof -
  obtain e1 user where q1: "QueryTokenInformation api h TokenUser w = (e1, user)" by fastforce
  obtain e2 groups where q2: "QueryTokenInformation api h TokenGroups w = (e2, groups)" by fastforce
  obtain e3 logon where q3: "RestrictingGroups (group_list groups) = (e3, logon)" by fastforce
  obtain e4 everyone where q4: "CreateWellKnownSid api WinWorldSid = (e4, everyone)" by fastforce
  obtain e5 ws where q5: "LookupPrivilegeValueW api SE_INC_WORKING_SET_NAME = (e5, ws)" by fastforce
  obtain e6 privileges where q6: "QueryTokenInformation api h TokenPrivileges w = (e6, privileges)" by fastforce
  define remove where "remove = filter (\<lambda>(luid, _). LowPart luid \<noteq> LowPart ws
    \<or> HighPart luid \<noteq> HighPart ws) (privilege_list privileges)"
  let ?restricting = "(user_sid user, 0) # logon @ [(everyone, 0)]"
  obtain e7 r w1 where c: "CreateRestrictedToken api h WRITE_RESTRICTED remove ?restricting w = ((e7, r), w1)"
    by (metis surj_pair)
  note start = CreateAccessRestrictedToken_def q1 q2 q3 q4 q5 q6 remove_def[symmetric] c Let_def prod.case
  show ?thesis
  proof (cases "first_error [e1, e2, e3, e4, e5, e6] = ERROR_SUCCESS \<and> e7 = ERROR_SUCCESS")
    case False
    then show ?thesis
      unfolding start using restrict_failure[OF c] by (auto simp: opens_def simp del: first_error.simps)
  next
    case True
    then have ok: "e1 = 0" "e2 = 0" "e3 = 0" "e4 = 0" "e5 = 0" "e6 = 0" "e7 = 0"
      by (simp_all split: if_split_asm)
    have i: "user = UserInformation (tok_user t)" "groups = GroupsInformation (tok_groups t)"
      "privileges = PrivilegesInformation (tok_privileges t)"
      using query[OF q1[unfolded ok] assms] query[OF q2[unfolded ok] assms] query[OF q6[unfolded ok] assms]
      by simp_all
    from restrict_success[OF c[unfolded ok] assms] obtain t' where
      r: "r \<noteq> nullptr" "r \<noteq> INVALID_HANDLE_VALUE" "obj w r = None" "obj w1 = (obj w)(r \<mapsto> t')"
      and t': "restriction api WRITE_RESTRICTED remove ?restricting t t'" by blast
    have o: "obj w1 r = Some t'" by (simp add: r)
    have "fst ` set (tok_privileges t') \<subseteq> {ws}"
    proof
      fix l assume l: "l \<in> fst ` set (tok_privileges t')"
      then have "l \<in> fst ` set (tok_privileges t)" "l \<notin> fst ` set remove"
        using t' unfolding restriction_def by blast+
      then have "LowPart l = LowPart ws \<and> HighPart l = HighPart ws"
        by (auto simp: remove_def i image_iff)
      then show "l \<in> {ws}" by (simp add: LUID.equality)
    qed
    then have good: "access_restricted api t (t'\<lparr>tok_dacl := d\<rparr>)" for d
      using t' q4 q5 ok RestrictingGroups_success[OF q3[unfolded ok i, simplified]]
      by (auto simp: access_restricted_def restriction_def i)
    show ?thesis
    proof (cases "QueryTokenInformation api r TokenDefaultDacl w1")
      case (Pair e8 dacl)
      show ?thesis
        using True r Reset_new(2)[OF r] good t' set_token[OF _ o]
        unfolding start
        by (auto simp: opens_def Pair restriction_def UniqueHandle_reset_def close_handle ok
            split: option.splits prod.splits simp del: first_error.simps)
    qed
  qed
qed

lemma CreateBrokerLaunchToken_opens:
  assumes "w0 = UniqueHandle_reset api launchToken w" and "obj w0 token = Some t"
  shows "opens obj (launch_token api restrictAccess lowIntegrity t) w0
    (CreateBrokerLaunchToken api token restrictAccess lowIntegrity launchToken w)"
proof -
  let ?prepare = "if restrictAccess then CreateAccessRestrictedToken api token w0
    else CreateRestrictedToken api token DISABLE_MAX_PRIVILEGE [] [] w0"
  obtain e r w1 where p: "?prepare = ((e, r), w1)" by (metis surj_pair)
  note start = CreateBrokerLaunchToken_def assms(1)[symmetric] Let_def p prod.case
  show ?thesis
  proof (cases "e = ERROR_SUCCESS")
    case False
    have "obj w1 = obj w0"
      using CreateAccessRestrictedToken_opens[OF assms(2)] p False restrict_failure
      by (auto simp: opens_def split: if_split_asm)
    with False show ?thesis unfolding start by (simp add: opens_def)
  next
    case True
    obtain t1 where r: "r \<noteq> nullptr" "r \<noteq> INVALID_HANDLE_VALUE" "obj w0 r = None" "obj w1 = (obj w0)(r \<mapsto> t1)"
      and t1: "tok_user t1 = tok_user t" "tok_groups t1 = tok_groups t" "tok_integrity t1 = tok_integrity t"
        "if restrictAccess then access_restricted api t t1
         else restriction api DISABLE_MAX_PRIVILEGE [] [] t t1"
    proof (cases restrictAccess)
      case True
      with CreateAccessRestrictedToken_opens[OF assms(2)] p \<open>e = _\<close> show ?thesis
        by (auto simp: opens_def intro: that)
    next
      case False
      with p \<open>e = _\<close> have "CreateRestrictedToken api token DISABLE_MAX_PRIVILEGE [] [] w0 = ((ERROR_SUCCESS, r), w1)"
        by simp
      from restrict_success[OF this assms(2)] False show ?thesis by (auto simp: restriction_def intro: that)
    qed
    have o: "obj w1 r = Some t1" by (simp add: r)
    have close: "obj w' = (obj w0)(r \<mapsto> t') \<Longrightarrow> obj (UniqueHandle_reset api r w') = obj w0" for w' t'
      using Reset_new(2)[OF r(1-3)] .
    obtain ok e2 w2 where a: "(if restrictAccess then AdjustTokenPrivilegesDisableAll api r w1
      else ((True, ERROR_SUCCESS), w1)) = ((ok, e2), w2)" by (metis surj_pair)
    obtain t2 where t2: "obj w2 = (obj w0)(r \<mapsto> t2)" "\<not> ok \<Longrightarrow> e2 \<noteq> ERROR_SUCCESS"
      "ok \<Longrightarrow> e2 = ERROR_SUCCESS \<Longrightarrow> t2 = (if restrictAccess then disabled t1 else t1)"
      using adjust_token[of r w1 ok e2 w2 t1] a o r(4) by (cases restrictAccess) auto
    have o2: "obj w2 r = Some t2" by (simp add: t2)
    obtain e3 low where l: "CreateWellKnownSid api WinLowLabelSid = (e3, low)" by fastforce
    obtain e4 w3 where s: "SetTokenInformation api r (IntegrityInformation low) w2 = (e4, w3)" by fastforce
    have w3: "obj w3 = (obj w0)(r \<mapsto> if e4 = ERROR_SUCCESS then t2\<lparr>tok_integrity := low\<rparr> else t2)"
      using set_token[OF s o2] t2(1) by simp
    have "launch_token api restrictAccess False t t2" if "ok" "e2 = ERROR_SUCCESS"
      unfolding launch_token_def t2(3)[OF that]
      using t1 by (cases restrictAccess) (simp_all add: restriction_def)
    moreover from this have "launch_token api restrictAccess True t (t2\<lparr>tok_integrity := low\<rparr>)"
      if "ok" "e2 = ERROR_SUCCESS" "e3 = ERROR_SUCCESS"
      using that l by (simp add: launch_token_def)
    ultimately show ?thesis
      unfolding start True
      using r t2(1,2) w3 close[OF t2(1)] close[OF w3]
      by (cases lowIntegrity) (auto simp: opens_def a l s)
  qed
qed

end

section \<open>A reference implementation\<close>

record token_world = disk +
  world_tokens :: "handle \<Rightarrow> token option"
  world_next :: handle
  world_accounts :: "wstring \<Rightarrow> token option"

definition allocate :: "token \<Rightarrow> 'a token_world_scheme \<Rightarrow> (dword \<times> handle) \<times> 'a token_world_scheme" where
  "allocate t w =
     (if world_next w = nullptr \<or> world_next w = INVALID_HANDLE_VALUE \<or> world_tokens w (world_next w) \<noteq> None
      then ((ERROR_NOT_ENOUGH_QUOTA, nullptr), w)
      else ((ERROR_SUCCESS, world_next w),
        w\<lparr>world_tokens := (world_tokens w)(world_next w \<mapsto> t), world_next := world_next w + 1\<rparr>))"

abbreviation luid :: "dword \<Rightarrow> LUID" where
  "luid n \<equiv> \<lparr>LowPart = n, HighPart = 0\<rparr>"

definition reference_privileges :: "(wstring \<times> LUID) list" where
  "reference_privileges = zip AllowedTokenPrivilegeNames [luid 23, luid 33, luid 19, luid 25, luid 34]"

definition restrict_token :: "dword \<Rightarrow> (LUID \<times> dword) list \<Rightarrow> (sid \<times> dword) list \<Rightarrow> token \<Rightarrow> token" where
  "restrict_token flags deleted restricting t = t\<lparr>
     tok_privileges := filter (\<lambda>(l, _). l \<notin> set (map fst deleted)
       \<and> (flags AND DISABLE_MAX_PRIVILEGE \<noteq> 0 \<longrightarrow> l = luid 23)) (tok_privileges t),
     tok_restricting := (if tok_restricting t = [] then map fst restricting
       else filter (\<lambda>s. s \<in> set (map fst restricting)) (tok_restricting t)),
     tok_write_restricted := tok_write_restricted t \<or> flags AND WRITE_RESTRICTED \<noteq> 0\<rparr>"

definition on_token :: "handle \<Rightarrow> (token \<Rightarrow> token) \<Rightarrow> 'a token_world_scheme \<Rightarrow> dword \<times> 'a token_world_scheme" where
  "on_token h f w = (case world_tokens w h of
     None \<Rightarrow> (ERROR_INVALID_HANDLE, w)
   | Some t \<Rightarrow> (ERROR_SUCCESS, w\<lparr>world_tokens := (world_tokens w)(h \<mapsto> f t)\<rparr>))"

definition account_sid :: sid where
  "account_sid = [1, 2, 0, 0, 0, 0, 0, 5, 21, 0, 0, 0, 232, 3, 0, 0]"

definition reference_tokens :: "'a token_world_scheme token_api" where
  "reference_tokens = \<lparr>
     GetTokenInformationSize = (\<lambda>h _ w. if world_tokens w h = None then (ERROR_INVALID_HANDLE, 0)
       else (ERROR_INSUFFICIENT_BUFFER, 64)),
     GetTokenInformation = (\<lambda>h cls _ w. case world_tokens w h of
       None \<Rightarrow> (ERROR_INVALID_HANDLE, UserInformation []) | Some t \<Rightarrow> (ERROR_SUCCESS, information t cls)),
     SetTokenInformation = (\<lambda>h i w. on_token h (set_information i) w),
     AdjustTokenPrivilegesDisableAll = (\<lambda>h w. let (e, w') = on_token h disabled w in ((e = ERROR_SUCCESS, e), w')),
     CreateRestrictedToken = (\<lambda>h flags deleted restricting w. case world_tokens w h of
       None \<Rightarrow> ((ERROR_INVALID_HANDLE, nullptr), w)
     | Some t \<Rightarrow> allocate (restrict_token flags deleted restricting t) w),
     LogonUserW = (\<lambda>name password w. case world_accounts w name of
       None \<Rightarrow> ((1326, nullptr), w) | Some t \<Rightarrow> allocate t w),
     CloseHandle = (\<lambda>h w. w\<lparr>world_tokens := (world_tokens w)(h := None)\<rparr>),
     SetEntriesInAclW = (\<lambda>s rights acl. (ERROR_SUCCESS, acl @ [(s, rights)])),
     LookupPrivilegeValueW = (\<lambda>name. case map_of reference_privileges name of
       None \<Rightarrow> (1313, luid 0) | Some l \<Rightarrow> (ERROR_SUCCESS, l)),
     CreateWellKnownSid = (\<lambda>k. (ERROR_SUCCESS, case k of
       WinBuiltinAdministratorsSid \<Rightarrow> [1, 2, 0, 0, 0, 0, 0, 5, 32, 0, 0, 0, 32, 2, 0, 0]
     | WinWorldSid \<Rightarrow> [1, 1, 0, 0, 0, 0, 0, 1, 0, 0, 0, 0]
     | WinLowLabelSid \<Rightarrow> [1, 1, 0, 0, 0, 0, 0, 16, 0, 16, 0, 0])),
     SidValid = sid_valid, SidEqual = sid_equal,
     GetSidSubAuthorityCount = (\<lambda>s. Some (s ! 1)),
     GetSidSubAuthority = (\<lambda>s n. Some (word_rcat (rev (take 4 (drop (8 + 4 * unat n) s))))),
     GetComputerNameW = (ERROR_SUCCESS, wide ''HOST''),
     LookupAccountNameSize = (\<lambda>name w. if world_accounts w (drop 5 name) = None then (ERROR_NONE_MAPPED, 0, 0)
       else (ERROR_INSUFFICIENT_BUFFER, 16, 5)),
     LookupAccountNameW = (\<lambda>name w. case world_accounts w (drop 5 name) of
       None \<Rightarrow> (ERROR_NONE_MAPPED, [], 0) | Some t \<Rightarrow> (ERROR_SUCCESS, tok_user t, SidTypeUser)),
     LsaOpenPolicy = (\<lambda>_. 0),
     LsaEnumerateAccountRights = (\<lambda>_ _. (0, [\<lparr>Buffer = Some SE_CHANGE_NOTIFY_NAME, Length = 46\<rparr>])),
     LsaNtStatusToWinError = id\<rparr>"

lemma enabled_restrict_token:
  "flags AND DISABLE_MAX_PRIVILEGE \<noteq> 0 \<Longrightarrow> enabled (restrict_token flags deleted restricting t) \<subseteq> {luid 23}"
  by (auto simp: restrict_token_def)

lemma restriction_restrict_token:
  "restriction reference_tokens flags deleted restricting t (restrict_token flags deleted restricting t)"
  unfolding restriction_def
proof (intro conjI impI allI)
  fix l assume "flags AND DISABLE_MAX_PRIVILEGE \<noteq> 0"
    and "LookupPrivilegeValueW reference_tokens SE_CHANGE_NOTIFY_NAME = (ERROR_SUCCESS, l)"
  moreover from this(2) have "l = luid 23"
    by (simp add: reference_tokens_def reference_privileges_def AllowedTokenPrivilegeNames_def)
  ultimately show "enabled (restrict_token flags deleted restricting t) \<subseteq> {l}"
    using enabled_restrict_token by blast
qed (auto simp: restrict_token_def image_iff)

interpretation reference_token_objects: token_objects reference_tokens world_tokens
proof (unfold_locales, goal_cases)
  case (4 h flags deleted restricting w h' w' t)
  then show ?case
    using restriction_restrict_token[of flags deleted restricting t]
    by (auto simp: reference_tokens_def allocate_def split: if_splits)
next
  case (6 name password w h w')
  then show ?case by (auto simp: reference_tokens_def allocate_def split: option.splits if_splits)
qed (auto simp: reference_tokens_def on_token_def allocate_def Let_def fun_eq_iff
    split: option.splits if_splits prod.splits)

definition example_token :: token where
  "example_token = \<lparr>tok_user = account_sid,
     tok_groups = [([1, 1, 0, 0, 0, 0, 0, 1, 0, 0, 0, 0], 7), ([1, 3, 0, 0, 0, 0, 0, 5, 5, 0, 0, 0, 0, 0, 0, 0, 9, 0, 0, 0], 0xC0000007)],
     tok_privileges = [(luid 23, 3), (luid 33, 0)],
     tok_integrity = [1, 1, 0, 0, 0, 0, 0, 16, 0, 32, 0, 0], tok_dacl = Some [],
     tok_restricting = [], tok_write_restricted = False\<rparr>"

definition example_world :: token_world where
  "example_world = \<lparr>disk_files = (\<lambda>_. None), disk_free = 1000, world_tokens = (\<lambda>_. None), world_next = 4, world_accounts = [wide ''guest'' \<mapsto> example_token]\<rparr>"

definition example_password :: SecurePassword where
  "example_password = \<lparr>characters = wide ''secret'' @ [0], password_length = 6\<rparr>"

lemma example_logon:
  "fst (LogOnBrokerAccount reference_tokens (wide ''guest'') example_password nullptr False example_world)
     = (ERROR_SUCCESS, 5)"
  by code_simp

lemma example_restricted_logon:
  "fst (LogOnBrokerAccount reference_tokens (wide ''guest'') example_password nullptr True example_world)
     = (ERROR_SUCCESS, 4)"
  by code_simp

section \<open>Properties\<close>

text \<open>
  C18: Logging on either opens exactly the one handle it returns, on a token of the account's own
  user that is in no administrators group, has only allow-listed privileges and medium integrity
  (and, unless a read-restricted token is prepared later, nothing but the traversal privilege
  enabled); or it fails and leaves no handle open, the caller's previous token being closed in
  both cases.
\<close>

theorem logon_token_valid:
  assumes "token_objects api obj"
  shows "opens obj (\<lambda>t. \<exists>s. LookupLocalUserSid api name (BrokerLogonToken_Reset api token w) = (ERROR_SUCCESS, s)
      \<and> valid_logon_token api s restrictAccess t)
    (BrokerLogonToken_Reset api token w)
    (LogOnBrokerAccount api name password token restrictAccess w)"
  by (rule token_objects.LogOn_opens[OF assms refl])

lemma logon_token_valid_witness:
  "\<exists>t w. LogOnBrokerAccount reference_tokens (wide ''guest'') example_password nullptr False example_world
      = ((ERROR_SUCCESS, 5), w)
    \<and> world_tokens w 5 = Some t \<and> valid_logon_token (reference_tokens :: token_world token_api) account_sid False t"
proof -
  have "LookupLocalUserSid reference_tokens (wide ''guest'') example_world = (ERROR_SUCCESS, account_sid)"
    by code_simp
  with logon_token_valid[OF reference_token_objects.token_objects_axioms, of "wide ''guest''" nullptr
      example_world False example_password] example_logon
  show ?thesis by (auto simp: opens_def BrokerLogonToken_Reset_def split: prod.splits)
qed

text \<open>
  C19: The token a child process is launched with has the user and groups of the logon token and
  the requested integrity; without read restriction only the traversal privilege is enabled, with
  it every privilege is disabled, writes are checked against the user, the logon session and
  Everyone, and no group can be removed to evade a deny entry. A failing call leaves no handle
  open, and the logon token is never changed.
\<close>

theorem launch_token_restricted:
  assumes "token_objects api obj" and "obj (UniqueHandle_reset api launchToken w) token = Some t"
  shows "opens obj (launch_token api restrictAccess lowIntegrity t) (UniqueHandle_reset api launchToken w)
    (CreateBrokerLaunchToken api token restrictAccess lowIntegrity launchToken w)"
  by (rule token_objects.CreateBrokerLaunchToken_opens[OF assms(1) refl assms(2)])

lemma launch_token_restricted_witness:
  "\<exists>t'. world_tokens (snd (CreateBrokerLaunchToken reference_tokens 4 True True nullptr
      (snd (LogOnBrokerAccount reference_tokens (wide ''guest'') example_password nullptr True example_world)))) 5
      = Some t' \<and> launch_token (reference_tokens :: token_world token_api) True True example_token t'"
proof -
  let ?w = "snd (LogOnBrokerAccount reference_tokens (wide ''guest'') example_password nullptr True example_world)"
  have reset: "UniqueHandle_reset reference_tokens nullptr ?w = ?w" by (simp add: UniqueHandle_reset_def)
  have "world_tokens ?w 4 = Some example_token" by code_simp
  moreover have "fst (CreateBrokerLaunchToken reference_tokens 4 True True nullptr ?w) = (ERROR_SUCCESS, 5)"
    by code_simp
  ultimately show ?thesis
    using launch_token_restricted[OF reference_token_objects.token_objects_axioms, of nullptr ?w 4
        example_token True True]
    by (cases "CreateBrokerLaunchToken reference_tokens 4 True True nullptr ?w") (auto simp: opens_def reset)
qed

end
