(* ===== verification/Registration.thy ===== *)
theory Registration
  imports EnrollmentStore LogonToken
begin

text \<open>
  Managed accounts: \<open>src/broker/BrokerAccountProvisioner.cpp\<close>, which creates and changes local
  accounts, and \<open>src/broker/BrokerRegistration.cpp\<close>, which ties them to the enrollment records.
  The network-management calls are parameters over a world \<open>'w\<close>; the contract of the record store
  is the locale \<open>enrollments\<close>, met by the store of \<open>EnrollmentStore\<close>. Main results: administrators
  are never created, taken over or changed; a registered account is enrolled under its own SID with
  a strong password and enabled; passwords are reset and accounts deleted only under a managed record
  of the same SID; a failing call leaves every record as it was.
\<close>

section \<open>Accounts\<close>

abbreviation UF_SCRIPT :: dword where "UF_SCRIPT \<equiv> 1"
abbreviation UF_ACCOUNTDISABLE :: dword where "UF_ACCOUNTDISABLE \<equiv> 2"
abbreviation UF_PASSWD_CANT_CHANGE :: dword where "UF_PASSWD_CANT_CHANGE \<equiv> 0x40"
abbreviation UF_NORMAL_ACCOUNT :: dword where "UF_NORMAL_ACCOUNT \<equiv> 0x200"
abbreviation UF_DONT_EXPIRE_PASSWD :: dword where "UF_DONT_EXPIRE_PASSWD \<equiv> 0x10000"
abbreviation NERR_Success :: dword where "NERR_Success \<equiv> 0"

definition RequiredAccountFlags :: dword where
  "RequiredAccountFlags = UF_NORMAL_ACCOUNT OR UF_DONT_EXPIRE_PASSWD OR UF_PASSWD_CANT_CHANGE"

definition ManagedAccountComment :: wstring where
  "ManagedAccountComment = wide ''Managed by launch-as.''"

text \<open>
  \<open>NetUserGetInfo\<close> at level 4 yields the flags, or no buffer; \<open>NetUserSetInfo\<close> at levels 1008, 1003
  and 1007 sets flags, password and comment; \<open>NetUserAdd\<close> gets the members of \<open>USER_INFO_1\<close> the
  code sets; \<open>NetUserGetLocalGroups\<close> lists the groups, indirect ones included.
\<close>

record USER_INFO_1 =
  usri1_name :: wstring
  usri1_password :: wstring
  usri1_flags :: dword
  usri1_comment :: wstring

record 'w registration_api =
  tokens_of :: "'w token_api"
  store_of :: "'w store_env"
  NetUserGetInfo4 :: "wstring \<Rightarrow> 'w \<Rightarrow> dword \<times> dword option"
  NetUserSetFlags :: "wstring \<Rightarrow> dword \<Rightarrow> 'w \<Rightarrow> dword \<times> 'w"
  NetUserSetPassword :: "wstring \<Rightarrow> wstring \<Rightarrow> 'w \<Rightarrow> dword \<times> 'w"
  NetUserSetComment :: "wstring \<Rightarrow> wstring \<Rightarrow> 'w \<Rightarrow> dword \<times> 'w"
  NetUserAdd :: "USER_INFO_1 \<Rightarrow> 'w \<Rightarrow> dword \<times> 'w"
  NetUserDel :: "wstring \<Rightarrow> 'w \<Rightarrow> dword \<times> 'w"
  NetUserGetLocalGroups :: "wstring \<Rightarrow> 'w \<Rightarrow> dword \<times> wstring list"
  LookupGroupSid :: "wstring \<Rightarrow> dword \<times> sid"

text \<open>The characters of \<open>password.c_str()\<close>.\<close>

definition password_text :: "SecurePassword \<Rightarrow> wstring" where
  "password_text password = take (password_length password) (characters password)"

section \<open>The account provisioner\<close>

definition EnableAndHardenBrokerManagedAccount ::
  "'w registration_api \<Rightarrow> wstring \<Rightarrow> 'w \<Rightarrow> dword \<times> 'w"
where
  "EnableAndHardenBrokerManagedAccount api accountName w =
     (let (readStatus, rawAccount) = NetUserGetInfo4 api accountName w in
      if readStatus \<noteq> NERR_Success then (readStatus, w)
      else (case rawAccount of
          None \<Rightarrow> (ERROR_INVALID_DATA, w)
        | Some account_flags \<Rightarrow> NetUserSetFlags api accountName
            ((account_flags OR RequiredAccountFlags) AND NOT UF_ACCOUNTDISABLE) w))"

definition SetManagedAccountComment :: "'w registration_api \<Rightarrow> wstring \<Rightarrow> 'w \<Rightarrow> dword \<times> 'w" where
  "SetManagedAccountComment api accountName = NetUserSetComment api accountName ManagedAccountComment"

fun RejectAdministratorGroups :: "'w registration_api \<Rightarrow> sid \<Rightarrow> wstring list \<Rightarrow> dword" where
  "RejectAdministratorGroups api administratorsSid [] = ERROR_SUCCESS"
| "RejectAdministratorGroups api administratorsSid (groupName # groups) =
     (let (lookupError, groupSid) = LookupGroupSid api groupName in
      if lookupError \<noteq> ERROR_SUCCESS then lookupError
      else if SidEqual (tokens_of api) groupSid administratorsSid then ERROR_MEMBER_IN_GROUP
      else RejectAdministratorGroups api administratorsSid groups)"

definition RejectAdministratorAccount :: "'w registration_api \<Rightarrow> wstring \<Rightarrow> 'w \<Rightarrow> dword" where
  "RejectAdministratorAccount api accountName w =
     (let (sidError, administratorsSid) = CreateWellKnownSid (tokens_of api) WinBuiltinAdministratorsSid in
      if sidError \<noteq> ERROR_SUCCESS then sidError
      else
        (let (groupStatus, groups) = NetUserGetLocalGroups api accountName w in
         if groupStatus = NERR_UserNotFound then ERROR_SUCCESS
         else if groupStatus \<noteq> NERR_Success then groupStatus
         else RejectAdministratorGroups api administratorsSid groups))"

definition ValidateBrokerAccountForRegistration :: "'w registration_api \<Rightarrow> wstring \<Rightarrow> 'w \<Rightarrow> dword" where
  "ValidateBrokerAccountForRegistration api accountName w =
     (if IsValidBrokerAccountName accountName then RejectAdministratorAccount api accountName w
      else ERROR_INVALID_PARAMETER)"

definition CreateBrokerManagedLocalAccount ::
  "'w registration_api \<Rightarrow> wstring \<Rightarrow> SecurePassword \<Rightarrow> 'w \<Rightarrow> dword \<times> 'w"
where
  "CreateBrokerManagedLocalAccount api accountName password w =
     (if password_length password = 0 then (ERROR_INVALID_PARAMETER, w)
      else
        (let accountValidationError = ValidateBrokerAccountForRegistration api accountName w in
         if accountValidationError \<noteq> ERROR_SUCCESS then (accountValidationError, w)
         else NetUserAdd api \<lparr>usri1_name = accountName, usri1_password = password_text password,
           usri1_flags = UF_SCRIPT OR RequiredAccountFlags, usri1_comment = ManagedAccountComment\<rparr> w))"

definition RefreshBrokerManagedLocalAccount ::
  "'w registration_api \<Rightarrow> wstring \<Rightarrow> SecurePassword \<Rightarrow> 'w \<Rightarrow> dword \<times> 'w"
where
  "RefreshBrokerManagedLocalAccount api accountName password w =
     (if password_length password = 0 then (ERROR_INVALID_PARAMETER, w)
      else
        (let accountValidationError = ValidateBrokerAccountForRegistration api accountName w in
         if accountValidationError \<noteq> ERROR_SUCCESS then (accountValidationError, w)
         else and_then (NetUserSetPassword api accountName (password_text password))
                (and_then (EnableAndHardenBrokerManagedAccount api accountName)
                  (SetManagedAccountComment api accountName)) w))"

definition TakeOverExistingLocalAccount ::
  "'w registration_api \<Rightarrow> wstring \<Rightarrow> SecurePassword \<Rightarrow> bool \<Rightarrow> 'w \<Rightarrow> dword \<times> 'w"
where
  "TakeOverExistingLocalAccount api accountName password allowEnable w =
     (if password_length password = 0 then (ERROR_INVALID_PARAMETER, w)
      else
        (let accountValidationError = ValidateBrokerAccountForRegistration api accountName w in
         if accountValidationError \<noteq> ERROR_SUCCESS then (accountValidationError, w)
         else
           (let (accountStatus, rawAccount) = NetUserGetInfo4 api accountName w in
            if accountStatus \<noteq> NERR_Success then (accountStatus, w)
            else (case rawAccount of
                None \<Rightarrow> (ERROR_INVALID_DATA, w)
              | Some account_flags \<Rightarrow>
                  if account_flags AND UF_ACCOUNTDISABLE \<noteq> 0 \<and> \<not> allowEnable
                  then (ERROR_ACCOUNT_DISABLED, w)
                  else RefreshBrokerManagedLocalAccount api accountName password w))))"

section \<open>The registration service\<close>

text \<open>Look up the SID of the account and enroll it, the last step of \<open>Create\<close> and \<open>TakeOver\<close>.\<close>

definition EnrollAccount :: "'w registration_api \<Rightarrow> wstring \<Rightarrow> wstring \<Rightarrow> 'w \<Rightarrow> dword \<times> 'w" where
  "EnrollAccount api dir accountName w =
     (let (sidError, accountSid) = GetBrokerAccountSid (tokens_of api) accountName w in
      if sidError \<noteq> ERROR_SUCCESS then (sidError, w)
      else EnrollmentStore_Store (store_of api) dir accountName accountSid True w)"

text \<open>The result is \<open>None\<close> only while the random generator has not produced an accepted draw.\<close>

definition RegistrationService_Create ::
  "'w registration_api \<Rightarrow> wstring \<Rightarrow> wstring \<Rightarrow> draws \<Rightarrow> 'w \<Rightarrow> (dword \<times> 'w) option"
where
  "RegistrationService_Create api dir accountName draws w =
     (if \<not> IsValidBrokerAccountName accountName then Some (ERROR_INVALID_PARAMETER, w)
      else
        (let ((enrollmentError, existingEnrollment), w) = EnrollmentStore_Load (store_of api) dir accountName w in
         if enrollmentError = ERROR_SUCCESS then Some (ERROR_ALREADY_EXISTS, w)
         else if enrollmentError \<noteq> ERROR_FILE_NOT_FOUND then Some (enrollmentError, w)
         else
           (case GenerateBrokerPassword SecurePassword_empty draws of
              None \<Rightarrow> None
            | Some ((passwordError, password), _) \<Rightarrow>
                if passwordError \<noteq> ERROR_SUCCESS then Some (passwordError, w)
                else Some (and_then (CreateBrokerManagedLocalAccount api accountName password)
                       (EnrollAccount api dir accountName) w))))"

text \<open>The check of \<open>TakeOver\<close> that an enrolled account still has the SID of its record.\<close>

definition CheckEnrolledSid ::
  "'w registration_api \<Rightarrow> wstring \<Rightarrow> bool \<Rightarrow> EnrollmentRecord \<Rightarrow> 'w \<Rightarrow> dword"
where
  "CheckEnrolledSid api accountName allowEnable existingEnrollment w =
     (let (sidError, currentSid) = GetBrokerAccountSid (tokens_of api) accountName w in
      if sidError \<noteq> ERROR_SUCCESS
         \<and> ((sidError \<noteq> NERR_UserNotFound \<and> sidError \<noteq> ERROR_NONE_MAPPED) \<or> \<not> allowEnable)
      then sidError
      else if sidError = ERROR_SUCCESS
         \<and> \<not> SidEqual (tokens_of api) (accountSid existingEnrollment) currentSid \<and> \<not> allowEnable
      then ERROR_ACCESS_DENIED
      else ERROR_SUCCESS)"

text \<open>Take over the account; with \<open>force\<close>, create it when it is gone, once more if it came back.\<close>

definition TakeOverAccount ::
  "'w registration_api \<Rightarrow> wstring \<Rightarrow> SecurePassword \<Rightarrow> bool \<Rightarrow> 'w \<Rightarrow> dword \<times> 'w"
where
  "TakeOverAccount api accountName password allowEnable w =
     (let (accountError, w) = TakeOverExistingLocalAccount api accountName password allowEnable w in
      if accountError = NERR_UserNotFound \<and> allowEnable then
        (let (createError, w) = CreateBrokerManagedLocalAccount api accountName password w in
         if createError = NERR_UserExists
         then TakeOverExistingLocalAccount api accountName password True w
         else (createError, w))
      else (accountError, w))"

definition RegistrationService_TakeOver ::
  "'w registration_api \<Rightarrow> wstring \<Rightarrow> wstring \<Rightarrow> bool \<Rightarrow> draws \<Rightarrow> 'w \<Rightarrow> (dword \<times> 'w) option"
where
  "RegistrationService_TakeOver api dir accountName allowEnable draws w =
     (if \<not> IsValidBrokerAccountName accountName then Some (ERROR_INVALID_PARAMETER, w)
      else
        (let ((enrollmentError, existingEnrollment), w) = EnrollmentStore_Load (store_of api) dir accountName w in
         if enrollmentError \<noteq> ERROR_SUCCESS \<and> enrollmentError \<noteq> ERROR_FILE_NOT_FOUND
         then Some (enrollmentError, w)
         else
           (let checkError = (if enrollmentError = ERROR_SUCCESS \<and> brokerManaged existingEnrollment
                  then CheckEnrolledSid api accountName allowEnable existingEnrollment w
                  else ERROR_SUCCESS)
            in if checkError \<noteq> ERROR_SUCCESS then Some (checkError, w)
            else
              (case GenerateBrokerPassword SecurePassword_empty draws of
                 None \<Rightarrow> None
               | Some ((passwordError, password), _) \<Rightarrow>
                   if passwordError \<noteq> ERROR_SUCCESS then Some (passwordError, w)
                   else Some (and_then (TakeOverAccount api accountName password allowEnable)
                          (EnrollAccount api dir accountName) w)))))"

definition RegistrationService_ResetPassword ::
  "'w registration_api \<Rightarrow> wstring \<Rightarrow> wstring \<Rightarrow> SecurePassword \<Rightarrow> 'w \<Rightarrow> dword \<times> 'w"
where
  "RegistrationService_ResetPassword api dir accountName password w =
     (if \<not> IsValidBrokerAccountName accountName \<or> password_length password = 0
      then (ERROR_INVALID_PARAMETER, w)
      else
        (let ((enrollmentError, enrollment), w) = EnrollmentStore_Load (store_of api) dir accountName w in
         if enrollmentError \<noteq> ERROR_SUCCESS then (enrollmentError, w)
         else if \<not> brokerManaged enrollment then (ERROR_ACCESS_DENIED, w)
         else
           (let (sidError, currentSid) = GetBrokerAccountSid (tokens_of api) accountName w in
            if sidError \<noteq> ERROR_SUCCESS then (sidError, w)
            else if \<not> SidEqual (tokens_of api) (accountSid enrollment) currentSid
            then (ERROR_ACCESS_DENIED, w)
            else NetUserSetPassword api accountName (password_text password) w)))"

definition RegistrationService_Forget :: "'w registration_api \<Rightarrow> wstring \<Rightarrow> wstring \<Rightarrow> 'w \<Rightarrow> dword \<times> 'w" where
  "RegistrationService_Forget api dir accountName w =
     (if \<not> IsValidBrokerAccountName accountName then (ERROR_INVALID_PARAMETER, w)
      else
        (let (removeError, w) = EnrollmentStore_Remove (store_of api) dir accountName w
         in (if removeError = ERROR_FILE_NOT_FOUND then ERROR_NOT_FOUND else removeError, w)))"

definition RegistrationService_Delete :: "'w registration_api \<Rightarrow> wstring \<Rightarrow> wstring \<Rightarrow> 'w \<Rightarrow> dword \<times> 'w" where
  "RegistrationService_Delete api dir accountName w =
     (if \<not> IsValidBrokerAccountName accountName then (ERROR_INVALID_PARAMETER, w)
      else
        (let ((enrollmentError, enrollment), w) = EnrollmentStore_Load (store_of api) dir accountName w in
         if enrollmentError \<noteq> ERROR_SUCCESS
         then (if enrollmentError = ERROR_FILE_NOT_FOUND then ERROR_NOT_FOUND else enrollmentError, w)
         else if \<not> brokerManaged enrollment then (ERROR_ACCESS_DENIED, w)
         else
           (let (sidError, currentSid) = GetBrokerAccountSid (tokens_of api) accountName w in
            if sidError = ERROR_NONE_MAPPED then EnrollmentStore_Remove (store_of api) dir accountName w
            else if sidError \<noteq> ERROR_SUCCESS then (sidError, w)
            else if \<not> SidEqual (tokens_of api) (accountSid enrollment) currentSid
            then (ERROR_ACCESS_DENIED, w)
            else
              (let (deleteStatus, w) = NetUserDel api accountName w in
               if deleteStatus = NERR_Success
               then EnrollmentStore_Remove (store_of api) dir accountName w
               else (deleteStatus, w)))))"

text \<open>Loading a record may create the machine key, so the filter threads the world through.\<close>

definition KeepListed ::
  "'w registration_api \<Rightarrow> wstring \<Rightarrow> wstring \<Rightarrow> 'w \<Rightarrow> bool \<times> 'w"
where
  "KeepListed api dir accountName w =
     (let ((enrollmentError, enrollment), w) = EnrollmentStore_Load (store_of api) dir accountName w;
          (sidError, currentSid) = GetBrokerAccountSid (tokens_of api) accountName w
      in (enrollmentError = ERROR_SUCCESS \<and> brokerManaged enrollment \<and> sidError = ERROR_SUCCESS
            \<and> SidEqual (tokens_of api) (accountSid enrollment) currentSid, w))"

fun FilterListed :: "'w registration_api \<Rightarrow> wstring \<Rightarrow> wstring list \<Rightarrow> 'w \<Rightarrow> wstring list \<times> 'w" where
  "FilterListed api dir [] w = ([], w)"
| "FilterListed api dir (accountName # accountNames) w =
     (let (keep, w) = KeepListed api dir accountName w;
          (kept, w) = FilterListed api dir accountNames w
      in (if keep then accountName # kept else kept, w))"

definition RegistrationService_List :: "'w registration_api \<Rightarrow> wstring \<Rightarrow> 'w \<Rightarrow> (dword \<times> wstring list) \<times> 'w" where
  "RegistrationService_List api dir w =
     (let (listError, accountNames) = EnrollmentStore_List (store_of api) dir w in
      if listError \<noteq> ERROR_SUCCESS then ((listError, accountNames), w)
      else (let (kept, w) = FilterListed api dir accountNames w in ((ERROR_SUCCESS, kept), w)))"

section \<open>The contract of the record store\<close>

text \<open>
  What registration relies on: \<open>held\<close> is what is on record for an account name. Loading changes no
  record, a store or removal that fails changes none and otherwise only that of its account, what
  was stored is loaded back, and what was removed is not found.
\<close>

locale enrollments =
  fixes load :: "wstring \<Rightarrow> 'w \<Rightarrow> (dword \<times> EnrollmentRecord) \<times> 'w"
    and store :: "wstring \<Rightarrow> sid \<Rightarrow> bool \<Rightarrow> 'w \<Rightarrow> dword \<times> 'w"
    and remove :: "wstring \<Rightarrow> 'w \<Rightarrow> dword \<times> 'w"
    and held :: "'w \<Rightarrow> wstring \<Rightarrow> byte list option"
    and same_name :: "wstring \<Rightarrow> wstring \<Rightarrow> bool"
    and complete :: "sid \<Rightarrow> bool"
  assumes load_keeps: "load n w = (r, w') \<Longrightarrow> held w' = held w"
    and store_keeps: "store n s managed w = (e, w') \<Longrightarrow> e \<noteq> ERROR_SUCCESS \<or> \<not> same_name m n
      \<Longrightarrow> held w' m = held w m"
    and store_load: "store n s managed w = (ERROR_SUCCESS, w') \<Longrightarrow> complete s
      \<Longrightarrow> load n w' = ((ERROR_SUCCESS, \<lparr>accountSid = s, brokerManaged = managed\<rparr>), w')"
    and remove_keeps: "remove n w = (e, w') \<Longrightarrow> e \<noteq> ERROR_SUCCESS \<or> \<not> same_name m n
      \<Longrightarrow> held w' m = held w m"
    and remove_load: "remove n w = (ERROR_SUCCESS, w') \<Longrightarrow> fst (fst (load n w')) = ERROR_FILE_NOT_FOUND"

context store_environment
begin

lemma Load_other:
  assumes "EnrollmentStore_Load env dir name w = (r, w')"
  shows "contents w' (RecordPath dir m) = contents w (RecordPath dir m)"
proof -
  obtain k w1 where key: "LoadOrCreateMachineKey env (MachineKeyPath dir) w = (k, w1)" by fastforce
  have "contents w1 (RecordPath dir m) = contents w (RecordPath dir m)"
    by (rule LoadOrCreateMachineKey_other[OF key different_paths(1,2)])
  then show ?thesis
    using assms by (auto simp: EnrollmentStore_Load_def Let_def key split: prod.splits if_splits)
qed

lemma enrollments_store:
  "enrollments (EnrollmentStore_Load env dir) (EnrollmentStore_Store env dir) (EnrollmentStore_Remove env dir)
     (\<lambda>w n. contents w (RecordPath dir n)) same (\<lambda>s. GetLengthSid_of env s = length s)"
proof
  fix n s managed w w'
  assume store: "EnrollmentStore_Store env dir n s managed w = (ERROR_SUCCESS, w')"
    and s: "GetLengthSid_of env s = length s"
  have valid: "IsValidSid_of env s" using store by (auto simp: EnrollmentStore_Store_def split: if_splits)
  then have "length s < 2 ^ 32" using length_positive[OF valid] s by simp
  with store have "stored w' dir n s managed" "IsValidBrokerAccountName n"
    using Store_success by auto
  then show "EnrollmentStore_Load env dir n w' = ((ERROR_SUCCESS, \<lparr>accountSid = s, brokerManaged = managed\<rparr>), w')"
    using Load_stored valid s by blast
next
  fix n w e w' m
  assume r: "EnrollmentStore_Remove env dir n w = (e, w')" and "e \<noteq> ERROR_SUCCESS \<or> \<not> same m n"
  then consider "e \<noteq> ERROR_SUCCESS" | "e = ERROR_SUCCESS" "\<not> same m n" by blast
  then show "contents w' (RecordPath dir m) = contents w (RecordPath dir m)"
  proof cases
    case 1
    with r show ?thesis
      by (auto simp: EnrollmentStore_Remove_def Let_def split: if_splits prod.splits dest: delete_failure)
  next
    case 2
    with r Remove_success(2) show ?thesis by simp
  qed
qed (auto simp: fun_eq_iff dest: Load_other Store_failure Store_other Remove_success(1))

end

section \<open>The contract of the accounts\<close>

record account =
  acc_sid :: sid
  acc_flags :: dword
  acc_password :: wstring
  acc_comment :: wstring
  acc_groups :: "wstring list"

definition change_account ::
  "(wstring \<Rightarrow> wstring \<Rightarrow> bool) \<Rightarrow> wstring \<Rightarrow> (account option \<Rightarrow> account option) \<Rightarrow>
   (wstring \<Rightarrow> account option) \<Rightarrow> wstring \<Rightarrow> account option"
where
  "change_account same_name n f accounts m = (if same_name m n then f (accounts m) else accounts m)"

definition administrator :: "'w registration_api \<Rightarrow> account \<Rightarrow> bool" where
  "administrator api a \<longleftrightarrow> (\<exists>administrators groupName groupSid.
     CreateWellKnownSid (tokens_of api) WinBuiltinAdministratorsSid = (ERROR_SUCCESS, administrators)
   \<and> groupName \<in> set (acc_groups a) \<and> LookupGroupSid api groupName = (ERROR_SUCCESS, groupSid)
   \<and> SidEqual (tokens_of api) groupSid administrators)"

definition managed_account :: "'w registration_api \<Rightarrow> SecurePassword \<Rightarrow> account \<Rightarrow> bool" where
  "managed_account api password a \<longleftrightarrow> acc_password a = password_text password
     \<and> acc_flags a AND (UF_ACCOUNTDISABLE OR RequiredAccountFlags) = RequiredAccountFlags
     \<and> acc_comment a = ManagedAccountComment \<and> \<not> administrator api a"

text \<open>
  The documented effects of the account calls: a successful one changes the named account and
  nothing else, a failing one nothing; a new account is in no group. \<open>complete\<close> SIDs fill the
  buffer they were asked for.
\<close>

locale managed_accounts =
  enrollments "EnrollmentStore_Load (store_of api) dir" "EnrollmentStore_Store (store_of api) dir"
    "EnrollmentStore_Remove (store_of api) dir" held same_name complete
  for api :: "'w registration_api" and dir held same_name complete +
  fixes accounts :: "'w \<Rightarrow> wstring \<Rightarrow> account option"
  assumes same_name_refl: "same_name n n"
    and load_accounts: "EnrollmentStore_Load (store_of api) dir n w = (r, w') \<Longrightarrow> accounts w' = accounts w"
    and store_accounts: "EnrollmentStore_Store (store_of api) dir n s managed w = (e, w') \<Longrightarrow> accounts w' = accounts w"
    and remove_accounts: "EnrollmentStore_Remove (store_of api) dir n w = (e, w') \<Longrightarrow> accounts w' = accounts w"
    and get_info: "NetUserGetInfo4 api n w = (NERR_Success, Some fl) \<Longrightarrow> \<exists>a. accounts w n = Some a \<and> acc_flags a = fl"
    and get_groups: "NetUserGetLocalGroups api n w = (NERR_Success, gs) \<Longrightarrow>
      \<exists>a. accounts w n = Some a \<and> set gs = set (acc_groups a)"
    and no_groups: "NetUserGetLocalGroups api n w = (NERR_UserNotFound, gs) \<Longrightarrow> accounts w n = None"
    and set_flags: "NetUserSetFlags api n fl w = (e, w') \<Longrightarrow> held w' = held w \<and> accounts w' =
      (if e = NERR_Success then change_account same_name n (map_option (\<lambda>a. a\<lparr>acc_flags := fl\<rparr>)) (accounts w)
       else accounts w)"
    and set_password: "NetUserSetPassword api n p w = (e, w') \<Longrightarrow> held w' = held w \<and> accounts w' =
      (if e = NERR_Success then change_account same_name n (map_option (\<lambda>a. a\<lparr>acc_password := p\<rparr>)) (accounts w)
       else accounts w)"
    and set_comment: "NetUserSetComment api n c w = (e, w') \<Longrightarrow> held w' = held w \<and> accounts w' =
      (if e = NERR_Success then change_account same_name n (map_option (\<lambda>a. a\<lparr>acc_comment := c\<rparr>)) (accounts w)
       else accounts w)"
    and add_user: "NetUserAdd api info w = (e, w') \<Longrightarrow> held w' = held w \<and>
      (if e = NERR_Success then accounts w (usri1_name info) = None \<and> (\<exists>s. accounts w' =
         change_account same_name (usri1_name info) (\<lambda>_. Some \<lparr>acc_sid = s, acc_flags = usri1_flags info,
           acc_password = usri1_password info, acc_comment = usri1_comment info, acc_groups = []\<rparr>) (accounts w))
       else accounts w' = accounts w)"
    and delete_user: "NetUserDel api n w = (e, w') \<Longrightarrow> held w' = held w \<and> accounts w' =
      (if e = NERR_Success then change_account same_name n (\<lambda>_. None) (accounts w) else accounts w)"
    and lookup_user: "LookupAccountNameW (tokens_of api) (snd (GetComputerNameW (tokens_of api)) @ wide [BS] @ n) w
        = (ERROR_SUCCESS, s, SidTypeUser) \<Longrightarrow> complete s \<and> (\<exists>a. accounts w n = Some a \<and> acc_sid a = s)"
    and lookup_size: "LookupAccountNameSize (tokens_of api) q w = (e, sizes) \<Longrightarrow> e \<noteq> ERROR_SUCCESS"
    and not_mapped: "LookupLocalUserSid (tokens_of api) n w = (ERROR_NONE_MAPPED, s) \<Longrightarrow> accounts w n = None"

text \<open>An account enrolled as managed under its own SID.\<close>

definition enrolled_as ::
  "'w registration_api \<Rightarrow> wstring \<Rightarrow> ('w \<Rightarrow> wstring \<Rightarrow> account option) \<Rightarrow> 'w \<Rightarrow> wstring \<Rightarrow> account \<Rightarrow> bool"
where
  "enrolled_as api dir accounts w n a \<longleftrightarrow> accounts w n = Some a \<and> (\<exists>r w'.
     EnrollmentStore_Load (store_of api) dir n w = ((ERROR_SUCCESS, r), w')
   \<and> brokerManaged r \<and> SidEqual (tokens_of api) (accountSid r) (acc_sid a))"

text \<open>
  The outcome of a registration: enrollment under the SID of the managed account, or an error that
  leaves all records as they were; no other account or record changes, and an administrator's
  account is refused unchanged.
\<close>

definition registered ::
  "'w registration_api \<Rightarrow> wstring \<Rightarrow> ('w \<Rightarrow> wstring \<Rightarrow> byte list option) \<Rightarrow> (wstring \<Rightarrow> wstring \<Rightarrow> bool) \<Rightarrow>
   ('w \<Rightarrow> wstring \<Rightarrow> account option) \<Rightarrow> wstring \<Rightarrow> SecurePassword \<Rightarrow> 'w \<Rightarrow> dword \<times> 'w \<Rightarrow> bool"
where
  "registered api dir held same_name accounts n password w r \<longleftrightarrow> (\<forall>m. \<not> same_name m n \<longrightarrow>
       held (snd r) m = held w m \<and> accounts (snd r) m = accounts w m)
   \<and> (\<forall>a. accounts w n = Some a \<and> administrator api a \<longrightarrow> fst r \<noteq> ERROR_SUCCESS \<and> accounts (snd r) = accounts w)
   \<and> (if fst r = ERROR_SUCCESS then \<exists>a. accounts (snd r) n = Some a \<and> managed_account api password a
        \<and> EnrollmentStore_Load (store_of api) dir n (snd r)
            = ((ERROR_SUCCESS, \<lparr>accountSid = acc_sid a, brokerManaged = True\<rparr>), snd r)
      else held (snd r) = held w)"

lemma set_and_clear:
  fixes R D :: dword
  assumes "R AND D = 0"
  shows "((f OR R) AND NOT D) AND (D OR R) = R"
proof (rule bit_word_eqI)
  fix n assume "n < LENGTH(32)"
  moreover have "\<not> (bit R n \<and> bit D n)" using assms by (metis bit_and_iff bit_0_eq bot_fun_def bot_bool_def)
  ultimately show "bit (((f OR R) AND NOT D) AND (D OR R)) n = bit R n" by (auto simp: bit_simps)
qed

lemma RejectAdministratorGroups_success:
  "RejectAdministratorGroups api administrators gs = ERROR_SUCCESS \<Longrightarrow> g \<in> set gs
     \<Longrightarrow> LookupGroupSid api g = (e, s) \<Longrightarrow> e = ERROR_SUCCESS \<and> \<not> SidEqual (tokens_of api) s administrators"
  by (induction gs) (auto simp: Let_def split: prod.splits if_splits)

context managed_accounts
begin

text \<open>
  What creating, refreshing and taking over have in common: no record changes, no other account
  changes, an administrator is refused without any effect, and success leaves a managed account.
\<close>

definition registers :: "wstring \<Rightarrow> SecurePassword \<Rightarrow> 'w \<Rightarrow> dword \<times> 'w \<Rightarrow> bool" where
  "registers n password w r \<longleftrightarrow> held (snd r) = held w
   \<and> (\<forall>m. \<not> same_name m n \<longrightarrow> accounts (snd r) m = accounts w m)
   \<and> (\<forall>a. accounts w n = Some a \<and> administrator api a \<longrightarrow> fst r \<noteq> ERROR_SUCCESS \<and> accounts (snd r) = accounts w)
   \<and> (fst r = ERROR_SUCCESS \<longrightarrow> (\<exists>a. accounts (snd r) n = Some a \<and> managed_account api password a))"

lemma registers_error: "e \<noteq> ERROR_SUCCESS \<Longrightarrow> registers n password w (e, w)"
  by (simp add: registers_def)

lemma Validate_success:
  assumes "ValidateBrokerAccountForRegistration api n w = ERROR_SUCCESS" and "accounts w n = Some a"
  shows "\<not> administrator api a"
proof
  assume "administrator api a"
  then obtain administrators g s where
    c: "CreateWellKnownSid (tokens_of api) WinBuiltinAdministratorsSid = (ERROR_SUCCESS, administrators)"
    and g: "g \<in> set (acc_groups a)" "LookupGroupSid api g = (ERROR_SUCCESS, s)"
      "SidEqual (tokens_of api) s administrators" by (auto simp: administrator_def)
  obtain e gs where l: "NetUserGetLocalGroups api n w = (e, gs)" by fastforce
  have "RejectAdministratorAccount api n w = ERROR_SUCCESS"
    using assms(1) by (simp add: ValidateBrokerAccountForRegistration_def split: if_split_asm)
  then consider "e = NERR_UserNotFound"
    | "e = NERR_Success" "RejectAdministratorGroups api administrators gs = ERROR_SUCCESS"
    by (auto simp: RejectAdministratorAccount_def c l split: if_split_asm)
  then show False
  proof cases
    case 1
    with no_groups[of n w gs] l assms(2) show ?thesis by simp
  next
    case 2
    with get_groups[of n w gs] l assms(2) g(1) have "g \<in> set gs" by auto
    from RejectAdministratorGroups_success[OF 2(2) this g(2)] g(3) show ?thesis by simp
  qed
qed

lemma Create_registers: "registers n password w (CreateBrokerManagedLocalAccount api n password w)"
proof (cases "password_length password = 0 \<or> ValidateBrokerAccountForRegistration api n w \<noteq> ERROR_SUCCESS")
  case True
  then show ?thesis
    by (auto simp: CreateBrokerManagedLocalAccount_def Let_def intro!: registers_error)
next
  case False
  let ?info = "\<lparr>usri1_name = n, usri1_password = password_text password,
    usri1_flags = UF_SCRIPT OR RequiredAccountFlags, usri1_comment = ManagedAccountComment\<rparr>"
  obtain e w' where a: "NetUserAdd api ?info w = (e, w')" by fastforce
  have "managed_account api password \<lparr>acc_sid = s, acc_flags = UF_SCRIPT OR RequiredAccountFlags,
    acc_password = password_text password, acc_comment = ManagedAccountComment, acc_groups = []\<rparr>" for s
    by (simp add: managed_account_def administrator_def RequiredAccountFlags_def)
  with False add_user[OF a] show ?thesis
    by (auto simp: CreateBrokerManagedLocalAccount_def Let_def registers_def a change_account_def
        same_name_refl split: if_split_asm)
qed

lemma Refresh_registers: "registers n password w (RefreshBrokerManagedLocalAccount api n password w)"
proof (cases "password_length password = 0 \<or> ValidateBrokerAccountForRegistration api n w \<noteq> ERROR_SUCCESS")
  case True
  then show ?thesis
    by (auto simp: RefreshBrokerManagedLocalAccount_def Let_def intro!: registers_error)
next
  case False
  then have plain: "accounts w n = Some a \<Longrightarrow> \<not> administrator api a" for a
    using Validate_success by blast
  let ?p = "password_text password"
  obtain e1 w1 where p: "NetUserSetPassword api n ?p w = (e1, w1)" by fastforce
  obtain e2 w2 where h: "EnableAndHardenBrokerManagedAccount api n w1 = (e2, w2)" by fastforce
  obtain e3 w3 where c: "SetManagedAccountComment api n w2 = (e3, w3)" by fastforce
  have r: "RefreshBrokerManagedLocalAccount api n password w =
      (if e1 \<noteq> 0 then (e1, w1) else if e2 \<noteq> 0 then (e2, w2) else (e3, w3))"
    using False by (simp add: RefreshBrokerManagedLocalAccount_def and_then_def p h c)
  obtain status fl where i: "NetUserGetInfo4 api n w1 = (status, fl)" by fastforce
  have hard: "held w2 = held w1 \<and> (accounts w2 = accounts w1 \<or> (\<exists>f a. accounts w1 n = Some a
        \<and> f = (acc_flags a OR RequiredAccountFlags) AND NOT UF_ACCOUNTDISABLE
        \<and> accounts w2 = change_account same_name n (map_option (\<lambda>a. a\<lparr>acc_flags := f\<rparr>)) (accounts w1)))"
    and hard_ok: "e2 = 0 \<Longrightarrow> \<exists>f a. accounts w1 n = Some a
        \<and> f = (acc_flags a OR RequiredAccountFlags) AND NOT UF_ACCOUNTDISABLE
        \<and> accounts w2 = change_account same_name n (map_option (\<lambda>a. a\<lparr>acc_flags := f\<rparr>)) (accounts w1)"
    using h i get_info[of n w1] set_flags[of n _ w1]
    by (auto simp: EnableAndHardenBrokerManagedAccount_def Let_def split: if_splits option.splits)
  note effects = set_password[OF p] hard set_comment[OF c[unfolded SetManagedAccountComment_def]]
  have kept: "held w3 = held w \<and> held w2 = held w \<and> held w1 = held w" using effects by simp
  have others: "\<not> same_name m n \<Longrightarrow> accounts w1 m = accounts w m \<and> accounts w2 m = accounts w m
      \<and> accounts w3 m = accounts w m" for m
    using effects by (auto simp: change_account_def)
  have "\<exists>a. accounts w3 n = Some a \<and> managed_account api password a"
    if ok: "e1 = 0" "e2 = 0" "e3 = 0"
  proof -
    obtain a where a: "accounts w1 n = Some a" and "accounts w3 n =
        Some (a\<lparr>acc_flags := (acc_flags a OR RequiredAccountFlags) AND NOT UF_ACCOUNTDISABLE,
          acc_comment := ManagedAccountComment\<rparr>)"
      using hard_ok ok effects by (auto simp: change_account_def same_name_refl)
    moreover obtain a0 where "accounts w n = Some a0" "a = a0\<lparr>acc_password := ?p\<rparr>"
      using a ok effects by (auto simp: change_account_def same_name_refl)
    moreover have "((f OR RequiredAccountFlags) AND NOT UF_ACCOUNTDISABLE) AND
        (UF_ACCOUNTDISABLE OR RequiredAccountFlags) = RequiredAccountFlags" for f
      by (rule set_and_clear) (simp add: RequiredAccountFlags_def)
    ultimately show ?thesis
      using plain[of a0] by (simp add: managed_account_def administrator_def)
  qed
  with kept others plain show ?thesis by (auto simp: registers_def r)
qed

lemma TakeOverExisting_registers: "registers n password w (TakeOverExistingLocalAccount api n password force w)"
  using Refresh_registers[of n password w]
  by (auto simp: TakeOverExistingLocalAccount_def Let_def split: prod.splits option.splits
      intro!: registers_error)

text \<open>Two attempts in a row, the second only after the first has failed.\<close>

lemma registers_retry:
  assumes "registers n password w (e, w1)" and "e \<noteq> ERROR_SUCCESS" and "registers n password w1 r"
  shows "registers n password w r"
  using assms by (simp add: registers_def)

lemma TakeOverAccount_registers: "registers n password w (TakeOverAccount api n password force w)"
proof -
  obtain e1 w1 where t: "TakeOverExistingLocalAccount api n password force w = (e1, w1)" by fastforce
  obtain e2 w2 where c: "CreateBrokerManagedLocalAccount api n password w1 = (e2, w2)" by fastforce
  note first = TakeOverExisting_registers[of n password w force, unfolded t]
    and second = Create_registers[of n password w1, unfolded c]
    and third = TakeOverExisting_registers[of n password w2 True]
  show ?thesis
  proof (cases "e1 = NERR_UserNotFound \<and> force")
    case False
    with first show ?thesis by (auto simp: TakeOverAccount_def t)
  next
    case True
    then have e1: "e1 \<noteq> ERROR_SUCCESS" by auto
    show ?thesis
    proof (cases "e2 = NERR_UserExists")
      case True
      then have "e2 \<noteq> ERROR_SUCCESS" by auto
      from registers_retry[OF second this third] registers_retry[OF first e1] \<open>e1 = _ \<and> _\<close> True t c
      show ?thesis by (simp add: TakeOverAccount_def)
    next
      case False
      with registers_retry[OF first e1 second] \<open>e1 = _ \<and> _\<close> t c show ?thesis
        by (simp add: TakeOverAccount_def)
    qed
  qed
qed

lemma GetBrokerAccountSid_success:
  "GetBrokerAccountSid (tokens_of api) n w = (ERROR_SUCCESS, s) \<Longrightarrow>
     complete s \<and> (\<exists>a. accounts w n = Some a \<and> acc_sid a = s)"
  using lookup_user lookup_size
  by (auto simp: GetBrokerAccountSid_def LookupLocalUserSid_def Let_def split: prod.splits if_splits)

lemma registered_error: "e \<noteq> ERROR_SUCCESS \<Longrightarrow> registered api dir held same_name accounts n password w (e, w)"
  by (simp add: registered_def)

lemma registers_enroll:
  assumes "registers n password w (f w)"
  shows "registered api dir held same_name accounts n password w (and_then f (EnrollAccount api dir n) w)"
proof -
  obtain e1 w1 where f: "f w = (e1, w1)" by fastforce
  obtain e2 s where g: "GetBrokerAccountSid (tokens_of api) n w1 = (e2, s)" by fastforce
  obtain e3 w3 where t: "EnrollmentStore_Store (store_of api) dir n s True w1 = (e3, w3)" by fastforce
  note r = assms[unfolded f registers_def fst_conv snd_conv]
  show ?thesis
  proof (cases "e1 = ERROR_SUCCESS \<and> e2 = ERROR_SUCCESS")
    case False
    with r show ?thesis by (auto simp: and_then_def f EnrollAccount_def g registered_def)
  next
    case ok: True
    with GetBrokerAccountSid_success[of n w1 s] g obtain a where
      a: "accounts w1 n = Some a" "acc_sid a = s" "complete s" by auto
    have w3: "accounts w3 = accounts w1" using store_accounts[OF t] .
    have keeps: "e3 \<noteq> ERROR_SUCCESS \<or> \<not> same_name m n \<Longrightarrow> held w3 m = held w1 m" for m
      by (rule store_keeps[OF t])
    have eq: "and_then f (EnrollAccount api dir n) w = (e3, w3)"
      using ok by (simp add: and_then_def f EnrollAccount_def g t)
    show ?thesis
    proof (cases "e3 = ERROR_SUCCESS")
      case True
      with r a w3 keeps ok show ?thesis
        using store_load[OF t[unfolded True]] by (auto simp: eq registered_def)
    next
      case False
      then have "held w3 = held w1" using keeps by auto
      with False r a w3 ok show ?thesis by (auto simp: eq registered_def)
    qed
  qed
qed

lemma enroll_registered:
  "registered api dir held same_name accounts n password w (and_then (CreateBrokerManagedLocalAccount api n password) (EnrollAccount api dir n) w)"
  "registered api dir held same_name accounts n password w (and_then (TakeOverAccount api n password force) (EnrollAccount api dir n) w)"
  by (rule registers_enroll, rule Create_registers TakeOverAccount_registers)+

lemma registered_weaken:
  assumes "registered api dir held same_name accounts n password w1 r" and "held w1 = held w" and "accounts w1 = accounts w"
  shows "registered api dir held same_name accounts n password w r"
  using assms by (simp add: registered_def)

lemma RegistrationService_Create_registered:
  assumes "RegistrationService_Create api dir n draws w = Some r"
  shows "\<exists>password. registered api dir held same_name accounts n password w r \<and> (fst r = ERROR_SUCCESS \<longrightarrow>
    (\<exists>rest. GenerateBrokerPassword SecurePassword_empty draws = Some ((ERROR_SUCCESS, password), rest)))"
proof (cases "IsValidBrokerAccountName n")
  case False
  with assms show ?thesis by (auto simp: RegistrationService_Create_def intro!: exI registered_error)
next
  case True
  obtain e er w1 where l: "EnrollmentStore_Load (store_of api) dir n w = ((e, er), w1)" by (metis surj_pair)
  note weaken = registered_weaken[OF _ load_keeps[OF l] load_accounts[OF l]]
  show ?thesis
  proof (cases "e = ERROR_FILE_NOT_FOUND")
    case False
    with assms True l show ?thesis
      by (auto simp: RegistrationService_Create_def split: if_splits intro!: weaken registered_error)
  next
    case found: True
    with assms True l obtain pe password rest where
      g: "GenerateBrokerPassword SecurePassword_empty draws = Some ((pe, password), rest)"
      by (auto simp: RegistrationService_Create_def split: option.splits)
    show ?thesis
      using assms True found l g weaken[OF enroll_registered(1)]
      by (auto simp: RegistrationService_Create_def split: if_splits intro!: weaken registered_error)
  qed
qed

lemma RegistrationService_TakeOver_registered:
  assumes "RegistrationService_TakeOver api dir n force draws w = Some r"
  shows "\<exists>password. registered api dir held same_name accounts n password w r \<and> (fst r = ERROR_SUCCESS \<longrightarrow>
    (\<exists>rest. GenerateBrokerPassword SecurePassword_empty draws = Some ((ERROR_SUCCESS, password), rest)))"
proof (cases "IsValidBrokerAccountName n")
  case False
  with assms show ?thesis by (auto simp: RegistrationService_TakeOver_def intro!: exI registered_error)
next
  case True
  obtain e er w1 where l: "EnrollmentStore_Load (store_of api) dir n w = ((e, er), w1)" by (metis surj_pair)
  note weaken = registered_weaken[OF _ load_keeps[OF l] load_accounts[OF l]]
  define c where "c = (if e = ERROR_SUCCESS \<and> brokerManaged er then CheckEnrolledSid api n force er w1 else ERROR_SUCCESS)"
  note unfold = RegistrationService_TakeOver_def Let_def l c_def[symmetric] prod.case
  show ?thesis
  proof (cases "(e \<noteq> ERROR_SUCCESS \<and> e \<noteq> ERROR_FILE_NOT_FOUND) \<or> c \<noteq> ERROR_SUCCESS")
    case False
    with assms True obtain pe password rest where
      g: "GenerateBrokerPassword SecurePassword_empty draws = Some ((pe, password), rest)"
      unfolding unfold by (auto split: option.splits if_splits)
    show ?thesis
      using assms True False g unfolding unfold
      by (auto split: if_splits intro!: exI[of _ password] weaken registered_error enroll_registered)
  qed (use assms True in \<open>unfold unfold, auto split: if_splits intro!: weaken registered_error\<close>)
qed

lemma ResetPassword_guarded:
  assumes "RegistrationService_ResetPassword api dir n password w = (e, w')"
  shows "held w' = held w \<and> (if e = ERROR_SUCCESS then \<exists>a. enrolled_as api dir accounts w n a
      \<and> accounts w' = change_account same_name n (map_option (\<lambda>a. a\<lparr>acc_password := password_text password\<rparr>)) (accounts w)
    else accounts w' = accounts w)"
proof -
  obtain el r w1 where l: "EnrollmentStore_Load (store_of api) dir n w = ((el, r), w1)" by (metis surj_pair)
  obtain es s where g: "GetBrokerAccountSid (tokens_of api) n w1 = (es, s)" by fastforce
  obtain e2 w2 where p: "NetUserSetPassword api n (password_text password) w1 = (e2, w2)" by fastforce
  note same = load_keeps[OF l] load_accounts[OF l]
  have "es = ERROR_SUCCESS \<Longrightarrow> \<exists>a. accounts w n = Some a \<and> acc_sid a = s"
    using GetBrokerAccountSid_success[of n w1 s] g same by simp
  with assms set_password[OF p] same show ?thesis
    by (auto simp: RegistrationService_ResetPassword_def l g p enrolled_as_def split: if_splits)
qed

lemma Delete_guarded:
  assumes "RegistrationService_Delete api dir n w = (e, w')"
  shows "(\<forall>m. \<not> same_name m n \<longrightarrow> held w' m = held w m \<and> accounts w' m = accounts w m)
    \<and> (accounts w' = accounts w \<or> (\<exists>a. enrolled_as api dir accounts w n a))
    \<and> (e = ERROR_SUCCESS \<longrightarrow> accounts w' n = None
        \<and> fst (fst (EnrollmentStore_Load (store_of api) dir n w')) = ERROR_FILE_NOT_FOUND)
    \<and> (e \<noteq> ERROR_SUCCESS \<longrightarrow> held w' = held w)"
proof -
  obtain el r w1 where l: "EnrollmentStore_Load (store_of api) dir n w = ((el, r), w1)" by (metis surj_pair)
  obtain es s where g: "GetBrokerAccountSid (tokens_of api) n w1 = (es, s)" by fastforce
  obtain ed w2 where d: "NetUserDel api n w1 = (ed, w2)" by fastforce
  obtain e1 v1 where r1: "EnrollmentStore_Remove (store_of api) dir n w1 = (e1, v1)" by fastforce
  obtain e2 v2 where r2: "EnrollmentStore_Remove (store_of api) dir n w2 = (e2, v2)" by fastforce
  note same = load_keeps[OF l] load_accounts[OF l]
  have found: "es = ERROR_SUCCESS \<Longrightarrow> \<exists>a. accounts w n = Some a \<and> acc_sid a = s"
    using GetBrokerAccountSid_success[of n w1 s] g same by simp
  have gone: "es = ERROR_NONE_MAPPED \<Longrightarrow> accounts w n = None"
    using not_mapped[of n w1 s] g same by (simp add: GetBrokerAccountSid_def)
  have removed: "held v m = held w0 m" "accounts v = accounts w0"
    if "EnrollmentStore_Remove (store_of api) dir n w0 = (e0, v)" "e0 \<noteq> ERROR_SUCCESS \<or> \<not> same_name m n" for w0 e0 v m
    using remove_keeps[OF that] remove_accounts[OF that(1)] by auto
  have held_kept: "e1 \<noteq> ERROR_SUCCESS \<Longrightarrow> held v1 = held w1" "e2 \<noteq> ERROR_SUCCESS \<Longrightarrow> held v2 = held w2"
    using removed(1)[OF r1] removed(1)[OF r2] by auto
  note ra = remove_accounts[OF r1] remove_accounts[OF r2] and rl = remove_load
  consider "e \<noteq> ERROR_SUCCESS" "w' = w1 \<or> w' = w" | "es = ERROR_NONE_MAPPED" "(e, w') = (e1, v1)"
    | "el = ERROR_SUCCESS" "brokerManaged r" "es = ERROR_SUCCESS" "SidEqual (tokens_of api) (accountSid r) s"
      "(e, w') = (if ed = ERROR_SUCCESS then (e2, v2) else (ed, w2))"
    using assms by (auto simp: RegistrationService_Delete_def l g d r1 r2 split: if_splits)
  then show ?thesis
  proof cases
    case 1
    with same show ?thesis by auto
  next
    case 2
    with same gone removed(1)[OF r1] ra held_kept(1) rl[of n w1 v1] r1 show ?thesis by auto
  next
    case 3
    with found l have "\<exists>a. enrolled_as api dir accounts w n a" by (auto simp: enrolled_as_def)
    with 3 same delete_user[OF d] removed(1)[OF r2] ra held_kept(2) rl[of n w2 v2] r2 show ?thesis
      by (auto simp: change_account_def same_name_refl split: if_splits)
  qed
qed

lemma KeepListed_keeps:
  assumes "KeepListed api dir n w = (keep, w')"
  shows "held w' = held w \<and> accounts w' = accounts w \<and> (keep \<longrightarrow> (\<exists>a. enrolled_as api dir accounts w n a))"
proof -
  obtain el r w1 where l: "EnrollmentStore_Load (store_of api) dir n w = ((el, r), w1)" by (metis surj_pair)
  obtain es s where g: "GetBrokerAccountSid (tokens_of api) n w1 = (es, s)" by fastforce
  show ?thesis
    using assms load_keeps[OF l] load_accounts[OF l] GetBrokerAccountSid_success[of n w1 s] g
    by (auto simp: KeepListed_def l g enrolled_as_def)
qed

lemma FilterListed_keeps:
  "FilterListed api dir ns w = (kept, w') \<Longrightarrow> held w' = held w \<and> accounts w' = accounts w
     \<and> set kept \<subseteq> set ns \<and> (\<forall>n \<in> set kept. \<exists>a v. held v = held w \<and> accounts v = accounts w \<and> enrolled_as api dir accounts v n a)"
proof (induction ns arbitrary: w kept)
  case (Cons n ns)
  obtain keep w1 where k: "KeepListed api dir n w = (keep, w1)" by fastforce
  obtain kept1 w2 where f: "FilterListed api dir ns w1 = (kept1, w2)" by fastforce
  from Cons.prems have eq: "kept = (if keep then n # kept1 else kept1)" "w' = w2" by (auto simp: k f)
  from Cons.IH[OF f[folded eq(2)]] KeepListed_keeps[OF k] show ?case
    by (cases keep) (auto simp: eq)
qed simp

end

section \<open>A reference machine\<close>

record machine = token_world +
  machine_accounts :: "wstring \<Rightarrow> account option"
  machine_rid :: byte

definition account_at :: "machine \<Rightarrow> wstring \<Rightarrow> account option" where
  "account_at m n = machine_accounts m (folded n)"

definition on_account :: "wstring \<Rightarrow> (account \<Rightarrow> account) \<Rightarrow> machine \<Rightarrow> dword \<times> machine" where
  "on_account n f m = (case account_at m n of
     None \<Rightarrow> (NERR_UserNotFound, m)
   | Some a \<Rightarrow> (NERR_Success, m\<lparr>machine_accounts := (machine_accounts m)(folded n \<mapsto> f a)\<rparr>))"

definition machine_tokens :: "machine token_api" where
  "machine_tokens = reference_tokens\<lparr>
     LookupAccountNameSize := (\<lambda>q m. if account_at m (drop 5 q) = None then (ERROR_NONE_MAPPED, 0, 0)
       else (ERROR_INSUFFICIENT_BUFFER, 16, 5)),
     LookupAccountNameW := (\<lambda>q m. case account_at m (drop 5 q) of
       None \<Rightarrow> (ERROR_NONE_MAPPED, [], 0)
     | Some a \<Rightarrow> if sid_length (acc_sid a) = length (acc_sid a) then (ERROR_SUCCESS, acc_sid a, SidTypeUser)
         else (ERROR_INVALID_SID, [], 0))\<rparr>"

definition reference_registration :: "machine registration_api" where
  "reference_registration = \<lparr>tokens_of = machine_tokens, store_of = reference_env,
     NetUserGetInfo4 = (\<lambda>n m. case account_at m n of
       None \<Rightarrow> (NERR_UserNotFound, None) | Some a \<Rightarrow> (NERR_Success, Some (acc_flags a))),
     NetUserSetFlags = (\<lambda>n fl. on_account n (\<lambda>a. a\<lparr>acc_flags := fl\<rparr>)),
     NetUserSetPassword = (\<lambda>n p. on_account n (\<lambda>a. a\<lparr>acc_password := p\<rparr>)),
     NetUserSetComment = (\<lambda>n c. on_account n (\<lambda>a. a\<lparr>acc_comment := c\<rparr>)),
     NetUserAdd = (\<lambda>info m. if account_at m (usri1_name info) \<noteq> None then (NERR_UserExists, m)
       else (NERR_Success, m\<lparr>machine_accounts := (machine_accounts m)(folded (usri1_name info) \<mapsto>
         \<lparr>acc_sid = [1, 2, 0, 0, 0, 0, 0, 5, 21, 0, 0, 0, machine_rid m, 3, 0, 0], acc_flags = usri1_flags info,
          acc_password = usri1_password info, acc_comment = usri1_comment info, acc_groups = []\<rparr>),
         machine_rid := machine_rid m + 1\<rparr>)),
     NetUserDel = (\<lambda>n m. if account_at m n = None then (NERR_UserNotFound, m)
       else (NERR_Success, m\<lparr>machine_accounts := (machine_accounts m)(folded n := None)\<rparr>)),
     NetUserGetLocalGroups = (\<lambda>n m. case account_at m n of
       None \<Rightarrow> (NERR_UserNotFound, []) | Some a \<Rightarrow> (NERR_Success, acc_groups a)),
     LookupGroupSid = (\<lambda>g. if g = wide ''Administrators''
       then (ERROR_SUCCESS, [1, 2, 0, 0, 0, 0, 0, 5, 32, 0, 0, 0, 32, 2, 0, 0])
       else if g = wide ''Users'' then (ERROR_SUCCESS, [1, 2, 0, 0, 0, 0, 0, 5, 32, 0, 0, 0, 33, 2, 0, 0])
       else (ERROR_NONE_MAPPED, []))\<rparr>"

definition machine_records :: "machine \<Rightarrow> wstring \<Rightarrow> byte list option" where
  "machine_records m n = disk_contents m (RecordPath (wide ''C:'') n)"

abbreviation same_folded :: "wstring \<Rightarrow> wstring \<Rightarrow> bool" where
  "same_folded m n \<equiv> folded m = folded n"

lemma reference_enrollments:
  "enrollments (EnrollmentStore_Load (store_of reference_registration) (wide ''C:''))
     (EnrollmentStore_Store (store_of reference_registration) (wide ''C:''))
     (EnrollmentStore_Remove (store_of reference_registration) (wide ''C:''))
     machine_records same_folded (\<lambda>s. sid_length s = length s)"
  using reference_store.enrollments_store[where dir = "wide ''C:''"]
  by (simp add: reference_registration_def machine_records_def[abs_def] reference_env_def)

lemma machine_view:
  "disk.more w' = disk.more w \<Longrightarrow> account_at w' = account_at w"
  by (cases w, cases w') (simp add: account_at_def fun_eq_iff)

interpretation reference_machine: managed_accounts reference_registration "wide ''C:''"
  machine_records same_folded "\<lambda>s. sid_length s = length s" account_at
proof (intro managed_accounts.intro reference_enrollments, unfold_locales, goal_cases)
  case (2 n w r w')
  then show ?case
    by (intro machine_view) (rule reference_frame.Load_view, simp add: reference_registration_def)
next
  case (3 n s managed w e w')
  then show ?case
    by (intro machine_view) (rule reference_frame.Store_view, simp add: reference_registration_def)
next
  case (4 n w e w')
  then show ?case
    by (intro machine_view) (rule reference_frame.Remove_view, simp add: reference_registration_def)
qed (auto simp: reference_registration_def machine_tokens_def reference_tokens_def on_account_def account_at_def
    machine_records_def disk_contents_def change_account_def LookupLocalUserSid_def wide_def fun_eq_iff Let_def
    split: option.splits if_splits)

definition example_machine :: machine where
  "example_machine = \<lparr>disk_files = (\<lambda>_. None), disk_free = 1000, world_tokens = (\<lambda>_. None), world_next = 4,
     world_accounts = (\<lambda>_. None), machine_accounts = [wide ''root'' \<mapsto>
       \<lparr>acc_sid = account_sid, acc_flags = 0x10200, acc_password = wide ''pw'', acc_comment = [],
        acc_groups = [wide ''Users'', wide ''Administrators'']\<rparr>], machine_rid = 1\<rparr>"

lemma example_registration:
  "fst (and_then (CreateBrokerManagedLocalAccount reference_registration (wide ''guest'')
       \<lparr>characters = cs, password_length = 32\<rparr>)
     (EnrollAccount reference_registration (wide ''C:'') (wide ''guest'')) example_machine) = ERROR_SUCCESS"
  by code_simp

definition example_enrolled :: machine where
  "example_enrolled = snd (and_then
     (CreateBrokerManagedLocalAccount reference_registration (wide ''guest'') example_password)
     (EnrollAccount reference_registration (wide ''C:'') (wide ''guest'')) example_machine)"

lemma example_not_enrolled:
  "EnrollmentStore_Load (store_of reference_registration) (wide ''C:'') (wide ''guest'') example_machine
     = ((ERROR_FILE_NOT_FOUND, EnrollmentRecord_default), example_machine)"
  by (simp add: EnrollmentStore_Load_def reference_registration_def reference_env_def disk_api_def
      disk_contents_def example_machine_def IsValidBrokerAccountName_def contains_any_def wide_def)

definition example_draws :: draws where
  "example_draws = replicate 63 (Some 1000)"

lemma example_password_generated:
  obtains p rest where "GenerateBrokerPassword SecurePassword_empty example_draws = Some ((ERROR_SUCCESS, p), rest)"
    and "password_length p = 32"
proof -
  have "63 \<le> accepted_draws example_draws" "None \<notin> set example_draws"
    by (simp_all add: example_draws_def accepted_draws_def accepted_def)
  then obtain p rest where g: "GenerateBrokerPassword SecurePassword_empty example_draws
      = Some ((ERROR_SUCCESS, p), rest)" using GenerateBrokerPassword_enough by blast
  then have "password_length p = 32"
  proof (rule GenerateBrokerPassword_success)
    fix cs new
    assume p: "p = SecurePassword_empty\<lparr>characters := cs @ [0], password_length := length cs\<rparr>"
      and "mset cs = mset new" and "list_all2 (\<lambda>c a. c \<in> set a) new
        ([Uppercase, Lowercase, Digits, Symbols] @ replicate 28 AllowedCharacters)"
    then have "length cs = length new" "length new = 32"
      using list_all2_lengthD mset_eq_length by fastforce+
    with p show ?thesis by simp
  qed
  with g that show ?thesis by blast
qed

lemma example_create:
  obtains w where "RegistrationService_Create reference_registration (wide ''C:'') (wide ''guest'') example_draws example_machine
    = Some (ERROR_SUCCESS, w)"
proof -
  obtain p rest where g: "GenerateBrokerPassword SecurePassword_empty example_draws = Some ((ERROR_SUCCESS, p), rest)"
    and "password_length p = 32" by (rule example_password_generated)
  then have p: "p = \<lparr>characters = characters p, password_length = 32\<rparr>" by simp
  have n: "IsValidBrokerAccountName (wide ''guest'')"
    by (simp add: IsValidBrokerAccountName_def contains_any_def wide_def)
  show ?thesis
    using that example_registration[of "characters p", folded p]
    by (simp add: RegistrationService_Create_def n example_not_enrolled g Let_def)
      (metis prod.collapse)
qed

section \<open>Properties\<close>

text \<open>
  C20: Registering an account, by creating it or by taking it over, enrolls it: when the call
  succeeds the account exists, is enabled with the required flags, carries the comment and the
  generated password, is not an administrator's, and its record, marked as broker managed, holds
  its own SID.
\<close>

theorem registration_enrolls:
  assumes "managed_accounts api dir held same_name complete accounts"
    and "RegistrationService_Create api dir n draws w = Some (ERROR_SUCCESS, w')
      \<or> RegistrationService_TakeOver api dir n force draws w = Some (ERROR_SUCCESS, w')"
  shows "\<exists>password rest a.
      GenerateBrokerPassword SecurePassword_empty draws = Some ((ERROR_SUCCESS, password), rest)
    \<and> accounts w' n = Some a \<and> managed_account api password a
    \<and> EnrollmentStore_Load (store_of api) dir n w'
        = ((ERROR_SUCCESS, \<lparr>accountSid = acc_sid a, brokerManaged = True\<rparr>), w')"
  using assms(2) managed_accounts.RegistrationService_Create_registered[OF assms(1), of n draws w]
    managed_accounts.RegistrationService_TakeOver_registered[OF assms(1), of n force draws w]
  by (fastforce simp: registered_def)

lemma registration_enrolls_witness:
  "\<exists>w' a. account_at w' (wide ''guest'') = Some a \<and> acc_comment a = ManagedAccountComment
    \<and> EnrollmentStore_Load (store_of reference_registration) (wide ''C:'') (wide ''guest'') w'
        = ((ERROR_SUCCESS, \<lparr>accountSid = acc_sid a, brokerManaged = True\<rparr>), w')"
proof -
  obtain w where "RegistrationService_Create reference_registration (wide ''C:'') (wide ''guest'')
    example_draws example_machine = Some (ERROR_SUCCESS, w)" by (rule example_create)
  with registration_enrolls[OF reference_machine.managed_accounts_axioms] show ?thesis
    unfolding managed_account_def by blast
qed

text \<open>
  C21: Registration is confined: whatever it returns, no other account and no other record changes;
  when it fails, no record changes at all; and an account that is, directly or indirectly, in the
  Administrators group is refused without being changed.
\<close>

theorem registration_confined:
  assumes "managed_accounts api dir held same_name complete accounts"
    and "RegistrationService_Create api dir n draws w = Some (e, w')
      \<or> RegistrationService_TakeOver api dir n force draws w = Some (e, w')"
  shows "(\<forall>m. \<not> same_name m n \<longrightarrow> held w' m = held w m \<and> accounts w' m = accounts w m)
    \<and> (e \<noteq> ERROR_SUCCESS \<longrightarrow> held w' = held w)
    \<and> (\<forall>a. accounts w n = Some a \<and> administrator api a \<longrightarrow> e \<noteq> ERROR_SUCCESS \<and> accounts w' = accounts w)"
  using assms(2) managed_accounts.RegistrationService_Create_registered[OF assms(1), of n draws w]
    managed_accounts.RegistrationService_TakeOver_registered[OF assms(1), of n force draws w]
  by (fastforce simp: registered_def split: if_split_asm)

lemma registration_confined_witness:
  "\<exists>w'. RegistrationService_Create reference_registration (wide ''C:'') (wide ''guest'') example_draws
      example_machine = Some (ERROR_SUCCESS, w')
    \<and> account_at w' (wide ''root'') = account_at example_machine (wide ''root'')"
proof -
  obtain w where w: "RegistrationService_Create reference_registration (wide ''C:'') (wide ''guest'')
    example_draws example_machine = Some (ERROR_SUCCESS, w)" by (rule example_create)
  have "\<not> same_folded (wide ''root'') (wide ''guest'')" by (simp add: wide_def ascii_lower_def)
  with registration_confined[OF reference_machine.managed_accounts_axioms disjI1[OF w]] w show ?thesis
    by blast
qed

text \<open>
  C22: A password is reset only for an account whose managed record holds the SID the account has
  now; a successful reset changes that password and nothing else, a refused or failed one changes
  no account and no record.
\<close>

theorem reset_password_guarded:
  assumes "managed_accounts api dir held same_name complete accounts"
    and "RegistrationService_ResetPassword api dir n password w = (e, w')"
  shows "held w' = held w \<and> (if e = ERROR_SUCCESS then (\<exists>a. enrolled_as api dir accounts w n a)
      \<and> accounts w' = change_account same_name n (map_option (\<lambda>a. a\<lparr>acc_password := password_text password\<rparr>)) (accounts w)
    else accounts w' = accounts w)"
  using managed_accounts.ResetPassword_guarded[OF assms] by auto

lemma reset_password_guarded_witness:
  "\<exists>a. fst (RegistrationService_ResetPassword reference_registration (wide ''C:'') (wide ''guest'') example_password
      example_enrolled) = ERROR_SUCCESS
    \<and> enrolled_as reference_registration (wide ''C:'') account_at
      example_enrolled (wide ''guest'') a"
proof -
  let ?r = "RegistrationService_ResetPassword reference_registration (wide ''C:'') (wide ''guest'') example_password example_enrolled"
  have ok: "fst ?r = ERROR_SUCCESS" by code_simp
  then have "?r = (ERROR_SUCCESS, snd ?r)" by (metis prod.collapse)
  from reset_password_guarded[OF reference_machine.managed_accounts_axioms this] ok show ?thesis by auto
qed

text \<open>
  C23: An account is deleted only if its managed record holds its SID; deleting never touches another
  account or record, after a success neither account nor record is left (also when the account was
  already gone), and after a failure every record is as it was, so that deleting can be repeated.
\<close>

theorem delete_guarded:
  assumes "managed_accounts api dir held same_name complete accounts"
    and "RegistrationService_Delete api dir n w = (e, w')"
  shows "(\<forall>m. \<not> same_name m n \<longrightarrow> held w' m = held w m \<and> accounts w' m = accounts w m)
    \<and> (accounts w' = accounts w \<or> (\<exists>a. enrolled_as api dir accounts w n a))
    \<and> (e = ERROR_SUCCESS \<longrightarrow> accounts w' n = None
        \<and> fst (fst (EnrollmentStore_Load (store_of api) dir n w')) = ERROR_FILE_NOT_FOUND)
    \<and> (e \<noteq> ERROR_SUCCESS \<longrightarrow> held w' = held w)"
  by (rule managed_accounts.Delete_guarded[OF assms])

lemma delete_guarded_witness:
  "account_at (snd (RegistrationService_Delete reference_registration (wide ''C:'') (wide ''guest'')
      example_enrolled)) (wide ''guest'') = None"
proof -
  let ?r = "RegistrationService_Delete reference_registration (wide ''C:'') (wide ''guest'') example_enrolled"
  have "fst ?r = ERROR_SUCCESS" by code_simp
  then have "?r = (ERROR_SUCCESS, snd ?r)" by (metis prod.collapse)
  from delete_guarded[OF reference_machine.managed_accounts_axioms this] show ?thesis by blast
qed

text \<open>
  Listing changes no account and no record, and lists only enrolled names whose managed record
  holds the SID the account has now.
\<close>

theorem list_enrolled:
  assumes "managed_accounts api dir held same_name complete accounts"
    and "RegistrationService_List api dir w = ((ERROR_SUCCESS, names), w')"
  shows "held w' = held w \<and> accounts w' = accounts w
    \<and> set names \<subseteq> set (snd (EnrollmentStore_List (store_of api) dir w))
    \<and> (\<forall>n \<in> set names. \<exists>a v. held v = held w \<and> accounts v = accounts w \<and> enrolled_as api dir accounts v n a)"
  using assms(2) managed_accounts.FilterListed_keeps[OF assms(1)]
  by (auto simp: RegistrationService_List_def split: prod.splits if_splits)

lemma list_enrolled_witness:
  "account_at (snd (RegistrationService_List reference_registration (wide ''C:'') example_machine))
     = account_at example_machine"
proof -
  let ?r = "RegistrationService_List reference_registration (wide ''C:'') example_machine"
  have "fst ?r = (ERROR_SUCCESS, [])" by code_simp
  with list_enrolled[OF reference_machine.managed_accounts_axioms, of example_machine "[]" "snd ?r"]
  show ?thesis by (metis prod.collapse)
qed

end
