(* ===== verification/CallerPolicy.thy ===== *)
theory CallerPolicy
  imports FileSystem
begin

text \<open>
  Who may use the broker, \<open>src/broker/BrokerCallerPolicy.cpp\<close>: one SID in a file. Main results: the
  policy is written and read back, it authorizes exactly its own SID, an interrupted write never
  authorizes anybody else, and an update that preserves the policy never replaces a readable or a
  damaged one.
\<close>

section \<open>Definitions\<close>

text \<open>The file and SID calls the policy uses.\<close>

record 'w policy_api =
  policy_files :: "'w files"
  policy_valid :: "sid \<Rightarrow> bool"
  policy_length :: "sid \<Rightarrow> nat"
  policy_equal :: "sid \<Rightarrow> sid \<Rightarrow> bool"

datatype AuthorizedCallerPolicyUpdate = Replace | Preserve

definition AuthorizedCallerPolicyFileName :: wstring where
  "AuthorizedCallerPolicyFileName = wide ''authorized-caller.sid''"

definition IsCompleteSid :: "'w policy_api \<Rightarrow> sid \<Rightarrow> bool" where
  "IsCompleteSid api s \<longleftrightarrow> s \<noteq> [] \<and> policy_valid api s \<and> policy_length api s = length s"

definition StoreAuthorizedCallerSid :: "'w policy_api \<Rightarrow> wstring \<Rightarrow> sid \<Rightarrow> 'w \<Rightarrow> dword \<times> 'w" where
  "StoreAuthorizedCallerSid api path callerSid w =
     (if path = [] \<or> \<not> policy_valid api callerSid then (ERROR_INVALID_SID, w)
      else
        (let F = policy_files api; n = policy_length api callerSid;
             (createError, w) = CreateAlways F path w
         in if createError \<noteq> ERROR_SUCCESS then (createError, w)
         else
           (let ((writeError, writtenBytes), w) = WriteFile F path (take n callerSid) w
            in (if writeError \<noteq> ERROR_SUCCESS then writeError
                else if writtenBytes = n then ERROR_SUCCESS else ERROR_WRITE_FAULT, w))))"

text \<open>\<open>GetFileSizeEx\<close> cannot be negative; the limit of a \<open>DWORD\<close> is above the largest SID.\<close>

definition LoadAuthorizedCallerSid :: "'w policy_api \<Rightarrow> wstring \<Rightarrow> 'w \<Rightarrow> dword \<times> sid" where
  "LoadAuthorizedCallerSid api path w =
     (if path = [] then (ERROR_INVALID_PARAMETER, [])
      else
        (let F = policy_files api; openError = OpenRead F path w in
         if openError \<noteq> ERROR_SUCCESS then (openError, [])
         else
           (let (sizeError, size) = GetFileSize F path w in
            if sizeError \<noteq> ERROR_SUCCESS then (sizeError, [])
            else if size = 0 \<or> size > SECURITY_MAX_SID_SIZE then (ERROR_INVALID_DATA, [])
            else
              (let (readError, callerSid) = ReadFile F path 0 size w in
               if readError \<noteq> ERROR_SUCCESS then (readError, [])
               else if length callerSid \<noteq> size \<or> \<not> IsCompleteSid api callerSid
               then (ERROR_INVALID_DATA, [])
               else (ERROR_SUCCESS, callerSid)))))"

definition UpdateAuthorizedCallerPolicy ::
  "'w policy_api \<Rightarrow> wstring \<Rightarrow> sid \<Rightarrow> AuthorizedCallerPolicyUpdate \<Rightarrow> 'w \<Rightarrow> dword \<times> 'w"
where
  "UpdateAuthorizedCallerPolicy api path callerSid update w =
     (let (loadError, existingCallerSid) = LoadAuthorizedCallerSid api path w in
      if update = Preserve \<and> loadError = ERROR_SUCCESS then (ERROR_SUCCESS, w)
      else if update = Preserve \<and> loadError \<noteq> ERROR_FILE_NOT_FOUND \<and> loadError \<noteq> ERROR_PATH_NOT_FOUND
      then (loadError, w)
      else StoreAuthorizedCallerSid api path callerSid w)"

definition IsAuthorizedCaller :: "'w policy_api \<Rightarrow> sid \<Rightarrow> sid \<Rightarrow> bool" where
  "IsAuthorizedCaller api authorizedCallerSid callerSid \<longleftrightarrow> IsCompleteSid api authorizedCallerSid
     \<and> IsCompleteSid api callerSid \<and> policy_equal api authorizedCallerSid callerSid"

definition GetAuthorizedCallerPolicyPath :: "wstring \<Rightarrow> wstring" where
  "GetAuthorizedCallerPolicyPath dataDirectory = dataDirectory @ wide [BS] @ AuthorizedCallerPolicyFileName"

section \<open>Contract\<close>

text \<open>
  Beyond the file and SID contracts: a file that cannot be created is left as it was, a failing
  write leaves some beginning of the bytes, and no proper beginning of a SID is a SID.
\<close>

locale caller_policy =
  file_system "policy_files api" contents lower + sid_api "policy_valid api" "policy_length api" "policy_equal api"
  for api :: "'w policy_api" and contents lower +
  assumes create_failure: "CreateAlways (policy_files api) p w = (e, w') \<Longrightarrow> e \<noteq> ERROR_SUCCESS
      \<Longrightarrow> contents w' = contents w"
    and write_partial: "WriteFile (policy_files api) p bs w = (r, w') \<Longrightarrow> contents w p = Some old
      \<Longrightarrow> \<exists>n. contents w' p = Some (old @ take n bs)"
    and open_error: "contents w p = None \<Longrightarrow> OpenRead (policy_files api) p w \<noteq> ERROR_SUCCESS"
    and no_prefix: "IsCompleteSid api s \<Longrightarrow> IsCompleteSid api (take n s) \<Longrightarrow> take n s = s"
begin

lemma Load_contents:
  "path \<noteq> [] \<Longrightarrow> contents w path = Some bs \<Longrightarrow> LoadAuthorizedCallerSid api path w =
     (if IsCompleteSid api bs then (ERROR_SUCCESS, bs) else (ERROR_INVALID_DATA, []))"
  using length_positive[of bs]
  by (auto simp: LoadAuthorizedCallerSid_def open_read file_size read_file IsCompleteSid_def)

lemma Load_None:
  "contents w path = None \<Longrightarrow> fst (LoadAuthorizedCallerSid api path w) \<noteq> ERROR_SUCCESS"
  using open_error by (simp add: LoadAuthorizedCallerSid_def)

lemma Store_outcome:
  assumes "StoreAuthorizedCallerSid api path s w = (e, w')" and "IsCompleteSid api s"
  shows "contents w' path = contents w path \<and> e \<noteq> ERROR_SUCCESS
    \<or> (\<exists>n. contents w' path = Some (take n s)) \<and> (e = ERROR_SUCCESS \<longrightarrow> path \<noteq> [] \<and> contents w' path = Some s)"
proof (cases "path = []")
  case True
  with assms show ?thesis by (simp add: StoreAuthorizedCallerSid_def)
next
  case False
  obtain e1 w1 where c: "CreateAlways (policy_files api) path w = (e1, w1)" by fastforce
  have n: "take (policy_length api s) s = s" "policy_length api s = length s" "policy_valid api s"
    using assms(2) by (auto simp: IsCompleteSid_def)
  obtain e2 k w2 where wr: "WriteFile (policy_files api) path s w1 = ((e2, k), w2)" by (metis surj_pair)
  note unfold = StoreAuthorizedCallerSid_def Let_def n c wr prod.case
  show ?thesis
  proof (cases "e1 = ERROR_SUCCESS")
    case True
    with create_success c have empty: "contents w1 path = Some []" by blast
    from write_partial[OF wr empty] write_success[of path s w1 k w2] wr empty assms(1) True False
    show ?thesis unfolding unfold by (auto simp: wr split: if_split_asm intro: exI[of _ "length s"])
  next
    case False
    with create_failure[OF c] assms(1) \<open>path \<noteq> []\<close> show ?thesis unfolding unfold by (auto split: if_split_asm)
  qed
qed

end

definition example_policy :: "'a disk_scheme policy_api" where
  "example_policy = \<lparr>policy_files = disk_api, policy_valid = sid_valid, policy_length = sid_length,
     policy_equal = sid_equal\<rparr>"

interpretation reference_policy: caller_policy example_policy
  disk_contents ascii_lower
proof (intro caller_policy.intro, goal_cases)
  case 1
  show ?case using reference_files.file_system_axioms by (simp add: example_policy_def)
next
  case 2
  show ?case using reference_sid.sid_api_axioms by (simp add: example_policy_def)
next
  case 3
  show ?case
  proof (unfold_locales, goal_cases)
    case (4 s n)
    show ?case
    proof (cases "n < length s")
      case True
      from 4(2) True have "8 \<le> n" by (auto simp: IsCompleteSid_def sid_valid_def example_policy_def)
      with 4 True show ?thesis by (auto simp: IsCompleteSid_def sid_length_def example_policy_def)
    qed simp
  qed (auto simp: example_policy_def disk_api_def disk_contents_def Let_def fun_eq_iff split: option.splits if_splits)
qed

section \<open>Properties\<close>

text \<open>
  C24: Storing the policy is read back as the same SID; and if storing fails at any point, what is
  read afterwards is the old policy, nothing, or the new SID, never another one, so that an
  interrupted update cannot authorize a third caller.
\<close>

theorem caller_policy_stored:
  assumes "caller_policy api contents lower"
    and "StoreAuthorizedCallerSid api path s w = (e, w')" and "IsCompleteSid api s"
  shows "(e = ERROR_SUCCESS \<longrightarrow> LoadAuthorizedCallerSid api path w' = (ERROR_SUCCESS, s))
    \<and> (\<forall>t. LoadAuthorizedCallerSid api path w' = (ERROR_SUCCESS, t) \<longrightarrow> t = s
        \<or> LoadAuthorizedCallerSid api path w = (ERROR_SUCCESS, t))"
proof (cases "path = []")
  case True
  with assms(2) show ?thesis
    by (auto simp: StoreAuthorizedCallerSid_def LoadAuthorizedCallerSid_def)
next
  case False
  note load = caller_policy.Load_contents[OF assms(1) False] caller_policy.Load_None[OF assms(1)]
  from caller_policy.Store_outcome[OF assms] show ?thesis
  proof
    assume same: "contents w' path = contents w path \<and> e \<noteq> ERROR_SUCCESS"
    have "LoadAuthorizedCallerSid api path w = (ERROR_SUCCESS, t)"
      if "LoadAuthorizedCallerSid api path w' = (ERROR_SUCCESS, t)" for t
      using that same load(1)[of w] load(1)[of w'] load(2)[of w' path]
      by (cases "contents w path") auto
    with same show ?thesis by blast
  next
    assume "(\<exists>n. contents w' path = Some (take n s)) \<and> (e = ERROR_SUCCESS \<longrightarrow> path \<noteq> [] \<and> contents w' path = Some s)"
    with load(1)[of w'] assms(3) caller_policy.no_prefix[OF assms(1) assms(3)] show ?thesis
      by (auto split: if_splits)
  qed
qed

definition caller_sid :: sid where
  "caller_sid = [1, 1, 0, 0, 0, 0, 0, 5, 18, 0, 0, 0]"

lemma caller_policy_stored_witness:
  "LoadAuthorizedCallerSid example_policy (wide ''p'') (snd (StoreAuthorizedCallerSid example_policy (wide ''p'')
      caller_sid \<lparr>disk_files = (\<lambda>_. None), disk_free = 100\<rparr>)) = (ERROR_SUCCESS, caller_sid)"
proof -
  let ?r = "StoreAuthorizedCallerSid example_policy (wide ''p'') caller_sid \<lparr>disk_files = (\<lambda>_. None), disk_free = 100\<rparr>"
  have "fst ?r = ERROR_SUCCESS" by code_simp
  then have "?r = (ERROR_SUCCESS, snd ?r)" by (metis prod.collapse)
  moreover have "IsCompleteSid example_policy caller_sid" by code_simp
  ultimately show ?thesis
    using caller_policy_stored[OF reference_policy.caller_policy_axioms] by blast
qed

text \<open>
  C25: An update that preserves the policy changes nothing unless there is no policy file: a readable
  policy stays, and a damaged one is an error, not a reason to authorize the new caller.
\<close>

theorem caller_policy_preserved:
  assumes "UpdateAuthorizedCallerPolicy api path s Preserve w = (e, w')" and "w' \<noteq> w"
  shows "fst (LoadAuthorizedCallerSid api path w) \<in> {ERROR_FILE_NOT_FOUND, ERROR_PATH_NOT_FOUND}"
  using assms by (auto simp: UpdateAuthorizedCallerPolicy_def split: prod.splits if_splits)

lemma caller_policy_preserved_witness:
  "fst (LoadAuthorizedCallerSid example_policy (wide ''p'') \<lparr>disk_files = (\<lambda>_. None), disk_free = 100\<rparr>)
     \<in> {ERROR_FILE_NOT_FOUND, ERROR_PATH_NOT_FOUND}"
proof (rule caller_policy_preserved)
  let ?d = "\<lparr>disk_files = (\<lambda>_. None), disk_free = 100\<rparr>"
  let ?r = "UpdateAuthorizedCallerPolicy example_policy (wide ''p'') caller_sid Preserve ?d"
  show "?r = (fst ?r, snd ?r)" by simp
  have "disk_free (snd ?r) = 88" by code_simp
  then show "snd ?r \<noteq> ?d" by auto
qed

text \<open>
  C26: The broker serves exactly the caller whose SID is the policy's: two complete SIDs are
  authorized only if they are the same, and an incomplete one never is.
\<close>

theorem authorized_caller_iff:
  assumes "sid_api (policy_valid api) (policy_length api) (policy_equal api)"
  shows "IsAuthorizedCaller api policy caller \<longleftrightarrow> IsCompleteSid api policy \<and> caller = policy"
  using sid_api.equal_sid[OF assms] by (auto simp: IsAuthorizedCaller_def IsCompleteSid_def)

lemma authorized_caller_iff_witness:
  "\<forall>caller. IsAuthorizedCaller example_policy caller_sid caller \<longleftrightarrow> caller = caller_sid"
proof -
  have "sid_api (policy_valid example_policy) (policy_length example_policy) (policy_equal example_policy)"
    using reference_sid.sid_api_axioms by (simp add: example_policy_def)
  moreover have "IsCompleteSid example_policy caller_sid" by code_simp
  ultimately show ?thesis using authorized_caller_iff by blast
qed

end
