(* ===== verification/BrokerAudit.thy ===== *)
theory BrokerAudit
  imports BrokerProtocol FileSystem
begin

text \<open>
  The audit trail of the broker: \<open>src/broker/BrokerAudit.cpp\<close>, which writes Windows events, and the
  event builders of \<open>src/broker/BrokerApplication.cpp\<close>. An event with a null character in a field is
  not written; the main result is that this never suppresses the event of a request, because the
  fields a client controls are validated or replaced.
\<close>

section \<open>The event log\<close>

record 'w audit_api =
  RegCreateKeyExW :: "wstring \<Rightarrow> 'w \<Rightarrow> dword \<times> 'w"
  RegSetValueExW :: "wstring \<Rightarrow> wstring \<Rightarrow> dword \<Rightarrow> 'w \<Rightarrow> dword \<times> 'w"
  RegDeleteTreeW :: "wstring \<Rightarrow> 'w \<Rightarrow> dword \<times> 'w"
  RegisterEventSourceW :: "wstring \<Rightarrow> 'w \<Rightarrow> dword"
  ReportEventW :: "16 word \<Rightarrow> dword \<Rightarrow> wstring list \<Rightarrow> 'w \<Rightarrow> dword \<times> 'w"
  ConvertSidToStringSidW :: "sid \<Rightarrow> wstring option"
  audit_IsValidSid :: "sid \<Rightarrow> bool"

abbreviation EVENTLOG_ERROR_TYPE :: "16 word" where "EVENTLOG_ERROR_TYPE \<equiv> 1"
abbreviation EVENTLOG_WARNING_TYPE :: "16 word" where "EVENTLOG_WARNING_TYPE \<equiv> 2"
abbreviation EVENTLOG_INFORMATION_TYPE :: "16 word" where "EVENTLOG_INFORMATION_TYPE \<equiv> 4"

datatype BrokerAuditEvent = LaunchAllowed | LaunchRejected | ConfigurationChanged | ConfigurationRejected
  | ControlPipeCreationFailed | SessionTeardownFailed | LaunchDiagnostic

fun event_id :: "BrokerAuditEvent \<Rightarrow> dword" where
  "event_id LaunchAllowed = 1"
| "event_id LaunchRejected = 2"
| "event_id ConfigurationChanged = 3"
| "event_id ConfigurationRejected = 4"
| "event_id ControlPipeCreationFailed = 5"
| "event_id SessionTeardownFailed = 6"
| "event_id LaunchDiagnostic = 7"

definition BrokerEventSource :: wstring where "BrokerEventSource = wide ''launch-as-broker''"
definition BrokerEventSourceRegistryPath :: wstring where
  "BrokerEventSourceRegistryPath = wide (''SYSTEM'' @ [BS] @ ''CurrentControlSet'' @ [BS] @ ''Services''
     @ [BS] @ ''EventLog'' @ [BS] @ ''Application'' @ [BS] @ ''launch-as-broker'')"

definition RegisterBrokerEventSource :: "'w audit_api \<Rightarrow> 'w \<Rightarrow> dword \<times> 'w" where
  "RegisterBrokerEventSource api w =
     (let (createStatus, w) = RegCreateKeyExW api BrokerEventSourceRegistryPath w in
      if createStatus \<noteq> ERROR_SUCCESS then (createStatus, w)
      else RegSetValueExW api BrokerEventSourceRegistryPath (wide ''TypesSupported'') (1 OR 2 OR 4) w)"

definition UnregisterBrokerEventSource :: "'w audit_api \<Rightarrow> 'w \<Rightarrow> dword \<times> 'w" where
  "UnregisterBrokerEventSource api w =
     (let (deleteStatus, w) = RegDeleteTreeW api BrokerEventSourceRegistryPath w
      in (if deleteStatus = ERROR_FILE_NOT_FOUND then ERROR_SUCCESS else deleteStatus, w))"

definition WriteBrokerAuditEvent ::
  "'w audit_api \<Rightarrow> 16 word \<Rightarrow> BrokerAuditEvent \<Rightarrow> wstring list \<Rightarrow> 'w \<Rightarrow> dword \<times> 'w"
where
  "WriteBrokerAuditEvent api type event eventFields w =
     (if length eventFields > 0xFFFF then (ERROR_INVALID_PARAMETER, w)
      else if list_ex (\<lambda>f. 0 \<in> set f) eventFields then (ERROR_INVALID_PARAMETER, w)
      else
        (let sourceError = RegisterEventSourceW api BrokerEventSource w in
         if sourceError \<noteq> ERROR_SUCCESS then (sourceError, w)
         else ReportEventW api type (event_id event) eventFields w))"

section \<open>The events of a request\<close>

record BrokerCallerIdentity =
  userSid :: sid
  caller_logonSid :: sid
  sessionId :: dword
  isElevated :: bool

definition to_wstring :: "dword \<Rightarrow> wstring" where
  "to_wstring d = wide (to_string d)"

definition AuditCallerSid :: "'w audit_api \<Rightarrow> BrokerCallerIdentity \<Rightarrow> wstring" where
  "AuditCallerSid api caller =
     (if userSid caller = [] \<or> \<not> audit_IsValidSid api (userSid caller) then wide ''unknown''
      else (case ConvertSidToStringSidW api (userSid caller) of None \<Rightarrow> wide ''unknown'' | Some text \<Rightarrow> text))"

definition AuditProfileId :: "string \<Rightarrow> wstring \<Rightarrow> wstring" where
  "AuditProfileId fieldName profile =
     (let v = (if IsValidProfileId profile then profile else wide ''<invalid>'')
      in wide fieldName @ wide ''='' @ v)"

definition AuditFields ::
  "'w audit_api \<Rightarrow> BrokerRequest \<Rightarrow> BrokerCallerIdentity \<Rightarrow> dword \<Rightarrow> dword \<Rightarrow> wstring \<Rightarrow> wstring list"
where
  "AuditFields api request caller result processId readScopePath =
     (let flag = (\<lambda>b. wide (if b then ''true'' else ''false'')) in
      [wide ''requestId='' @ requestId request,
       wide ''operation='' @ wide (RequestOperationName (operation request)),
       AuditProfileId ''account'' (profileId request),
       wide ''callerSid='' @ AuditCallerSid api caller,
       wide ''callerSession='' @ to_wstring (sessionId caller),
       wide ''restrictAccess='' @ flag (restrictAccess request),
       wide ''lowIntegrity='' @ flag (lowIntegrity request),
       wide ''log='' @ flag (log_access request),
       wide ''result='' @ wide (if result = ERROR_SUCCESS then ''allowed'' else ''rejected''),
       wide ''processId='' @ to_wstring processId,
       wide ''win32Error='' @ to_wstring result,
       wide ''readScopePath='' @ readScopePath])"

definition AuditRequest ::
  "'w audit_api \<Rightarrow> BrokerAuditEvent \<Rightarrow> 16 word \<Rightarrow> BrokerRequest \<Rightarrow> BrokerCallerIdentity \<Rightarrow> dword \<Rightarrow> dword
     \<Rightarrow> wstring \<Rightarrow> 'w \<Rightarrow> 'w"
where
  "AuditRequest api event type request caller result processId readScopePath w =
     snd (WriteBrokerAuditEvent api type event
       (AuditFields api request caller result processId readScopePath) w)"

definition LogLaunchAction ::
  "'w audit_api \<Rightarrow> wstring \<Rightarrow> wstring \<Rightarrow> wstring \<Rightarrow> wstring \<Rightarrow> dword \<Rightarrow> 'w \<Rightarrow> 'w"
where
  "LogLaunchAction api request account action path err w =
     snd (WriteBrokerAuditEvent api
       (if err = ERROR_SUCCESS then EVENTLOG_INFORMATION_TYPE else EVENTLOG_WARNING_TYPE) LaunchDiagnostic
       [wide ''requestId='' @ request, wide ''account='' @ account, wide ''action='' @ action,
        wide ''path='' @ path, wide ''win32Error='' @ to_wstring err] w)"

section \<open>No null characters\<close>

lemma zero_in_wide [simp]: "0 \<in> set (wide s) \<longleftrightarrow> CHR 0x00 \<in> set s"
proof -
  have "(0 :: wchar) = of_char c \<longleftrightarrow> c = CHR 0x00" for c
    using of_char_wchar_eq[of "CHR 0x00" c] by auto
  then show ?thesis by (auto simp: wide_def image_iff)
qed

lemma decimal_no_null: "CHR 0x00 \<notin> set (decimal n)"
  using decimal_digits[of n] by (auto simp: list_all_iff is_digit_def less_eq_char_def)

lemma to_wstring_no_null [simp]: "0 \<notin> set (to_wstring d)"
  by (simp add: to_wstring_def to_string_def decimal_no_null)

lemma IsRequestId_no_null:
  assumes "IsRequestId v"
  shows "0 \<notin> set v"
proof
  assume "0 \<in> set v"
  then obtain i where i: "i < length v" "v ! i = 0" by (auto simp: in_set_conv_nth)
  with assms have "(0 :: wchar) = WCHR CHR ''-'' \<or> hex_digit 0"
    by (auto simp: IsRequestId_def list_all_enumerate split: if_splits)
  then show False by (simp add: hex_digit_def)
qed

lemma AuditProfileId_no_null: "CHR 0x00 \<notin> set name \<Longrightarrow> 0 \<notin> set (AuditProfileId name p)"
  by (auto simp: AuditProfileId_def IsValidProfileId_def list_all_iff)

section \<open>Properties\<close>

text \<open>
  C27: No client can suppress the audit event of its request: for a request with a request id as the
  parser accepts it, whatever the account name and the result, the event has its twelve fields,
  none with a null character, so that it is handed to the event log whenever the log can be
  opened; it says "allowed" exactly for a success.
\<close>

theorem audit_request_written:
  assumes "IsRequestId (requestId request)" and "0 \<notin> set readScopePath"
    and "\<And>text. ConvertSidToStringSidW api (userSid caller) = Some text \<Longrightarrow> 0 \<notin> set text"
    and eventFields: "eventFields = AuditFields api request caller result processId readScopePath"
  shows "length eventFields = 12
    \<and> eventFields ! 8 = wide (if result = ERROR_SUCCESS then ''result=allowed'' else ''result=rejected'')
    \<and> AuditRequest api event type request caller result processId readScopePath w =
      (if RegisterEventSourceW api BrokerEventSource w = ERROR_SUCCESS
       then snd (ReportEventW api type (event_id event) eventFields w) else w)"
proof -
  have "0 \<notin> set (AuditCallerSid api caller)"
    using assms(3) by (auto simp: AuditCallerSid_def split: option.splits)
  moreover have "CHR 0x00 \<notin> set (RequestOperationName op)" for op by (cases op) simp_all
  ultimately have "\<not> list_ex (\<lambda>f. 0 \<in> set f) eventFields"
    using IsRequestId_no_null[OF assms(1)] assms(2)
    by (simp add: eventFields AuditFields_def AuditProfileId_no_null)
  moreover have l: "length eventFields = 12" by (simp add: eventFields AuditFields_def)
  moreover have "eventFields ! 8 = wide (if result = ERROR_SUCCESS then ''result=allowed'' else ''result=rejected'')"
    by (simp add: eventFields AuditFields_def wide_def)
  ultimately show ?thesis
    unfolding AuditRequest_def WriteBrokerAuditEvent_def eventFields[symmetric]
    by (simp add: Let_def)
qed

definition example_audit :: "wstring list list audit_api" where
  "example_audit = \<lparr>RegCreateKeyExW = (\<lambda>_ w. (ERROR_SUCCESS, w)), RegSetValueExW = (\<lambda>_ _ _ w. (ERROR_SUCCESS, w)),
     RegDeleteTreeW = (\<lambda>_ w. (ERROR_SUCCESS, w)), RegisterEventSourceW = (\<lambda>_ _. ERROR_SUCCESS),
     ReportEventW = (\<lambda>_ _ f w. (ERROR_SUCCESS, w @ [f])), ConvertSidToStringSidW = (\<lambda>_. Some (wide ''S-1-5-18'')),
     audit_IsValidSid = sid_valid\<rparr>"

definition example_caller :: BrokerCallerIdentity where
  "example_caller = \<lparr>userSid = [1, 1, 0, 0, 0, 0, 0, 5, 18, 0, 0, 0], caller_logonSid = [], sessionId = 1,
     isElevated = False\<rparr>"

lemma audit_request_written_witness:
  "length (AuditRequest example_audit LaunchRejected EVENTLOG_WARNING_TYPE
     (BrokerRequest_default\<lparr>requestId := example_id, profileId := [0]\<rparr>) example_caller ERROR_BUSY 0 [] []) = 1"
proof -
  have "IsRequestId (requestId (BrokerRequest_default\<lparr>requestId := example_id, profileId := [0]\<rparr>))"
    using example_valid by simp
  from audit_request_written[OF this _ _ refl, of "[]" example_audit example_caller ERROR_BUSY 0 LaunchRejected
      EVENTLOG_WARNING_TYPE "[]"]
  show ?thesis by (simp add: example_audit_def)
qed

end
