(* ===== verification/Sessions.thy ===== *)
theory Sessions
  imports BrokerAudit "HOL-Library.List_Lexorder"
begin

text \<open>
  The session table of \<open>src/broker/BrokerApplication.cpp\<close>: reserving, releasing and looking up
  sessions, with the routing of scope diagnostics to the requests that asked for them. Read scopes
  are of an abstract type \<open>'s\<close>; \<open>None\<close> as a result is the dereference of a null pointer. The steps
  of concurrent requests, each atomic under \<open>sessionMutex_\<close>, are an inductive relation; its
  invariant gives the limits, and that no null pointer is ever dereferenced.
\<close>

section \<open>The table\<close>

definition MaximumConcurrentSessions :: nat where "MaximumConcurrentSessions = 4"
definition MaximumConcurrentSessionsPerAccount :: nat where "MaximumConcurrentSessionsPerAccount = 2"

text \<open>\<open>std::set\<close> of request ids as the sorted list of its elements.\<close>

record ScopeLog =
  log_requests :: "wstring list"
  lastRequest :: wstring

text \<open>
  \<open>observer\<close> is the account name captured by the scope's observer, none when the scope has no
  observer; the log it captures is the \<open>session_log\<close> of the same entry.
\<close>

record 's AccountSessions =
  session_count :: nat
  readScope :: "'s option"
  session_log :: "ScopeLog option"
  observer :: "wstring option"

definition AccountSessions_empty :: "'s AccountSessions" where
  "AccountSessions_empty = \<lparr>session_count = 0, readScope = None, session_log = None, observer = None\<rparr>"

record 's session_table =
  sessionsByAccount :: "wstring \<Rightarrow> 's AccountSessions option"
  sessionCount :: nat

definition session_table_empty :: "'s session_table" where
  "session_table_empty = \<lparr>sessionsByAccount = (\<lambda>_. None), sessionCount = 0\<rparr>"

text \<open>
  \<open>fold_name\<close> maps names that \<open>_wcsicmp\<close> identifies to one key; \<open>Restore\<close> returns the actions the
  observer is told of, in order, and the scope as it is left.
\<close>

record ('w, 's) session_env =
  audit_of :: "'w audit_api"
  fold_name :: "wstring \<Rightarrow> wstring"
  new_scope :: 's
  Restore :: "'s \<Rightarrow> 'w \<Rightarrow> (dword \<times> (wstring \<times> wstring \<times> dword) list \<times> 's) \<times> 'w"

section \<open>Routing of diagnostics\<close>

definition ScopeLog_empty :: ScopeLog where
  "ScopeLog_empty = \<lparr>log_requests = [], lastRequest = []\<rparr>"

definition ScopeLog_Join :: "wstring \<Rightarrow> ScopeLog \<Rightarrow> ScopeLog" where
  "ScopeLog_Join request l = l\<lparr>lastRequest := request,
     log_requests := (if request \<in> set (log_requests l) then log_requests l else insort request (log_requests l))\<rparr>"

definition ScopeLog_Leave :: "wstring \<Rightarrow> ScopeLog \<Rightarrow> ScopeLog" where
  "ScopeLog_Leave request l = l\<lparr>log_requests := remove1 request (log_requests l)\<rparr>"

definition ScopeLog_Record ::
  "'w audit_api \<Rightarrow> ScopeLog \<Rightarrow> wstring \<Rightarrow> wstring \<Rightarrow> wstring \<Rightarrow> dword \<Rightarrow> 'w \<Rightarrow> 'w"
where
  "ScopeLog_Record api l account action path err w =
     (let w = fold (\<lambda>request. LogLaunchAction api request account action path err) (log_requests l) w in
      if log_requests l = [] \<and> lastRequest l \<noteq> [] then LogLaunchAction api (lastRequest l) account action path err w
      else w)"

text \<open>
  \<open>Restore\<close> of an entry's scope: its actions go to the observer; a success clears the observer.
\<close>

definition RestoreScope ::
  "('w, 's) session_env \<Rightarrow> 's AccountSessions \<Rightarrow> 'w \<Rightarrow> (dword \<times> 's AccountSessions) \<times> 'w"
where
  "RestoreScope env e w =
     (case readScope e of
        None \<Rightarrow> ((ERROR_SUCCESS, e), w)
      | Some scope \<Rightarrow>
          (let ((err, actions, scope'), w) = Restore env scope w;
               w = (case (observer e, session_log e) of
                      (Some account, Some l) \<Rightarrow>
                        fold (\<lambda>(action, path, actionError). ScopeLog_Record (audit_of env) l account action path actionError)
                          actions w
                    | _ \<Rightarrow> w)
           in ((err, e\<lparr>readScope := Some scope',
                       observer := (if err = ERROR_SUCCESS then None else observer e)\<rparr>), w)))"

section \<open>Reserving and releasing\<close>

text \<open>The part of \<open>TryReserveSession\<close> that joins the log and sets the observer.\<close>

definition AttachLog :: "BrokerRequest \<Rightarrow> 's AccountSessions \<Rightarrow> 's AccountSessions option" where
  "AttachLog request e =
     (case readScope e of
        None \<Rightarrow> Some e
      | Some _ \<Rightarrow>
          (let e = (if session_count e = 0 then e\<lparr>session_log := Some ScopeLog_empty\<rparr> else e) in
           if log_access request then
             (case session_log e of
                None \<Rightarrow> None
              | Some l \<Rightarrow> Some (e\<lparr>session_log := Some (ScopeLog_Join (requestId request) l),
                                 observer := Some (profileId request)\<rparr>))
           else Some (e\<lparr>observer := Some (profileId request)\<rparr>)))"

definition TryReserveSession ::
  "('w, 's) session_env \<Rightarrow> BrokerRequest \<Rightarrow> 's session_table \<Rightarrow> 'w \<Rightarrow> ((bool \<times> 's session_table) \<times> 'w) option"
where
  "TryReserveSession env request st w =
     (if sessionCount st \<ge> MaximumConcurrentSessions then Some ((False, st), w)
      else
        (let account = fold_name env (profileId request); existing = sessionsByAccount st account in
         if (case existing of None \<Rightarrow> False
             | Some e \<Rightarrow> session_count e \<ge> MaximumConcurrentSessionsPerAccount
                 \<or> (readScope e \<noteq> None) \<noteq> restrictAccess request)
         then Some ((False, st), w)
         else
           (let e = (case existing of None \<Rightarrow> AccountSessions_empty | Some e \<Rightarrow> e);
                e = (if restrictAccess request \<and> readScope e = None then e\<lparr>readScope := Some (new_scope env)\<rparr> else e);
                ((restoreError, e), w) = (if session_count e = 0 then RestoreScope env e w else ((ERROR_SUCCESS, e), w))
            in if restoreError \<noteq> ERROR_SUCCESS
               then Some ((False, st\<lparr>sessionsByAccount := (sessionsByAccount st)(account \<mapsto> e)\<rparr>), w)
               else
                 (case AttachLog request e of
                    None \<Rightarrow> None
                  | Some e \<Rightarrow> Some ((True, st\<lparr>sessionsByAccount := (sessionsByAccount st)(account \<mapsto>
                        e\<lparr>session_count := session_count e + 1\<rparr>), sessionCount := sessionCount st + 1\<rparr>), w)))))"

definition ReleaseSession ::
  "('w, 's) session_env \<Rightarrow> BrokerRequest \<Rightarrow> 's session_table \<Rightarrow> 'w \<Rightarrow> ((dword \<times> 's session_table) \<times> 'w) option"
where
  "ReleaseSession env request st w =
     (let account = fold_name env (profileId request) in
      case sessionsByAccount st account of
        None \<Rightarrow> Some ((ERROR_SUCCESS, st), w)
      | Some e \<Rightarrow>
          if session_count e = 0 then Some ((ERROR_SUCCESS, st), w)
          else
            (let e = e\<lparr>session_count := session_count e - 1\<rparr>;
                 st = st\<lparr>sessionCount := sessionCount st - 1\<rparr>;
                 leave = (\<lambda>l. ScopeLog_Leave (requestId request) l)
             in if session_count e = 0 then
                  (let ((restoreError, e), w) = RestoreScope env e w in
                   if restoreError \<noteq> ERROR_SUCCESS then
                     (case session_log e of
                        None \<Rightarrow> None
                      | Some l \<Rightarrow> Some ((restoreError, st\<lparr>sessionsByAccount :=
                          (sessionsByAccount st)(account \<mapsto> e\<lparr>session_log := Some (leave l)\<rparr>)\<rparr>), w))
                   else Some ((ERROR_SUCCESS, st\<lparr>sessionsByAccount := (sessionsByAccount st)(account := None)\<rparr>), w))
                else Some ((ERROR_SUCCESS, st\<lparr>sessionsByAccount := (sessionsByAccount st)(account \<mapsto>
                       e\<lparr>session_log := map_option leave (session_log e)\<rparr>)\<rparr>), w)))"

definition HasActiveSession :: "('w, 's) session_env \<Rightarrow> wstring \<Rightarrow> 's session_table \<Rightarrow> bool" where
  "HasActiveSession env accountName st \<longleftrightarrow> sessionsByAccount st (fold_name env accountName) \<noteq> None"

section \<open>Concurrent requests\<close>

text \<open>
  The state of the broker: the table, the world, and the requests that hold a session. A request
  may reserve at any time; only a holder releases, once. Between these steps, the holder of a
  restricted session changes its scope (\<open>Ensure\<close>), and the rest of the world may change.
\<close>

record ('w, 's) broker_state =
  table :: "'s session_table"
  holders :: "BrokerRequest list"
  world :: 'w

inductive session_step :: "('w, 's) session_env \<Rightarrow> ('w, 's) broker_state \<Rightarrow> ('w, 's) broker_state \<Rightarrow> bool"
  for env where
  reserve: "TryReserveSession env request (table b) (world b) = Some ((True, st), w) \<Longrightarrow>
     session_step env b (b\<lparr>table := st, holders := request # holders b, world := w\<rparr>)"
| refuse: "TryReserveSession env request (table b) (world b) = Some ((False, st), w) \<Longrightarrow>
     session_step env b (b\<lparr>table := st, world := w\<rparr>)"
| release: "request \<in> set (holders b) \<Longrightarrow>
     ReleaseSession env request (table b) (world b) = Some ((e, st), w) \<Longrightarrow>
     session_step env b (b\<lparr>table := st, holders := remove1 request (holders b), world := w\<rparr>)"
| ensure: "request \<in> set (holders b) \<Longrightarrow>
     sessionsByAccount (table b) (fold_name env (profileId request)) = Some e \<Longrightarrow> readScope e \<noteq> None \<Longrightarrow>
     session_step env b (b\<lparr>table := (table b)\<lparr>sessionsByAccount := (sessionsByAccount (table b))
       (fold_name env (profileId request) \<mapsto> e\<lparr>readScope := Some scope\<rparr>)\<rparr>, world := w\<rparr>)"

inductive session_reachable :: "('w, 's) session_env \<Rightarrow> ('w, 's) broker_state \<Rightarrow> bool"
  for env where
  start: "session_reachable env \<lparr>table = session_table_empty, holders = [], world = w\<rparr>"
| step: "session_reachable env b \<Longrightarrow> session_step env b b' \<Longrightarrow> session_reachable env b'"

inductive_cases session_stepE: "session_step env b b'"
inductive_simps session_step_simps: "session_step env b b'"

section \<open>The invariant\<close>

definition held_by :: "('w, 's) session_env \<Rightarrow> BrokerRequest list \<Rightarrow> wstring \<Rightarrow> BrokerRequest list" where
  "held_by env hs account = filter (\<lambda>r. fold_name env (profileId r) = account) hs"

text \<open>
  Of one account: the count is the number of holders; a counted scope has a log; a scope is there
  exactly for restricted holders, and an entry without holders only to keep a scope.
\<close>

definition entry_ok :: "BrokerRequest list \<Rightarrow> 's AccountSessions option \<Rightarrow> bool" where
  "entry_ok hs entry \<longleftrightarrow> (case entry of
     None \<Rightarrow> hs = []
   | Some e \<Rightarrow> session_count e = length hs \<and> length hs \<le> MaximumConcurrentSessionsPerAccount
       \<and> (hs \<noteq> [] \<and> readScope e \<noteq> None \<longrightarrow> session_log e \<noteq> None)
       \<and> (observer e \<noteq> None \<longrightarrow> session_log e \<noteq> None)
       \<and> (hs = [] \<longrightarrow> readScope e \<noteq> None)
       \<and> (\<forall>r \<in> set hs. restrictAccess r = (readScope e \<noteq> None)))"

definition sessions_ok :: "('w, 's) session_env \<Rightarrow> ('w, 's) broker_state \<Rightarrow> bool" where
  "sessions_ok env b \<longleftrightarrow> sessionCount (table b) = length (holders b)
     \<and> length (holders b) \<le> MaximumConcurrentSessions
     \<and> (\<forall>account. entry_ok (held_by env (holders b) account) (sessionsByAccount (table b) account))"

lemma held_by_Cons [simp]:
  "held_by env (r # hs) account = (if fold_name env (profileId r) = account then r # held_by env hs account
     else held_by env hs account)"
  by (simp add: held_by_def)

lemma held_by_remove1:
  "held_by env (remove1 r hs) account = remove1 r (held_by env hs account)"
  by (simp add: held_by_def filter_remove1)

lemma held_by_other: "fold_name env (profileId r) \<noteq> account \<Longrightarrow> remove1 r (held_by env hs account) = held_by env hs account"
  by (rule remove1_idem) (simp add: held_by_def)

lemma holder_held_by: "r \<in> set hs \<Longrightarrow> r \<in> set (held_by env hs (fold_name env (profileId r)))"
  by (simp add: held_by_def)

lemma RestoreScope_frame:
  assumes "RestoreScope env e w = ((err, e'), w')"
  shows "session_count e' = session_count e \<and> (readScope e' = None \<longleftrightarrow> readScope e = None)
    \<and> session_log e' = session_log e \<and> (observer e' \<noteq> None \<longrightarrow> observer e \<noteq> None)
    \<and> (readScope e = None \<longrightarrow> err = ERROR_SUCCESS)"
  using assms by (auto simp: RestoreScope_def Let_def split: option.splits prod.splits if_splits)

lemma AttachLog_Some:
  assumes "session_count e \<noteq> 0 \<and> readScope e \<noteq> None \<longrightarrow> session_log e \<noteq> None"
  shows "\<exists>e'. AttachLog request e = Some e' \<and> session_count e' = session_count e
    \<and> (readScope e' = None \<longleftrightarrow> readScope e = None) \<and> (readScope e \<noteq> None \<longrightarrow> session_log e' \<noteq> None)
    \<and> (readScope e = None \<longrightarrow> e' = e)"
  using assms by (auto simp: AttachLog_def Let_def split: option.splits)

text \<open>Changing the entry of one account, with the holders of that account.\<close>

lemma sessions_ok_update:
  assumes "sessions_ok env b" and "entry_ok (held_by env (holders b') account) entry"
    and "sessionsByAccount (table b') = (sessionsByAccount (table b))(account := entry)"
    and "\<And>a. a \<noteq> account \<Longrightarrow> held_by env (holders b') a = held_by env (holders b) a"
    and "sessionCount (table b') = length (holders b')" and "length (holders b') \<le> MaximumConcurrentSessions"
  shows "sessions_ok env b'"
  using assms by (simp add: sessions_ok_def)

lemma TryReserve_ok:
  assumes ok: "sessions_ok env b"
  obtains (refused) st w where "TryReserveSession env r (table b) (world b) = Some ((False, st), w)"
      "sessions_ok env (b\<lparr>table := st, world := w\<rparr>)"
    | (reserved) st w where "TryReserveSession env r (table b) (world b) = Some ((True, st), w)"
      "sessions_ok env (b\<lparr>table := st, holders := r # holders b, world := w\<rparr>)"
proof -
  let ?account = "fold_name env (profileId r)"
  let ?entry = "sessionsByAccount (table b) ?account" and ?hs = "held_by env (holders b) ?account"
  from ok have e: "entry_ok ?hs ?entry" and n: "sessionCount (table b) = length (holders b)"
    by (simp_all add: sessions_ok_def)
  have same: "sessions_ok env (b\<lparr>table := table b, world := world b\<rparr>)" using ok by simp
  show thesis
  proof (cases "sessionCount (table b) \<ge> MaximumConcurrentSessions \<or> (case ?entry of None \<Rightarrow> False
      | Some e \<Rightarrow> session_count e \<ge> MaximumConcurrentSessionsPerAccount \<or> (readScope e \<noteq> None) \<noteq> restrictAccess r)")
    case True
    then have "TryReserveSession env r (table b) (world b) = Some ((False, table b), world b)"
      by (auto simp: TryReserveSession_def Let_def)
    from this same show thesis by (rule refused)
  next
    case False
    define e0 where "e0 = (case ?entry of None \<Rightarrow> AccountSessions_empty | Some e \<Rightarrow> e)"
    define e1 where "e1 = (if restrictAccess r \<and> readScope e0 = None then e0\<lparr>readScope := Some (new_scope env)\<rparr> else e0)"
    obtain err e2 w2 where restore:
      "(if session_count e1 = 0 then RestoreScope env e1 (world b) else ((ERROR_SUCCESS, e1), world b)) = ((err, e2), w2)"
      by (metis surj_pair)
    have scope: "(readScope e1 \<noteq> None) = restrictAccess r"
      using False e by (auto simp: e1_def e0_def AccountSessions_empty_def split: option.splits)
    have e1: "session_count e1 = length ?hs" "length ?hs < MaximumConcurrentSessionsPerAccount"
      "?hs \<noteq> [] \<and> readScope e1 \<noteq> None \<longrightarrow> session_log e1 \<noteq> None" "observer e1 \<noteq> None \<longrightarrow> session_log e1 \<noteq> None"
      "\<forall>h \<in> set ?hs. restrictAccess h = (readScope e1 \<noteq> None)"
      using False e by (auto simp: e1_def e0_def AccountSessions_empty_def entry_ok_def
          MaximumConcurrentSessionsPerAccount_def split: option.splits)
    have e2: "session_count e2 = length ?hs" "(readScope e2 = None) = (readScope e1 = None)"
      "session_log e2 = session_log e1" "observer e2 \<noteq> None \<longrightarrow> observer e1 \<noteq> None"
      "readScope e1 = None \<longrightarrow> err = ERROR_SUCCESS" "err \<noteq> ERROR_SUCCESS \<longrightarrow> ?hs = []"
      using restore e1 by (auto split: if_split_asm dest!: RestoreScope_frame)
    note start = TryReserveSession_def Let_def e0_def[symmetric] e1_def[symmetric] restore prod.case
    show thesis
    proof (cases "err = ERROR_SUCCESS")
      case error: False
      have "TryReserveSession env r (table b) (world b) = Some ((False, (table b)\<lparr>sessionsByAccount :=
          (sessionsByAccount (table b))(?account \<mapsto> e2)\<rparr>), w2)"
        using False error unfolding start by auto
      then show thesis
      proof (rule refused)
        show "sessions_ok env (b\<lparr>table := (table b)\<lparr>sessionsByAccount := (sessionsByAccount (table b))(?account \<mapsto> e2)\<rparr>,
            world := w2\<rparr>)"
          by (rule sessions_ok_update[OF ok, where account = ?account and entry = "Some e2"])
            (use ok e1 e2 error in \<open>auto simp: entry_ok_def sessions_ok_def\<close>)
      qed
    next
      case True
      have "session_count e2 \<noteq> 0 \<and> readScope e2 \<noteq> None \<longrightarrow> session_log e2 \<noteq> None"
        unfolding e2(1-3) using e1(3) by simp
      from AttachLog_Some[OF this, of r] obtain e3 where a: "AttachLog r e2 = Some e3" "session_count e3 = session_count e2"
        "(readScope e3 = None) = (readScope e2 = None)" "readScope e2 \<noteq> None \<longrightarrow> session_log e3 \<noteq> None"
        "readScope e2 = None \<longrightarrow> e3 = e2"
        by (elim exE conjE) (rule that)
      let ?b = "b\<lparr>table := (table b)\<lparr>sessionsByAccount := (sessionsByAccount (table b))(?account \<mapsto>
          e3\<lparr>session_count := session_count e3 + 1\<rparr>), sessionCount := sessionCount (table b) + 1\<rparr>,
        holders := r # holders b, world := w2\<rparr>"
      have "TryReserveSession env r (table b) (world b) = Some ((True, table ?b), world ?b)"
        using False True unfolding start by (simp add: a(1))
      moreover have "sessions_ok env ?b"
        by (rule sessions_ok_update[OF ok, where account = ?account and
              entry = "Some (e3\<lparr>session_count := session_count e3 + 1\<rparr>)"])
          (use False n e1 e2 a scope in \<open>auto simp: entry_ok_def\<close>)
      ultimately show thesis by (intro reserved[of "table ?b" w2]) auto
    qed
  qed
qed

lemma Release_ok:
  assumes ok: "sessions_ok env b" and r: "r \<in> set (holders b)"
  obtains e st w where "ReleaseSession env r (table b) (world b) = Some ((e, st), w)"
    and "sessions_ok env (b\<lparr>table := st, holders := remove1 r (holders b), world := w\<rparr>)"
    and "e \<noteq> ERROR_SUCCESS \<Longrightarrow> \<exists>en scope actions scope' w' en'.
      sessionsByAccount (table b) (fold_name env (profileId r)) = Some en \<and> readScope en = Some scope
      \<and> Restore env scope (world b) = ((e, actions, scope'), w')
      \<and> sessionsByAccount st (fold_name env (profileId r)) = Some en' \<and> session_count en' = 0 \<and> readScope en' = Some scope'"
proof -
  let ?account = "fold_name env (profileId r)"
  let ?hs = "held_by env (holders b) ?account"
  from ok have n: "sessionCount (table b) = length (holders b)" by (simp add: sessions_ok_def)
  have mem: "r \<in> set ?hs" using holder_held_by[OF r] .
  have entry: "entry_ok ?hs (sessionsByAccount (table b) ?account)" using ok by (simp add: sessions_ok_def)
  with mem obtain e where e: "sessionsByAccount (table b) ?account = Some e"
    by (cases "sessionsByAccount (table b) ?account") (auto simp: entry_ok_def)
  with entry have eok: "entry_ok ?hs (Some e)" by simp
  define e1 where "e1 = e\<lparr>session_count := session_count e - 1\<rparr>"
  from eok mem have len: "session_count e = length ?hs" "length ?hs \<noteq> 0" "length (remove1 r ?hs) = session_count e1"
    "readScope e \<noteq> None \<longrightarrow> session_log e \<noteq> None"
    by (auto simp: entry_ok_def e1_def length_remove1)
  have bound: "length (remove1 r (holders b)) \<le> MaximumConcurrentSessions"
    using ok by (auto simp: sessions_ok_def length_remove1)
  have count: "sessionCount (table b) - 1 = length (remove1 r (holders b))"
    using r n by (simp add: length_remove1)
  have other: "a \<noteq> ?account \<Longrightarrow> held_by env (remove1 r (holders b)) a = held_by env (holders b) a" for a
    by (simp add: held_by_remove1 held_by_other)
  have sub: "set (remove1 r ?hs) \<subseteq> set ?hs" by (rule set_remove1_subset)
  note update = sessions_ok_update[OF ok, where account = ?account]
  obtain err e2 w2 where restore: "RestoreScope env e1 (world b) = ((err, e2), w2)" by (metis surj_pair)
  from RestoreScope_frame[OF restore] have e2: "session_count e2 = session_count e1"
    "(readScope e2 = None) = (readScope e = None)" "session_log e2 = session_log e"
    "observer e2 \<noteq> None \<longrightarrow> observer e \<noteq> None" "readScope e = None \<longrightarrow> err = ERROR_SUCCESS"
    by (simp_all add: e1_def)
  note start = ReleaseSession_def Let_def e option.case e1_def[symmetric] restore prod.case
  consider (partly) "session_count e1 \<noteq> 0" | (last) "session_count e1 = 0" "err = ERROR_SUCCESS"
    | (retained) "session_count e1 = 0" "err \<noteq> ERROR_SUCCESS" by blast
  then show thesis
  proof cases
    case partly
    have c: "ReleaseSession env r (table b) (world b) = Some ((ERROR_SUCCESS, (table b)\<lparr>sessionCount := sessionCount (table b) - 1,
        sessionsByAccount := (sessionsByAccount (table b))(?account \<mapsto>
          e1\<lparr>session_log := map_option (ScopeLog_Leave (requestId r)) (session_log e1)\<rparr>)\<rparr>), world b)"
      using partly len unfolding start by simp
    show thesis
    proof (rule that[OF c])
      show "sessions_ok env (b\<lparr>table := (table b)\<lparr>sessionCount := sessionCount (table b) - 1,
        sessionsByAccount := (sessionsByAccount (table b))(?account \<mapsto>
          e1\<lparr>session_log := map_option (ScopeLog_Leave (requestId r)) (session_log e1)\<rparr>)\<rparr>,
        holders := remove1 r (holders b), world := world b\<rparr>)"
        by (rule update[where entry = "Some (e1\<lparr>session_log := map_option (ScopeLog_Leave (requestId r)) (session_log e1)\<rparr>)"])
          (use eok len partly sub other bound count in \<open>auto simp: held_by_remove1 entry_ok_def e1_def\<close>)
    qed simp
  next
    case last
    have c: "ReleaseSession env r (table b) (world b) = Some ((ERROR_SUCCESS, (table b)\<lparr>sessionCount := sessionCount (table b) - 1,
        sessionsByAccount := (sessionsByAccount (table b))(?account := None)\<rparr>), w2)"
      using last len unfolding start by simp
    show thesis
    proof (rule that[OF c])
      show "sessions_ok env (b\<lparr>table := (table b)\<lparr>sessionCount := sessionCount (table b) - 1,
        sessionsByAccount := (sessionsByAccount (table b))(?account := None)\<rparr>,
        holders := remove1 r (holders b), world := w2\<rparr>)"
        by (rule update[where entry = None])
          (use last len other bound count in \<open>auto simp: held_by_remove1 entry_ok_def\<close>)
    qed simp
  next
    case retained
    with e2 len obtain l where l: "session_log e2 = Some l" "readScope e2 \<noteq> None" by auto
    let ?e = "e2\<lparr>session_log := Some (ScopeLog_Leave (requestId r) l)\<rparr>"
    have c: "ReleaseSession env r (table b) (world b) = Some ((err, (table b)\<lparr>sessionCount := sessionCount (table b) - 1,
        sessionsByAccount := (sessionsByAccount (table b))(?account \<mapsto> ?e)\<rparr>), w2)"
      using retained len l unfolding start by simp
    show thesis
    proof (rule that[OF c])
      show "sessions_ok env (b\<lparr>table := (table b)\<lparr>sessionCount := sessionCount (table b) - 1,
        sessionsByAccount := (sessionsByAccount (table b))(?account \<mapsto> ?e)\<rparr>,
        holders := remove1 r (holders b), world := w2\<rparr>)"
        by (rule update[where entry = "Some ?e"])
          (use retained len l e2 other bound count in \<open>auto simp: held_by_remove1 entry_ok_def\<close>)
    next
      from retained(2) e2(5) obtain scope where scope: "readScope e = Some scope" by auto
      with restore obtain actions scope' w' where "Restore env scope (world b) = ((err, actions, scope'), w')"
        "readScope e2 = Some scope'"
        by (auto simp: RestoreScope_def e1_def Let_def split: prod.splits)
      with scope e e2(1) retained(1) show "\<exists>en scope actions scope' w' en'.
          sessionsByAccount (table b) (fold_name env (profileId r)) = Some en \<and> readScope en = Some scope
          \<and> Restore env scope (world b) = ((err, actions, scope'), w')
          \<and> sessionsByAccount ((table b)\<lparr>sessionCount := sessionCount (table b) - 1,
            sessionsByAccount := (sessionsByAccount (table b))(?account \<mapsto> ?e)\<rparr>) (fold_name env (profileId r)) = Some en'
          \<and> session_count en' = 0 \<and> readScope en' = Some scope'" by simp
    qed
  qed
qed

lemma session_step_ok:
  assumes "session_step env b b'" and ok: "sessions_ok env b"
  shows "sessions_ok env b'"
  using assms(1)
proof cases
  case (reserve request st w)
  from TryReserve_ok[OF ok, of request] show ?thesis
    by cases (use reserve in simp_all)
next
  case (refuse request st w)
  from TryReserve_ok[OF ok, of request] show ?thesis
    by cases (use refuse in simp_all)
next
  case (release request e st w)
  from Release_ok[OF ok release(2)] obtain e' st' w' where
    "ReleaseSession env request (table b) (world b) = Some ((e', st'), w')"
    "sessions_ok env (b\<lparr>table := st', holders := remove1 request (holders b), world := w'\<rparr>)" by metis
  with release show ?thesis by simp
next
  case (ensure request e w scope)
  have "entry_ok (held_by env (holders b) (fold_name env (profileId request))) (Some e)"
    using ok ensure(3) unfolding sessions_ok_def by metis
  with ensure ok show ?thesis
    unfolding ensure(1)
    by (intro sessions_ok_update[OF ok, where account = "fold_name env (profileId request)"
          and entry = "Some (e\<lparr>readScope := Some scope\<rparr>)"]) (auto simp: entry_ok_def sessions_ok_def)
qed

lemma session_reachable_ok: "session_reachable env b \<Longrightarrow> sessions_ok env b"
proof (induction rule: session_reachable.induct)
  case (start w)
  show ?case by (simp add: sessions_ok_def session_table_empty_def entry_ok_def held_by_def)
next
  case (step b b')
  from session_step_ok[OF step.hyps(2) step.IH] show ?case .
qed

section \<open>A retained scope\<close>

text \<open>An account without sessions whose scope \<open>scope\<close> could not be restored.\<close>

definition retains :: "('w, 's) broker_state \<Rightarrow> wstring \<Rightarrow> 's \<Rightarrow> bool" where
  "retains b account scope \<longleftrightarrow> (\<exists>e. sessionsByAccount (table b) account = Some e \<and> session_count e = 0
     \<and> readScope e = Some scope)"

text \<open>
  A run in which the account stays blocked: its scope is kept as it is, or is what a failed restoration
  of that very scope left.
\<close>

inductive blocked_run ::
  "('w, 's) session_env \<Rightarrow> wstring \<Rightarrow> 's \<Rightarrow> ('w, 's) broker_state \<Rightarrow> 's \<Rightarrow> ('w, 's) broker_state \<Rightarrow> bool"
  for env account scope b
where
  stays: "blocked_run env account scope b scope b"
| kept: "blocked_run env account scope b s b1 \<Longrightarrow> session_step env b1 b2 \<Longrightarrow> retains b2 account s \<Longrightarrow>
     blocked_run env account scope b s b2"
| retried: "blocked_run env account scope b s b1 \<Longrightarrow> session_step env b1 b2 \<Longrightarrow>
     Restore env s (world b1) = ((e, actions, s'), w) \<Longrightarrow> e \<noteq> ERROR_SUCCESS \<Longrightarrow> retains b2 account s' \<Longrightarrow>
     blocked_run env account scope b s' b2"

lemma retained_no_holder:
  assumes "sessions_ok env b" and "retains b account scope"
  shows "held_by env (holders b) account = []"
  using assms by (auto simp: sessions_ok_def retains_def entry_ok_def split: option.splits)

lemma TryReserve_other:
  "TryReserveSession env r st w = Some ((reserved, st'), w') \<Longrightarrow> account \<noteq> fold_name env (profileId r) \<Longrightarrow>
    sessionsByAccount st' account = sessionsByAccount st account"
  by (auto simp: TryReserveSession_def Let_def split: if_split_asm prod.splits option.splits)

lemma Release_other:
  "ReleaseSession env r st w = Some ((e, st'), w') \<Longrightarrow> account \<noteq> fold_name env (profileId r) \<Longrightarrow>
    sessionsByAccount st' account = sessionsByAccount st account"
  by (auto simp: ReleaseSession_def Let_def split: if_split_asm prod.splits option.splits)

lemma TryReserve_retained:
  assumes "sessionsByAccount st (fold_name env (profileId r)) = Some e" and "session_count e = 0" and "readScope e = Some scope"
    and "TryReserveSession env r st w = Some ((reserved, st'), w')"
  shows "reserved \<and> restrictAccess r \<and> (\<exists>actions scope' w1. Restore env scope w = ((ERROR_SUCCESS, actions, scope'), w1))
    \<or> \<not> reserved \<and> (st' = st \<or> (\<exists>err actions scope' w1. Restore env scope w = ((err, actions, scope'), w1)
        \<and> err \<noteq> ERROR_SUCCESS \<and> (\<exists>e'. sessionsByAccount st' (fold_name env (profileId r)) = Some e'
          \<and> session_count e' = 0 \<and> readScope e' = Some scope')))"
  using assms
  by (auto simp: TryReserveSession_def RestoreScope_def Let_def split: if_split_asm prod.splits option.splits)

lemma blocked_step:
  assumes ok: "sessions_ok env b" and s: "retains b account scope" and "session_step env b b'"
  shows "retains b' account scope \<or> (\<exists>e actions scope' w. Restore env scope (world b) = ((e, actions, scope'), w)
    \<and> (e = ERROR_SUCCESS \<or> e \<noteq> ERROR_SUCCESS \<and> retains b' account scope'))"
proof -
  from s obtain en where en: "sessionsByAccount (table b) account = Some en" "session_count en = 0" "readScope en = Some scope"
    by (auto simp: retains_def)
  have attempt: ?thesis if t: "TryReserveSession env r (table b) (world b) = Some ((reserved, table b'), w)" for r reserved w
  proof (cases "account = fold_name env (profileId r)")
    case True
    from TryReserve_retained[OF en(1)[unfolded True] en(2,3) t] en True show ?thesis
      by (auto simp: retains_def)
  next
    case False
    from TryReserve_other[OF t False] en show ?thesis by (simp add: retains_def)
  qed
  have holder: "account \<noteq> fold_name env (profileId r)" if "r \<in> set (holders b)" for r
    using retained_no_holder[OF ok s] holder_held_by[OF that, of env] by auto
  from assms(3) show ?thesis
  proof cases
    case (reserve request st w)
    then show ?thesis by (intro attempt[of request True w]) simp
  next
    case (refuse request st w)
    then show ?thesis by (intro attempt[of request False w]) simp
  next
    case (release request e st w)
    from Release_other[OF release(3) holder[OF release(2)]] release(1) en show ?thesis by (simp add: retains_def)
  next
    case (ensure request e w scope')
    from holder[OF ensure(2)] ensure(1) en show ?thesis by (simp add: retains_def)
  qed
qed

lemma session_steps_ok: "(session_step env)\<^sup>*\<^sup>* b b' \<Longrightarrow> sessions_ok env b \<Longrightarrow> sessions_ok env b'"
  by (induction rule: rtranclp_induct) (auto dest: session_step_ok)

lemma blocked_run_steps: "blocked_run env account scope b s b' \<Longrightarrow> (session_step env)\<^sup>*\<^sup>* b b'"
  by (induction rule: blocked_run.induct) auto

lemma blocked_run_retains: "blocked_run env account scope b s b' \<Longrightarrow> retains b account scope \<Longrightarrow> retains b' account s"
  by (induction rule: blocked_run.induct) auto

text \<open>Every run keeps the account blocked, or has a successful restoration of its scope.\<close>

lemma blocked_until_restored:
  assumes "(session_step env)\<^sup>*\<^sup>* b b'" and "sessions_ok env b" and "retains b account scope"
  shows "(\<exists>s. blocked_run env account scope b s b')
    \<or> (\<exists>s b1 b2 actions s' w. blocked_run env account scope b s b1 \<and> session_step env b1 b2
        \<and> Restore env s (world b1) = ((ERROR_SUCCESS, actions, s'), w) \<and> (session_step env)\<^sup>*\<^sup>* b2 b')"
  using assms(1)
proof (induction rule: rtranclp_induct)
  case base
  then show ?case using blocked_run.stays[of env account scope b] by blast
next
  case (step b1 b2)
  show ?case
  proof (cases "\<exists>s. blocked_run env account scope b s b1")
    case True
    then obtain s where run: "blocked_run env account scope b s b1" by blast
    have "sessions_ok env b1" using session_steps_ok[OF blocked_run_steps[OF run] assms(2)] .
    from blocked_step[OF this blocked_run_retains[OF run assms(3)] step.hyps(2)]
    show ?thesis
    proof (elim disjE exE conjE)
      assume "retains b2 account s"
      with blocked_run.kept[OF run step.hyps(2)] show ?thesis by blast
    next
      fix e actions s' w
      assume "Restore env s (world b1) = ((e, actions, s'), w)" "e = ERROR_SUCCESS"
      with run step.hyps(2) show ?thesis by blast
    next
      fix e actions s' w
      assume "Restore env s (world b1) = ((e, actions, s'), w)" "e \<noteq> ERROR_SUCCESS" "retains b2 account s'"
      from blocked_run.retried[OF run step.hyps(2) this] show ?thesis by blast
    qed
  next
    case False
    with step.IH step.hyps(2) show ?thesis by (meson rtranclp.rtrancl_into_rtrancl)
  qed
qed

lemma TryReserve_free:
  assumes ok: "sessions_ok env b" and "length (holders b) < MaximumConcurrentSessions"
    and "length (held_by env (holders b) (fold_name env (profileId r))) < MaximumConcurrentSessionsPerAccount"
    and kind: "\<And>e. sessionsByAccount (table b) (fold_name env (profileId r)) = Some e
      \<Longrightarrow> restrictAccess r = (readScope e \<noteq> None)"
    and restore: "\<And>scope. fst (fst (Restore env scope (world b))) = ERROR_SUCCESS"
  shows "\<exists>st w. TryReserveSession env r (table b) (world b) = Some ((True, st), w)"
proof -
  have restored: "RestoreScope env e (world b) = ((err, e'), w') \<Longrightarrow> err = ERROR_SUCCESS" for e err e' w'
    using restore by (auto simp: RestoreScope_def Let_def split: option.splits prod.splits) (metis fst_conv)+
  let ?account = "fold_name env (profileId r)"
  have entry: "entry_ok (held_by env (holders b) ?account) (sessionsByAccount (table b) ?account)"
    and n: "sessionCount (table b) = length (holders b)" using ok by (simp_all add: sessions_ok_def)
  show ?thesis
  proof (cases rule: TryReserve_ok[OF ok, of r, case_names refused reserved])
    case (refused st w)
    have "sessionCount (table b) < MaximumConcurrentSessions" using n assms(2) by simp
    moreover have "\<not> (case sessionsByAccount (table b) ?account of None \<Rightarrow> False
      | Some e \<Rightarrow> session_count e \<ge> MaximumConcurrentSessionsPerAccount \<or> (readScope e \<noteq> None) \<noteq> restrictAccess r)"
      using entry assms(3) kind by (auto simp: entry_ok_def split: option.splits)
    ultimately show ?thesis
      using refused(1) unfolding TryReserveSession_def Let_def
      by (auto split: if_split_asm prod.splits option.splits dest: restored)
  qed blast
qed

section \<open>A reference instance\<close>

text \<open>Scopes are numbers here; the scope 7 cannot be restored.\<close>

definition example_sessions :: "(wstring list list, nat) session_env" where
  "example_sessions = \<lparr>audit_of = example_audit, fold_name = map ascii_lower, new_scope = 0,
     Restore = (\<lambda>s w. ((if s = 7 then ERROR_ACCESS_DENIED else ERROR_SUCCESS, [], s), w))\<rparr>"

definition example_restricted :: BrokerRequest where
  "example_restricted = BrokerRequest_default\<lparr>requestId := wide ''1'', profileId := wide ''guest'',
     restrictAccess := True, log_access := True\<rparr>"

definition example_entry :: "nat \<Rightarrow> nat AccountSessions" where
  "example_entry scope = \<lparr>session_count = 1, readScope = Some scope,
     session_log = Some \<lparr>log_requests = [wide ''1''], lastRequest = wide ''1''\<rparr>, observer = Some (wide ''guest'')\<rparr>"

definition example_busy :: "nat \<Rightarrow> (wstring list list, nat) broker_state" where
  "example_busy scope = \<lparr>table = \<lparr>sessionsByAccount = [wide ''guest'' \<mapsto> example_entry scope], sessionCount = 1\<rparr>,
     holders = [example_restricted], world = []\<rparr>"

lemma folded_guest: "map ascii_lower (wide ''guest'') = wide ''guest''"
  by (simp add: wide_def ascii_lower_def)

lemma example_reserve:
  "TryReserveSession example_sessions example_restricted session_table_empty [] = Some ((True, table (example_busy 0)), [])"
  by (simp add: TryReserveSession_def session_table_empty_def MaximumConcurrentSessions_def example_restricted_def
      AccountSessions_empty_def RestoreScope_def AttachLog_def example_sessions_def example_busy_def example_entry_def
      ScopeLog_empty_def ScopeLog_Join_def folded_guest)

lemma example_reachable: "session_reachable example_sessions (example_busy scope)"
proof -
  have "session_reachable example_sessions (example_busy 0)"
    using session_reachable.step[OF session_reachable.start session_step.reserve[OF _]] example_reserve
    by (fastforce simp: example_busy_def)
  moreover have "session_step example_sessions (example_busy 0) (example_busy scope)"
    using session_step.ensure[of example_restricted "example_busy 0" example_sessions "example_entry 0" "[]" scope]
    by (simp add: example_busy_def example_restricted_def example_sessions_def example_entry_def folded_guest
        )
  ultimately show ?thesis by (rule session_reachable.step)
qed

section \<open>Properties\<close>

text \<open>
  C28: In every reachable state, however requests interleave, the counters agree with the sessions
  actually held: at most four in all and two per account (names that differ in case counting as
  one), and restricted and unrestricted sessions of an account never run at the same time.
\<close>

theorem session_limits:
  assumes "session_reachable env b"
  shows "sessionCount (table b) = length (holders b) \<and> length (holders b) \<le> MaximumConcurrentSessions
    \<and> length (held_by env (holders b) account) \<le> MaximumConcurrentSessionsPerAccount
    \<and> (\<forall>r1 \<in> set (held_by env (holders b) account). \<forall>r2 \<in> set (held_by env (holders b) account).
         restrictAccess r1 = restrictAccess r2)"
proof -
  have ok: "sessions_ok env b" using assms by (rule session_reachable_ok)
  then have "entry_ok (held_by env (holders b) account) (sessionsByAccount (table b) account)"
    by (simp add: sessions_ok_def)
  then have "length (held_by env (holders b) account) \<le> MaximumConcurrentSessionsPerAccount
      \<and> (\<exists>kind. \<forall>r \<in> set (held_by env (holders b) account). restrictAccess r = kind)"
    by (auto simp: entry_ok_def split: option.splits)
  moreover have "sessionCount (table b) = length (holders b) \<and> length (holders b) \<le> MaximumConcurrentSessions"
    using ok by (simp add: sessions_ok_def)
  ultimately show ?thesis by blast
qed

lemma session_limits_witness:
  "sessionCount (table (example_busy 7)) = 1 \<and> length (held_by example_sessions (holders (example_busy 7)) (wide ''guest''))
     \<le> MaximumConcurrentSessionsPerAccount"
  using session_limits[OF example_reachable[of 7], of "wide ''guest''"] by (simp add: example_busy_def)

text \<open>
  In every reachable state neither reserving a session for any request nor releasing a held one
  dereferences the log pointer of an account while it is null.
\<close>

theorem session_no_null:
  assumes "session_reachable env b"
  shows "TryReserveSession env r (table b) (world b) \<noteq> None
    \<and> (r \<in> set (holders b) \<longrightarrow> ReleaseSession env r (table b) (world b) \<noteq> None)"
proof -
  have ok: "sessions_ok env b" using assms by (rule session_reachable_ok)
  have "TryReserveSession env r (table b) (world b) \<noteq> None"
    by (rule TryReserve_ok[OF ok, of r]) simp_all
  moreover have "ReleaseSession env r (table b) (world b) \<noteq> None" if "r \<in> set (holders b)"
    by (rule Release_ok[OF ok that]) simp
  ultimately show ?thesis by blast
qed

lemma session_no_null_witness:
  "ReleaseSession example_sessions example_restricted (table (example_busy 7)) (world (example_busy 7)) \<noteq> None"
  using session_no_null[OF example_reachable[of 7], of example_restricted] by (simp add: example_busy_def)

text \<open>
  C29: When the access restrictions of an account cannot be taken back as its last session ends, what the
  failed restoration left of its scope is retained, and the account stays blocked: through every further
  run, whatever is attempted, it has no session and counts as busy (it cannot be deleted), and its scope
  is only replaced by what a failed restoration of that scope leaves, until a restoration of the retained
  scope succeeds.
\<close>

theorem failed_restore_blocks:
  assumes "session_reachable env b" and "r \<in> set (holders b)"
    and "ReleaseSession env r (table b) (world b) = Some ((e, st), w)" and "e \<noteq> ERROR_SUCCESS"
    and "(session_step env)\<^sup>*\<^sup>* (b\<lparr>table := st, holders := remove1 r (holders b), world := w\<rparr>) b'"
  shows "\<exists>en scope actions scope' w'.
    sessionsByAccount (table b) (fold_name env (profileId r)) = Some en \<and> readScope en = Some scope
    \<and> Restore env scope (world b) = ((e, actions, scope'), w')
    \<and> ((\<exists>s. blocked_run env (fold_name env (profileId r)) scope'
            (b\<lparr>table := st, holders := remove1 r (holders b), world := w\<rparr>) s b'
          \<and> retains b' (fold_name env (profileId r)) s \<and> HasActiveSession env (profileId r) (table b')
          \<and> held_by env (holders b') (fold_name env (profileId r)) = [])
      \<or> (\<exists>s b1 b2 actions s' v. blocked_run env (fold_name env (profileId r)) scope'
            (b\<lparr>table := st, holders := remove1 r (holders b), world := w\<rparr>) s b1
          \<and> session_step env b1 b2 \<and> Restore env s (world b1) = ((ERROR_SUCCESS, actions, s'), v)
          \<and> (session_step env)\<^sup>*\<^sup>* b2 b'))"
proof -
  let ?account = "fold_name env (profileId r)"
  let ?b = "b\<lparr>table := st, holders := remove1 r (holders b), world := w\<rparr>"
  have ok: "sessions_ok env b" using assms(1) by (rule session_reachable_ok)
  obtain en scope actions scope' w' where en: "sessionsByAccount (table b) ?account = Some en" "readScope en = Some scope"
      "Restore env scope (world b) = ((e, actions, scope'), w')"
    and kept: "retains ?b ?account scope'" and ok': "sessions_ok env ?b"
    by (rule Release_ok[OF ok assms(2)]) (use assms(3,4) in \<open>auto simp: retains_def\<close>)
  have blocked: "retains b' ?account s \<and> HasActiveSession env (profileId r) (table b')
      \<and> held_by env (holders b') ?account = []" if "blocked_run env ?account scope' ?b s b'" for s
    using blocked_run_retains[OF that kept] retained_no_holder[OF session_steps_ok[OF assms(5) ok']]
    by (auto simp: HasActiveSession_def retains_def)
  from blocked_until_restored[OF assms(5) ok' kept] en blocked show ?thesis by blast
qed

lemma failed_restore_blocks_witness:
  "\<exists>e st w. ReleaseSession example_sessions example_restricted (table (example_busy 7)) (world (example_busy 7))
      = Some ((e, st), w) \<and> HasActiveSession example_sessions (wide ''guest'') st"
proof -
  have "\<exists>st w. ReleaseSession example_sessions example_restricted (table (example_busy 7)) (world (example_busy 7))
      = Some ((ERROR_ACCESS_DENIED, st), w)"
    by (simp add: ReleaseSession_def RestoreScope_def example_busy_def example_restricted_def example_sessions_def
        example_entry_def folded_guest Let_def)
  then obtain st w where r: "ReleaseSession example_sessions example_restricted (table (example_busy 7))
      (world (example_busy 7)) = Some ((ERROR_ACCESS_DENIED, st), w)" by blast
  let ?b = "(example_busy 7)\<lparr>table := st, holders := remove1 example_restricted (holders (example_busy 7)), world := w\<rparr>"
  have account: "fold_name example_sessions (profileId example_restricted) = wide ''guest''"
    by (simp add: example_sessions_def example_restricted_def folded_guest)
  have run: "blocked_run example_sessions (wide ''guest'') 7 ?b s b' \<Longrightarrow> s = 7" for s b'
    by (induction rule: blocked_run.induct) (auto simp: example_sessions_def)
  have "ERROR_ACCESS_DENIED \<noteq> ERROR_SUCCESS" by simp
  from failed_restore_blocks[OF example_reachable[of 7] _ r this, of ?b, unfolded account]
  obtain scope actions scope' w' where restore: "Restore example_sessions scope [] = ((ERROR_ACCESS_DENIED, actions, scope'), w')"
    and "HasActiveSession example_sessions (profileId example_restricted) (table ?b)
      \<or> (\<exists>s b1 actions s' v. blocked_run example_sessions (wide ''guest'') scope' ?b s b1
          \<and> Restore example_sessions s (world b1) = ((ERROR_SUCCESS, actions, s'), v))"
    by (simp add: example_busy_def) blast
  moreover from restore have "scope' = 7" by (auto simp: example_sessions_def split: if_split_asm)
  ultimately have "HasActiveSession example_sessions (profileId example_restricted) st"
    using run by (auto simp: example_sessions_def)
  with r show ?thesis by (auto simp: example_restricted_def)
qed

text \<open>
  C30: A request is not refused without a reason: in every reachable state with a free place, a free
  place for its account and no session of the other kind, it gets its session if restoring works.
\<close>

theorem free_session_reserved:
  assumes "session_reachable env b" and "length (holders b) < MaximumConcurrentSessions"
    and "length (held_by env (holders b) (fold_name env (profileId r))) < MaximumConcurrentSessionsPerAccount"
    and "\<And>e. sessionsByAccount (table b) (fold_name env (profileId r)) = Some e
      \<Longrightarrow> restrictAccess r = (readScope e \<noteq> None)"
    and "\<And>scope. fst (fst (Restore env scope (world b))) = ERROR_SUCCESS"
  shows "\<exists>st w. TryReserveSession env r (table b) (world b) = Some ((True, st), w)"
  by (rule TryReserve_free[OF session_reachable_ok[OF assms(1)] assms(2-)])

lemma free_session_reserved_witness:
  "\<exists>st w. TryReserveSession (example_sessions\<lparr>Restore := (\<lambda>s w. ((ERROR_SUCCESS, [], s), w))\<rparr>) example_restricted
      session_table_empty [] = Some ((True, st), w)"
  using free_session_reserved[OF session_reachable.start[of "example_sessions\<lparr>Restore := (\<lambda>s w. ((ERROR_SUCCESS, [], s), w))\<rparr>"
      "[]"], of example_restricted]
  by (simp add: session_table_empty_def MaximumConcurrentSessions_def MaximumConcurrentSessionsPerAccount_def held_by_def)

end
