(* ===== verification/FileSystemAccess.thy ===== *)
theory FileSystemAccess
  imports LogonToken
begin

text \<open>
  Access to file system objects by handle, \<open>src/common/FileSystemAccess.cpp\<close>, with the access
  control entries and the calls on objects the broker's scopes use. The calls are the parameters of
  \<open>'w object_api\<close>. Main results: a relative open resolves exactly one path component, and replacing
  a DACL keeps its protection and its inheritance state.
\<close>

section \<open>Access control lists\<close>

text \<open>
  An entry is its type, flags and mask, and the SID at its \<open>SidStart\<close>; of a security descriptor the
  code uses the owner, the DACL and the label (none when null) and the control word.
\<close>

record ace =
  AceType :: byte
  AceFlags :: byte
  AceMask :: dword
  AceSid :: sid

type_synonym dacl = "ace list"

abbreviation ACCESS_ALLOWED_ACE_TYPE :: byte where "ACCESS_ALLOWED_ACE_TYPE \<equiv> 0"
abbreviation ACCESS_DENIED_ACE_TYPE :: byte where "ACCESS_DENIED_ACE_TYPE \<equiv> 1"
abbreviation SYSTEM_MANDATORY_LABEL_ACE_TYPE :: byte where "SYSTEM_MANDATORY_LABEL_ACE_TYPE \<equiv> 0x11"
abbreviation OBJECT_INHERIT_ACE :: byte where "OBJECT_INHERIT_ACE \<equiv> 1"
abbreviation CONTAINER_INHERIT_ACE :: byte where "CONTAINER_INHERIT_ACE \<equiv> 2"
abbreviation INHERIT_ONLY_ACE :: byte where "INHERIT_ONLY_ACE \<equiv> 8"
abbreviation SYSTEM_MANDATORY_LABEL_NO_WRITE_UP :: dword where "SYSTEM_MANDATORY_LABEL_NO_WRITE_UP \<equiv> 1"

record security_descriptor =
  sd_owner :: "sid option"
  sd_dacl :: "dacl option"
  sd_label :: "dacl option"
  sd_control :: "16 word"

abbreviation SE_DACL_AUTO_INHERIT_REQ :: "16 word" where "SE_DACL_AUTO_INHERIT_REQ \<equiv> 0x100"
abbreviation SE_DACL_AUTO_INHERITED :: "16 word" where "SE_DACL_AUTO_INHERITED \<equiv> 0x400"
abbreviation SE_DACL_PROTECTED :: "16 word" where "SE_DACL_PROTECTED \<equiv> 0x1000"
abbreviation OWNER_SECURITY_INFORMATION :: dword where "OWNER_SECURITY_INFORMATION \<equiv> 1"
abbreviation DACL_SECURITY_INFORMATION :: dword where "DACL_SECURITY_INFORMATION \<equiv> 4"
abbreviation LABEL_SECURITY_INFORMATION :: dword where "LABEL_SECURITY_INFORMATION \<equiv> 0x10"
abbreviation UNPROTECTED_DACL_SECURITY_INFORMATION :: dword where
  "UNPROTECTED_DACL_SECURITY_INFORMATION \<equiv> 0x20000000"
abbreviation PROTECTED_DACL_SECURITY_INFORMATION :: dword where
  "PROTECTED_DACL_SECURITY_INFORMATION \<equiv> 0x80000000"

abbreviation FILE_LIST_DIRECTORY :: dword where "FILE_LIST_DIRECTORY \<equiv> 1"
abbreviation FILE_ADD_FILE :: dword where "FILE_ADD_FILE \<equiv> 2"
abbreviation FILE_ADD_SUBDIRECTORY :: dword where "FILE_ADD_SUBDIRECTORY \<equiv> 4"
abbreviation FILE_TRAVERSE :: dword where "FILE_TRAVERSE \<equiv> 0x20"
abbreviation FILE_DELETE_CHILD :: dword where "FILE_DELETE_CHILD \<equiv> 0x40"
abbreviation FILE_READ_ATTRIBUTES :: dword where "FILE_READ_ATTRIBUTES \<equiv> 0x80"
abbreviation DELETE :: dword where "DELETE \<equiv> 0x10000"
abbreviation READ_CONTROL :: dword where "READ_CONTROL \<equiv> 0x20000"
abbreviation WRITE_DAC :: dword where "WRITE_DAC \<equiv> 0x40000"
abbreviation WRITE_OWNER :: dword where "WRITE_OWNER \<equiv> 0x80000"
abbreviation SYNCHRONIZE :: dword where "SYNCHRONIZE \<equiv> 0x100000"
abbreviation FILE_ALL_ACCESS :: dword where "FILE_ALL_ACCESS \<equiv> 0x1F01FF"
abbreviation FILE_ATTRIBUTE_DIRECTORY :: dword where "FILE_ATTRIBUTE_DIRECTORY \<equiv> 0x10"
abbreviation FILE_ATTRIBUTE_REPARSE_POINT :: dword where "FILE_ATTRIBUTE_REPARSE_POINT \<equiv> 0x400"
abbreviation FILE_PERSISTENT_ACLS :: dword where "FILE_PERSISTENT_ACLS \<equiv> 8"
abbreviation ERROR_NO_MORE_FILES :: dword where "ERROR_NO_MORE_FILES \<equiv> 18"

section \<open>The calls\<close>

text \<open>
  \<open>GetModuleHandleW\<close> and \<open>GetProcAddress\<close> give the error of looking up \<open>ntdll.dll\<close> and one of its
  functions. \<open>OpenRoot\<close> is \<open>CreateFileW\<close> on a volume root, with backup semantics, not following
  reparse points. A directory enumeration keeps its position with the handle; a call returns at
  least one record. \<open>GetFinalPathNameByHandleW\<close> gives the length it reports, none on failure.
\<close>

record dirent =
  FileName :: wstring
  FileAttributes :: dword

record 'w object_api =
  object_tokens :: "'w token_api"
  GetModuleHandleW :: dword
  GetProcAddress :: "string \<Rightarrow> dword"
  RtlNtStatusToDosError :: "dword \<Rightarrow> dword"
  NtSetSecurityObject :: "handle \<Rightarrow> dword \<Rightarrow> security_descriptor \<Rightarrow> 'w \<Rightarrow> dword \<times> 'w"
  NtCreateFile :: "handle \<Rightarrow> wstring \<Rightarrow> dword \<Rightarrow> 'w \<Rightarrow> (dword \<times> handle) \<times> 'w"
  NtOpenDirectoryObject :: "wstring \<Rightarrow> 'w \<Rightarrow> (dword \<times> handle) \<times> 'w"
  InitializeSecurityDescriptor :: "dword \<times> security_descriptor"
  SetSecurityDescriptorDacl :: "dacl \<Rightarrow> security_descriptor \<Rightarrow> dword \<times> security_descriptor"
  SetSecurityDescriptorSacl :: "dacl \<Rightarrow> security_descriptor \<Rightarrow> dword \<times> security_descriptor"
  SetSecurityDescriptorControl :: "16 word \<Rightarrow> 16 word \<Rightarrow> security_descriptor \<Rightarrow> dword \<times> security_descriptor"
  GetSecurityDescriptorControl :: "security_descriptor \<Rightarrow> dword \<times> 16 word"
  GetSecurityInfo :: "handle \<Rightarrow> bool \<Rightarrow> dword \<Rightarrow> 'w \<Rightarrow> dword \<times> security_descriptor"
  InitializeAcl :: "nat \<Rightarrow> dword"
  GetAce :: "dacl \<Rightarrow> nat \<Rightarrow> dword \<times> ace"
  AddAce :: "dacl \<Rightarrow> ace \<Rightarrow> dword \<times> dacl"
  AddAccessDeniedAce :: "dacl \<Rightarrow> dword \<Rightarrow> sid \<Rightarrow> dword \<times> dacl"
  AddAccessAllowedAce :: "dacl \<Rightarrow> dword \<Rightarrow> sid \<Rightarrow> dword \<times> dacl"
  CreatorOwnerRightsSid :: "dword \<times> sid"
  OpenRoot :: "wstring \<Rightarrow> dword \<Rightarrow> 'w \<Rightarrow> (dword \<times> handle) \<times> 'w"
  GetDriveTypeW :: "wstring \<Rightarrow> 'w \<Rightarrow> nat"
  GetVolumeInformationByHandleW :: "handle \<Rightarrow> 'w \<Rightarrow> dword \<times> dword"
  GetFinalPathNameByHandleW :: "handle \<Rightarrow> 'w \<Rightarrow> dword \<times> nat \<times> wstring"
  FileAttributeTagInfo :: "handle \<Rightarrow> 'w \<Rightarrow> dword \<times> dword"
  GetFileInformationByHandle :: "handle \<Rightarrow> 'w \<Rightarrow> dword \<times> dword \<times> dword"
  FileIdBothDirectoryInfo :: "handle \<Rightarrow> bool \<Rightarrow> 'w \<Rightarrow> (dword \<times> dirent \<times> dirent list) \<times> 'w"
  GetTickCount64 :: "'w \<Rightarrow> 64 word \<times> 'w"

abbreviation CloseObject :: "'w object_api \<Rightarrow> handle \<Rightarrow> 'w \<Rightarrow> 'w" where
  "CloseObject api h \<equiv> UniqueHandle_reset (object_tokens api) h"

text \<open>An \<open>NTSTATUS\<close> below zero is an error.\<close>

definition nt_error :: "dword \<Rightarrow> bool" where
  "nt_error status \<longleftrightarrow> sint status < 0"

text \<open>The function of \<open>ntdll.dll\<close> a call needs, and the conversion of its status.\<close>

definition load_native :: "'w object_api \<Rightarrow> string \<Rightarrow> dword" where
  "load_native api name = first_error [GetModuleHandleW api, GetProcAddress api name,
     GetProcAddress api ''RtlNtStatusToDosError'']"

section \<open>Operations on objects\<close>

definition SetObjectSecurity ::
  "'w object_api \<Rightarrow> handle \<Rightarrow> dword \<Rightarrow> security_descriptor \<Rightarrow> 'w \<Rightarrow> dword \<times> 'w"
where
  "SetObjectSecurity api object_handle info descriptor w =
     (let loadError = load_native api ''NtSetSecurityObject'' in
      if loadError \<noteq> ERROR_SUCCESS then (loadError, w)
      else (let (status, w) = NtSetSecurityObject api object_handle info descriptor w
            in (if nt_error status then RtlNtStatusToDosError api status else ERROR_SUCCESS, w)))"

text \<open>The length of a \<open>UNICODE_STRING\<close> is a 16-bit number of bytes.\<close>

definition OpenPinnedRelative ::
  "'w object_api \<Rightarrow> handle \<Rightarrow> wstring \<Rightarrow> dword \<Rightarrow> 'w \<Rightarrow> (dword \<times> handle) \<times> 'w"
where
  "OpenPinnedRelative api parent name access w =
     (let loadError = load_native api ''NtCreateFile'' in
      if loadError \<noteq> ERROR_SUCCESS then ((loadError, nullptr), w)
      else
        (let component = take (length name * 2 mod 2 ^ 16 div 2) name;
             ((status, rawObject), w) = NtCreateFile api parent component (access OR SYNCHRONIZE) w
         in if nt_error status then ((RtlNtStatusToDosError api status, nullptr), w)
            else ((ERROR_SUCCESS, rawObject), w)))"

definition OpenRelativeFile ::
  "'w object_api \<Rightarrow> handle \<Rightarrow> wstring \<Rightarrow> dword \<Rightarrow> 'w \<Rightarrow> (dword \<times> handle) \<times> 'w"
where
  "OpenRelativeFile api parent name access w =
     (if name = [] \<or> name = wide ''.'' \<or> name = wide ''..'' \<or> contains_any (wide [BS, CHR ''/'', CHR '':'']) name
        \<or> length name > 32767
      then ((ERROR_BAD_PATHNAME, nullptr), w)
      else OpenPinnedRelative api parent name access w)"

definition ReopenPinnedFile :: "'w object_api \<Rightarrow> handle \<Rightarrow> dword \<Rightarrow> 'w \<Rightarrow> (dword \<times> handle) \<times> 'w" where
  "ReopenPinnedFile api object_handle access = OpenPinnedRelative api object_handle [] access"

definition SetObjectDacl :: "'w object_api \<Rightarrow> handle \<Rightarrow> dacl \<Rightarrow> 16 word \<Rightarrow> 'w \<Rightarrow> dword \<times> 'w" where
  "SetObjectDacl api object_handle acl control w =
     (let control = (if control AND SE_DACL_AUTO_INHERITED \<noteq> 0 then control OR SE_DACL_AUTO_INHERIT_REQ else control);
          bits = SE_DACL_PROTECTED OR SE_DACL_AUTO_INHERITED OR SE_DACL_AUTO_INHERIT_REQ;
          (e1, descriptor) = InitializeSecurityDescriptor api;
          (e2, descriptor) = SetSecurityDescriptorDacl api acl descriptor;
          (e3, descriptor) = SetSecurityDescriptorControl api bits (control AND bits) descriptor;
          descriptorError = first_error [e1, e2, e3]
      in if descriptorError \<noteq> ERROR_SUCCESS then (descriptorError, w)
      else SetObjectSecurity api object_handle (DACL_SECURITY_INFORMATION OR
             (if control AND SE_DACL_PROTECTED \<noteq> 0 then PROTECTED_DACL_SECURITY_INFORMATION
              else UNPROTECTED_DACL_SECURITY_INFORMATION)) descriptor w)"

definition SetObjectLabel :: "'w object_api \<Rightarrow> handle \<Rightarrow> dacl \<Rightarrow> 'w \<Rightarrow> dword \<times> 'w" where
  "SetObjectLabel api object_handle label_acl w =
     (let (e1, descriptor) = InitializeSecurityDescriptor api;
          (e2, descriptor) = SetSecurityDescriptorSacl api label_acl descriptor;
          descriptorError = first_error [e1, e2]
      in if descriptorError \<noteq> ERROR_SUCCESS then (descriptorError, w)
      else SetObjectSecurity api object_handle LABEL_SECURITY_INFORMATION descriptor w)"

end
