(* ===== verification/FilePaths.thy ===== *)
theory FilePaths
  imports Prelude "HOL-Library.List_Lexorder"
begin

text \<open>
  What the scopes of the broker use of \<open>std::filesystem::path\<close> and \<open>std::map\<close>: the normal form of
  an absolute path, and a map from paths whose entries are in the order of their keys.
\<close>

section \<open>Absolute paths\<close>

definition is_slash :: "wchar \<Rightarrow> bool" where
  "is_slash c \<longleftrightarrow> c = WCHR BS \<or> c = WCHR CHR ''/''"

definition is_letter :: "wchar \<Rightarrow> bool" where
  "is_letter c \<longleftrightarrow> (0x41 \<le> c \<and> c \<le> 0x5A) \<or> (0x61 \<le> c \<and> c \<le> 0x7A)"

fun split_path :: "wstring \<Rightarrow> wstring list" where
  "split_path [] = [[]]"
| "split_path (c # s) =
     (if is_slash c then [] # split_path s
      else (case split_path s of [] \<Rightarrow> [[c]] | part # parts \<Rightarrow> (c # part) # parts))"

text \<open>\<open>lexically_normal\<close> below a root directory: no empty parts, no dots, nothing above the root.\<close>

definition normal_step :: "wstring list \<Rightarrow> wstring \<Rightarrow> wstring list" where
  "normal_step parts part =
     (if part = [] \<or> part = wide ''.'' then parts
      else if part = wide ''..'' then butlast parts
      else parts @ [part])"

definition normal_parts :: "wstring \<Rightarrow> wstring list" where
  "normal_parts s = foldl normal_step [] (split_path s)"

text \<open>
  The root path and the parts of an absolute path that is not a network or device path: a drive
  letter, or the root name \<open>\??\<close> that \<open>std::filesystem\<close> also knows. \<open>None\<close> is a path without a
  root name and root directory, or one that starts with two backslashes.
\<close>

definition absolute_path :: "wstring \<Rightarrow> (wstring \<times> wstring list) option" where
  "absolute_path p =
     (if length p \<ge> 3 \<and> is_letter (p ! 0) \<and> p ! 1 = WCHR CHR '':'' \<and> is_slash (p ! 2)
      then Some ([p ! 0, WCHR CHR '':'', WCHR BS], normal_parts (drop 3 p))
      else if length p \<ge> 4 \<and> is_slash (p ! 0) \<and> p ! 1 = WCHR CHR ''?'' \<and> p ! 2 = WCHR CHR ''?''
        \<and> is_slash (p ! 3) \<and> \<not> (length p > 4 \<and> is_slash (p ! 4))
      then Some (wide [BS, CHR ''?'', CHR ''?'', BS], normal_parts (drop 4 p))
      else None)"

text \<open>The test the scopes make of a normal path: absolute, local, below its root, no stream name.\<close>

definition scope_path :: "wstring \<Rightarrow> (wstring \<times> wstring list) option" where
  "scope_path p = (case absolute_path p of
     None \<Rightarrow> None
   | Some (root, parts) \<Rightarrow>
       if parts = [] \<or> list_ex (\<lambda>part. WCHR CHR '':'' \<in> set part) parts then None else Some (root, parts))"

text \<open>Components joined with the preferred separator.\<close>

fun join_parts :: "wstring list \<Rightarrow> wstring" where
  "join_parts [] = []"
| "join_parts [part] = part"
| "join_parts (part # parts) = part @ [WCHR BS] @ join_parts parts"

text \<open>What a call reads of a string.\<close>

definition c_str :: "wstring \<Rightarrow> wstring" where
  "c_str s = takeWhile (\<lambda>c. c \<noteq> 0) s"

text \<open>
  The characters of the root name: a drive, a network server, or one of \<open>\\?\<close>, \<open>\\.\<close> and \<open>\??\<close>; and
  \<open>parent_path\<close>, which drops the file name and the separators before it, but not the root.
\<close>

definition root_name_length :: "wstring \<Rightarrow> nat" where
  "root_name_length p =
     (if length p \<ge> 2 \<and> is_letter (p ! 0) \<and> p ! 1 = WCHR CHR '':'' then 2
      else if length p = 0 \<or> \<not> is_slash (p ! 0) then 0
      else if length p \<ge> 4 \<and> is_slash (p ! 3) \<and> (length p = 4 \<or> \<not> is_slash (p ! 4))
        \<and> ((is_slash (p ! 1) \<and> (p ! 2 = WCHR CHR ''?'' \<or> p ! 2 = WCHR CHR ''.''))
           \<or> (p ! 1 = WCHR CHR ''?'' \<and> p ! 2 = WCHR CHR ''?'')) then 3
      else if length p \<ge> 3 \<and> is_slash (p ! 1) \<and> \<not> is_slash (p ! 2)
      then 2 + length (takeWhile (\<lambda>c. \<not> is_slash c) (drop 2 p))
      else 0)"

definition root_length :: "wstring \<Rightarrow> nat" where
  "root_length p = root_name_length p + length (takeWhile is_slash (drop (root_name_length p) p))"

definition parent_path :: "wstring \<Rightarrow> wstring" where
  "parent_path p = take (root_length p) p
     @ rev (dropWhile is_slash (dropWhile (\<lambda>c. \<not> is_slash c) (rev (drop (root_length p) p))))"

text \<open>A part of a normal path is one component.\<close>

lemma split_path_no_slash: "\<forall>part \<in> set (split_path s). \<forall>c \<in> set part. \<not> is_slash c"
  by (induction s) (auto split: list.splits)

lemma foldl_normal_step:
  assumes "\<And>part. part \<in> set parts \<Longrightarrow> P part"
    and "part \<in> set (foldl normal_step acc parts)"
  shows "part \<in> set acc \<or> P part \<and> part \<notin> {[], wide ''.'', wide ''..''}"
  using assms
  by (induction parts arbitrary: acc) (force simp: normal_step_def split: if_splits dest: in_set_butlastD)+

lemma scope_path_parts:
  assumes "scope_path p = Some (root, parts)" and "part \<in> set parts"
  shows "part \<notin> {[], wide ''.'', wide ''..''} \<and> \<not> contains_any (wide [BS, CHR ''/'', CHR '':'']) part"
proof -
  obtain s where parts: "parts = normal_parts s" and colon: "WCHR CHR '':'' \<notin> set part"
    using assms by (auto simp: scope_path_def absolute_path_def list_ex_iff split: option.splits if_splits)
  have "part \<in> set [] \<or> (\<forall>c \<in> set part. \<not> is_slash c) \<and> part \<notin> {[], wide ''.'', wide ''..''}"
    by (rule foldl_normal_step[where parts = "split_path s" and P = "\<lambda>q. \<forall>c \<in> set q. \<not> is_slash c"])
      (use assms(2) parts split_path_no_slash in \<open>auto simp: normal_parts_def\<close>)
  with colon show ?thesis
    by (auto simp: contains_any_def list_ex_iff is_slash_def wide_def)
qed

section \<open>Ordered maps\<close>

text \<open>\<open>try_emplace\<close>, assignment through the position, and \<open>erase\<close> of a \<open>std::map\<close>, as its entries in order.\<close>

fun map_emplace :: "wstring \<Rightarrow> 'a \<Rightarrow> (wstring \<times> 'a) list \<Rightarrow> (wstring \<times> 'a) list" where
  "map_emplace k v [] = [(k, v)]"
| "map_emplace k v ((k', v') # m) =
     (if k < k' then (k, v) # (k', v') # m
      else if k = k' then (k', v') # m
      else (k', v') # map_emplace k v m)"

definition map_assign :: "wstring \<Rightarrow> 'a \<Rightarrow> (wstring \<times> 'a) list \<Rightarrow> (wstring \<times> 'a) list" where
  "map_assign k v m = map (\<lambda>(k', v'). (k', if k' = k then v else v')) m"

definition map_erase :: "wstring \<Rightarrow> (wstring \<times> 'a) list \<Rightarrow> (wstring \<times> 'a) list" where
  "map_erase k m = filter (\<lambda>(k', _). k' \<noteq> k) m"

definition ordered :: "(wstring \<times> 'a) list \<Rightarrow> bool" where
  "ordered m \<longleftrightarrow> sorted_wrt (<) (map fst m)"

lemma ordered_distinct: "ordered m \<Longrightarrow> distinct (map fst m)"
  by (simp add: ordered_def strict_sorted_iff)

lemma keys_emplace [simp]: "fst ` set (map_emplace k v m) = insert k (fst ` set m)"
  by (induction k v m rule: map_emplace.induct) auto

lemma ordered_emplace: "ordered m \<Longrightarrow> ordered (map_emplace k v m)"
proof (induction k v m rule: map_emplace.induct)
  case (2 k v k' v' m)
  have "\<forall>x \<in> fst ` set (map_emplace k v m). k' < x" if "\<not> k < k'" "k \<noteq> k'"
    using 2(2) that by (auto simp: ordered_def)
  with 2 show ?case by (auto simp: ordered_def)
qed (simp add: ordered_def)

lemma map_of_emplace: "ordered m \<Longrightarrow> map_of (map_emplace k v m) k' =
    (if k' = k \<and> k \<notin> fst ` set m then Some v else map_of m k')"
proof (induction k v m rule: map_emplace.induct)
  case (2 k v l v' m)
  have "k \<notin> fst ` set m \<and> k \<noteq> l" if "k < l" using 2(2) that by (auto simp: ordered_def)
  with 2 show ?case by (auto simp: ordered_def map_of_eq_None_iff)
qed simp

lemma keys_assign [simp]: "map fst (map_assign k v m) = map fst m"
  by (simp add: map_assign_def case_prod_unfold)

lemma ordered_assign [simp]: "ordered (map_assign k v m) = ordered m"
  by (simp add: ordered_def)

lemma map_of_assign: "map_of (map_assign k v m) k' =
    (if k' = k \<and> k \<in> fst ` set m then Some v else map_of m k')"
proof (induction m)
  case (Cons a m)
  then show ?case by (cases a; cases "k' = k") (simp_all add: map_assign_def)
qed (simp add: map_assign_def)

lemma keys_erase: "map fst (map_erase k m) = filter (\<lambda>x. x \<noteq> k) (map fst m)"
  by (simp add: map_erase_def filter_map o_def case_prod_unfold)

lemma set_keys_erase [simp]: "fst ` set (map_erase k m) = fst ` set m - {k}"
  unfolding set_map[symmetric] keys_erase by auto

lemma ordered_erase: "ordered m \<Longrightarrow> ordered (map_erase k m)"
  unfolding ordered_def keys_erase by (rule sorted_wrt_filter)

lemma map_of_erase [simp]: "map_of (map_erase k m) k' = (if k' = k then None else map_of m k')"
  by (induction m) (auto simp: map_erase_def)

end
