(* ===== verification/ReadScope.thy ===== *)
theory ReadScope
  imports FileSystemAccess FilePaths JsonReader
begin

text \<open>
  The read scope of an account, \<open>src/broker/BrokerReadScope.cpp\<close>: while restricted sessions run,
  folders outside the allowed roots carry a deny entry for the account, ancestors of the roots a
  smaller one, and the entries are taken back when the last session ends.
\<close>

section \<open>State\<close>

text \<open>
  The path of an entry is its key; its handle pins the folder. The calls of the observer are
  collected, in order, in \<open>observed\<close>.
\<close>

record Entry =
  object :: handle
  addedMask :: dword
  addedOwnerDeny :: bool
  namespaceDirectory :: bool
  addedTraverseGrant :: bool
  writable :: bool

definition Entry_default :: Entry where
  "Entry_default = \<lparr>object = nullptr, addedMask = 0, addedOwnerDeny = False, namespaceDirectory = False,
     addedTraverseGrant = False, writable = False\<rparr>"

record BrokerReadScope =
  scope_user :: sid
  scope_groups :: "(sid \<times> dword) list"
  scope_allowed :: "wstring list"
  scope_entries :: "(wstring \<times> Entry) list"
  scope_volumes :: "wstring \<Rightarrow> wstring option"
  failurePath :: wstring
  has_observer :: bool
  observed :: "(wstring \<times> wstring \<times> dword) list"

definition BrokerReadScope_empty :: BrokerReadScope where
  "BrokerReadScope_empty = \<lparr>scope_user = [], scope_groups = [], scope_allowed = [], scope_entries = [], scope_volumes = (\<lambda>_. None),
     failurePath = [], has_observer = False, observed = []\<rparr>"

definition SetObserver :: "BrokerReadScope \<Rightarrow> BrokerReadScope" where
  "SetObserver s = s\<lparr>has_observer := True\<rparr>"

definition observe :: "string \<Rightarrow> wstring \<Rightarrow> dword \<Rightarrow> BrokerReadScope \<Rightarrow> BrokerReadScope" where
  "observe action path e s = (if has_observer s then s\<lparr>observed := observed s @ [(wide action, path, e)]\<rparr> else s)"

abbreviation ERROR_FILENAME_EXCED_RANGE :: dword where "ERROR_FILENAME_EXCED_RANGE \<equiv> 206"
abbreviation ERROR_INVALID_STATE :: dword where "ERROR_INVALID_STATE \<equiv> 5023"
abbreviation ERROR_MORE_DATA :: dword where "ERROR_MORE_DATA \<equiv> 234"
abbreviation SE_GROUP_ENABLED :: dword where "SE_GROUP_ENABLED \<equiv> 4"
abbreviation DRIVE_REMOVABLE :: nat where "DRIVE_REMOVABLE \<equiv> 2"
abbreviation DRIVE_CDROM :: nat where "DRIVE_CDROM \<equiv> 5"

definition AncestorDeny :: dword where
  "AncestorDeny = FILE_ADD_FILE OR FILE_ADD_SUBDIRECTORY OR FILE_DELETE_CHILD OR DELETE OR WRITE_DAC OR WRITE_OWNER"

definition Within :: "wstring \<Rightarrow> wstring \<Rightarrow> bool" where
  "Within path root \<longleftrightarrow> path = root \<or>
     (length path > length root \<and> take (length root) path = root \<and> path ! length root = WCHR BS)"

section \<open>Volumes and directories by name\<close>

definition OpenVolumeRoot :: "'w object_api \<Rightarrow> wstring \<Rightarrow> 'w \<Rightarrow> (dword \<times> handle \<times> dword \<times> nat) \<times> 'w" where
  "OpenVolumeRoot api path w =
     (let driveType = GetDriveTypeW api path w;
          ((openError, object_handle), w) = OpenRoot api path (READ_CONTROL OR FILE_READ_ATTRIBUTES OR FILE_LIST_DIRECTORY) w
      in if openError \<noteq> ERROR_SUCCESS then ((openError, nullptr, 0, driveType), w)
      else (let (volumeError, flags) = GetVolumeInformationByHandleW api object_handle w
            in ((volumeError, object_handle, flags, driveType), w)))"

definition strip_backslashes :: "wstring \<Rightarrow> wstring" where
  "strip_backslashes name = rev (dropWhile (\<lambda>c. c = WCHR BS) (rev name))"

definition CanonicalName :: "'w object_api \<Rightarrow> handle \<Rightarrow> 'w \<Rightarrow> dword \<times> wstring" where
  "CanonicalName api object_handle w =
     (let (nameError, len, name) = GetFinalPathNameByHandleW api object_handle w in
      if len = 0 then (nameError, [])
      else if len \<ge> 32768 then (ERROR_FILENAME_EXCED_RANGE, [])
      else (ERROR_SUCCESS, strip_backslashes (take len name)))"

text \<open>The parents are closed on the way down.\<close>

fun OpenComponents :: "'w object_api \<Rightarrow> handle \<Rightarrow> wstring list \<Rightarrow> 'w \<Rightarrow> (dword \<times> handle) \<times> 'w" where
  "OpenComponents api parent [] w = ((ERROR_SUCCESS, parent), w)"
| "OpenComponents api parent (component # components) w =
     (let ((openError, child), w) = OpenRelativeFile api parent component FILE_READ_ATTRIBUTES w in
      if openError \<noteq> ERROR_SUCCESS then ((openError, nullptr), CloseObject api parent w)
      else
        (let (infoError, attributes) = FileAttributeTagInfo api child w;
             error = (if infoError \<noteq> ERROR_SUCCESS then infoError
                      else if attributes AND FILE_ATTRIBUTE_REPARSE_POINT \<noteq> 0 then ERROR_ACCESS_DENIED
                      else if attributes AND FILE_ATTRIBUTE_DIRECTORY = 0 then ERROR_DIRECTORY
                      else ERROR_SUCCESS)
         in if error \<noteq> ERROR_SUCCESS
            then ((error, nullptr), CloseObject api parent (CloseObject api child w))
            else OpenComponents api child components (CloseObject api parent w)))"

definition CanonicalDirectory :: "'w object_api \<Rightarrow> wstring \<Rightarrow> 'w \<Rightarrow> (dword \<times> wstring) \<times> 'w" where
  "CanonicalDirectory api directory w =
     (case scope_path directory of
        None \<Rightarrow> ((ERROR_BAD_PATHNAME, []), w)
      | Some (root_path, components) \<Rightarrow>
          (let ((openError, root), w) = OpenRoot api root_path FILE_READ_ATTRIBUTES w in
           if openError \<noteq> ERROR_SUCCESS then ((openError, []), w)
           else
             (let ((error, directory_handle), w) = OpenComponents api root components w in
              if error \<noteq> ERROR_SUCCESS then ((error, []), w)
              else (CanonicalName api directory_handle w, CloseObject api directory_handle w))))"

section \<open>SetAccess\<close>

definition IsAccessAce :: "'w object_api \<Rightarrow> ace \<Rightarrow> sid \<Rightarrow> dword \<Rightarrow> bool \<Rightarrow> bool" where
  "IsAccessAce api raw s accessMask with_grant \<longleftrightarrow>
     AceType raw = (if with_grant then ACCESS_ALLOWED_ACE_TYPE else ACCESS_DENIED_ACE_TYPE)
     \<and> AceFlags raw = 0 \<and> AceMask raw = accessMask \<and> SidEqual (object_tokens api) (AceSid raw) s"

fun ReadAces :: "'w object_api \<Rightarrow> dacl \<Rightarrow> nat list \<Rightarrow> dword \<times> ace list" where
  "ReadAces api original [] = (ERROR_SUCCESS, [])"
| "ReadAces api original (index # indices) =
     (let (aceError, raw) = GetAce api original index in
      if aceError \<noteq> ERROR_SUCCESS then (aceError, [])
      else (let (error, rest) = ReadAces api original indices in (error, raw # rest)))"

text \<open>The entries this lease added, which are not carried over.\<close>

definition LeaseAce :: "'w object_api \<Rightarrow> sid \<Rightarrow> sid \<Rightarrow> Entry \<Rightarrow> ace \<Rightarrow> bool" where
  "LeaseAce api user ownerRights entry raw \<longleftrightarrow>
     (addedMask entry \<noteq> 0 \<and> IsAccessAce api raw user (addedMask entry) (namespaceDirectory entry))
     \<or> (addedOwnerDeny entry \<and> IsAccessAce api raw ownerRights WRITE_DAC False)
     \<or> (addedTraverseGrant entry \<and> IsAccessAce api raw user FILE_TRAVERSE True)"

definition GrantsTraverse :: "'w object_api \<Rightarrow> sid \<Rightarrow> (sid \<times> dword) list \<Rightarrow> ace \<Rightarrow> bool" where
  "GrantsTraverse api user groups raw \<longleftrightarrow>
     AceType raw = ACCESS_ALLOWED_ACE_TYPE \<and> AceFlags raw AND INHERIT_ONLY_ACE = 0
     \<and> AceMask raw AND FILE_TRAVERSE \<noteq> 0
     \<and> (SidEqual (object_tokens api) (AceSid raw) user
        \<or> list_ex (\<lambda>(groupSid, attributes). attributes AND SE_GROUP_ENABLED \<noteq> 0
             \<and> attributes AND SE_GROUP_USE_FOR_DENY_ONLY = 0
             \<and> SidEqual (object_tokens api) (AceSid raw) groupSid) groups)"

fun AddAces :: "'w object_api \<Rightarrow> dacl \<Rightarrow> ace list \<Rightarrow> dword \<times> dacl" where
  "AddAces api acl [] = (ERROR_SUCCESS, acl)"
| "AddAces api acl (raw # preserved) =
     (let (addError, acl) = AddAce api acl raw in
      if addError \<noteq> ERROR_SUCCESS then (addError, acl) else AddAces api acl preserved)"

text \<open>An addition to the list being built, if it is wanted.\<close>

definition add_if :: "bool \<Rightarrow> (dacl \<Rightarrow> dword \<times> dacl) \<Rightarrow> dacl \<Rightarrow> dword \<times> dacl" where
  "add_if wanted add acl = (if wanted then add acl else (ERROR_SUCCESS, acl))"

definition UpdatedDacl ::
  "'w object_api \<Rightarrow> sid \<Rightarrow> sid \<Rightarrow> bool \<Rightarrow> dword \<Rightarrow> bool \<Rightarrow> bool \<Rightarrow> bool \<Rightarrow> ace list \<Rightarrow> dword \<times> dacl"
where
  "UpdatedDacl api user ownerRights namespace_directory accessMask addUser addOwner addTraverse preserved =
     and_then (add_if (addUser \<and> \<not> namespace_directory) (\<lambda>acl. AddAccessDeniedAce api acl accessMask user))
       (and_then (add_if addOwner (\<lambda>acl. AddAccessDeniedAce api acl WRITE_DAC ownerRights))
         (and_then (\<lambda>acl. AddAces api acl preserved)
           (and_then (add_if (addUser \<and> namespace_directory) (\<lambda>acl. AddAccessAllowedAce api acl accessMask user))
             (add_if addTraverse (\<lambda>acl. AddAccessAllowedAce api acl FILE_TRAVERSE user))))) []"

text \<open>Reopen the folder for writing its DACL, the first time it must change.\<close>

definition MakeWritable :: "'w object_api \<Rightarrow> Entry \<Rightarrow> 'w \<Rightarrow> (dword \<times> Entry) \<times> 'w" where
  "MakeWritable api entry w =
     (if namespaceDirectory entry \<or> writable entry then ((ERROR_SUCCESS, entry), w)
      else
        (let ((error, reopened), w) = ReopenPinnedFile api (object entry)
               (READ_CONTROL OR WRITE_DAC OR FILE_READ_ATTRIBUTES OR FILE_LIST_DIRECTORY) w
         in if error \<noteq> ERROR_SUCCESS then ((error, entry), w)
            else ((ERROR_SUCCESS, entry\<lparr>object := reopened, writable := True\<rparr>), CloseObject api (object entry) w)))"

text \<open>
  \<open>AclSize\<close> of a list: its header of 8 bytes, and per entry 8 bytes and the SID. The revision is
  passed through unchanged and left out.
\<close>

definition acl_size :: "dacl \<Rightarrow> nat" where
  "acl_size acl = 8 + (\<Sum>a\<leftarrow>acl. 8 + length (AceSid a))"

definition WriteAccess ::
  "'w object_api \<Rightarrow> security_descriptor \<Rightarrow> Entry \<Rightarrow> dacl \<Rightarrow> dword \<Rightarrow> bool \<Rightarrow> bool \<Rightarrow> bool \<Rightarrow> 'w
     \<Rightarrow> (dword \<times> Entry) \<times> 'w"
where
  "WriteAccess api descriptor entry updated accessMask addUser addOwner addTraverse w =
     (let (controlError, control) = GetSecurityDescriptorControl api descriptor in
      if controlError \<noteq> ERROR_SUCCESS then ((controlError, entry), w)
      else
        (let ((openError, entry), w) = MakeWritable api entry w in
         if openError \<noteq> ERROR_SUCCESS then ((openError, entry), w)
         else
           (let (error, w) = SetObjectDacl api (object entry) updated control w
            in ((error, if error \<noteq> ERROR_SUCCESS then entry
                        else entry\<lparr>addedMask := (if addUser then accessMask else 0), addedOwnerDeny := addOwner,
                          addedTraverseGrant := addTraverse\<rparr>), w))))"

definition SetAccess ::
  "'w object_api \<Rightarrow> BrokerReadScope \<Rightarrow> Entry \<Rightarrow> dword \<Rightarrow> bool \<Rightarrow> 'w \<Rightarrow> (dword \<times> Entry) \<times> 'w"
where
  "SetAccess api s entry accessMask readableRoot w =
     (let wantTraverse = (\<not> namespaceDirectory entry \<and> (readableRoot \<or> accessMask = AncestorDeny));
          idle = (accessMask = 0 \<and> addedMask entry = 0 \<and> \<not> addedOwnerDeny entry \<and> \<not> addedTraverseGrant entry)
      in if idle \<and> \<not> wantTraverse then ((ERROR_SUCCESS, entry), w)
      else
        (let (error, descriptor) = GetSecurityInfo api (object entry) (namespaceDirectory entry)
               (DACL_SECURITY_INFORMATION OR OWNER_SECURITY_INFORMATION) w
         in if error \<noteq> ERROR_SUCCESS then ((error, entry), w)
         else (case sd_dacl descriptor of
             None \<Rightarrow> ((ERROR_INVALID_ACL, entry), w)
           | Some original \<Rightarrow>
               (let (sidError, ownerRights) = CreatorOwnerRightsSid api;
                    aclError = InitializeAcl api (acl_size original + 3 * (12 + SECURITY_MAX_SID_SIZE));
                    (readError, aces) = ReadAces api original [0..<length original];
                    startError = first_error [sidError, aclError, readError]
                in if startError \<noteq> ERROR_SUCCESS then ((startError, entry), w)
                else
                  (let denyOwner = (\<not> namespaceDirectory entry \<and> accessMask \<noteq> 0 \<and> (case sd_owner descriptor of
                          None \<Rightarrow> False | Some owner \<Rightarrow> SidEqual (object_tokens api) owner (scope_user s)));
                       preserved = filter (\<lambda>raw. \<not> LeaseAce api (scope_user s) ownerRights entry raw) aces;
                       existingUserAce = list_ex (\<lambda>raw. accessMask \<noteq> 0
                         \<and> IsAccessAce api raw (scope_user s) accessMask (namespaceDirectory entry)) preserved;
                       existingOwnerDeny = list_ex (\<lambda>raw. IsAccessAce api raw ownerRights WRITE_DAC False) preserved;
                       existingTraverse = list_ex (GrantsTraverse api (scope_user s) (scope_groups s)) preserved;
                       addUser = (accessMask \<noteq> 0 \<and> \<not> existingUserAce);
                       addOwner = (denyOwner \<and> \<not> existingOwnerDeny);
                       addTraverse = (wantTraverse \<and> \<not> existingTraverse)
                   in if idle \<and> \<not> addTraverse then ((ERROR_SUCCESS, entry), w)
                   else
                     (let (updateError, updated) = UpdatedDacl api (scope_user s) ownerRights (namespaceDirectory entry)
                            accessMask addUser addOwner addTraverse preserved
                      in if updateError \<noteq> ERROR_SUCCESS then ((updateError, entry), w)
                         else WriteAccess api descriptor entry updated accessMask addUser addOwner addTraverse w))))))"

section \<open>Restore\<close>

definition entry_at :: "BrokerReadScope \<Rightarrow> wstring \<Rightarrow> Entry" where
  "entry_at s path = (case map_of (scope_entries s) path of None \<Rightarrow> Entry_default | Some entry \<Rightarrow> entry)"

definition assign_entry :: "wstring \<Rightarrow> Entry \<Rightarrow> BrokerReadScope \<Rightarrow> BrokerReadScope" where
  "assign_entry path entry s = s\<lparr>scope_entries := map_assign path entry (scope_entries s)\<rparr>"

definition leased :: "Entry \<Rightarrow> bool" where
  "leased entry \<longleftrightarrow> addedMask entry \<noteq> 0 \<or> addedOwnerDeny entry \<or> addedTraverseGrant entry"

text \<open>\<open>SetAccess\<close> on the entry of a path, in place.\<close>

definition SetPathAccess ::
  "'w object_api \<Rightarrow> wstring \<Rightarrow> dword \<Rightarrow> bool \<Rightarrow> BrokerReadScope \<Rightarrow> 'w \<Rightarrow> (dword \<times> BrokerReadScope) \<times> 'w"
where
  "SetPathAccess api path accessMask readableRoot s w =
     (let ((error, entry), w) = SetAccess api s (entry_at s path) accessMask readableRoot w
      in ((error, assign_entry path entry s), w))"

fun RestoreEntries ::
  "'w object_api \<Rightarrow> wstring list \<Rightarrow> dword \<Rightarrow> BrokerReadScope \<Rightarrow> 'w \<Rightarrow> (dword \<times> BrokerReadScope) \<times> 'w"
where
  "RestoreEntries api [] firstError s w = ((firstError, s), w)"
| "RestoreEntries api (path # paths) firstError s w =
     (if leased (entry_at s path) then
        (let ((error, s), w) = SetPathAccess api path 0 False s w
         in RestoreEntries api paths (if firstError = ERROR_SUCCESS then error else firstError)
              (observe ''read.restore'' path error s) w)
      else RestoreEntries api paths firstError s w)"

definition CloseEntries :: "'w object_api \<Rightarrow> (wstring \<times> Entry) list \<Rightarrow> 'w \<Rightarrow> 'w" where
  "CloseEntries api m w = fold (\<lambda>(_, entry). CloseObject api (object entry)) m w"

definition BrokerReadScope_Restore ::
  "'w object_api \<Rightarrow> BrokerReadScope \<Rightarrow> 'w \<Rightarrow> (dword \<times> BrokerReadScope) \<times> 'w"
where
  "BrokerReadScope_Restore api s w =
     (let ((firstError, s), w) = RestoreEntries api (map fst (scope_entries s)) ERROR_SUCCESS s w in
      if firstError \<noteq> ERROR_SUCCESS then ((firstError, s), w)
      else ((firstError, s\<lparr>scope_entries := [], scope_volumes := (\<lambda>_. None), scope_allowed := [], scope_user := [],
               scope_groups := [], has_observer := False\<rparr>), CloseEntries api (scope_entries s) w))"

section \<open>Visit\<close>

text \<open>
  The folders of a map below \<open>path\<close>: from \<open>lower_bound(path + "\\")\<close> on, while they are within it.
\<close>

definition entries_below :: "wstring \<Rightarrow> (wstring \<times> 'a) list \<Rightarrow> wstring list" where
  "entries_below path m =
     takeWhile (\<lambda>child. Within child path) (dropWhile (\<lambda>child. child < path @ [WCHR BS]) (map fst m))"

definition erase_entry :: "'w object_api \<Rightarrow> wstring \<Rightarrow> BrokerReadScope \<Rightarrow> 'w \<Rightarrow> BrokerReadScope \<times> 'w" where
  "erase_entry api path s w =
     (s\<lparr>scope_entries := map_erase path (scope_entries s)\<rparr>, CloseObject api (object (entry_at s path)) w)"

fun ReleaseChildren ::
  "'w object_api \<Rightarrow> wstring list \<Rightarrow> BrokerReadScope \<Rightarrow> 'w \<Rightarrow> (dword \<times> BrokerReadScope) \<times> 'w"
where
  "ReleaseChildren api [] s w = ((ERROR_SUCCESS, s), w)"
| "ReleaseChildren api (child # children) s w =
     (let ((error, s), w) = SetPathAccess api child 0 True s w in
      if error \<noteq> ERROR_SUCCESS then ((error, s\<lparr>failurePath := child\<rparr>), w)
      else if addedTraverseGrant (entry_at s child) then ReleaseChildren api children s w
      else (let (s, w) = erase_entry api child s w in ReleaseChildren api children s w))"

definition VisitReadable ::
  "'w object_api \<Rightarrow> wstring \<Rightarrow> BrokerReadScope \<Rightarrow> 'w \<Rightarrow> (dword \<times> BrokerReadScope) \<times> 'w"
where
  "VisitReadable api path s w =
     (let ((error, s), w) = SetPathAccess api path 0 True s w;
          s = observe ''read.excluded_from_deny'' path error s
      in if error \<noteq> ERROR_SUCCESS then ((error, s), w)
         else ReleaseChildren api (entries_below path (scope_entries s)) s w)"

text \<open>
  A visit returns its error, the remaining budget and the scope; it is \<open>None\<close> only if the fuel of
  the enumeration loop runs out, which the properties exclude. Its clock is \<open>GetTickCount64\<close>.
\<close>

type_synonym 'w visit = "wstring \<Rightarrow> handle \<Rightarrow> nat \<Rightarrow> BrokerReadScope \<Rightarrow> 'w \<Rightarrow> ((dword \<times> nat \<times> BrokerReadScope) \<times> 'w) option"

definition is_folder :: "dirent \<Rightarrow> bool" where
  "is_folder child \<longleftrightarrow> FileName child \<noteq> wide ''.'' \<and> FileName child \<noteq> wide ''..''
     \<and> FileAttributes child AND FILE_ATTRIBUTE_DIRECTORY \<noteq> 0"

text \<open>A child that has no entry yet is opened, without following links.\<close>

definition OpenChild ::
  "'w object_api \<Rightarrow> wstring \<Rightarrow> wstring \<Rightarrow> BrokerReadScope \<Rightarrow> 'w \<Rightarrow> (dword \<times> handle \<times> BrokerReadScope) \<times> 'w"
where
  "OpenChild api path name s w =
     (let childPath = path @ [WCHR BS] @ name in
      if childPath \<in> fst ` set (scope_entries s) then ((ERROR_SUCCESS, nullptr, s), w)
      else (let ((openError, child_handle), w) = OpenRelativeFile api (object (entry_at s path)) name
                  (READ_CONTROL OR FILE_READ_ATTRIBUTES OR FILE_LIST_DIRECTORY) w
            in ((openError, child_handle, s\<lparr>failurePath := childPath\<rparr>), w)))"

fun VisitRecords ::
  "'w object_api \<Rightarrow> 64 word \<Rightarrow> 'w visit \<Rightarrow> wstring \<Rightarrow> dirent list \<Rightarrow> nat \<Rightarrow> BrokerReadScope \<Rightarrow> 'w
     \<Rightarrow> ((dword \<times> nat \<times> BrokerReadScope) \<times> 'w) option"
where
  "VisitRecords api deadline visit path [] remaining s w = Some ((ERROR_SUCCESS, remaining, s), w)"
| "VisitRecords api deadline visit path (child # children) remaining s w =
     (let (now, w) = GetTickCount64 api w in
      if now \<ge> deadline then Some ((ERROR_TIMEOUT, remaining, s), w)
      else if remaining = 0 then Some ((ERROR_NOT_ENOUGH_QUOTA, remaining, s), w)
      else
        (let remaining = remaining - 1 in
         if is_folder child then
           (let ((openError, child_handle, s), w) = OpenChild api path (FileName child) s w
            in if openError \<noteq> ERROR_SUCCESS then Some ((openError, remaining, s), w)
            else
              (case visit (path @ [WCHR BS] @ FileName child) child_handle remaining s w of
                 None \<Rightarrow> None
               | Some ((error, remaining, s), w) \<Rightarrow>
                   if error \<noteq> ERROR_SUCCESS then Some ((error, remaining, s), w)
                   else VisitRecords api deadline visit path children remaining s w))
         else VisitRecords api deadline visit path children remaining s w))"

fun VisitBatches ::
  "'w object_api \<Rightarrow> 64 word \<Rightarrow> 'w visit \<Rightarrow> wstring \<Rightarrow> nat \<Rightarrow> bool \<Rightarrow> nat \<Rightarrow> BrokerReadScope \<Rightarrow> 'w
     \<Rightarrow> ((dword \<times> nat \<times> BrokerReadScope) \<times> 'w) option"
where
  "VisitBatches api deadline visit path 0 restart remaining s w = None"
| "VisitBatches api deadline visit path (Suc fuel) restart remaining s w =
     (let (now, w) = GetTickCount64 api w in
      if now \<ge> deadline then Some ((ERROR_TIMEOUT, remaining, s), w)
      else
        (let ((enumerationError, first, rest), w) = FileIdBothDirectoryInfo api (object (entry_at s path)) restart w in
         if enumerationError = ERROR_NO_MORE_FILES then
           (let ((error, s), w) = SetPathAccess api path AncestorDeny False s w in Some ((error, remaining, s), w))
         else if enumerationError \<noteq> ERROR_SUCCESS then Some ((enumerationError, remaining, s), w)
         else
           (case VisitRecords api deadline visit path (first # rest) remaining s w of
              None \<Rightarrow> None
            | Some ((error, remaining, s), w) \<Rightarrow>
                if error \<noteq> ERROR_SUCCESS then Some ((error, remaining, s), w)
                else VisitBatches api deadline visit path fuel False remaining s w)))"

text \<open>A visit of a folder that has its entry and its handle.\<close>

definition VisitEntry ::
  "'w object_api \<Rightarrow> 64 word \<Rightarrow> 'w visit \<Rightarrow> wstring \<Rightarrow> nat \<Rightarrow> BrokerReadScope \<Rightarrow> 'w
     \<Rightarrow> ((dword \<times> nat \<times> BrokerReadScope) \<times> 'w) option"
where
  "VisitEntry api deadline visit path remaining s w =
     (let (infoError, attributes) = FileAttributeTagInfo api (object (entry_at s path)) w;
          readable = list_ex (\<lambda>allowed. Within path allowed) (scope_allowed s);
          ancestor = list_ex (\<lambda>allowed. Within allowed path) (scope_allowed s)
      in if infoError \<noteq> ERROR_SUCCESS then Some ((infoError, remaining, s), w)
      else if attributes AND FILE_ATTRIBUTE_DIRECTORY = 0 then Some ((ERROR_DIRECTORY, remaining, s), w)
      else if readable then
        (let ((error, s), w) = VisitReadable api path s w in Some ((error, remaining, s), w))
      else if \<not> ancestor then
        (let ((error, s), w) = SetPathAccess api path FILE_ALL_ACCESS False
               (observe ''read.deny_selected'' path ERROR_SUCCESS s) w
         in Some ((error, remaining, s), w))
      else
        (let s = observe ''read.ancestor_traverse'' path ERROR_SUCCESS s in
         if attributes AND FILE_ATTRIBUTE_REPARSE_POINT \<noteq> 0 then Some ((ERROR_ACCESS_DENIED, remaining, s), w)
         else VisitBatches api deadline visit path (Suc (Suc remaining)) True remaining s w))"

text \<open>
  One level of \<open>Visit\<close>, with \<open>deeper\<close> for the next level, which the folder too deep has not. The
  handle it is given becomes the entry's if the entry is new, and is closed on return otherwise.
\<close>

definition VisitLevel ::
  "'w object_api \<Rightarrow> 64 word \<Rightarrow> 'w visit option \<Rightarrow> 'w visit"
where
  "VisitLevel api deadline deeper path object_handle remaining s w =
     (let s = s\<lparr>failurePath := path\<rparr>;
          (now, w) = GetTickCount64 api w;
          refused = (\<lambda>error remaining s. Some ((error, remaining, s), CloseObject api object_handle w))
      in if now \<ge> deadline then refused ERROR_TIMEOUT remaining s
      else if remaining = 0 then refused ERROR_NOT_ENOUGH_QUOTA remaining s
      else (case deeper of
          None \<Rightarrow> refused ERROR_NOT_ENOUGH_QUOTA remaining s
        | Some visit \<Rightarrow>
            (let remaining = remaining - 1;
                 inserted = (path \<notin> fst ` set (scope_entries s));
                 s = s\<lparr>scope_entries := map_emplace path Entry_default (scope_entries s)\<rparr>
             in if length (scope_entries s) > 10000 then refused ERROR_NOT_ENOUGH_QUOTA remaining s
             else if inserted then
               VisitEntry api deadline visit path remaining
                 (assign_entry path (Entry_default\<lparr>object := object_handle\<rparr>) s) w
             else
               (case VisitEntry api deadline visit path remaining s w of
                  None \<Rightarrow> None
                | Some (result, w) \<Rightarrow> Some (result, CloseObject api object_handle w)))))"

text \<open>\<open>Visit\<close> at depth \<open>129 - levels\<close>.\<close>

primrec Visit :: "'w object_api \<Rightarrow> 64 word \<Rightarrow> nat \<Rightarrow> 'w visit" where
  "Visit api deadline 0 = VisitLevel api deadline None"
| "Visit api deadline (Suc levels) = VisitLevel api deadline (Some (Visit api deadline levels))"

section \<open>Ensure\<close>

text \<open>
  The calls \<open>Ensure\<close> makes besides: the session of a token, the Windows directory, the known folders
  (by number: \<open>FOLDERID_ProgramFiles\<close>, \<open>FOLDERID_ProgramFilesX86\<close>; an \<open>HRESULT\<close> below zero is an
  error) and the volumes, with the error that ends their enumeration.
\<close>

record 'w read_scope_api =
  scope_objects :: "'w object_api"
  GetTokenSessionId :: "handle \<Rightarrow> 'w \<Rightarrow> dword \<times> dword"
  GetWindowsDirectoryW :: "'w \<Rightarrow> dword \<times> wstring"
  SHGetKnownFolderPath :: "nat \<Rightarrow> 'w \<Rightarrow> dword \<times> wstring"
  FindFirstVolumeW :: "'w \<Rightarrow> dword \<times> wstring list \<times> dword"
  GetVolumePathNamesForVolumeNameW :: "wstring \<Rightarrow> 'w \<Rightarrow> dword \<times> nat"

definition HRESULT_CODE :: "dword \<Rightarrow> dword" where
  "HRESULT_CODE result = result AND 0xFFFF"

definition FAILED :: "dword \<Rightarrow> bool" where
  "FAILED result \<longleftrightarrow> sint result < 0"

fun CanonicalRoots ::
  "'w object_api \<Rightarrow> wstring list \<Rightarrow> wstring list \<Rightarrow> BrokerReadScope \<Rightarrow> 'w
     \<Rightarrow> (dword \<times> wstring list \<times> BrokerReadScope) \<times> 'w"
where
  "CanonicalRoots api [] allowed s w = ((ERROR_SUCCESS, allowed, s), w)"
| "CanonicalRoots api (root # roots) allowed s w =
     (let s = s\<lparr>failurePath := root\<rparr>;
          ((error, canonical), w) = CanonicalDirectory api root w
      in if error \<noteq> ERROR_SUCCESS then ((error, allowed, s), w)
         else CanonicalRoots api roots (allowed @ [canonical]) s w)"

fun KeepBroadest :: "wstring list \<Rightarrow> wstring list \<Rightarrow> wstring list" where
  "KeepBroadest roots [] = roots"
| "KeepBroadest roots (root # allowed) =
     KeepBroadest (if list_ex (\<lambda>parent. Within root parent) roots then roots else roots @ [root]) allowed"

text \<open>The first visit of a volume; its handle goes to the visit.\<close>

definition EnsureNewVolume ::
  "'w object_api \<Rightarrow> 64 word \<Rightarrow> wstring \<Rightarrow> nat \<Rightarrow> BrokerReadScope \<Rightarrow> 'w
     \<Rightarrow> ((dword \<times> nat \<times> BrokerReadScope) \<times> 'w) option"
where
  "EnsureNewVolume api deadline volume remaining s w =
     (let ((openError, object_handle, flags, driveType), w) = OpenVolumeRoot api volume w in
      if openError \<noteq> ERROR_SUCCESS then
        (let w = CloseObject api object_handle w in
         if openError = ERROR_NOT_READY \<and> (driveType = DRIVE_CDROM \<or> driveType = DRIVE_REMOVABLE)
         then Some ((ERROR_SUCCESS, remaining, observe ''read.skip_empty_drive'' volume openError s), w)
         else Some ((openError, remaining, s), w))
      else if flags AND FILE_PERSISTENT_ACLS = 0
      then Some ((ERROR_NOT_SUPPORTED, remaining, s), CloseObject api object_handle w)
      else
        (let (nameError, canonical) = CanonicalName api object_handle w in
         if nameError \<noteq> ERROR_SUCCESS then Some ((nameError, remaining, s), CloseObject api object_handle w)
         else
           (case Visit api deadline 129 canonical object_handle remaining s w of
              None \<Rightarrow> None
            | Some ((error, remaining, s), w) \<Rightarrow>
                if error \<noteq> ERROR_SUCCESS then Some ((error, remaining, s), w)
                else Some ((ERROR_SUCCESS, remaining, s\<lparr>scope_volumes :=
                  (case scope_volumes s volume of None \<Rightarrow> (scope_volumes s)(volume \<mapsto> canonical)
                   | Some _ \<Rightarrow> scope_volumes s)\<rparr>), w))))"

fun EnsureVolumes ::
  "'w object_api \<Rightarrow> 64 word \<Rightarrow> wstring list \<Rightarrow> nat \<Rightarrow> BrokerReadScope \<Rightarrow> 'w
     \<Rightarrow> ((dword \<times> BrokerReadScope) \<times> 'w) option"
where
  "EnsureVolumes api deadline [] remaining s w = Some ((ERROR_SUCCESS, s\<lparr>failurePath := []\<rparr>), w)"
| "EnsureVolumes api deadline (volume # volumes) remaining s w =
     (let s = s\<lparr>failurePath := volume\<rparr> in
      case (case scope_volumes s volume of
              Some canonical \<Rightarrow> Visit api deadline 129 canonical nullptr remaining s w
            | None \<Rightarrow> EnsureNewVolume api deadline volume remaining s w) of
        None \<Rightarrow> None
      | Some ((error, remaining, s), w) \<Rightarrow>
          if error \<noteq> ERROR_SUCCESS then Some ((error, s), w)
          else EnsureVolumes api deadline volumes remaining s w)"

text \<open>A vector of bytes with the groups keeps its old value only if the query of the groups fails early.\<close>

definition EnsureRoots ::
  "'w object_api \<Rightarrow> handle \<Rightarrow> wstring list \<Rightarrow> wstring list \<Rightarrow> wstring \<Rightarrow> wstring \<Rightarrow> nat \<Rightarrow> 64 word
     \<Rightarrow> BrokerReadScope \<Rightarrow> 'w \<Rightarrow> ((dword \<times> BrokerReadScope) \<times> 'w) option"
where
  "EnsureRoots api token volumes readables profile work maximumObjects timeoutMilliseconds s w =
     (let s = s\<lparr>failurePath := []\<rparr>;
          (userError, user) = QueryTokenInformation (object_tokens api) token TokenUser w
      in if userError \<noteq> ERROR_SUCCESS then Some ((userError, s), w)
      else if scope_user s \<noteq> [] \<and> \<not> SidEqual (object_tokens api) (scope_user s) (user_sid user)
      then Some ((ERROR_ACCESS_DENIED, s), w)
      else
        (let s = s\<lparr>scope_user := user_sid user\<rparr>;
             (groupsError, groups) = QueryTokenInformation (object_tokens api) token TokenGroups w
         in if groupsError \<noteq> ERROR_SUCCESS then Some ((groupsError, s), w)
         else
           (let s = s\<lparr>scope_groups := group_list groups\<rparr>;
                ((error, allowed, s), w) = CanonicalRoots api (readables @ [profile, work]) (scope_allowed s) s w
            in if error \<noteq> ERROR_SUCCESS then Some ((error, s), w)
            else
              (let s = s\<lparr>scope_allowed := KeepBroadest [] (sort allowed)\<rparr>;
                   (now, w) = GetTickCount64 api w
               in EnsureVolumes api (now + timeoutMilliseconds) volumes maximumObjects s w))))"

fun EnsureNamespaceEntries ::
  "'w object_api \<Rightarrow> wstring list \<Rightarrow> BrokerReadScope \<Rightarrow> 'w \<Rightarrow> (dword \<times> BrokerReadScope) \<times> 'w"
where
  "EnsureNamespaceEntries api [] s w = ((ERROR_SUCCESS, s\<lparr>failurePath := []\<rparr>), w)"
| "EnsureNamespaceEntries api (path # directories) s w =
     (let s = s\<lparr>failurePath := path, scope_entries := map_emplace path Entry_default (scope_entries s)\<rparr> in
      if length (scope_entries s) > 10000 then ((ERROR_NOT_ENOUGH_QUOTA, s), w)
      else
        (let entry = (entry_at s path)\<lparr>namespaceDirectory := True\<rparr>;
             s = assign_entry path entry s;
             ((status, rawHandle), w) =
               (if object entry = nullptr \<or> object entry = INVALID_HANDLE_VALUE
                then NtOpenDirectoryObject api path w else ((0, object entry), w))
         in if nt_error status then ((RtlNtStatusToDosError api status, s), w)
         else
           (let s = assign_entry path (entry\<lparr>object := rawHandle\<rparr>) s;
                ((error, s), w) = SetPathAccess api path 2 False s w
            in if error \<noteq> ERROR_SUCCESS then ((error, s), w)
               else EnsureNamespaceEntries api directories s w)))"

definition EnsureNamespaceDirectories ::
  "'w object_api \<Rightarrow> wstring list \<Rightarrow> BrokerReadScope \<Rightarrow> 'w \<Rightarrow> (dword \<times> BrokerReadScope) \<times> 'w"
where
  "EnsureNamespaceDirectories api directories s w =
     (let loadError = load_native api ''NtOpenDirectoryObject'' in
      if scope_user s = [] then ((ERROR_INVALID_STATE, s), w)
      else if loadError \<noteq> ERROR_SUCCESS then ((loadError, s), w)
      else EnsureNamespaceEntries api directories s w)"

definition EnsureWindowsNamespace ::
  "'w read_scope_api \<Rightarrow> handle \<Rightarrow> BrokerReadScope \<Rightarrow> 'w \<Rightarrow> (dword \<times> BrokerReadScope) \<times> 'w"
where
  "EnsureWindowsNamespace api token s w =
     (let (tokenError, session) = GetTokenSessionId api token w in
      if tokenError \<noteq> ERROR_SUCCESS then ((tokenError, s), w)
      else if session = 0 then ((ERROR_SUCCESS, s), w)
      else
        (let sessions = wide (BS # ''Sessions''); directory = sessions @ [WCHR BS] @ wide (decimal (unat session))
         in EnsureNamespaceDirectories (scope_objects api)
                [sessions, directory, directory @ wide (BS # ''Windows'')] s w))"

fun KnownFolders :: "'w read_scope_api \<Rightarrow> nat list \<Rightarrow> 'w \<Rightarrow> dword \<times> wstring list" where
  "KnownFolders api [] w = (ERROR_SUCCESS, [])"
| "KnownFolders api (folder # folders) w =
     (let (result, path) = SHGetKnownFolderPath api folder w in
      if FAILED result then (HRESULT_CODE result, [])
      else (let (error, paths) = KnownFolders api folders w in (error, path # paths)))"

fun MountedVolumes :: "'w read_scope_api \<Rightarrow> dword \<Rightarrow> wstring list \<Rightarrow> 'w \<Rightarrow> dword \<times> wstring list" where
  "MountedVolumes api finalError [] w = (finalError, [])"
| "MountedVolumes api finalError (volume # volumes) w =
     (let (pathsError, characters) = GetVolumePathNamesForVolumeNameW api volume w in
      if pathsError \<noteq> ERROR_MORE_DATA \<and> pathsError \<noteq> ERROR_SUCCESS then (pathsError, [])
      else (let (error, mounted) = MountedVolumes api finalError volumes w
            in (error, if characters > 1 then volume # mounted else mounted)))"

definition BrokerReadScope_Ensure ::
  "'w read_scope_api \<Rightarrow> handle \<Rightarrow> wstring \<Rightarrow> wstring \<Rightarrow> BrokerReadScope \<Rightarrow> 'w
     \<Rightarrow> ((dword \<times> BrokerReadScope) \<times> 'w) option"
where
  "BrokerReadScope_Ensure api token profile work s w =
     (let (windowsError, windows) = GetWindowsDirectoryW api w in
      if windowsError \<noteq> ERROR_SUCCESS then Some ((windowsError, s), w)
      else
        (let (foldersError, folders) = KnownFolders api [0, 1] w in
         if foldersError \<noteq> ERROR_SUCCESS then Some ((foldersError, s), w)
         else
           (let (searchError, found, finalError) = FindFirstVolumeW api w in
            if searchError \<noteq> ERROR_SUCCESS then Some ((searchError, s), w)
            else
              (let (error, volumes) = MountedVolumes api finalError found w in
               if error \<noteq> ERROR_NO_MORE_FILES then Some ((error, s), w)
               else
                 (case EnsureRoots (scope_objects api) token volumes (windows # folders) profile work 10000 30000 s w of
                    None \<Rightarrow> None
                  | Some ((error, s), w) \<Rightarrow>
                      if error \<noteq> ERROR_SUCCESS then Some ((error, s), w)
                      else Some (EnsureWindowsNamespace api token s w))))))"

end
