(* ===== verification/ReadScopeLease.thy ===== *)
theory ReadScopeLease
  imports ReadScope
begin

text \<open>
  What the read scope adds to a folder's DACL, and that it takes back exactly that: the contract of
  the calls on folders, the form of a DACL under lease, and that \<open>SetAccess\<close> keeps it.
\<close>

section \<open>The contract\<close>

text \<open>
  The state of the folders: the path a handle is open on, the DACL at a path (none when null), and
  what is left of the enumeration of a handle.
\<close>

record folder_view =
  path_of :: "handle \<Rightarrow> wstring option"
  dacl_at :: "wstring \<Rightarrow> dacl option"
  listing :: "handle \<Rightarrow> dirent list"

definition denied_ace :: "dword \<Rightarrow> sid \<Rightarrow> ace" where
  "denied_ace accessMask s = \<lparr>AceType = ACCESS_DENIED_ACE_TYPE, AceFlags = 0, AceMask = accessMask, AceSid = s\<rparr>"

definition allowed_ace :: "dword \<Rightarrow> sid \<Rightarrow> ace" where
  "allowed_ace accessMask s = \<lparr>AceType = ACCESS_ALLOWED_ACE_TYPE, AceFlags = 0, AceMask = accessMask, AceSid = s\<rparr>"

text \<open>A new handle on a path, and a call that fails without an effect.\<close>

definition opened :: "folder_view \<Rightarrow> handle \<Rightarrow> wstring \<Rightarrow> folder_view \<Rightarrow> bool" where
  "opened v h path v' \<longleftrightarrow> h \<noteq> nullptr \<and> h \<noteq> INVALID_HANDLE_VALUE \<and> path_of v h = None
     \<and> (\<exists>l. v' = v\<lparr>path_of := (path_of v)(h \<mapsto> path), listing := (listing v)(h := l)\<rparr>)"

text \<open>
  Documented behaviour, of a file system on which only the broker changes folders: \<open>children\<close> is the
  content of a folder. Canonical names of volumes start with two backslashes and are not nested.
\<close>

locale folders =
  fixes api :: "'w object_api" and view :: "'w \<Rightarrow> folder_view" and children :: "wstring \<Rightarrow> dirent list"
    and volume_root :: "wstring \<Rightarrow> bool"
  assumes sid_equal: "SidEqual (object_tokens api) s t \<longleftrightarrow> s = t"
    and no_handle: "path_of (view w) nullptr = None" "path_of (view w) INVALID_HANDLE_VALUE = None"
    and close_view: "view (CloseHandle (object_tokens api) h w) = (view w)\<lparr>path_of := (path_of (view w))(h := None)\<rparr>"
    and status_error: "nt_error status \<Longrightarrow> RtlNtStatusToDosError api status \<noteq> ERROR_SUCCESS"
    and get_ace: "GetAce api acl n = (ERROR_SUCCESS, raw) \<Longrightarrow> n < length acl \<Longrightarrow> raw = acl ! n"
    and add_ace: "AddAce api acl raw = (ERROR_SUCCESS, acl') \<Longrightarrow> acl' = acl @ [raw]"
    and add_denied: "AddAccessDeniedAce api acl m s = (ERROR_SUCCESS, acl') \<Longrightarrow> acl' = acl @ [denied_ace m s]"
    and add_allowed: "AddAccessAllowedAce api acl m s = (ERROR_SUCCESS, acl') \<Longrightarrow> acl' = acl @ [allowed_ace m s]"
    and set_dacl: "SetSecurityDescriptorDacl api acl d = (ERROR_SUCCESS, d') \<Longrightarrow> sd_dacl d' = Some acl"
    and set_control: "SetSecurityDescriptorControl api b c d = (ERROR_SUCCESS, d') \<Longrightarrow> sd_dacl d' = sd_dacl d"
    and get_security: "GetSecurityInfo api h k info w = (ERROR_SUCCESS, d) \<Longrightarrow>
      \<exists>path. path_of (view w) h = Some path \<and> sd_dacl d = dacl_at (view w) path"
    and set_security: "NtSetSecurityObject api h info d w = (status, w') \<Longrightarrow> path_of (view w) h = Some path \<Longrightarrow>
      info AND DACL_SECURITY_INFORMATION \<noteq> 0 \<Longrightarrow>
      view w' = (if nt_error status then view w else (view w)\<lparr>dacl_at := (dacl_at (view w))(path := sd_dacl d)\<rparr>)"
    and create_file: "NtCreateFile api h name access w = ((status, h'), w') \<Longrightarrow>
      (if nt_error status then view w' = view w
       else (\<exists>path. opened (view w) h' path (view w') \<and> (\<forall>p. path_of (view w) h = Some p \<longrightarrow>
               path = (if name = [] then p else p @ [WCHR BS] @ name))))"
    and open_directory: "NtOpenDirectoryObject api path w = ((status, h'), w') \<Longrightarrow>
      (if nt_error status then view w' = view w else opened (view w) h' path (view w'))"
    and open_root: "OpenRoot api path access w = ((e, h'), w') \<Longrightarrow>
      (if e \<noteq> ERROR_SUCCESS then view w' = view w
       else (\<exists>root. volume_root root \<and> opened (view w) h' root (view w')))"
    and final_name: "GetFinalPathNameByHandleW api h w = (e, n, name) \<Longrightarrow> n \<noteq> 0 \<Longrightarrow>
      path_of (view w) h = Some path \<Longrightarrow> strip_backslashes (take n name) = path"
    and final_error: "GetFinalPathNameByHandleW api h w = (e, 0, name) \<Longrightarrow> e \<noteq> ERROR_SUCCESS"
    and root_name: "volume_root root \<Longrightarrow> take 2 root = wide [BS, BS]"
    and child_name: "child \<in> set (children path) \<Longrightarrow> FileName child \<noteq> [] \<and> WCHR BS \<notin> set (FileName child)"
    and roots_apart: "volume_root root \<Longrightarrow> volume_root root' \<Longrightarrow> Within root root' \<Longrightarrow> root = root'"
    and tag_closed: "path_of (view w) h = None \<Longrightarrow> fst (FileAttributeTagInfo api h w) \<noteq> ERROR_SUCCESS"
    and tick: "GetTickCount64 api w = (now, w') \<Longrightarrow> view w' = view w"
    and enumerate: "FileIdBothDirectoryInfo api h restart w = ((e, first, rest), w') \<Longrightarrow>
      path_of (view w) h = Some path \<Longrightarrow>
      \<exists>l. view w' = (view w)\<lparr>listing := (listing (view w))(h := l)\<rparr>
        \<and> (e = ERROR_SUCCESS \<longrightarrow> (if restart then children path else listing (view w) h) = first # rest @ l)
        \<and> (e = ERROR_NO_MORE_FILES \<longrightarrow> (if restart then children path else listing (view w) h) = [])"
    and enumerate_closed: "FileIdBothDirectoryInfo api h restart w = (r, w') \<Longrightarrow> path_of (view w) h = None
      \<Longrightarrow> view w' = view w"
    and user_sid: "QueryTokenInformation (object_tokens api) token TokenUser w = (ERROR_SUCCESS, i) \<Longrightarrow> user_sid i \<noteq> []"
begin

section \<open>Closing and reading\<close>

lemma CloseObject_view:
  "view (CloseObject api h w) = (view w)\<lparr>path_of := (path_of (view w))(h := None)\<rparr>"
proof -
  have "(path_of (view w))(h := None) = path_of (view w)" if "h = nullptr \<or> h = INVALID_HANDLE_VALUE"
    using that no_handle by (auto simp: fun_upd_idem)
  then show ?thesis by (auto simp: UniqueHandle_reset_def close_view)
qed

lemma ReadAces_success:
  "ReadAces api acl ns = (ERROR_SUCCESS, aces) \<Longrightarrow> \<forall>n \<in> set ns. n < length acl \<Longrightarrow> aces = map (nth acl) ns"
  by (induction ns arbitrary: aces) (auto split: prod.splits if_splits dest: get_ace)

lemma ReadAces_all: "ReadAces api acl [0..<length acl] = (ERROR_SUCCESS, aces) \<Longrightarrow> aces = acl"
  using ReadAces_success[of acl "[0..<length acl]" aces] by (simp add: map_nth)

lemma AddAces_success: "AddAces api acl preserved = (ERROR_SUCCESS, acl') \<Longrightarrow> acl' = acl @ preserved"
proof (induction preserved arbitrary: acl)
  case (Cons raw preserved)
  then have "AddAces api (acl @ [raw]) preserved = (ERROR_SUCCESS, acl')"
    by (auto split: prod.splits if_splits dest!: add_ace)
  from Cons.IH[OF this] show ?case by simp
qed simp

end

section \<open>A DACL under lease\<close>

text \<open>The entries in front of and behind the original ones.\<close>

definition lease_front :: "sid \<Rightarrow> sid \<Rightarrow> Entry \<Rightarrow> dacl" where
  "lease_front user ownerRights e =
     (if addedMask e \<noteq> 0 \<and> \<not> namespaceDirectory e then [denied_ace (addedMask e) user] else [])
     @ (if addedOwnerDeny e then [denied_ace WRITE_DAC ownerRights] else [])"

definition lease_back :: "sid \<Rightarrow> Entry \<Rightarrow> dacl" where
  "lease_back user e =
     (if addedMask e \<noteq> 0 \<and> namespaceDirectory e then [allowed_ace (addedMask e) user] else [])
     @ (if addedTraverseGrant e then [allowed_ace FILE_TRAVERSE user] else [])"

definition lease_form :: "'w object_api \<Rightarrow> sid \<Rightarrow> Entry \<Rightarrow> dacl option \<Rightarrow> dacl option \<Rightarrow> bool" where
  "lease_form api user e original d \<longleftrightarrow>
     (let ownerRights = snd (CreatorOwnerRightsSid api) in
      if leased e then (\<exists>acl. original = Some acl
        \<and> d = Some (lease_front user ownerRights e @ acl @ lease_back user e)
        \<and> (\<forall>raw \<in> set acl. \<not> LeaseAce api user ownerRights e raw))
      else d = original)"

lemma not_leased [simp]: "\<not> leased e \<Longrightarrow> \<not> LeaseAce api user ownerRights e raw"
  by (auto simp: leased_def LeaseAce_def)

context folders
begin

lemma lease_added:
  "raw \<in> set (lease_front user ownerRights e) \<union> set (lease_back user e) \<Longrightarrow> LeaseAce api user ownerRights e raw"
  by (auto simp: lease_front_def lease_back_def LeaseAce_def IsAccessAce_def denied_ace_def allowed_ace_def sid_equal
      split: if_splits)

text \<open>Dropping the entries of the lease leaves the original ones.\<close>

lemma lease_preserved:
  assumes "lease_form api user e original (Some acl)"
  shows "Some (filter (\<lambda>raw. \<not> LeaseAce api user (snd (CreatorOwnerRightsSid api)) e raw) acl) = original"
proof (cases "leased e")
  case True
  with assms obtain o' where "original = Some o'"
    and acl: "acl = lease_front user (snd (CreatorOwnerRightsSid api)) e @ o' @ lease_back user e"
    and "\<forall>raw \<in> set o'. \<not> LeaseAce api user (snd (CreatorOwnerRightsSid api)) e raw"
    by (auto simp: lease_form_def Let_def)
  then show ?thesis using lease_added by (auto simp: filter_empty_conv filter_id_conv)
qed (use assms in \<open>simp add: lease_form_def\<close>)

lemma UpdatedDacl_success:
  assumes "UpdatedDacl api user ownerRights ns m addUser addOwner addTraverse preserved = (ERROR_SUCCESS, updated)"
    and "e = e0\<lparr>addedMask := (if addUser then m else 0), addedOwnerDeny := addOwner, addedTraverseGrant := addTraverse\<rparr>"
    and "namespaceDirectory e0 = ns" and "addUser \<longrightarrow> m \<noteq> 0"
  shows "updated = lease_front user ownerRights e @ preserved @ lease_back user e"
  using assms(1) unfolding UpdatedDacl_def
  by (elim and_then_successE)
    (use assms(2-) in \<open>auto simp: add_if_def lease_front_def lease_back_def split: if_splits
      dest!: AddAces_success add_denied add_allowed\<close>)

end

text \<open>
  The handle of an entry may be replaced by a new one on the same folder; nothing changes but that
  and the folder's DACL.
\<close>

definition repinned :: "folder_view \<Rightarrow> wstring \<Rightarrow> handle \<Rightarrow> handle \<Rightarrow> folder_view \<Rightarrow> bool" where
  "repinned v path h h' v' \<longleftrightarrow> (\<forall>q. q \<noteq> path \<longrightarrow> dacl_at v' q = dacl_at v q)
     \<and> (\<forall>g. path_of v g \<noteq> None \<longrightarrow> listing v' g = listing v g)
     \<and> (h' = h \<and> path_of v' = path_of v
        \<or> h' \<noteq> nullptr \<and> h' \<noteq> INVALID_HANDLE_VALUE \<and> path_of v h' = None
          \<and> path_of v' = (path_of v)(h' \<mapsto> path, h := None))"

lemma repinned_refl [simp]: "repinned v path h h v"
  by (simp add: repinned_def)

context folders
begin

lemma OpenPinnedRelative_view:
  assumes "OpenPinnedRelative api h name access w = ((e, h'), w')" and "length name \<le> 32767"
  shows "if e \<noteq> ERROR_SUCCESS then view w' = view w \<and> h' = nullptr
    else (\<exists>path. opened (view w) h' path (view w') \<and> (\<forall>p. path_of (view w) h = Some p \<longrightarrow>
            path = (if name = [] then p else p @ [WCHR BS] @ name)))"
proof -
  have n: "take (length name * 2 mod 2 ^ 16 div 2) name = name" using assms(2) by simp
  show ?thesis
    using assms(1) create_file[of h name "access OR SYNCHRONIZE" w]
    unfolding OpenPinnedRelative_def n Let_def
    by (auto split: prod.splits if_splits dest: status_error)
qed

lemma OpenRelativeFile_view:
  assumes "OpenRelativeFile api h name access w = ((e, h'), w')"
  shows "if e \<noteq> ERROR_SUCCESS then view w' = view w \<and> h' = nullptr
    else name \<noteq> [] \<and> (\<exists>path. opened (view w) h' path (view w') \<and> (\<forall>p. path_of (view w) h = Some p \<longrightarrow>
            path = p @ [WCHR BS] @ name))"
  using assms OpenPinnedRelative_view[of h name access w e h' w']
  by (auto simp: OpenRelativeFile_def split: if_splits)

lemma SetObjectDacl_view:
  assumes "SetObjectDacl api h acl control w = (e, w')" and "path_of (view w) h = Some path"
  shows "view w' = (if e = ERROR_SUCCESS then (view w)\<lparr>dacl_at := (dacl_at (view w))(path := Some acl)\<rparr> else view w)"
  using assms(1) set_security[OF _ assms(2)]
  by (auto simp: SetObjectDacl_def SetObjectSecurity_def Let_def split: prod.splits if_splits
      dest!: set_dacl set_control dest: status_error)

lemma MakeWritable_view:
  assumes "MakeWritable api e w = ((err, e'), w')" and "path_of (view w) (object e) = Some path"
  shows "repinned (view w) path (object e) (object e') (view w') \<and> path_of (view w') (object e') = Some path
    \<and> dacl_at (view w') = dacl_at (view w)
    \<and> e' = e\<lparr>object := object e', writable := writable e'\<rparr>"
proof (cases "namespaceDirectory e \<or> writable e")
  case True
  with assms show ?thesis by (simp add: MakeWritable_def)
next
  case False
  obtain err1 h w1 where open1: "ReopenPinnedFile api (object e)
      (READ_CONTROL OR WRITE_DAC OR FILE_READ_ATTRIBUTES OR FILE_LIST_DIRECTORY) w = ((err1, h), w1)"
    by (metis surj_pair)
  note view1 = OpenPinnedRelative_view[OF open1[unfolded ReopenPinnedFile_def]]
  show ?thesis
  proof (cases "err1 = ERROR_SUCCESS")
    case True
    with view1 assms(2) have "opened (view w) h path (view w1)" by auto
    moreover from this assms(2) have "h \<noteq> object e" by (auto simp: opened_def)
    ultimately show ?thesis
      using assms(1) True False open1
      by (auto simp: MakeWritable_def Let_def CloseObject_view opened_def repinned_def fun_eq_iff)
  next
    case False
    with view1 assms open1 \<open>\<not> (namespaceDirectory e \<or> writable e)\<close> show ?thesis
      by (auto simp: MakeWritable_def Let_def)
  qed
qed

lemma WriteAccess_lease:
  assumes w: "WriteAccess api d e updated m addUser addOwner addTraverse w = ((err, e'), w')"
    and p: "path_of (view w) (object e) = Some path"
  shows "repinned (view w) path (object e) (object e') (view w') \<and> path_of (view w') (object e') = Some path
    \<and> namespaceDirectory e' = namespaceDirectory e
    \<and> (if err = ERROR_SUCCESS then dacl_at (view w') path = Some updated
         \<and> e' = e\<lparr>object := object e', writable := writable e', addedMask := (if addUser then m else 0),
             addedOwnerDeny := addOwner, addedTraverseGrant := addTraverse\<rparr>
       else dacl_at (view w') path = dacl_at (view w) path \<and> e' = e\<lparr>object := object e', writable := writable e'\<rparr>)"
proof -
  obtain ce control where c: "GetSecurityDescriptorControl api d = (ce, control)" by fastforce
  obtain oe e1 w1 where mw: "MakeWritable api e w = ((oe, e1), w1)" by (metis surj_pair)
  from MakeWritable_view[OF mw p] have view1: "repinned (view w) path (object e) (object e1) (view w1)"
    "path_of (view w1) (object e1) = Some path" "dacl_at (view w1) = dacl_at (view w)"
    "e1 = e\<lparr>object := object e1, writable := writable e1\<rparr>" by blast+
  then have ns: "namespaceDirectory e1 = namespaceDirectory e" by (metis Entry.select_convs(4) Entry.surjective Entry.update_convs)
  obtain se w2 where so: "SetObjectDacl api (object e1) updated control w1 = (se, w2)" by fastforce
  from SetObjectDacl_view[OF so view1(2)] have view2: "view w2 =
    (if se = ERROR_SUCCESS then (view w1)\<lparr>dacl_at := (dacl_at (view w1))(path := Some updated)\<rparr> else view w1)" .
  show ?thesis
  proof (cases "ce \<noteq> ERROR_SUCCESS")
    case True
    with w p c show ?thesis by (auto simp: WriteAccess_def)
  next
    case ce: False
    show ?thesis
    proof (cases "oe \<noteq> ERROR_SUCCESS")
      case True
      with w c ce mw view1 ns show ?thesis by (auto simp: WriteAccess_def)
    next
      case False
      with w c ce mw so have r: "err = se" "w' = w2" "e' = (if se \<noteq> ERROR_SUCCESS then e1
          else e1\<lparr>addedMask := (if addUser then m else 0), addedOwnerDeny := addOwner, addedTraverseGrant := addTraverse\<rparr>)"
        by (auto simp: WriteAccess_def)
      have "repinned (view w) path (object e) (object e1) (view w2)"
        using view1(1) unfolding view2 by (auto simp: repinned_def)
      with view1(2,3) view2 ns show ?thesis
        unfolding r by (subst (3 4) view1(4)) auto
    qed
  qed
qed

end

section \<open>\<open>SetAccess\<close> keeps the form\<close>

text \<open>What a successful call has set: the deny entry asked for, and nothing when nothing is asked for.\<close>

definition access_set :: "'w object_api \<Rightarrow> sid \<Rightarrow> dword \<Rightarrow> bool \<Rightarrow> Entry \<Rightarrow> dacl option \<Rightarrow> bool" where
  "access_set api user m readableRoot e d \<longleftrightarrow>
     (m \<noteq> 0 \<and> \<not> namespaceDirectory e \<longrightarrow> (\<exists>acl raw. d = Some acl \<and> raw \<in> set acl \<and> IsAccessAce api raw user m False))
   \<and> (m = 0 \<longrightarrow> addedMask e = 0 \<and> \<not> addedOwnerDeny e)
   \<and> (m = 0 \<and> \<not> readableRoot \<longrightarrow> \<not> leased e)"

lemma AncestorDeny_nonzero [simp]: "AncestorDeny \<noteq> 0"
  by code_simp

text \<open>The decision of \<open>SetAccess\<close>, once the descriptor is read.\<close>

lemma SetAccess_cases:
  assumes "SetAccess api s e m r w = ((err, e'), w')"
  obtains (unchanged) "e' = e" "w' = w" "err = ERROR_SUCCESS" "m = 0" "\<not> leased e"
  | (failed) "e' = e" "w' = w" "err \<noteq> ERROR_SUCCESS"
  | (written) d acl ownerRights aces updated addUser addOwner addTraverse preserved where
      "GetSecurityInfo api (object e) (namespaceDirectory e) (DACL_SECURITY_INFORMATION OR OWNER_SECURITY_INFORMATION) w
         = (ERROR_SUCCESS, d)" "sd_dacl d = Some acl" "CreatorOwnerRightsSid api = (ERROR_SUCCESS, ownerRights)"
      "ReadAces api acl [0..<length acl] = (ERROR_SUCCESS, aces)"
      "preserved = filter (\<lambda>raw. \<not> LeaseAce api (scope_user s) ownerRights e raw) aces"
      "addUser \<longleftrightarrow> m \<noteq> 0 \<and> (\<forall>raw \<in> set preserved. \<not> IsAccessAce api raw (scope_user s) m (namespaceDirectory e))"
      "addOwner \<longrightarrow> (\<forall>raw \<in> set preserved. \<not> IsAccessAce api raw ownerRights WRITE_DAC False) \<and> m \<noteq> 0"
      "addTraverse \<longrightarrow> (\<forall>raw \<in> set preserved. \<not> GrantsTraverse api (scope_user s) (scope_groups s) raw)
         \<and> (r \<or> m = AncestorDeny) \<and> \<not> namespaceDirectory e"
      "UpdatedDacl api (scope_user s) ownerRights (namespaceDirectory e) m addUser addOwner addTraverse preserved
         = (ERROR_SUCCESS, updated)"
      "WriteAccess api d e updated m addUser addOwner addTraverse w = ((err, e'), w')"
proof -
  obtain ge d where g: "GetSecurityInfo api (object e) (namespaceDirectory e)
      (DACL_SECURITY_INFORMATION OR OWNER_SECURITY_INFORMATION) w = (ge, d)" by fastforce
  obtain oe ownerRights where o: "CreatorOwnerRightsSid api = (oe, ownerRights)" by fastforce
  let ?idle = "m = 0 \<and> addedMask e = 0 \<and> \<not> addedOwnerDeny e \<and> \<not> addedTraverseGrant e"
  have idle: "?idle \<longleftrightarrow> m = 0 \<and> \<not> leased e" by (auto simp: leased_def)
  consider "?idle \<and> \<not> (\<not> namespaceDirectory e \<and> (r \<or> m = AncestorDeny))"
    | "\<not> (?idle \<and> \<not> (\<not> namespaceDirectory e \<and> (r \<or> m = AncestorDeny)))" "ge \<noteq> ERROR_SUCCESS \<or> sd_dacl d = None"
    | acl where "\<not> (?idle \<and> \<not> (\<not> namespaceDirectory e \<and> (r \<or> m = AncestorDeny)))" "ge = ERROR_SUCCESS" "sd_dacl d = Some acl"
    by blast
  then show thesis
  proof cases
    case 1
    have "SetAccess api s e m r w = ((ERROR_SUCCESS, e), w)"
      unfolding SetAccess_def Let_def by (rule if_P) (use 1 in blast)
    with assms unchanged 1 idle show ?thesis by simp
  next
    case 2
    with assms g failed show ?thesis
      unfolding SetAccess_def Let_def by (auto split: if_split_asm option.splits)
  next
    case (3 acl)
    obtain re aces where ra: "ReadAces api acl [0..<length acl] = (re, aces)" by fastforce
    let ?start = "first_error [oe, InitializeAcl api (acl_size acl + 3 * (12 + SECURITY_MAX_SID_SIZE)), re]"
    define preserved where "preserved = filter (\<lambda>raw. \<not> LeaseAce api (scope_user s) ownerRights e raw) aces"
    define addUser where "addUser \<longleftrightarrow> m \<noteq> 0 \<and> \<not> list_ex (\<lambda>raw. m \<noteq> 0
      \<and> IsAccessAce api raw (scope_user s) m (namespaceDirectory e)) preserved"
    define addOwner where "addOwner \<longleftrightarrow> (\<not> namespaceDirectory e \<and> m \<noteq> 0 \<and> (case sd_owner d of None \<Rightarrow> False
      | Some owner \<Rightarrow> SidEqual (object_tokens api) owner (scope_user s)))
      \<and> \<not> list_ex (\<lambda>raw. IsAccessAce api raw ownerRights WRITE_DAC False) preserved"
    define addTraverse where "addTraverse \<longleftrightarrow> (\<not> namespaceDirectory e \<and> (r \<or> m = AncestorDeny))
      \<and> \<not> list_ex (GrantsTraverse api (scope_user s) (scope_groups s)) preserved"
    obtain ue updated where u: "UpdatedDacl api (scope_user s) ownerRights (namespaceDirectory e) m addUser addOwner
      addTraverse preserved = (ue, updated)" by fastforce
    have "SetAccess api s e m r w = (if ?start \<noteq> ERROR_SUCCESS then ((?start, e), w)
      else if ?idle \<and> \<not> addTraverse then ((ERROR_SUCCESS, e), w)
      else if ue \<noteq> ERROR_SUCCESS then ((ue, e), w)
      else WriteAccess api d e updated m addUser addOwner addTraverse w)"
      unfolding addUser_def addOwner_def addTraverse_def preserved_def
      by (simp only: SetAccess_def Let_def if_not_P[OF 3(1)] g o ra 3(2,3) prod.case option.case simp_thms if_False
          u[unfolded addUser_def addOwner_def addTraverse_def preserved_def])
    with assms have result: "((err, e'), w') = (if ?start \<noteq> ERROR_SUCCESS then ((?start, e), w)
      else if ?idle \<and> \<not> addTraverse then ((ERROR_SUCCESS, e), w)
      else if ue \<noteq> ERROR_SUCCESS then ((ue, e), w)
      else WriteAccess api d e updated m addUser addOwner addTraverse w)" by simp
    show ?thesis
    proof (cases "?start \<noteq> ERROR_SUCCESS")
      case True
      with result failed show ?thesis by (simp del: first_error.simps)
    next
      case False
      then have start: "oe = ERROR_SUCCESS" "re = ERROR_SUCCESS" by (auto split: if_splits)
      show ?thesis
      proof (cases "?idle \<and> \<not> addTraverse")
        case True
        with result False idle unchanged show ?thesis by (simp del: first_error.simps)
      next
        case not_idle: False
        show ?thesis
        proof (cases "ue \<noteq> ERROR_SUCCESS")
          case True
          from result[unfolded if_not_P[OF False] if_not_P[OF not_idle]] True failed show ?thesis by simp
        next
          case ue: False
          have "WriteAccess api d e updated m addUser addOwner addTraverse w = ((err, e'), w')"
            using result[unfolded if_not_P[OF False] if_not_P[OF not_idle]] ue by simp
          with 3 start g o ra u ue show ?thesis
            by (intro written[where addUser = addUser and addOwner = addOwner and addTraverse = addTraverse])
              (auto simp: preserved_def addUser_def addOwner_def addTraverse_def list_ex_iff)
        qed
      qed
    qed
  qed
qed

context folders
begin

lemma SetAccess_lease:
  assumes set: "SetAccess api s e m r w = ((err, e'), w')"
    and p: "path_of (view w) (object e) = Some path"
    and form: "lease_form api (scope_user s) e original (dacl_at (view w) path)"
  shows "repinned (view w) path (object e) (object e') (view w') \<and> path_of (view w') (object e') = Some path
    \<and> namespaceDirectory e' = namespaceDirectory e
    \<and> lease_form api (scope_user s) e' original (dacl_at (view w') path)
    \<and> (err = ERROR_SUCCESS \<longrightarrow> access_set api (scope_user s) m r e' (dacl_at (view w') path))"
  using set
proof (cases rule: SetAccess_cases)
  case unchanged
  with p form show ?thesis by (auto simp: access_set_def leased_def)
next
  case failed
  with p form show ?thesis by simp
next
  case (written d acl ownerRights aces updated addUser addOwner addTraverse preserved)
  have acl: "dacl_at (view w) path = Some acl"
    using get_security[OF written(1)] p written(2) by simp
  have aces: "aces = acl" by (rule ReadAces_all[OF written(4)])
  have own: "snd (CreatorOwnerRightsSid api) = ownerRights" using written(3) by simp
  have original: "original = Some preserved"
    using lease_preserved[of "scope_user s" e original acl] form acl written(5) aces own by simp
  note wr = WriteAccess_lease[OF written(10) p]
  show ?thesis
  proof (cases "err = ERROR_SUCCESS")
    case True
    with wr have e': "e' = e\<lparr>object := object e', writable := writable e', addedMask := (if addUser then m else 0),
        addedOwnerDeny := addOwner, addedTraverseGrant := addTraverse\<rparr>"
      and dacl: "dacl_at (view w') path = Some updated"
      and ns: "namespaceDirectory e' = namespaceDirectory e" by auto
    have updated: "updated = lease_front (scope_user s) ownerRights e' @ preserved @ lease_back (scope_user s) e'"
      using UpdatedDacl_success[OF written(9), of e' "e\<lparr>object := object e', writable := writable e'\<rparr>"] e' written(6)
      by simp
    have flags: "addedMask e' = (if addUser then m else 0)" "addedOwnerDeny e' = addOwner" "addedTraverseGrant e' = addTraverse"
      by (subst e', simp)+
    have none: "\<not> LeaseAce api (scope_user s) ownerRights e' raw" if "raw \<in> set preserved" for raw
      using written(6-8) that
      by (auto simp: LeaseAce_def flags ns GrantsTraverse_def IsAccessAce_def sid_equal split: if_splits)
    have "lease_form api (scope_user s) e' original (dacl_at (view w') path)"
      using none by (auto simp: lease_form_def own original dacl updated leased_def lease_front_def lease_back_def)
    moreover have "access_set api (scope_user s) m r e' (dacl_at (view w') path)"
    proof -
      have "\<exists>raw \<in> set updated. IsAccessAce api raw (scope_user s) m False" if "m \<noteq> 0" "\<not> namespaceDirectory e"
      proof (cases addUser)
        case True
        with that show ?thesis
          by (simp add: updated lease_front_def flags ns IsAccessAce_def denied_ace_def sid_equal)
      qed (use written(6) that updated in auto)
      with written(6-8) show ?thesis
        by (auto simp: access_set_def dacl ns flags leased_def AncestorDeny_nonzero[symmetric])
    qed
    ultimately show ?thesis using wr by blast
  next
    case False
    with wr have "e' = e\<lparr>object := object e', writable := writable e'\<rparr>" by auto
    then have "lease_form api (scope_user s) e' original d' = lease_form api (scope_user s) e original d'" for d'
      by (cases e, cases e') (simp add: lease_form_def leased_def lease_front_def lease_back_def LeaseAce_def Let_def)
    with wr form False show ?thesis by auto
  qed
qed

text \<open>Without a handle on the folder nothing happens.\<close>

lemma SetAccess_closed:
  assumes "SetAccess api s e m r w = ((err, e'), w')" and "path_of (view w) (object e) = None"
  shows "e' = e \<and> w' = w \<and> (err = ERROR_SUCCESS \<longrightarrow> m = 0 \<and> \<not> leased e)"
  using assms(1)
proof (cases rule: SetAccess_cases)
  case (written d acl ownerRights aces updated addUser addOwner addTraverse preserved)
  with get_security[OF written(1)] assms(2) show ?thesis by simp
qed simp_all

section \<open>The invariant of a scope\<close>

text \<open>
  \<open>original\<close> are the DACLs before the scope was used. Every entry pins its own folder, whose DACL is
  the original one under the lease of the entry; all other folders are as they were.
\<close>

definition entry_ok :: "sid \<Rightarrow> (wstring \<Rightarrow> dacl option) \<Rightarrow> folder_view \<Rightarrow> wstring \<Rightarrow> Entry \<Rightarrow> bool" where
  "entry_ok user original v path e \<longleftrightarrow>
     (object e = nullptr \<and> \<not> leased e \<or> path_of v (object e) = Some path)
     \<and> lease_form api user e (original path) (dacl_at v path)
     \<and> (leased e \<longrightarrow> user \<noteq> []) \<and> (namespaceDirectory e \<longrightarrow> take 2 path \<noteq> wide [BS, BS])
     \<and> (leased e \<and> \<not> namespaceDirectory e \<longrightarrow> take 2 path = wide [BS, BS])"

definition scope_ok :: "(wstring \<Rightarrow> dacl option) \<Rightarrow> BrokerReadScope \<Rightarrow> folder_view \<Rightarrow> bool" where
  "scope_ok original s v \<longleftrightarrow> ordered (scope_entries s)
     \<and> (\<forall>path e. map_of (scope_entries s) path = Some e \<longrightarrow> entry_ok (scope_user s) original v path e)
     \<and> (\<forall>path. map_of (scope_entries s) path = None \<longrightarrow> dacl_at v path = original path)
     \<and> (\<forall>volume root. scope_volumes s volume = Some root \<longrightarrow> volume_root root)"

definition held_handles :: "BrokerReadScope \<Rightarrow> handle set" where
  "held_handles s = {object e |path e. map_of (scope_entries s) path = Some e}"

text \<open>
  Progress that touches only folders in \<open>P\<close> and closes no handle but those of the scope and in \<open>H\<close>:
  the user, roots and volumes stay, and outside \<open>P\<close> so do entries, DACLs and enumerations.
\<close>

definition advance ::
  "(wstring \<Rightarrow> bool) \<Rightarrow> handle set \<Rightarrow> BrokerReadScope \<Rightarrow> folder_view \<Rightarrow> BrokerReadScope \<Rightarrow> folder_view \<Rightarrow> bool"
where
  "advance P H s v s' v' \<longleftrightarrow> scope_user s' = scope_user s \<and> scope_allowed s' = scope_allowed s
     \<and> scope_volumes s' = scope_volumes s
     \<and> (\<forall>q. \<not> P q \<longrightarrow> map_of (scope_entries s') q = map_of (scope_entries s) q \<and> dacl_at v' q = dacl_at v q)
     \<and> (\<forall>h q. path_of v h = Some q \<and> \<not> P q \<longrightarrow> path_of v' h = Some q \<and> listing v' h = listing v h)
     \<and> (\<forall>h. path_of v h \<noteq> None \<and> h \<notin> held_handles s \<union> H \<longrightarrow> path_of v' h = path_of v h \<and> h \<notin> held_handles s')"

lemma advance_refl [simp]: "advance P H s v s v"
  by (simp add: advance_def)

lemma advance_mono: "advance P H s v s' v' \<Longrightarrow> (\<And>q. P q \<Longrightarrow> Q q) \<Longrightarrow> H \<subseteq> K \<Longrightarrow> advance Q K s v s' v'"
  unfolding advance_def by blast

lemma advance_trans:
  assumes "advance P H s v s1 v1" and "advance P K s1 v1 s2 v2" and "\<And>h. h \<in> K \<Longrightarrow> h \<in> H \<or> path_of v h = None"
  shows "advance P H s v s2 v2"
proof -
  have "path_of v2 h = path_of v h \<and> h \<notin> held_handles s2" if h: "path_of v h \<noteq> None" "h \<notin> held_handles s \<union> H" for h
  proof -
    have "path_of v1 h = path_of v h \<and> h \<notin> held_handles s1" using assms(1) h unfolding advance_def by metis
    moreover have "h \<notin> K" using assms(3)[of h] h by blast
    ultimately show ?thesis using assms(2) h unfolding advance_def by (metis UnE)
  qed
  then have others: "\<forall>h. path_of v h \<noteq> None \<and> h \<notin> held_handles s \<union> H \<longrightarrow> path_of v2 h = path_of v h \<and> h \<notin> held_handles s2"
    by blast
  have "\<forall>h q. path_of v h = Some q \<and> \<not> P q \<longrightarrow> path_of v2 h = Some q \<and> listing v2 h = listing v h"
    using assms(1,2) unfolding advance_def by metis
  with others show ?thesis using assms(1,2) unfolding advance_def by metis
qed

text \<open>Fields of the scope that no lemma looks at.\<close>

lemma scope_ok_update [simp]:
  "scope_ok original (s\<lparr>failurePath := f\<rparr>) v = scope_ok original s v"
  "scope_ok original (s\<lparr>observed := os\<rparr>) v = scope_ok original s v"
  "scope_ok original (s\<lparr>has_observer := b\<rparr>) v = scope_ok original s v"
  "scope_ok original (s\<lparr>scope_groups := g\<rparr>) v = scope_ok original s v"
  "scope_ok original (s\<lparr>scope_allowed := al\<rparr>) v = scope_ok original s v"
  by (simp_all add: scope_ok_def)

lemma held_handles_update [simp]:
  "held_handles (s\<lparr>failurePath := f\<rparr>) = held_handles s" "held_handles (s\<lparr>observed := os\<rparr>) = held_handles s"
  "held_handles (s\<lparr>has_observer := b\<rparr>) = held_handles s" "held_handles (s\<lparr>scope_groups := g\<rparr>) = held_handles s"
  "held_handles (s\<lparr>scope_allowed := al\<rparr>) = held_handles s" "held_handles (s\<lparr>scope_user := u\<rparr>) = held_handles s"
  "held_handles (s\<lparr>scope_volumes := vs\<rparr>) = held_handles s"
  by (simp_all add: held_handles_def)

lemma advance_update [simp]:
  "advance P H (s\<lparr>failurePath := f\<rparr>) v s' v' = advance P H s v s' v'"
  "advance P H s v (s'\<lparr>failurePath := f\<rparr>) v' = advance P H s v s' v'"
  "advance P H (s\<lparr>observed := os\<rparr>) v s' v' = advance P H s v s' v'"
  "advance P H s v (s'\<lparr>observed := os\<rparr>) v' = advance P H s v s' v'"
  by (simp_all add: advance_def)

end

lemma observe_update: "\<exists>os. observe action path e s = s\<lparr>observed := os\<rparr>"
  by (auto simp: observe_def intro: exI[of _ "observed s"])

lemma observe_simps [simp]:
  "scope_entries (observe action path e s) = scope_entries s" "scope_user (observe action path e s) = scope_user s"
  "scope_allowed (observe action path e s) = scope_allowed s" "entry_at (observe action path e s) q = entry_at s q"
  "scope_volumes (observe action path e s) = scope_volumes s" "scope_groups (observe action path e s) = scope_groups s"
  by (simp_all add: observe_def entry_at_def)

lemma entry_at_assign [simp]:
  "entry_at (assign_entry path e s) q = (if q = path \<and> path \<in> fst ` set (scope_entries s) then e else entry_at s q)"
  by (simp add: entry_at_def assign_entry_def map_of_assign)

lemma assign_entry_absent: "path \<notin> fst ` set (scope_entries s) \<Longrightarrow> assign_entry path e s = s"
proof -
  assume a: "path \<notin> fst ` set (scope_entries s)"
  have "map_assign path e m = m" if "path \<notin> fst ` set m" for m
    using that by (induction m) (auto simp: map_assign_def)
  with a show ?thesis by (simp add: assign_entry_def)
qed

lemma map_of_key: "k \<in> fst ` set m \<longleftrightarrow> map_of m k \<noteq> None"
  by (simp add: map_of_eq_None_iff)

context folders
begin

lemma scope_ok_observe [simp]: "scope_ok original (observe action path e s) v = scope_ok original s v"
  using observe_update[of action path e s] by fastforce

lemma advance_observe [simp]:
  "advance P H (observe action path e s) v s' v' = advance P H s v s' v'"
  "advance P H s v (observe action path e s') v' = advance P H s v s' v'"
  using observe_update[of action path e s] observe_update[of action path e s'] by fastforce+

lemma SetPathAccess_ok:
  assumes ok: "scope_ok original s (view w)"
    and set: "SetPathAccess api path m r s w = ((err, s'), w')"
    and user: "scope_user s \<noteq> []"
    and leasable: "take 2 path = wide [BS, BS] \<or> namespaceDirectory (entry_at s path)"
  shows "scope_ok original s' (view w') \<and> advance (\<lambda>q. q = path) {} s (view w) s' (view w')
    \<and> fst ` set (scope_entries s') = fst ` set (scope_entries s)
    \<and> (err = ERROR_SUCCESS \<and> path_of (view w) (object (entry_at s path)) = Some path \<longrightarrow>
         access_set api (scope_user s) m r (entry_at s' path) (dacl_at (view w') path))
    \<and> (err = ERROR_SUCCESS \<and> m = 0 \<longrightarrow> addedMask (entry_at s' path) = 0 \<and> \<not> addedOwnerDeny (entry_at s' path))
    \<and> (err = ERROR_SUCCESS \<and> m = 0 \<and> \<not> r \<longrightarrow> \<not> leased (entry_at s' path))
    \<and> (path \<in> fst ` set (scope_entries s) \<longrightarrow> namespaceDirectory (entry_at s' path) = namespaceDirectory (entry_at s path))"
proof -
  obtain e' where sa: "SetAccess api s (entry_at s path) m r w = ((err, e'), w')" and s': "s' = assign_entry path e' s"
    using set by (auto simp: SetPathAccess_def split: prod.splits)
  have keys: "fst ` set (scope_entries s') = fst ` set (scope_entries s)"
    unfolding s' assign_entry_def by (simp add: image_set del: set_map)
  show ?thesis
  proof (cases "path_of (view w) (object (entry_at s path))")
    case None
    from SetAccess_closed[OF sa None] have e': "e' = entry_at s path" "w' = w" by auto
    have "map_of (scope_entries s') = map_of (scope_entries s)"
      by (auto simp: s' assign_entry_def map_of_assign e' fun_eq_iff entry_at_def map_of_key split: option.splits)
    then have "scope_ok original s' (view w')" "held_handles s' = held_handles s"
      using ok by (simp_all add: scope_ok_def e' s' held_handles_def assign_entry_def)
    moreover have "advance (\<lambda>q. q = path) {} s (view w) s' (view w')"
      using \<open>map_of (scope_entries s') = map_of (scope_entries s)\<close> \<open>held_handles s' = held_handles s\<close>
      by (simp add: advance_def e' s' assign_entry_def)
    moreover have "entry_at s' path = entry_at s path" by (simp add: s' e')
    ultimately show ?thesis using SetAccess_closed[OF sa None] keys None by (simp add: leased_def)
  next
    case (Some q)
    then have key: "map_of (scope_entries s) path = Some (entry_at s path)"
      by (auto simp: entry_at_def Entry_default_def no_handle split: option.splits)
    let ?e = "entry_at s path"
    have entry: "entry_ok (scope_user s) original (view w) path ?e" using ok key by (simp add: scope_ok_def)
    with Some have p: "path_of (view w) (object ?e) = Some path" by (auto simp: entry_ok_def no_handle)
    from entry have form: "lease_form api (scope_user s) ?e (original path) (dacl_at (view w) path)"
      by (simp add: entry_ok_def)
    note lease = SetAccess_lease[OF sa p form]
    then have re: "repinned (view w) path (object ?e) (object e') (view w')"
      and p': "path_of (view w') (object e') = Some path" by blast+
    have entries': "map_of (scope_entries s') q = (if q = path then Some e' else map_of (scope_entries s) q)" for q
      using key by (auto simp: s' assign_entry_def map_of_assign map_of_key)
    have other_handle: "object f \<noteq> object ?e" "path_of (view w') (object f) = Some q'"
      if "path_of (view w) (object f) = Some q'" "q' \<noteq> path" for f q'
    proof -
      show "object f \<noteq> object ?e" using that p by auto
      then show "path_of (view w') (object f) = Some q'" using re that by (auto simp: repinned_def)
    qed
    have "entry_ok (scope_user s') original (view w') q f" if "map_of (scope_entries s') q = Some f" for q f
    proof (cases "q = path")
      case True
      with that entries' have "f = e'" by simp
      with True lease entry leasable user show ?thesis
        by (auto simp: entry_ok_def p' s' assign_entry_def)
    next
      case False
      with that entries' ok have "entry_ok (scope_user s) original (view w) q f" by (simp add: scope_ok_def)
      with False other_handle[of f q] re show ?thesis
        by (auto simp: entry_ok_def s' assign_entry_def repinned_def)
    qed
    moreover have "dacl_at (view w') q = original q" if "map_of (scope_entries s') q = None" for q
      using that entries' ok re by (auto simp: scope_ok_def repinned_def split: if_splits)
    ultimately have ok': "scope_ok original s' (view w')"
      using ok by (auto simp: scope_ok_def s' assign_entry_def)
    have "advance (\<lambda>q. q = path) {} s (view w) s' (view w')"
    proof -
      have held': "held_handles s' \<subseteq> held_handles s \<union> {object e'}"
        by (auto simp: held_handles_def entries' split: if_splits)
      have held: "object ?e \<in> held_handles s" using key by (auto simp: held_handles_def)
      have kept: "path_of (view w') h = path_of (view w) h" "h \<noteq> object ?e \<longrightarrow> h \<noteq> object e'"
        if "path_of (view w) h \<noteq> None" "h \<noteq> object ?e" for h
        using re that by (auto simp: repinned_def)
      show ?thesis
        unfolding advance_def using held' held kept re entries' p
        by (auto simp: s' assign_entry_def repinned_def)
    qed
    moreover have "entry_at s' path = e'" using key by (simp add: s' map_of_key)
    ultimately show ?thesis
      using ok' keys lease p by (auto simp: access_set_def)
  qed
qed

end

section \<open>Restoring\<close>

context folders
begin

lemma entry_at_ok:
  assumes "scope_ok original s v" and "leased (entry_at s path)"
  shows "scope_user s \<noteq> []" "take 2 path = wide [BS, BS] \<or> namespaceDirectory (entry_at s path)"
proof -
  have "entry_ok (scope_user s) original v path (entry_at s path)"
    using assms by (auto simp: scope_ok_def entry_at_def leased_def Entry_default_def split: option.splits)
  with assms(2) show "scope_user s \<noteq> []" "take 2 path = wide [BS, BS] \<or> namespaceDirectory (entry_at s path)"
    by (auto simp: entry_ok_def)
qed

lemma unleased_dacl:
  assumes "scope_ok original s v" and "\<not> leased (entry_at s path)"
  shows "dacl_at v path = original path"
proof (cases "map_of (scope_entries s) path")
  case None
  with assms(1) show ?thesis by (simp add: scope_ok_def)
next
  case (Some e)
  then have "entry_ok (scope_user s) original v path e" using assms(1) by (simp add: scope_ok_def)
  with assms(2) Some show ?thesis by (simp add: entry_ok_def lease_form_def entry_at_def)
qed

lemma advance_entry_at:
  "advance P H s v s' v' \<Longrightarrow> \<not> P q \<Longrightarrow> entry_at s' q = entry_at s q"
  by (simp add: advance_def entry_at_def)

lemma RestoreEntries_ok:
  assumes "RestoreEntries api paths fe s w = ((err, s'), w')" and "scope_ok original s (view w)"
  shows "scope_ok original s' (view w') \<and> advance (\<lambda>_. True) {} s (view w) s' (view w')
    \<and> fst ` set (scope_entries s') = fst ` set (scope_entries s)
    \<and> (err = ERROR_SUCCESS \<longrightarrow> fe = ERROR_SUCCESS \<and> (\<forall>path \<in> set paths. \<not> leased (entry_at s' path)))
    \<and> (\<forall>path. \<not> leased (entry_at s path) \<longrightarrow> \<not> leased (entry_at s' path))"
  using assms
proof (induction paths arbitrary: fe s w)
  case (Cons path paths)
  show ?case
  proof (cases "leased (entry_at s path)")
    case True
    obtain e1 s1 w1 where set: "SetPathAccess api path 0 False s w = ((e1, s1), w1)" by (metis surj_pair)
    note step = SetPathAccess_ok[OF Cons.prems(2) set entry_at_ok[OF Cons.prems(2) True]]
    let ?fe = "if fe = ERROR_SUCCESS then e1 else fe"
    have rest: "RestoreEntries api paths ?fe (observe ''read.restore'' path e1 s1) w1 = ((err, s'), w')"
      using Cons.prems(1) True set by simp
    have "advance (\<lambda>q. q = path) {} s (view w) s1 (view w1)" using step by blast
    then have other: "q \<noteq> path \<Longrightarrow> entry_at s1 q = entry_at s q" for q by (rule advance_entry_at)
    have "scope_ok original (observe ''read.restore'' path e1 s1) (view w1)" using step by simp
    note rest = Cons.IH[OF rest this]
    have "advance (\<lambda>_. True) {} s (view w) s1 (view w1)"
      by (rule advance_mono[where P = "\<lambda>q. q = path" and H = "{}"]) (use step in auto)
    moreover have "advance (\<lambda>_. True) {} s1 (view w1) s' (view w')" using rest by simp
    ultimately have "advance (\<lambda>_. True) {} s (view w) s' (view w')" by (rule advance_trans) simp
    moreover have "\<not> leased (entry_at s' q)" if "\<not> leased (entry_at s q)" for q
      using that True other[of q] rest by (cases "q = path") auto
    moreover have "fe = ERROR_SUCCESS \<and> (\<forall>q \<in> set (path # paths). \<not> leased (entry_at s' q))" if "err = ERROR_SUCCESS"
    proof -
      have "fe = ERROR_SUCCESS" "e1 = ERROR_SUCCESS" using rest that by (auto split: if_split_asm)
      then have "\<not> leased (entry_at s1 path)" using step by simp
      with rest that \<open>fe = ERROR_SUCCESS\<close> show ?thesis by simp
    qed
    ultimately show ?thesis using step rest by auto
  next
    case False
    then have "RestoreEntries api paths fe s w = ((err, s'), w')" using Cons.prems(1) by simp
    from Cons.IH[OF this Cons.prems(2)] False show ?thesis by auto
  qed
qed simp

lemma CloseEntries_view:
  "dacl_at (view (CloseEntries api m w)) = dacl_at (view w)
   \<and> (\<forall>h. h \<notin> object ` snd ` set m \<longrightarrow> path_of (view (CloseEntries api m w)) h = path_of (view w) h)"
  by (induction m arbitrary: w) (auto simp: CloseEntries_def CloseObject_view)

lemma Restore_ok:
  assumes "BrokerReadScope_Restore api s w = ((err, s'), w')" and ok: "scope_ok original s (view w)"
  shows "scope_ok original s' (view w')
    \<and> (err = ERROR_SUCCESS \<longrightarrow> dacl_at (view w') = original \<and> scope_entries s' = [])"
proof -
  obtain e1 s1 w1 where r: "RestoreEntries api (map fst (scope_entries s)) ERROR_SUCCESS s w = ((e1, s1), w1)"
    by (metis surj_pair)
  note step = RestoreEntries_ok[OF r ok]
  show ?thesis
  proof (cases "e1 = ERROR_SUCCESS")
    case False
    with assms(1) r step show ?thesis by (auto simp: BrokerReadScope_Restore_def)
  next
    case True
    have "\<not> leased (entry_at s1 q)" for q
    proof (cases "q \<in> fst ` set (scope_entries s)")
      case True
      with step \<open>e1 = ERROR_SUCCESS\<close> show ?thesis by auto
    next
      case False
      then have "\<not> leased (entry_at s q)"
        by (simp add: entry_at_def map_of_key leased_def Entry_default_def)
      with step show ?thesis by blast
    qed
    then have "dacl_at (view w1) q = original q" for q
      using step unleased_dacl by blast
    moreover have "s' = s1\<lparr>scope_entries := [], scope_volumes := (\<lambda>_. None), scope_allowed := [], scope_user := [],
        scope_groups := [], has_observer := False\<rparr>" "w' = CloseEntries api (scope_entries s1) w1" "err = ERROR_SUCCESS"
      using assms(1) r True by (auto simp: BrokerReadScope_Restore_def)
    ultimately show ?thesis
      using CloseEntries_view[of "scope_entries s1" w1] by (auto simp: scope_ok_def ordered_def fun_eq_iff)
  qed
qed

end

end
