(* ===== verification/ReadScopeWalk.thy ===== *)
theory ReadScopeWalk
  imports ReadScopeLease
begin

text \<open>
  The walk of the read scope over the folders: it ends, it keeps the invariant of the scope, and what
  it leaves behind confines the account to the allowed roots.
\<close>

section \<open>The walk ends\<close>

text \<open>A visit returns, with no more budget than it was given.\<close>

definition returns :: "'w visit \<Rightarrow> bool" where
  "returns visit \<longleftrightarrow> (\<forall>path h remaining s w. \<exists>e remaining' s' w'.
     visit path h remaining s w = Some ((e, remaining', s'), w') \<and> remaining' \<le> remaining)"

lemma VisitRecords_returns:
  assumes "returns visit"
  shows "\<exists>e remaining' s' w'. VisitRecords api deadline visit path records remaining s w = Some ((e, remaining', s'), w')
    \<and> remaining' \<le> remaining \<and> (e = ERROR_SUCCESS \<longrightarrow> remaining' + length records \<le> remaining)"
proof (induction records arbitrary: remaining s w)
  case (Cons child records)
  have visited: "\<exists>e remaining' s' w'. visit p h n s w = Some ((e, remaining', s'), w') \<and> remaining' \<le> n" for p h n s w
    using assms by (simp add: returns_def)
  have next_record: "\<exists>e remaining' s' w'. VisitRecords api deadline visit path records n s w = Some ((e, remaining', s'), w')
    \<and> remaining' \<le> remaining \<and> (e = ERROR_SUCCESS \<longrightarrow> remaining' + length (child # records) \<le> remaining)"
    if "n \<le> remaining - 1" "remaining \<noteq> 0" for n s w
    using Cons.IH[of n s w] that by fastforce
  have "\<exists>e remaining' s' w'. (case visit p h (remaining - 1) s w of None \<Rightarrow> None
      | Some ((error, remaining, s), w) \<Rightarrow> if error \<noteq> ERROR_SUCCESS then Some ((error, remaining, s), w)
          else VisitRecords api deadline visit path records remaining s w) = Some ((e, remaining', s'), w')
      \<and> remaining' \<le> remaining \<and> (e = ERROR_SUCCESS \<longrightarrow> remaining' + length (child # records) \<le> remaining)"
    if r: "remaining \<noteq> 0" for p h s w
  proof -
    obtain e n s1 w1 where v: "visit p h (remaining - 1) s w = Some ((e, n, s1), w1)" and n: "n \<le> remaining - 1"
      using visited by metis
    then show ?thesis using next_record[OF n r, of s1 w1] by auto
  qed
  note rest = this
  show ?case
    using rest next_record[OF order_refl]
    by (simp add: Let_def del: split_paired_Ex split: prod.splits if_splits)
qed simp

lemma VisitBatches_returns:
  assumes "returns visit" and "remaining < fuel"
  shows "\<exists>e remaining' s' w'. VisitBatches api deadline visit path fuel restart remaining s w = Some ((e, remaining', s'), w')
    \<and> remaining' \<le> remaining"
  using assms(2)
proof (induction fuel arbitrary: restart remaining s w)
  case (Suc fuel)
  obtain now w1 where t: "GetTickCount64 api w = (now, w1)" by fastforce
  obtain ee first rest w2 where b: "FileIdBothDirectoryInfo api (object (entry_at s path)) restart w1 = ((ee, first, rest), w2)"
    by (metis surj_pair)
  obtain re n s3 w3 where r: "VisitRecords api deadline visit path (first # rest) remaining s w2 = Some ((re, n, s3), w3)"
    "n \<le> remaining" "re = ERROR_SUCCESS \<longrightarrow> n + length (first # rest) \<le> remaining"
    using VisitRecords_returns[OF assms(1)] by metis
  show ?case
  proof (cases "now \<ge> deadline \<or> ee \<noteq> ERROR_SUCCESS \<or> re \<noteq> ERROR_SUCCESS")
    case True
    with t b r show ?thesis by (auto simp: Let_def split: prod.splits)
  next
    case False
    with r(3) Suc.prems have "n < fuel" by simp
    from Suc.IH[OF this, of False s3 w3] False t b r show ?thesis by (auto simp: Let_def)
  qed
qed simp

lemma VisitLevel_returns:
  assumes "\<And>visit. deeper = Some visit \<Longrightarrow> returns visit"
  shows "returns (VisitLevel api deadline deeper)"
proof -
  have entry: "\<exists>e remaining' s' w'. VisitEntry api deadline visit path n s w = Some ((e, remaining', s'), w') \<and> remaining' \<le> n"
    if "returns visit" for visit path n s w
    using VisitBatches_returns[OF that, of n "Suc (Suc n)"]
    by (simp add: VisitEntry_def Let_def split: prod.splits)
  have "\<exists>e remaining' s' w'. VisitLevel api deadline deeper path h n s w = Some ((e, remaining', s'), w') \<and> remaining' \<le> n"
    for path h n s w
  proof (cases deeper)
    case None
    then show ?thesis by (simp add: VisitLevel_def Let_def split: prod.splits)
  next
    case (Some visit)
    obtain now w1 where t: "GetTickCount64 api w = (now, w1)" by fastforce
    have e: "\<exists>e remaining' s' w'. VisitEntry api deadline visit path (n - 1) s w = Some ((e, remaining', s'), w') \<and> remaining' \<le> n"
      for s w using entry[OF assms[OF Some], of path "n - 1" s w] le_trans[OF _ diff_le_self] by metis
    obtain e1 n1 s1 w2 where e1: "VisitEntry api deadline visit path (n - 1) (s\<lparr>failurePath := path,
        scope_entries := map_emplace path Entry_default (scope_entries s)\<rparr>) w1 = Some ((e1, n1, s1), w2)" "n1 \<le> n"
      using e by metis
    show ?thesis
      using t e e1 by (simp add: VisitLevel_def Let_def Some)
  qed
  then show ?thesis by (simp add: returns_def)
qed

lemma Visit_returns: "returns (Visit api deadline levels)"
  by (induction levels) (auto intro: VisitLevel_returns)

lemma EnsureVolumes_returns: "\<exists>e s' w'. EnsureVolumes api deadline volumes remaining s w = Some ((e, s'), w')"
proof (induction volumes arbitrary: remaining s w)
  case (Cons volume volumes)
  have visit: "\<exists>e n s' w'. Visit api deadline 129 p h r s w = Some ((e, n, s'), w')" for p h r s w
    using Visit_returns unfolding returns_def by metis
  have "\<exists>e n s' w'. EnsureNewVolume api deadline volume r s w = Some ((e, n, s'), w')" for r s w
  proof -
    obtain oe h flags kind w1 where o: "OpenVolumeRoot api volume w = ((oe, h, flags, kind), w1)" by (metis surj_pair)
    obtain ne name where n: "CanonicalName api h w1 = (ne, name)" by fastforce
    obtain e n1 s1 w2 where "Visit api deadline 129 name h r s w1 = Some ((e, n1, s1), w2)" using visit by metis
    with o n show ?thesis by (simp add: EnsureNewVolume_def Let_def)
  qed
  then obtain e n s' w' where "(case scope_volumes (s\<lparr>failurePath := volume\<rparr>) volume of
      Some canonical \<Rightarrow> Visit api deadline 129 canonical nullptr remaining (s\<lparr>failurePath := volume\<rparr>) w
    | None \<Rightarrow> EnsureNewVolume api deadline volume remaining (s\<lparr>failurePath := volume\<rparr>) w) = Some ((e, n, s'), w')"
    using visit by (cases "scope_volumes s volume") fastforce+
  with Cons.IH[of n s' w'] show ?case by simp
qed simp

section \<open>Confinement\<close>

text \<open>
  What a visit leaves in the lists: the account's deny entry for the rights \<open>m\<close> is listed. That it
  decides, and not an entry in front of it, is shown with the form of the lists, in \<open>ReadScopeRuns\<close>.
\<close>

definition deny_listed :: "'w object_api \<Rightarrow> sid \<Rightarrow> dword \<Rightarrow> folder_view \<Rightarrow> wstring \<Rightarrow> bool" where
  "deny_listed api user m v path \<longleftrightarrow> (\<exists>acl raw. dacl_at v path = Some acl \<and> raw \<in> set acl \<and> IsAccessAce api raw user m False)"

abbreviation child_path :: "wstring \<Rightarrow> dirent \<Rightarrow> wstring" where
  "child_path path c \<equiv> path @ [WCHR BS] @ FileName c"

text \<open>
  Below \<open>path\<close> the walk has reached every folder: one is in an allowed root, or lists a deny entry
  for everything, or is an ancestor of a root that lists one for changes and whose folders are reached.
\<close>

inductive walk_confined ::
  "'w object_api \<Rightarrow> (wstring \<Rightarrow> dirent list) \<Rightarrow> sid \<Rightarrow> wstring list \<Rightarrow> folder_view \<Rightarrow> wstring \<Rightarrow> bool"
  for api children user allowed v where
  root: "root \<in> set allowed \<Longrightarrow> Within path root \<Longrightarrow> walk_confined api children user allowed v path"
| denied: "deny_listed api user FILE_ALL_ACCESS v path \<Longrightarrow> walk_confined api children user allowed v path"
| ancestor: "root \<in> set allowed \<Longrightarrow> Within root path \<Longrightarrow> deny_listed api user AncestorDeny v path \<Longrightarrow>
    (\<And>c. c \<in> set (children path) \<Longrightarrow> is_folder c \<Longrightarrow> walk_confined api children user allowed v (child_path path c)) \<Longrightarrow>
    walk_confined api children user allowed v path"

lemma Within_refl [simp]: "Within path path"
  by (simp add: Within_def)

lemma Within_iff: "Within path root \<longleftrightarrow> path = root \<or> (\<exists>rest. path = root @ WCHR BS # rest)"
proof -
  have "(\<exists>rest. path = root @ WCHR BS # rest)"
    if "length root < length path" "take (length root) path = root" "path ! length root = WCHR BS"
    using that by (metis append_take_drop_id Cons_nth_drop_Suc)
  then show ?thesis by (auto simp: Within_def)
qed

lemma Within_trans: "Within p q \<Longrightarrow> Within q r \<Longrightarrow> Within p r"
  by (auto simp: Within_iff)

lemma Within_child [simp]: "Within (child_path path c) path"
  by (auto simp: Within_iff)

lemma Within_child_neq: "Within q (child_path path c) \<Longrightarrow> Within q path \<and> q \<noteq> path"
  by (auto simp: Within_iff)

lemma Within_volume: "Within q path \<Longrightarrow> take 2 path = wide [BS, BS] \<Longrightarrow> take 2 q = wide [BS, BS]"
  by (cases path; cases "tl path") (auto simp: Within_iff wide_def)

lemma takeWhile_separator: "c \<notin> set n \<Longrightarrow> takeWhile (\<lambda>x. x \<noteq> c) (n @ c # rest) = n"
    "c \<notin> set n \<Longrightarrow> takeWhile (\<lambda>x. x \<noteq> c) n = n"
  by (induction n) auto

lemma Within_siblings:
  assumes "Within q (child_path path c)" and "Within q (child_path path d)"
    and "WCHR BS \<notin> set (FileName c)" and "WCHR BS \<notin> set (FileName d)"
  shows "FileName c = FileName d"
proof -
  have "takeWhile (\<lambda>x. x \<noteq> WCHR BS) (drop (Suc (length path)) q) = FileName e"
    if "Within q (child_path path e)" "WCHR BS \<notin> set (FileName e)" for e
    using that by (auto simp: Within_iff takeWhile_separator)
  with assms show ?thesis by metis
qed

lemma confined_frame:
  assumes "walk_confined api children user allowed v path"
    and "\<And>q. Within q path \<Longrightarrow> dacl_at v' q = dacl_at v q"
  shows "walk_confined api children user allowed v' path"
  using assms
proof (induction rule: walk_confined.induct)
  case (root root path)
  then show ?case by (intro walk_confined.root)
next
  case (denied path)
  then show ?case by (intro walk_confined.denied) (simp add: deny_listed_def)
next
  case (ancestor root path)
  show ?case
  proof (rule walk_confined.ancestor[OF ancestor(1,2)])
    show "deny_listed api user AncestorDeny v' path" using ancestor by (simp add: deny_listed_def)
    show "walk_confined api children user allowed v' (child_path path c)" if "c \<in> set (children path)" "is_folder c" for c
      using ancestor(5)[OF that] ancestor(6) Within_child_neq by blast
  qed
qed

section \<open>The walk keeps the invariant\<close>

context folders
begin

lemma held_open:
  assumes "scope_ok original s v" and "h \<in> held_handles s"
  shows "h = nullptr \<or> path_of v h \<noteq> None"
proof -
  from assms(2) obtain path e where "h = object e" "map_of (scope_entries s) path = Some e"
    by (auto simp: held_handles_def)
  with assms(1) have "entry_ok (scope_user s) original v path e" by (simp add: scope_ok_def)
  with \<open>h = object e\<close> show ?thesis by (auto simp: entry_ok_def)
qed

lemma opened_ok:
  assumes "opened v h p v'" and "scope_ok original s v"
  shows "scope_ok original s v' \<and> advance P H s v s v' \<and> h \<notin> held_handles s \<and> path_of v' h = Some p"
proof -
  have "h \<notin> held_handles s" using held_open[OF assms(2), of h] assms(1) by (auto simp: opened_def)
  moreover have "scope_ok original s v'"
  proof -
    have "entry_ok user original v' path e" if "entry_ok user original v path e" for user path e
    proof -
      have "object e \<noteq> h" using assms(1) that by (auto simp: opened_def entry_ok_def)
      then have "path_of v' (object e) = path_of v (object e)" "dacl_at v' path = dacl_at v path"
        using assms(1) by (auto simp: opened_def)
      with that show ?thesis unfolding entry_ok_def by metis
    qed
    then show ?thesis using assms by (auto simp: scope_ok_def opened_def)
  qed
  ultimately show ?thesis
    using assms(1) by (auto simp: opened_def advance_def)
qed

lemma close_ok:
  assumes "scope_ok original s (view w)" and "h \<notin> held_handles s \<or> h = nullptr"
    and "\<And>p. path_of (view w) h = Some p \<Longrightarrow> P p"
  shows "scope_ok original s (view (CloseObject api h w)) \<and> advance P {h} s (view w) s (view (CloseObject api h w))"
proof -
  have "entry_ok user original (view (CloseObject api h w)) path e" if "entry_ok user original (view w) path e"
      "object e \<noteq> h \<or> h = nullptr" for user path e
    using that no_handle by (auto simp: entry_ok_def CloseObject_view)
  moreover have "object e \<noteq> h \<or> h = nullptr" if "map_of (scope_entries s) path = Some e" for path e
    using assms(2) that by (auto simp: held_handles_def)
  ultimately have "scope_ok original s (view (CloseObject api h w))"
    using assms(1) by (auto simp: scope_ok_def CloseObject_view)
  with assms(3) show ?thesis by (auto simp: advance_def CloseObject_view)
qed

lemma erase_ok:
  assumes ok: "scope_ok original s (view w)" and unleased: "\<not> leased (entry_at s child)"
    and erase: "erase_entry api child s w = (s', w')"
  shows "scope_ok original s' (view w') \<and> advance (\<lambda>q. q = child) {} s (view w) s' (view w')"
proof -
  let ?h = "object (entry_at s child)"
  have s': "s' = s\<lparr>scope_entries := map_erase child (scope_entries s)\<rparr>" and w': "w' = CloseObject api ?h w"
    using erase by (auto simp: erase_entry_def)
  have child_handle: "?h = nullptr \<or> path_of (view w) ?h = Some child"
    using ok by (cases "map_of (scope_entries s) child") (auto simp: scope_ok_def entry_at_def Entry_default_def entry_ok_def)
  note child_dacl = unleased_dacl[OF ok unleased]
  have "entry_ok (scope_user s') original (view w') path e"
    if "map_of (scope_entries s') path = Some e" for path e
  proof -
    from that have m: "path \<noteq> child" "map_of (scope_entries s) path = Some e" by (auto simp: s' split: if_splits)
    then have "entry_ok (scope_user s) original (view w) path e" using ok by (simp add: scope_ok_def)
    moreover have "object e = nullptr \<or> object e \<noteq> ?h"
      using child_handle m(1) calculation no_handle by (auto simp: entry_ok_def)
    ultimately show ?thesis
      by (auto simp: entry_ok_def s' w' CloseObject_view no_handle)
  qed
  then have "scope_ok original s' (view w')"
    using ok child_dacl by (auto simp: scope_ok_def s' w' CloseObject_view ordered_erase split: if_splits)
  moreover have "advance (\<lambda>q. q = child) {} s (view w) s' (view w')"
  proof -
    have "held_handles s' \<subseteq> held_handles s" by (auto simp: held_handles_def s' split: if_splits)
    moreover have "?h \<in> held_handles s \<or> ?h = nullptr"
      by (cases "map_of (scope_entries s) child") (auto simp: held_handles_def entry_at_def Entry_default_def)
    ultimately show ?thesis
      using child_handle no_handle by (auto simp: advance_def s' w' CloseObject_view)
  qed
  ultimately show ?thesis by blast
qed

lemma ReleaseChildren_ok:
  assumes "ReleaseChildren api paths s w = ((err, s'), w')" and "scope_ok original s (view w)"
    and "scope_user s \<noteq> []" and "take 2 path = wide [BS, BS]" and "\<forall>child \<in> set paths. Within child path"
  shows "scope_ok original s' (view w') \<and> advance (\<lambda>q. Within q path) {} s (view w) s' (view w')"
  using assms(1-3,5)
proof (induction paths arbitrary: s w)
  case (Cons child paths)
  obtain e1 s1 w1 where set: "SetPathAccess api child 0 True s w = ((e1, s1), w1)" by (metis surj_pair)
  have child: "Within child path" using Cons.prems(4) by simp
  note step = SetPathAccess_ok[OF Cons.prems(2) set Cons.prems(3) disjI1[OF Within_volume[OF child assms(4)]]]
  have adv1: "advance (\<lambda>q. Within q path) {} s (view w) s1 (view w1)"
    by (rule advance_mono[where P = "\<lambda>q. q = child" and H = "{}"]) (use step child in auto)
  have user1: "scope_user s1 \<noteq> []" using adv1 Cons.prems(3) by (simp add: advance_def)
  consider "e1 \<noteq> ERROR_SUCCESS" | "e1 = ERROR_SUCCESS" "addedTraverseGrant (entry_at s1 child)"
    | "e1 = ERROR_SUCCESS" "\<not> addedTraverseGrant (entry_at s1 child)" by blast
  then show ?case
  proof cases
    case 1
    with Cons.prems(1) set step adv1 show ?thesis by auto
  next
    case 2
    with Cons.prems(1) set have "ReleaseChildren api paths s1 w1 = ((err, s'), w')" by simp
    from Cons.IH[OF this _ user1] step Cons.prems(4)
    have "scope_ok original s' (view w') \<and> advance (\<lambda>q. Within q path) {} s1 (view w1) s' (view w')" by simp
    with advance_trans[OF adv1] show ?thesis by blast
  next
    case 3
    obtain s2 w2 where erase: "erase_entry api child s1 w1 = (s2, w2)" by fastforce
    have "\<not> leased (entry_at s1 child)" using 3 step by (simp add: leased_def)
    then have erased: "scope_ok original s2 (view w2)" "advance (\<lambda>q. q = child) {} s1 (view w1) s2 (view w2)"
      using erase_ok[OF _ _ erase] step by blast+
    have "advance (\<lambda>q. Within q path) {} s1 (view w1) s2 (view w2)"
      by (rule advance_mono[where P = "\<lambda>q. q = child" and H = "{}"]) (use erased child in auto)
    from advance_trans[OF adv1 this] have adv2: "advance (\<lambda>q. Within q path) {} s (view w) s2 (view w2)" by simp
    from 3 Cons.prems(1) set erase have "ReleaseChildren api paths s2 w2 = ((err, s'), w')" by simp
    moreover have "scope_user s2 \<noteq> []" using adv2 Cons.prems(3) by (simp add: advance_def)
    ultimately have "scope_ok original s' (view w') \<and> advance (\<lambda>q. Within q path) {} s2 (view w2) s' (view w')"
      using Cons.IH erased(1) Cons.prems(4) by simp
    with advance_trans[OF adv2] show ?thesis by blast
  qed
qed simp

lemma VisitReadable_ok:
  assumes "VisitReadable api path s w = ((err, s'), w')" and ok: "scope_ok original s (view w)"
    and user: "scope_user s \<noteq> []" and volume: "take 2 path = wide [BS, BS]"
  shows "scope_ok original s' (view w') \<and> advance (\<lambda>q. Within q path) {} s (view w) s' (view w')"
proof -
  obtain e1 s1 w1 where set: "SetPathAccess api path 0 True s w = ((e1, s1), w1)" by (metis surj_pair)
  note step = SetPathAccess_ok[OF ok set user disjI1[OF volume]]
  have adv1: "advance (\<lambda>q. Within q path) {} s (view w) s1 (view w1)"
    by (rule advance_mono[where P = "\<lambda>q. q = path" and H = "{}"]) (use step in auto)
  let ?s = "observe ''read.excluded_from_deny'' path e1 s1"
  show ?thesis
  proof (cases "e1 = ERROR_SUCCESS")
    case True
    then have "ReleaseChildren api (entries_below path (scope_entries ?s)) ?s w1 = ((err, s'), w')"
      using assms(1) set by (simp add: VisitReadable_def Let_def)
    moreover have "\<forall>child \<in> set (entries_below path (scope_entries ?s)). Within child path"
      by (auto simp: entries_below_def dest: set_takeWhileD)
    moreover have "scope_user ?s \<noteq> []" using adv1 user by (simp add: advance_def)
    ultimately have "scope_ok original s' (view w') \<and> advance (\<lambda>q. Within q path) {} ?s (view w1) s' (view w')"
      using ReleaseChildren_ok[of _ ?s w1 err s' w' original path] step volume by simp
    with advance_trans[OF adv1, where K = "{}"] show ?thesis by simp
  next
    case False
    with assms(1) set step adv1 show ?thesis by (auto simp: VisitReadable_def Let_def)
  qed
qed

text \<open>What a visit guarantees.\<close>

definition visited ::
  "(wstring \<Rightarrow> dacl option) \<Rightarrow> wstring \<Rightarrow> handle set \<Rightarrow> BrokerReadScope \<Rightarrow> 'w \<Rightarrow> dword \<Rightarrow> BrokerReadScope \<Rightarrow> 'w \<Rightarrow> bool"
where
  "visited original path H s w e s' w' \<longleftrightarrow> scope_ok original s' (view w')
     \<and> advance (\<lambda>q. Within q path) H s (view w) s' (view w')
     \<and> (e = ERROR_SUCCESS \<longrightarrow> walk_confined api children (scope_user s) (scope_allowed s) (view w') path)"

definition visit_ok :: "(wstring \<Rightarrow> dacl option) \<Rightarrow> 'w visit \<Rightarrow> bool" where
  "visit_ok original visit \<longleftrightarrow> (\<forall>path h n s w e n' s' w'. visit path h n s w = Some ((e, n', s'), w') \<longrightarrow>
     scope_ok original s (view w) \<longrightarrow> scope_user s \<noteq> [] \<longrightarrow> take 2 path = wide [BS, BS] \<longrightarrow>
     (h = nullptr \<or> path_of (view w) h = Some path \<and> h \<notin> held_handles s) \<longrightarrow> visited original path {h} s w e s' w')"

definition below_folders :: "wstring \<Rightarrow> dirent list \<Rightarrow> wstring \<Rightarrow> bool" where
  "below_folders path records q \<longleftrightarrow> (\<exists>d \<in> set records. is_folder d \<and> Within q (child_path path d))"

lemma not_below_itself [simp]: "\<not> below_folders path records path"
  using Within_child_neq[of path path] unfolding below_folders_def by blast

lemma visit_okD:
  assumes "visit_ok original visit" and "visit path h n s w = Some ((e, n', s'), w')"
    and "scope_ok original s (view w)" and "scope_user s \<noteq> []" and "take 2 path = wide [BS, BS]"
    and "h = nullptr \<or> path_of (view w) h = Some path \<and> h \<notin> held_handles s"
  shows "visited original path {h} s w e s' w'"
  using assms unfolding visit_ok_def by metis

text \<open>Visiting folders leaves others walk_confined, and itself confines folders of the same name.\<close>

lemma confined_kept:
  assumes "walk_confined api children user allowed v (child_path path c)" and "advance (below_folders path records) H s v s' v'"
    and "\<forall>d \<in> set records. is_folder d \<longrightarrow> walk_confined api children user allowed v' (child_path path d)"
    and "\<forall>d \<in> set records. WCHR BS \<notin> set (FileName d)" and "WCHR BS \<notin> set (FileName c)"
  shows "walk_confined api children user allowed v' (child_path path c)"
proof (cases "\<exists>d \<in> set records. is_folder d \<and> FileName d = FileName c")
  case True
  with assms(3) show ?thesis by metis
next
  case False
  have "dacl_at v' q = dacl_at v q" if "Within q (child_path path c)" for q
  proof -
    have "\<not> below_folders path records q"
    proof
      assume "below_folders path records q"
      then obtain d where d: "d \<in> set records" "is_folder d" "Within q (child_path path d)"
        by (auto simp: below_folders_def)
      from Within_siblings[OF d(3) that] d(1) assms(4,5) have "FileName d = FileName c" by simp
      with False d show False by blast
    qed
    with assms(2) show ?thesis by (simp add: advance_def)
  qed
  with assms(1) show ?thesis by (rule confined_frame)
qed

lemma VisitRecords_ok:
  assumes visit: "visit_ok original visit" and volume: "take 2 path = wide [BS, BS]"
    and names: "\<forall>c \<in> set records. WCHR BS \<notin> set (FileName c)"
  shows "VisitRecords api deadline visit path records n s w = Some ((e, n', s'), w') \<Longrightarrow>
    scope_ok original s (view w) \<Longrightarrow> scope_user s \<noteq> [] \<Longrightarrow>
    path_of (view w) (object (entry_at s path)) = Some path \<Longrightarrow>
    scope_ok original s' (view w') \<and> advance (below_folders path records) {} s (view w) s' (view w')
    \<and> (e = ERROR_SUCCESS \<longrightarrow> (\<forall>c \<in> set records. is_folder c \<longrightarrow>
         walk_confined api children (scope_user s) (scope_allowed s) (view w') (child_path path c)))"
  using names
proof (induction records arbitrary: n s w)
  case (Cons c records)
  let ?P = "below_folders path (c # records)"
  have more: "below_folders path records q \<Longrightarrow> ?P q" for q by (auto simp: below_folders_def)
  obtain now w1 where t: "GetTickCount64 api w = (now, w1)" by fastforce
  have view1: "view w1 = view w" by (rule tick[OF t])
  show ?case
  proof (cases "now \<ge> deadline \<or> n = 0")
    case True
    with Cons.prems(1,2) t view1 show ?thesis by (auto split: if_split_asm)
  next
    case False
    show ?thesis
    proof (cases "is_folder c")
      case not_folder: False
      then have "VisitRecords api deadline visit path records (n - 1) s w1 = Some ((e, n', s'), w')"
        using Cons.prems(1) t False by (simp add: Let_def)
      from Cons.IH[OF this] Cons.prems(2-5) view1 not_folder
        advance_mono[of "below_folders path records" "{}" s "view w" s' "view w'" ?P "{}", OF _ more]
      show ?thesis by simp
    next
      case folder: True
      let ?child = "child_path path c"
      obtain oe h s1 w2 where o: "OpenChild api path (FileName c) s w1 = ((oe, h, s1), w2)"
        by (metis surj_pair)
      have s1: "\<exists>f. s1 = s\<lparr>failurePath := f\<rparr>"
        using o by (auto simp: OpenChild_def Let_def split: if_split_asm prod.splits intro: exI[of _ "failurePath s"])
      have opens: "scope_ok original s1 (view w2) \<and> advance ?P {} s (view w) s1 (view w2)
        \<and> (oe = ERROR_SUCCESS \<longrightarrow> h = nullptr \<or> path_of (view w2) h = Some ?child \<and> h \<notin> held_handles s1)
        \<and> (h = nullptr \<or> path_of (view w) h = None)"
      proof (cases "?child \<in> fst ` set (scope_entries s)")
        case True
        with o Cons.prems(2) view1 show ?thesis by (auto simp: OpenChild_def Let_def)
      next
        case new: False
        then have op: "OpenRelativeFile api (object (entry_at s path)) (FileName c)
            (READ_CONTROL OR FILE_READ_ATTRIBUTES OR FILE_LIST_DIRECTORY) w1 = ((oe, h), w2)"
          using o by (auto simp: OpenChild_def Let_def split: prod.splits)
        note v = OpenRelativeFile_view[OF op]
        show ?thesis
        proof (cases "oe = ERROR_SUCCESS")
          case True
          with v view1 Cons.prems(4) have "opened (view w) h ?child (view w2)" by auto
          from opened_ok[OF this Cons.prems(2)] this s1 show ?thesis by (auto simp: opened_def)
        next
          case False
          with v view1 Cons.prems(2) s1 show ?thesis by auto
        qed
      qed
      show ?thesis
      proof (cases "oe = ERROR_SUCCESS")
        case False
        then have "e = oe" "s' = s1" "w' = w2"
          using Cons.prems(1) t \<open>\<not> (now \<ge> deadline \<or> n = 0)\<close> folder o by (auto simp: Let_def)
        with opens False show ?thesis by simp
      next
        case True
        have result: "(case visit ?child h (n - 1) s1 w2 of None \<Rightarrow> None
          | Some ((error, remaining, s), w) \<Rightarrow> if error \<noteq> ERROR_SUCCESS then Some ((error, remaining, s), w)
              else VisitRecords api deadline visit path records remaining s w) = Some ((e, n', s'), w')"
          using Cons.prems(1) t \<open>\<not> (now \<ge> deadline \<or> n = 0)\<close> folder o True
          by (simp add: Let_def)
        then obtain e2 n2 s2 w3 where v: "visit ?child h (n - 1) s1 w2 = Some ((e2, n2, s2), w3)"
          by (auto split: option.splits)
        have "scope_user s1 \<noteq> []" "take 2 ?child = wide [BS, BS]"
          using s1 Cons.prems(3) Within_volume[OF Within_child volume] by auto
        then have vis: "visited original ?child {h} s1 w2 e2 s2 w3"
          using opens True by (intro visit_okD[OF visit v]) auto
        have a2: "advance ?P {h} s1 (view w2) s2 (view w3)"
          by (rule advance_mono[where P = "\<lambda>q. Within q ?child" and H = "{h}"])
            (use vis folder in \<open>auto simp: visited_def below_folders_def\<close>)
        have adv2: "advance ?P {} s (view w) s2 (view w3)"
          by (rule advance_trans[OF opens[THEN conjunct2, THEN conjunct1] a2]) (use opens no_handle in auto)
        have user2: "scope_user s2 = scope_user s" "scope_allowed s2 = scope_allowed s"
          using adv2 by (simp_all add: advance_def)
        show ?thesis
        proof (cases "e2 = ERROR_SUCCESS")
          case False
          with result v have "e = e2" "s' = s2" "w' = w3" by auto
          with False adv2 vis show ?thesis by (simp add: visited_def)
        next
          case ok2: True
          have "path_of (view w3) (object (entry_at s2 path)) = Some path"
            using adv2 Cons.prems(4) unfolding advance_def entry_at_def by simp
          moreover have "VisitRecords api deadline visit path records n2 s2 w3 = Some ((e, n', s'), w')"
            using result v ok2 by simp
          ultimately have rest: "scope_ok original s' (view w') \<and> advance (below_folders path records) {} s2 (view w3) s' (view w')
            \<and> (e = ERROR_SUCCESS \<longrightarrow> (\<forall>c \<in> set records. is_folder c \<longrightarrow>
                 walk_confined api children (scope_user s) (scope_allowed s) (view w') (child_path path c)))"
            using Cons.IH[of n2 s2 w3] vis Cons.prems(3,5) user2 by (simp add: visited_def)
          have "advance ?P {} s2 (view w3) s' (view w')"
            by (rule advance_mono[where P = "below_folders path records" and H = "{}"]) (use rest more in auto)
          with adv2 have adv: "advance ?P {} s (view w) s' (view w')" by (rule advance_trans) simp
          have "walk_confined api children (scope_user s) (scope_allowed s) (view w') ?child" if ok: "e = ERROR_SUCCESS"
            using confined_kept[where path = path and c = c and records = records and v = "view w3" and s = s2 and s' = s'
                and H = "{}" and v' = "view w'" and user = "scope_user s" and allowed = "scope_allowed s"]
              vis ok2 s1 rest ok Cons.prems(5) by (auto simp: visited_def)
          with adv rest show ?thesis by simp
        qed
      qed
    qed
  qed
qed simp

text \<open>The entry of a folder that is pinned.\<close>

lemma pinned_entry:
  assumes "scope_ok original s v" and "path_of v (object (entry_at s path)) = Some path" and "path_of v nullptr = None"
  shows "map_of (scope_entries s) path = Some (entry_at s path)"
    and "take 2 path = wide [BS, BS] \<Longrightarrow> \<not> namespaceDirectory (entry_at s path)"
proof -
  show m: "map_of (scope_entries s) path = Some (entry_at s path)"
    using assms(2,3) by (auto simp: entry_at_def Entry_default_def split: option.splits)
  then show "take 2 path = wide [BS, BS] \<Longrightarrow> \<not> namespaceDirectory (entry_at s path)"
    using assms(1) by (auto simp: scope_ok_def entry_ok_def)
qed

lemma SetPathAccess_denies:
  assumes ok: "scope_ok original s (view w)" and set: "SetPathAccess api path m False s w = ((err, s'), w')"
    and user: "scope_user s \<noteq> []" and volume: "take 2 path = wide [BS, BS]"
    and pinned: "path_of (view w) (object (entry_at s path)) = Some path" and m: "m \<noteq> 0"
  shows "scope_ok original s' (view w') \<and> advance (\<lambda>q. q = path) {} s (view w) s' (view w')
    \<and> (err = ERROR_SUCCESS \<longrightarrow> deny_listed api (scope_user s) m (view w') path)"
proof -
  note step = SetPathAccess_ok[OF ok set user disjI1[OF volume]]
  have key: "path \<in> fst ` set (scope_entries s)"
    using pinned_entry(1)[OF ok pinned no_handle(1)] by (simp add: map_of_key)
  have "\<not> namespaceDirectory (entry_at s' path)"
    using step key pinned_entry(2)[OF ok pinned no_handle(1) volume] by simp
  with step pinned m show ?thesis by (auto simp: access_set_def deny_listed_def)
qed

lemma VisitBatches_ok:
  assumes visit: "visit_ok original visit" and volume: "take 2 path = wide [BS, BS]" and root: "Within root path"
  shows "VisitBatches api deadline visit path fuel restart n s w = Some ((e, n', s'), w') \<Longrightarrow>
    scope_ok original s (view w) \<Longrightarrow> scope_user s \<noteq> [] \<Longrightarrow> root \<in> set (scope_allowed s) \<Longrightarrow>
    path_of (view w) (object (entry_at s path)) = Some path \<Longrightarrow>
    children path = done_part @ (if restart then children path else listing (view w) (object (entry_at s path))) \<Longrightarrow>
    \<forall>c \<in> set done_part. is_folder c \<longrightarrow> walk_confined api children (scope_user s) (scope_allowed s) (view w) (child_path path c) \<Longrightarrow>
    visited original path {} s w e s' w'"
proof (induction fuel arbitrary: restart n s w done_part)
  case (Suc fuel)
  let ?h = "object (entry_at s path)"
  obtain now w1 where t: "GetTickCount64 api w = (now, w1)" by fastforce
  have view1: "view w1 = view w" by (rule tick[OF t])
  obtain ee first rest w2 where b: "FileIdBothDirectoryInfo api ?h restart w1 = ((ee, first, rest), w2)"
    by (metis surj_pair)
  obtain l where view2: "view w2 = (view w)\<lparr>listing := (listing (view w))(?h := l)\<rparr>"
    and more: "ee = ERROR_SUCCESS \<longrightarrow> (if restart then children path else listing (view w) ?h) = first # rest @ l"
    and last: "ee = ERROR_NO_MORE_FILES \<longrightarrow> (if restart then children path else listing (view w) ?h) = []"
    using enumerate[OF b, unfolded view1, OF Suc.prems(5)] by blast
  have ok2: "scope_ok original s (view w2)" using Suc.prems(2) by (simp add: view2 scope_ok_def entry_ok_def)
  have adv2: "advance (\<lambda>q. Within q path) {} s (view w) s (view w2)"
    using Suc.prems(5) by (auto simp: view2 advance_def)
  have pinned2: "path_of (view w2) ?h = Some path" using Suc.prems(5) by (simp add: view2)
  have done2: "\<forall>c \<in> set done_part. is_folder c \<longrightarrow>
      walk_confined api children (scope_user s) (scope_allowed s) (view w2) (child_path path c)"
    using Suc.prems(7) by (auto intro: confined_frame simp: view2)
  consider "now \<ge> deadline" | "\<not> now \<ge> deadline" "ee = ERROR_NO_MORE_FILES"
    | "\<not> now \<ge> deadline" "ee \<noteq> ERROR_NO_MORE_FILES" "ee \<noteq> ERROR_SUCCESS" | "\<not> now \<ge> deadline" "ee = ERROR_SUCCESS"
    by blast
  then show ?case
  proof cases
    case 1
    with Suc.prems(1,2) t view1 show ?thesis by (auto simp: visited_def)
  next
    case 2
    obtain e3 s3 w3 where set: "SetPathAccess api path AncestorDeny False s w2 = ((e3, s3), w3)" by (metis surj_pair)
    note step = SetPathAccess_denies[OF ok2 set Suc.prems(3) volume pinned2 AncestorDeny_nonzero]
    have result: "e = e3" "s' = s3" "w' = w3" using Suc.prems(1) t 2 b set by auto
    have "children path = done_part" using Suc.prems(6) last 2 by simp
    have "walk_confined api children (scope_user s) (scope_allowed s) (view w3) path" if "e3 = ERROR_SUCCESS"
    proof (rule walk_confined.ancestor[OF Suc.prems(4) root])
      show "deny_listed api (scope_user s) AncestorDeny (view w3) path" using step that by blast
      fix c assume c: "c \<in> set (children path)" "is_folder c"
      then have "walk_confined api children (scope_user s) (scope_allowed s) (view w2) (child_path path c)"
        using done2 \<open>children path = done_part\<close> by simp
      then show "walk_confined api children (scope_user s) (scope_allowed s) (view w3) (child_path path c)"
      proof (rule confined_frame)
        fix q assume "Within q (child_path path c)"
        then have "q \<noteq> path" using Within_child_neq by blast
        with step show "dacl_at (view w3) q = dacl_at (view w2) q" by (simp add: advance_def)
      qed
    qed
    moreover have "advance (\<lambda>q. Within q path) {} s (view w2) s3 (view w3)"
      by (rule advance_mono[where P = "\<lambda>q. q = path" and H = "{}"]) (use step in auto)
    from advance_trans[OF adv2 this] have "advance (\<lambda>q. Within q path) {} s (view w) s3 (view w3)" by simp
    ultimately show ?thesis using step by (simp add: visited_def result)
  next
    case 3
    with Suc.prems(1) t b ok2 adv2 show ?thesis by (auto simp: visited_def)
  next
    case 4
    have todo: "children path = done_part @ first # rest @ l" using Suc.prems(6) more 4 by simp
    have names: "\<forall>c \<in> set (first # rest). WCHR BS \<notin> set (FileName c)" "\<forall>c \<in> set done_part. WCHR BS \<notin> set (FileName c)"
      using child_name[of _ path] todo by simp_all
    obtain e3 n3 s3 w3 where r: "VisitRecords api deadline visit path (first # rest) n s w2 = Some ((e3, n3, s3), w3)"
      using Suc.prems(1) t 4 b by (auto split: option.splits simp del: VisitRecords.simps)
    note records = VisitRecords_ok[OF visit volume names(1) r ok2 Suc.prems(3) pinned2]
    have adv23: "advance (\<lambda>q. Within q path) {} s (view w2) s3 (view w3)"
      by (rule advance_mono[where P = "below_folders path (first # rest)" and H = "{}"])
        (use records Within_child_neq in \<open>fastforce simp: below_folders_def\<close>)+
    from advance_trans[OF adv2 this] have adv3: "advance (\<lambda>q. Within q path) {} s (view w) s3 (view w3)" by simp
    show ?thesis
    proof (cases "e3 = ERROR_SUCCESS")
      case False
      with Suc.prems(1) t 4 b r have "e = e3" "s' = s3" "w' = w3" by (auto simp del: VisitRecords.simps)
      with False records adv3 show ?thesis by (simp add: visited_def)
    next
      case True
      have same: "scope_user s3 = scope_user s" "scope_allowed s3 = scope_allowed s"
        using adv3 by (simp_all add: advance_def)
      have entry3: "entry_at s3 path = entry_at s path"
        by (rule advance_entry_at[where P = "below_folders path (first # rest)" and H = "{}"]) (use records in auto)
      have kept: "\<forall>h q. path_of (view w2) h = Some q \<and> \<not> below_folders path (first # rest) q \<longrightarrow>
          path_of (view w3) h = Some q \<and> listing (view w3) h = listing (view w2) h"
        using records unfolding advance_def by blast
      have "path_of (view w3) ?h = Some path \<and> listing (view w3) ?h = listing (view w2) ?h"
        using kept[rule_format, of ?h path] pinned2 not_below_itself by blast
      then have "path_of (view w3) ?h = Some path \<and> listing (view w3) ?h = l" by (simp add: view2)
      then have pinned3: "path_of (view w3) (object (entry_at s3 path)) = Some path"
        and todo3: "children path = (done_part @ first # rest) @ (if False then children path else listing (view w3) (object (entry_at s3 path)))"
        using todo by (simp_all add: entry3)
      have done3: "\<forall>c \<in> set (done_part @ first # rest). is_folder c \<longrightarrow>
          walk_confined api children (scope_user s3) (scope_allowed s3) (view w3) (child_path path c)"
      proof (intro ballI impI)
        fix c assume c: "c \<in> set (done_part @ first # rest)" "is_folder c"
        show "walk_confined api children (scope_user s3) (scope_allowed s3) (view w3) (child_path path c)"
        proof (cases "c \<in> set (first # rest)")
          case in_batch: True
          show ?thesis
            unfolding same using records \<open>e3 = ERROR_SUCCESS\<close> in_batch c(2) by blast
        next
          case False
          with c have d: "c \<in> set done_part" by auto
          show ?thesis
            unfolding same
            by (rule confined_kept[where v = "view w2" and records = "first # rest" and s = s and s' = s3 and H = "{}"])
              (use d c(2) done2 records names \<open>e3 = ERROR_SUCCESS\<close> in blast)+
        qed
      qed
      have "VisitBatches api deadline visit path fuel False n3 s3 w3 = Some ((e, n', s'), w')"
        using Suc.prems(1) t 4 b r True by (simp del: VisitRecords.simps)
      from Suc.IH[OF this _ _ _ pinned3 todo3 done3] records Suc.prems(3,4)
      have "visited original path {} s3 w3 e s' w'" by (simp add: same)
      with advance_trans[OF adv3] show ?thesis by (auto simp: visited_def same)
    qed
  qed
qed simp

lemma entry_pinned:
  assumes "scope_ok original s (view w)" and "fst (FileAttributeTagInfo api (object (entry_at s path)) w) = ERROR_SUCCESS"
  shows "path_of (view w) (object (entry_at s path)) = Some path"
proof -
  have open_handle: "path_of (view w) (object (entry_at s path)) \<noteq> None" using tag_closed assms(2) by blast
  show ?thesis
  proof (cases "map_of (scope_entries s) path")
    case None
    with open_handle show ?thesis by (simp add: entry_at_def Entry_default_def no_handle)
  next
    case (Some entry)
    with assms(1) have "entry_ok (scope_user s) original (view w) path (entry_at s path)"
      by (simp add: scope_ok_def entry_at_def)
    with open_handle show ?thesis by (auto simp: entry_ok_def no_handle)
  qed
qed

lemma VisitEntry_ok:
  assumes visit: "visit_ok original visit" and volume: "take 2 path = wide [BS, BS]"
    and ok: "scope_ok original s (view w)" and user: "scope_user s \<noteq> []"
    and run: "VisitEntry api deadline visit path n s w = Some ((e, n', s'), w')"
  shows "visited original path {} s w e s' w'"
proof -
  obtain ie attributes where info: "FileAttributeTagInfo api (object (entry_at s path)) w = (ie, attributes)" by fastforce
  consider (failed) "ie \<noteq> ERROR_SUCCESS \<or> attributes AND FILE_ATTRIBUTE_DIRECTORY = 0"
    | (go) "ie = ERROR_SUCCESS" "attributes AND FILE_ATTRIBUTE_DIRECTORY \<noteq> 0" by blast
  then show ?thesis
  proof cases
    case failed
    with run info ok show ?thesis by (auto simp: VisitEntry_def visited_def split: if_split_asm)
  next
    case go
    with entry_pinned[OF ok] info have pinned: "path_of (view w) (object (entry_at s path)) = Some path" by simp
    consider (readable) root where "root \<in> set (scope_allowed s)" "Within path root"
      | (outside) "\<forall>root \<in> set (scope_allowed s). \<not> Within path root" "\<forall>root \<in> set (scope_allowed s). \<not> Within root path"
      | (above) root where "root \<in> set (scope_allowed s)" "Within root path" "\<forall>root \<in> set (scope_allowed s). \<not> Within path root"
      by blast
    then show ?thesis
    proof cases
      case readable
      then have "list_ex (\<lambda>allowed. Within path allowed) (scope_allowed s)" by (auto simp: list_ex_iff)
      with run info go have "VisitReadable api path s w = ((e, s'), w')"
        by (auto simp: VisitEntry_def split: prod.splits)
      from VisitReadable_ok[OF this ok user volume] readable show ?thesis
        by (auto simp: visited_def intro: walk_confined.root)
    next
      case outside
      let ?s = "observe ''read.deny_selected'' path ERROR_SUCCESS s"
      from outside run info go have set: "SetPathAccess api path FILE_ALL_ACCESS False ?s w = ((e, s'), w')"
        by (auto simp: VisitEntry_def list_ex_iff split: prod.splits)
      note step = SetPathAccess_denies[OF _ set _ volume, simplified, OF ok user pinned]
      have "advance (\<lambda>q. Within q path) {} s (view w) s' (view w')"
        by (rule advance_mono[where P = "\<lambda>q. q = path" and H = "{}"]) (use step in auto)
      with step show ?thesis by (auto simp: visited_def intro: walk_confined.denied)
    next
      case above
      let ?s = "observe ''read.ancestor_traverse'' path ERROR_SUCCESS s"
      from above(1,2) have anc: "list_ex (\<lambda>allowed. Within allowed path) (scope_allowed s)" by (auto simp: list_ex_iff)
      from above(3) have out: "\<not> list_ex (\<lambda>allowed. Within path allowed) (scope_allowed s)" by (simp add: list_ex_iff)
      show ?thesis
      proof (cases "attributes AND FILE_ATTRIBUTE_REPARSE_POINT = 0")
        case True
        with run info go anc out have batches:
          "VisitBatches api deadline visit path (Suc (Suc n)) True n ?s w = Some ((e, n', s'), w')"
          by (simp add: VisitEntry_def Let_def del: VisitBatches.simps)
        have "visited original path {} ?s w e s' w'"
          by (rule VisitBatches_ok[OF visit volume above(2) batches, where done_part = "[]"])
            (use ok user above(1) pinned in auto)
        then show ?thesis by (simp add: visited_def)
      next
        case False
        with run info go anc out have "e = ERROR_ACCESS_DENIED" "s' = ?s" "w' = w"
          by (auto simp: VisitEntry_def Let_def)
        with ok show ?thesis by (simp add: visited_def)
      qed
    qed
  qed
qed

text \<open>A new entry, with or without its handle.\<close>

lemma emplace_ok:
  assumes ok: "scope_ok original s v" and handle: "h = nullptr \<or> path_of v h = Some path \<and> h \<notin> held_handles s"
    and no: "path_of v nullptr = None"
  shows "scope_ok original (s\<lparr>scope_entries := map_emplace path Entry_default (scope_entries s)\<rparr>) v
      \<and> advance (\<lambda>q. q = path) {} s v (s\<lparr>scope_entries := map_emplace path Entry_default (scope_entries s)\<rparr>) v"
    and "path \<notin> fst ` set (scope_entries s) \<Longrightarrow>
      scope_ok original (assign_entry path (Entry_default\<lparr>object := h\<rparr>)
        (s\<lparr>scope_entries := map_emplace path Entry_default (scope_entries s)\<rparr>)) v
      \<and> advance (\<lambda>q. q = path) {h} s v (assign_entry path (Entry_default\<lparr>object := h\<rparr>)
        (s\<lparr>scope_entries := map_emplace path Entry_default (scope_entries s)\<rparr>)) v"
proof -
  let ?s = "s\<lparr>scope_entries := map_emplace path Entry_default (scope_entries s)\<rparr>"
  have ord: "ordered (scope_entries s)" using ok by (simp add: scope_ok_def)
  have entries: "map_of (scope_entries ?s) q = (if q = path \<and> path \<notin> fst ` set (scope_entries s) then Some Entry_default
      else map_of (scope_entries s) q)" for q
    using map_of_emplace[OF ord, of path Entry_default q] by simp
  have fresh: "entry_ok (scope_user s) original v path (Entry_default\<lparr>object := g\<rparr>)"
    if "path \<notin> fst ` set (scope_entries s)" "g = nullptr \<or> path_of v g = Some path" for g
    using that ok by (auto simp: entry_ok_def lease_form_def leased_def Entry_default_def scope_ok_def map_of_key Let_def)
  have default: "Entry_default\<lparr>object := nullptr\<rparr> = Entry_default" by (simp add: Entry_default_def)
  have "entry_ok (scope_user s) original v q e" if "map_of (scope_entries ?s) q = Some e" for q e
    using that[unfolded entries] fresh[of nullptr] ok by (auto simp: default scope_ok_def split: if_splits)
  moreover have "held_handles ?s \<subseteq> held_handles s \<union> {nullptr}"
    unfolding held_handles_def entries by (auto simp: Entry_default_def split: if_splits)
  ultimately show "scope_ok original ?s v \<and> advance (\<lambda>q. q = path) {} s v ?s v"
    using ok ord no unfolding scope_ok_def advance_def entries by (auto simp: ordered_emplace)
  assume new: "path \<notin> fst ` set (scope_entries s)"
  let ?a = "assign_entry path (Entry_default\<lparr>object := h\<rparr>) ?s"
  have entries': "map_of (scope_entries ?a) q = (if q = path then Some (Entry_default\<lparr>object := h\<rparr>)
      else map_of (scope_entries s) q)" for q
    using entries[of q] by (simp add: assign_entry_def map_of_assign)
  have "entry_ok (scope_user s) original v q e" if "map_of (scope_entries ?a) q = Some e" for q e
    using that fresh[OF new, of h] handle ok by (auto simp: entries' scope_ok_def split: if_splits)
  moreover have "held_handles ?a \<subseteq> held_handles s \<union> {h}"
    by (auto simp: held_handles_def entries' split: if_splits)
  moreover have "scope_user ?a = scope_user s" "scope_allowed ?a = scope_allowed s" "scope_volumes ?a = scope_volumes s"
      "ordered (scope_entries ?a)"
    using ord by (simp_all add: assign_entry_def ordered_emplace)
  ultimately show "scope_ok original ?a v \<and> advance (\<lambda>q. q = path) {h} s v ?a v"
    using ok by (auto simp: scope_ok_def entries' advance_def split: if_splits)
qed

lemma VisitLevel_ok:
  assumes deeper: "\<And>visit. deeper = Some visit \<Longrightarrow> visit_ok original visit"
  shows "visit_ok original (VisitLevel api deadline deeper)"
  unfolding visit_ok_def
proof (intro allI impI)
  fix path h n s w e n' s' w'
  assume run: "VisitLevel api deadline deeper path h n s w = Some ((e, n', s'), w')"
    and ok: "scope_ok original s (view w)" and user: "scope_user s \<noteq> []" and volume: "take 2 path = wide [BS, BS]"
    and handle: "h = nullptr \<or> path_of (view w) h = Some path \<and> h \<notin> held_handles s"
  obtain now w1 where t: "GetTickCount64 api w = (now, w1)" by fastforce
  have view1: "view w1 = view w" by (rule tick[OF t])
  let ?f = "s\<lparr>failurePath := path\<rparr>"
  let ?P = "\<lambda>q. Within q path"
  have refused: "visited original path {h} s w e2 s2 (CloseObject api h w2)"
    if "scope_ok original s2 (view w2)" "advance ?P {} s (view w) s2 (view w2)" "e2 \<noteq> ERROR_SUCCESS" for e2 s2 w2
  proof -
    have h2: "h \<notin> held_handles s2 \<or> h = nullptr" "path_of (view w2) h = path_of (view w) h \<or> h = nullptr"
      using handle that(2) unfolding advance_def by auto
    have "scope_ok original s2 (view (CloseObject api h w2)) \<and> advance ?P {h} s2 (view w2) s2 (view (CloseObject api h w2))"
      using h2 handle by (intro close_ok[OF that(1)]) (auto simp: no_handle)
    moreover have "advance ?P {h} s (view w) s2 (view w2)"
      by (rule advance_mono[where P = ?P and H = "{}"]) (use that(2) in auto)
    ultimately show ?thesis using that(3) advance_trans[of ?P "{h}" s "view w" s2 "view w2" "{h}"] by (auto simp: visited_def)
  qed
  show "visited original path {h} s w e s' w'"
  proof (cases "now \<ge> deadline \<or> n = 0 \<or> deeper = None")
    case True
    with run t have "w' = CloseObject api h w1" "s' = ?f" "e \<noteq> ERROR_SUCCESS"
      by (auto simp: VisitLevel_def Let_def split: if_split_asm option.splits)
    with refused[of ?f w1 e] ok view1 show ?thesis by simp
  next
    case False
    then obtain visit where d: "deeper = Some visit" by auto
    let ?m = "?f\<lparr>scope_entries := map_emplace path Entry_default (scope_entries ?f)\<rparr>"
    let ?a = "assign_entry path (Entry_default\<lparr>object := h\<rparr>) ?m"
    have ok1: "scope_ok original ?f (view w1)" using ok view1 by simp
    have handle1: "h = nullptr \<or> path_of (view w1) h = Some path \<and> h \<notin> held_handles ?f" using handle view1 by simp
    note new = emplace_ok[OF ok1 handle1 no_handle(1)]
    have adv1: "advance ?P {} s (view w) ?m (view w1)"
    proof (rule advance_mono[where P = "\<lambda>q. q = path" and H = "{}"])
      show "advance (\<lambda>q. q = path) {} s (view w) ?m (view w1)" using new(1) view1 by simp
    qed auto
    consider (full) "length (scope_entries ?m) > 10000"
      | (inserted) "\<not> length (scope_entries ?m) > 10000" "path \<notin> fst ` set (scope_entries ?f)"
      | (kept) "\<not> length (scope_entries ?m) > 10000" "path \<in> fst ` set (scope_entries ?f)" by blast
    then show ?thesis
    proof cases
      case full
      with run t d False have "w' = CloseObject api h w1" "s' = ?m" "e = ERROR_NOT_ENOUGH_QUOTA"
        by (auto simp: VisitLevel_def Let_def)
      with refused[of ?m w1 e] new(1) adv1 show ?thesis by simp
    next
      case inserted
      with run t d False have entry: "VisitEntry api deadline visit path (n - 1) ?a w1 = Some ((e, n', s'), w')"
        by (simp add: VisitLevel_def Let_def)
      note a = new(2)[OF inserted(2)]
      have same: "scope_user ?a = scope_user s" "scope_allowed ?a = scope_allowed s" by (simp_all add: assign_entry_def)
      have "visited original path {} ?a w1 e s' w'"
        by (rule VisitEntry_ok[OF deeper[OF d] volume _ _ entry]) (use a user same in auto)
      moreover have adv_a: "advance ?P {h} s (view w) ?a (view w1)"
      proof (rule advance_mono[where P = "\<lambda>q. q = path" and H = "{h}"])
        show "advance (\<lambda>q. q = path) {h} s (view w) ?a (view w1)" using a view1 by simp
      qed auto
      ultimately show ?thesis
        using advance_trans[OF adv_a, of "{}" s' "view w'"] unfolding visited_def same by blast
    next
      case kept
      obtain w2 where entry: "VisitEntry api deadline visit path (n - 1) ?m w1 = Some ((e, n', s'), w2)"
        and w': "w' = CloseObject api h w2"
        using run t d False kept by (auto simp: VisitLevel_def Let_def split: option.splits)
      have vis: "visited original path {} ?m w1 e s' w2"
        by (rule VisitEntry_ok[OF deeper[OF d] volume _ _ entry]) (use new(1) user in auto)
      then have ok2: "scope_ok original s' (view w2)" and adv2: "advance ?P {} s (view w) s' (view w2)"
        using advance_trans[OF adv1, of "{}" s' "view w2"] by (auto simp: visited_def)
      show ?thesis
      proof (cases "e = ERROR_SUCCESS")
        case True
        with vis have conf: "walk_confined api children (scope_user s) (scope_allowed s) (view w2) path"
          by (simp add: visited_def)
        have "walk_confined api children (scope_user s) (scope_allowed s) (view w') path"
          by (rule confined_frame[OF conf]) (simp add: w' CloseObject_view)
        with refused[OF ok2 adv2, of ERROR_TIMEOUT] w' show ?thesis by (simp add: visited_def)
      next
        case False
        with refused[OF ok2 adv2 False] w' show ?thesis by simp
      qed
    qed
  qed
qed

lemma Visit_ok: "visit_ok original (Visit api deadline levels)"
  by (induction levels) (auto intro: VisitLevel_ok)

end

end
