(* ===== verification/ReadScopeRuns.thy ===== *)
theory ReadScopeRuns
  imports ReadScopeWalk
begin

text \<open>
  \<open>Ensure\<close> as a whole: it keeps the invariant of the scope and confines the account on every mounted
  volume; and the runs of a scope, over launches and restorations, with the properties they have.
\<close>

text \<open>A removable drive that reports no medium when it is opened, and a volume that has been walked.\<close>

definition not_ready :: "'w object_api \<Rightarrow> wstring \<Rightarrow> 'w \<Rightarrow> bool" where
  "not_ready api volume w \<longleftrightarrow> (case OpenVolumeRoot api volume w of ((openError, _, _, driveType), _) \<Rightarrow>
     openError = ERROR_NOT_READY \<and> (driveType = DRIVE_CDROM \<or> driveType = DRIVE_REMOVABLE))"

definition walled ::
  "'w object_api \<Rightarrow> (wstring \<Rightarrow> dirent list) \<Rightarrow> BrokerReadScope \<Rightarrow> folder_view \<Rightarrow> wstring \<Rightarrow> bool"
where
  "walled api children s v volume \<longleftrightarrow>
     (\<exists>root. scope_volumes s volume = Some root \<and> walk_confined api children (scope_user s) (scope_allowed s) v root)"

section \<open>Canonical roots\<close>

context folders
begin

lemma closed_keeps:
  "scope_ok original s (view w) \<Longrightarrow> h \<notin> held_handles s \<or> h = nullptr \<Longrightarrow> scope_ok original s (view (CloseObject api h w))"
  using close_ok[of original s w h "\<lambda>_. True"] by simp

lemma OpenComponents_keeps:
  assumes "OpenComponents api parent components w = ((e, h), w')" and "scope_ok original s (view w)"
    and "parent \<notin> held_handles s"
  shows "scope_ok original s (view w') \<and> (e = ERROR_SUCCESS \<longrightarrow> h \<notin> held_handles s)"
  using assms
proof (induction components arbitrary: parent w)
  case (Cons component components)
  obtain oe child w1 where open1: "OpenRelativeFile api parent component FILE_READ_ATTRIBUTES w = ((oe, child), w1)"
    by (metis surj_pair)
  note view1 = OpenRelativeFile_view[OF open1]
  have ok1: "scope_ok original s (view w1) \<and> (oe = ERROR_SUCCESS \<longrightarrow> child \<notin> held_handles s)"
    using view1 Cons.prems(2) opened_ok[of "view w" child _ "view w1" original s] by (cases "oe = ERROR_SUCCESS") auto
  obtain ie attributes where info: "FileAttributeTagInfo api child w1 = (ie, attributes)" by fastforce
  have closed: "scope_ok original s (view (CloseObject api parent w1))"
    using closed_keeps ok1 Cons.prems(3) by blast
  show ?case
  proof (cases "oe = ERROR_SUCCESS \<and> ie = ERROR_SUCCESS \<and> attributes AND FILE_ATTRIBUTE_REPARSE_POINT = 0
      \<and> attributes AND FILE_ATTRIBUTE_DIRECTORY \<noteq> 0")
    case True
    then have "OpenComponents api child components (CloseObject api parent w1) = ((e, h), w')"
      using Cons.prems(1) open1 info by simp
    from Cons.IH[OF this closed] True ok1 show ?thesis by blast
  next
    case False
    have "scope_ok original s (view (CloseObject api parent (CloseObject api child w1)))" if "oe = ERROR_SUCCESS"
      using closed_keeps ok1 that Cons.prems(3) by blast
    with False Cons.prems(1) open1 info closed show ?thesis
      by (auto simp: Let_def split: if_split_asm)
  qed
qed simp

lemma OpenRoot_keeps:
  assumes "OpenRoot api path access w = ((e, h), w')" and "scope_ok original s (view w)"
  shows "scope_ok original s (view w') \<and> (e = ERROR_SUCCESS \<longrightarrow> h \<notin> held_handles s)"
  using open_root[OF assms(1)] assms(2) opened_ok[of "view w" h _ "view w'" original s]
  by (cases "e = ERROR_SUCCESS") auto

lemma CanonicalDirectory_keeps:
  assumes run: "CanonicalDirectory api directory w = ((e, name), w')" and ok: "scope_ok original s (view w)"
  shows "scope_ok original s (view w')"
proof (cases "scope_path directory")
  case (Some p)
  obtain root_path components where p: "p = (root_path, components)" by fastforce
  obtain oe root w1 where r: "OpenRoot api root_path FILE_READ_ATTRIBUTES w = ((oe, root), w1)" by (metis surj_pair)
  note root = OpenRoot_keeps[OF r ok]
  obtain ce h w2 where c: "OpenComponents api root components w1 = ((ce, h), w2)" by (metis surj_pair)
  have "scope_ok original s (view w2) \<and> (ce = ERROR_SUCCESS \<longrightarrow> h \<notin> held_handles s)" if "oe = ERROR_SUCCESS"
    using OpenComponents_keeps[OF c] root that by blast
  with root closed_keeps[of original s w2 h] run Some p r c show ?thesis
    by (auto simp: CanonicalDirectory_def split: if_split_asm)
qed (use run ok in \<open>simp add: CanonicalDirectory_def\<close>)

lemma CanonicalRoots_keeps:
  assumes "CanonicalRoots api roots allowed s w = ((e, allowed', s'), w')" and "scope_ok original s (view w)"
  shows "scope_ok original s' (view w') \<and> (\<exists>f. s' = s\<lparr>failurePath := f\<rparr>)"
  using assms
proof (induction roots arbitrary: allowed s w)
  case Nil
  then show ?case by (auto intro: exI[of _ "failurePath s"])
next
  case (Cons root roots)
  obtain ce name w1 where c: "CanonicalDirectory api root w = ((ce, name), w1)" by (metis surj_pair)
  have ok: "scope_ok original (s\<lparr>failurePath := root\<rparr>) (view w1)"
    using CanonicalDirectory_keeps[OF c Cons.prems(2)] by simp
  show ?case
  proof (cases "ce = ERROR_SUCCESS")
    case True
    then have "CanonicalRoots api roots (allowed @ [name]) (s\<lparr>failurePath := root\<rparr>) w1 = ((e, allowed', s'), w')"
      using Cons.prems(1) c by simp
    from Cons.IH[OF this ok] show ?thesis by auto
  next
    case False
    with Cons.prems(1) c ok show ?thesis by auto
  qed
qed

section \<open>Volumes\<close>

lemma Within_comparable: "Within q root \<Longrightarrow> Within q root' \<Longrightarrow> Within root root' \<or> Within root' root"
  by (auto simp: Within_iff append_eq_append_conv2 append_eq_Cons_conv Cons_eq_append_conv)

lemma confined_other_volume:
  assumes "walk_confined api children user allowed v root" and "volume_root root" and "volume_root root'"
    and "advance (\<lambda>q. Within q root') H s v s' v'" and "root \<noteq> root'"
  shows "walk_confined api children user allowed v' root"
  using assms(1)
proof (rule confined_frame)
  fix q assume "Within q root"
  then have "\<not> Within q root'" using Within_comparable roots_apart assms(2,3,5) by metis
  with assms(4) show "dacl_at v' q = dacl_at v q" by (simp add: advance_def)
qed

lemma Visit_volume:
  assumes run: "Visit api deadline levels root h n s w = Some ((e, n', s'), w')" and ok: "scope_ok original s (view w)"
    and user: "scope_user s \<noteq> []" and root: "volume_root root"
    and handle: "h = nullptr \<or> path_of (view w) h = Some root \<and> h \<notin> held_handles s"
  shows "scope_ok original s' (view w')" and "scope_user s' = scope_user s" and "scope_allowed s' = scope_allowed s"
    and "scope_volumes s' = scope_volumes s"
    and "e = ERROR_SUCCESS \<Longrightarrow> walk_confined api children (scope_user s) (scope_allowed s) (view w') root"
    and "e = ERROR_SUCCESS \<Longrightarrow> volume_root root' \<Longrightarrow>
      walk_confined api children (scope_user s) (scope_allowed s) (view w) root' \<Longrightarrow>
      walk_confined api children (scope_user s) (scope_allowed s) (view w') root'"
proof -
  have vis: "visited original root {h} s w e s' w'"
    by (rule visit_okD[OF Visit_ok run ok user root_name[OF root] handle])
  then have adv: "advance (\<lambda>q. Within q root) {h} s (view w) s' (view w')" by (simp add: visited_def)
  from vis show "scope_ok original s' (view w')" "scope_user s' = scope_user s" "scope_allowed s' = scope_allowed s"
      "scope_volumes s' = scope_volumes s"
      "e = ERROR_SUCCESS \<Longrightarrow> walk_confined api children (scope_user s) (scope_allowed s) (view w') root"
    by (simp_all add: visited_def advance_def)
  then show "e = ERROR_SUCCESS \<Longrightarrow> volume_root root' \<Longrightarrow>
      walk_confined api children (scope_user s) (scope_allowed s) (view w) root' \<Longrightarrow>
      walk_confined api children (scope_user s) (scope_allowed s) (view w') root'"
    using confined_other_volume[OF _ _ root adv] by (cases "root' = root") simp_all
qed

text \<open>What a step does to the volumes: none is forgotten, and none that confines the account ceases to.\<close>

definition grows :: "BrokerReadScope \<Rightarrow> folder_view \<Rightarrow> BrokerReadScope \<Rightarrow> folder_view \<Rightarrow> bool" where
  "grows s v s' v' \<longleftrightarrow> scope_user s' = scope_user s \<and> scope_allowed s' = scope_allowed s
     \<and> scope_volumes s \<subseteq>\<^sub>m scope_volumes s'
     \<and> (\<forall>root. volume_root root \<longrightarrow> walk_confined api children (scope_user s) (scope_allowed s) v root \<longrightarrow>
          walk_confined api children (scope_user s) (scope_allowed s) v' root)"

lemma grows_trans: "grows s v s1 v1 \<Longrightarrow> grows s1 v1 s2 v2 \<Longrightarrow> grows s v s2 v2"
  unfolding grows_def by (metis map_le_trans)

lemma grows_failurePath [simp]:
  "grows (s\<lparr>failurePath := f\<rparr>) v s' v' = grows s v s' v'" "grows s v (s'\<lparr>failurePath := f\<rparr>) v' = grows s v s' v'"
  by (simp_all add: grows_def)

lemma grows_same: "(\<And>q. take 2 q = wide [BS, BS] \<Longrightarrow> dacl_at v' q = dacl_at v q) \<Longrightarrow> grows s v s v'"
  unfolding grows_def by (metis confined_frame Within_volume root_name map_le_refl)

lemma walled_grows:
  "walled api children s v volume \<Longrightarrow> grows s v s' v' \<Longrightarrow> scope_ok original s v \<Longrightarrow> walled api children s' v' volume"
  unfolding walled_def grows_def scope_ok_def map_le_def by (metis domI)

lemma EnsureNewVolume_ok:
  assumes run: "EnsureNewVolume api deadline volume n s w = Some ((e, n', s'), w')" and ok: "scope_ok original s (view w)"
    and user: "scope_user s \<noteq> []" and new: "scope_volumes s volume = None"
  shows "scope_ok original s' (view w') \<and> scope_user s' = scope_user s
    \<and> (e = ERROR_SUCCESS \<longrightarrow> grows s (view w) s' (view w')
         \<and> (not_ready api volume w \<or> walled api children s' (view w') volume))"
proof -
  obtain oe h flags kind w1 where o: "OpenVolumeRoot api volume w = ((oe, h, flags, kind), w1)" by (metis surj_pair)
  have opens: "h = nullptr \<and> view w1 = view w \<and> oe \<noteq> ERROR_SUCCESS
      \<or> (\<exists>root. volume_root root \<and> opened (view w) h root (view w1))"
    using o open_root[of volume "READ_CONTROL OR FILE_READ_ATTRIBUTES OR FILE_LIST_DIRECTORY" w]
    by (auto simp: OpenVolumeRoot_def Let_def split: prod.splits if_split_asm)
  then have ok1: "scope_ok original s (view w1)" and free: "h \<notin> held_handles s \<or> h = nullptr"
    and dacls: "dacl_at (view w1) = dacl_at (view w)"
    using ok opened_ok[of "view w" h _ "view w1" original s] by (auto simp: opened_def)
  have closed: "scope_ok original s (view (CloseObject api h w1))" by (rule closed_keeps[OF ok1 free])
  have closed_dacls: "dacl_at (view (CloseObject api h w1)) = dacl_at (view w)" by (simp add: CloseObject_view dacls)
  show ?thesis
  proof (cases "oe = ERROR_SUCCESS \<and> flags AND FILE_PERSISTENT_ACLS \<noteq> 0")
    case False
    then have w': "w' = CloseObject api h w1" and s': "s' = s \<or> s' = observe ''read.skip_empty_drive'' volume oe s"
      using run o by (auto simp: EnsureNewVolume_def Let_def split: if_split_asm)
    have "grows s (view w) s' (view w')"
      using s' grows_same[of "view w'" "view w" s] closed_dacls by (auto simp: w' grows_def)
    moreover have "not_ready api volume w" if "e = ERROR_SUCCESS"
      using run o False that by (auto simp: not_ready_def EnsureNewVolume_def Let_def split: if_split_asm)
    ultimately show ?thesis using s' closed by (auto simp: w')
  next
    case True
    with opens obtain root where root: "volume_root root" "opened (view w) h root (view w1)" by auto
    obtain ce name where c: "CanonicalName api h w1 = (ce, name)" by fastforce
    show ?thesis
    proof (cases "ce = ERROR_SUCCESS")
      case False
      with run o c True have "w' = CloseObject api h w1" "s' = s" "e = ce"
        by (auto simp: EnsureNewVolume_def Let_def)
      with closed False show ?thesis by simp
    next
      case named: True
      obtain ne len buffer where g: "GetFinalPathNameByHandleW api h w1 = (ne, len, buffer)" by (metis surj_pair)
      have pinned: "path_of (view w1) h = Some root" using root(2) by (auto simp: opened_def)
      with c named g have name: "name = root"
        by (auto simp: CanonicalName_def Let_def dest: final_name final_error split: if_split_asm)
      obtain s1 where v: "Visit api deadline 129 root h n s w1 = Some ((e, n', s1), w')"
        and s': "s' = (if e = ERROR_SUCCESS then s1\<lparr>scope_volumes := (case scope_volumes s1 volume of
            None \<Rightarrow> (scope_volumes s1)(volume \<mapsto> root) | Some _ \<Rightarrow> scope_volumes s1)\<rparr> else s1)"
        using run o c True named name by (auto simp: EnsureNewVolume_def Let_def split: option.splits if_split_asm)
      have handle: "h = nullptr \<or> path_of (view w1) h = Some root \<and> h \<notin> held_handles s"
        using pinned free by auto
      note visit = Visit_volume[OF v ok1 user root(1) handle]
      have "scope_ok original s' (view w')" using visit(1) root(1) by (auto simp: s' scope_ok_def split: option.splits)
      moreover have "scope_user s' = scope_user s" using visit(2) by (simp add: s')
      moreover have "grows s (view w) s' (view w')" if "e = ERROR_SUCCESS"
      proof -
        have "grows s (view w) s (view w1)" by (rule grows_same) (simp add: dacls)
        moreover have "grows s (view w1) s' (view w')"
          unfolding grows_def using visit that new by (auto simp: s' map_le_def)
        ultimately show ?thesis by (rule grows_trans)
      qed
      moreover have "walled api children s' (view w') volume" if "e = ERROR_SUCCESS"
        using visit that new by (auto simp: walled_def s')
      ultimately show ?thesis by simp
    qed
  qed
qed

text \<open>
  A volume may be skipped only if its drive is found without a medium when its turn comes, after the
  volumes before it have been dealt with.
\<close>

lemma EnsureVolumes_ok:
  assumes "EnsureVolumes api deadline volumes n s w = Some ((e, s'), w')" and "scope_ok original s (view w)"
    and "scope_user s \<noteq> []"
  shows "scope_ok original s' (view w') \<and> scope_user s' = scope_user s
    \<and> (e = ERROR_SUCCESS \<longrightarrow> grows s (view w) s' (view w')
         \<and> (\<forall>volume \<in> set volumes. walled api children s' (view w') volume
              \<or> (\<exists>before after s1 w1. volumes = before @ volume # after
                   \<and> EnsureVolumes api deadline before n s w = Some ((ERROR_SUCCESS, s1), w1) \<and> not_ready api volume w1)))"
  using assms
proof (induction volumes arbitrary: n s w)
  case Nil
  then show ?case by (auto simp: grows_def)
next
  case (Cons volume volumes)
  let ?f = "s\<lparr>failurePath := volume\<rparr>"
  let ?step = "case scope_volumes s volume of Some canonical \<Rightarrow> Visit api deadline 129 canonical nullptr n ?f w
      | None \<Rightarrow> EnsureNewVolume api deadline volume n ?f w"
  have unroll: "EnsureVolumes api deadline (volume # vs) n s w = (case ?step of None \<Rightarrow> None
      | Some ((error, remaining, s), w) \<Rightarrow> if error \<noteq> ERROR_SUCCESS then Some ((error, s), w)
          else EnsureVolumes api deadline vs remaining s w)" for vs
    by (simp add: Let_def)
  have run: "(case ?step of None \<Rightarrow> None | Some ((error, remaining, s), w) \<Rightarrow>
      if error \<noteq> ERROR_SUCCESS then Some ((error, s), w)
      else EnsureVolumes api deadline volumes remaining s w) = Some ((e, s'), w')"
    using Cons.prems(1) unroll by metis
  then obtain e1 n1 s1 w1 where first: "?step = Some ((e1, n1, s1), w1)" by (cases ?step) auto
  from run have rest: "if e1 \<noteq> ERROR_SUCCESS then e = e1 \<and> s' = s1 \<and> w' = w1
      else EnsureVolumes api deadline volumes n1 s1 w1 = Some ((e, s'), w')"
    unfolding first by (auto split: if_split_asm)
  have ok: "scope_ok original ?f (view w)" and user: "scope_user ?f \<noteq> []" using Cons.prems by simp_all
  have step: "scope_ok original s1 (view w1) \<and> scope_user s1 = scope_user s
    \<and> (e1 = ERROR_SUCCESS \<longrightarrow> grows s (view w) s1 (view w1)
         \<and> (not_ready api volume w \<or> walled api children s1 (view w1) volume))"
  proof (cases "scope_volumes s volume")
    case None
    with first EnsureNewVolume_ok[OF _ ok user] show ?thesis by simp
  next
    case (Some root)
    then have root: "volume_root root" using Cons.prems(2) by (simp add: scope_ok_def)
    have visit: "Visit api deadline 129 root nullptr n ?f w = Some ((e1, n1, s1), w1)" using first Some by simp
    note v = Visit_volume[OF visit ok user root]
    show ?thesis
      using v Some by (auto simp: grows_def walled_def)
  qed
  show ?case
  proof (cases "e1 = ERROR_SUCCESS")
    case True
    with rest have "EnsureVolumes api deadline volumes n1 s1 w1 = Some ((e, s'), w')" by simp
    from Cons.IH[OF this] step Cons.prems(3)
    have "scope_ok original s' (view w')" "scope_user s' = scope_user s"
      and more: "e = ERROR_SUCCESS \<longrightarrow> grows s1 (view w1) s' (view w')
         \<and> (\<forall>v \<in> set volumes. walled api children s' (view w') v
              \<or> (\<exists>before after s2 w2. volumes = before @ v # after
                   \<and> EnsureVolumes api deadline before n1 s1 w1 = Some ((ERROR_SUCCESS, s2), w2) \<and> not_ready api v w2))"
      by auto
    moreover have "walled api children s' (view w') v
        \<or> (\<exists>before after s2 w2. volume # volumes = before @ v # after
             \<and> EnsureVolumes api deadline before n s w = Some ((ERROR_SUCCESS, s2), w2) \<and> not_ready api v w2)"
      if ev: "e = ERROR_SUCCESS" "v \<in> set (volume # volumes)" for v
    proof (cases "v = volume \<and> walled api children s1 (view w1) v \<or> v \<noteq> volume \<and> walled api children s' (view w') v")
      case True
      then show ?thesis
        using walled_grows[of s1 "view w1" volume s' "view w'" original] step more ev(1) by blast
    next
      case False
      consider (here) "v = volume" "not_ready api volume w"
        | (later) before after s2 w2 where "volumes = before @ v # after"
            "EnsureVolumes api deadline before n1 s1 w1 = Some ((ERROR_SUCCESS, s2), w2)" "not_ready api v w2"
        using False step True more ev by auto
      then show ?thesis
      proof cases
        case here
        then have "volume # volumes = [] @ v # volumes
            \<and> EnsureVolumes api deadline [] n s w = Some ((ERROR_SUCCESS, s\<lparr>failurePath := []\<rparr>), w) \<and> not_ready api v w"
          by simp
        then show ?thesis by blast
      next
        case later
        then have "volume # volumes = (volume # before) @ v # after
            \<and> EnsureVolumes api deadline (volume # before) n s w = Some ((ERROR_SUCCESS, s2), w2) \<and> not_ready api v w2"
          unfolding unroll first using True by simp
        then show ?thesis by blast
      qed
    qed
    ultimately show ?thesis using step True grows_trans[of s "view w" s1 "view w1"] by blast
  next
    case False
    with rest step show ?thesis by simp
  qed
qed

section \<open>Ensure\<close>

lemma grows_outside:
  assumes "scope_user s' = scope_user s" and "scope_allowed s' = scope_allowed s" and "scope_volumes s' = scope_volumes s"
    and "\<And>q. take 2 q = wide [BS, BS] \<Longrightarrow> dacl_at v' q = dacl_at v q"
  shows "grows s v s' v'"
  using grows_same[of v' v s] assms by (simp add: grows_def)

lemma scope_ok_user:
  assumes ok: "scope_ok original s v" and "scope_user s = [] \<or> scope_user s = user"
  shows "scope_ok original (s\<lparr>scope_user := user\<rparr>) v"
proof (cases "scope_user s = user")
  case False
  with assms(2) have none: "scope_user s = []" by simp
  have "entry_ok user original v path entry" if "entry_ok [] original v path entry" for path entry
    using that by (auto simp: entry_ok_def lease_form_def Let_def)
  with ok show ?thesis by (auto simp: scope_ok_def none)
qed (use ok in auto)

lemma EnsureRoots_ok:
  assumes run: "EnsureRoots api token volumes readables profile work n t s w = Some ((e, s'), w')"
    and ok: "scope_ok original s (view w)"
  shows "scope_ok original s' (view w') \<and> (e = ERROR_SUCCESS \<longrightarrow> scope_user s' \<noteq> []
    \<and> (\<forall>volume \<in> set volumes. walled api children s' (view w') volume
         \<or> (\<exists>before after s1 w1. volumes = before @ volume # after
              \<and> EnsureRoots api token before readables profile work n t s w = Some ((ERROR_SUCCESS, s1), w1)
              \<and> not_ready api volume w1)))"
proof -
  obtain ue user where u: "QueryTokenInformation (object_tokens api) token TokenUser w = (ue, user)" by fastforce
  obtain ge groups where g: "QueryTokenInformation (object_tokens api) token TokenGroups w = (ge, groups)" by fastforce
  show ?thesis
  proof (cases "ue = ERROR_SUCCESS \<and> (scope_user s = [] \<or> scope_user s = user_sid user)")
    case False
    with run u ok show ?thesis by (auto simp: EnsureRoots_def sid_equal Let_def split: if_split_asm)
  next
    case True
    let ?u = "s\<lparr>failurePath := [], scope_user := user_sid user\<rparr>"
    have ok_u: "scope_ok original ?u (view w)" by (rule scope_ok_user) (use ok True in auto)
    have user: "scope_user ?u \<noteq> []" using user_sid u True by simp
    show ?thesis
    proof (cases "ge = ERROR_SUCCESS")
      case False
      with run u g True ok_u show ?thesis by (auto simp: EnsureRoots_def sid_equal Let_def split: if_split_asm)
    next
      case groups: True
      let ?g = "?u\<lparr>scope_groups := group_list groups\<rparr>"
      obtain ce allowed s1 w1 where c: "CanonicalRoots api (readables @ [profile, work]) (scope_allowed ?g) ?g w
          = ((ce, allowed, s1), w1)" by (metis surj_pair)
      have "scope_ok original ?g (view w)" using ok_u by simp
      note roots = CanonicalRoots_keeps[OF c this]
      show ?thesis
      proof (cases "ce = ERROR_SUCCESS")
        case False
        with run u g True groups c roots show ?thesis by (auto simp: EnsureRoots_def sid_equal Let_def split: if_split_asm)
      next
        case ce: True
        let ?a = "s1\<lparr>scope_allowed := KeepBroadest [] (sort allowed)\<rparr>"
        obtain now w2 where t: "GetTickCount64 api w1 = (now, w2)" by fastforce
        have as_volumes: "EnsureRoots api token vs readables profile work n t s w = EnsureVolumes api (now + t) vs n ?a w2" for vs
          using u g True groups c ce t by (auto simp: EnsureRoots_def sid_equal Let_def)
        have "EnsureVolumes api (now + t) volumes n ?a w2 = Some ((e, s'), w')" using run as_volumes by metis
        moreover have "scope_ok original ?a (view w2)" using roots tick[OF t] by simp
        moreover have a_user: "scope_user ?a \<noteq> []" using roots user by auto
        ultimately show ?thesis using EnsureVolumes_ok[of "now + t" volumes n ?a w2 e s' w' original]
          unfolding as_volumes by metis
      qed
    qed
  qed
qed

text \<open>Namespace directories lie outside the volumes; their entry becomes one for a namespace directory.\<close>

lemma namespace_entry_ok:
  assumes ok: "scope_ok original s v" and outside: "take 2 path \<noteq> wide [BS, BS]" and key: "path \<in> fst ` set (scope_entries s)"
    and handle: "h = object (entry_at s path) \<or> path_of v h = Some path"
  shows "scope_ok original (assign_entry path ((entry_at s path)\<lparr>namespaceDirectory := True, object := h\<rparr>) s) v"
proof -
  let ?e = "entry_at s path" let ?n = "?e\<lparr>namespaceDirectory := True, object := h\<rparr>"
  have e: "entry_ok (scope_user s) original v path ?e"
    using ok key by (auto simp: scope_ok_def entry_at_def map_of_key)
  then have "namespaceDirectory ?e" if "leased ?e" using that outside by (auto simp: entry_ok_def)
  then have "leased ?n = leased ?e" "lease_form api (scope_user s) ?n (original path) (dacl_at v path)
      = lease_form api (scope_user s) ?e (original path) (dacl_at v path)"
    by (auto simp: lease_form_def leased_def lease_front_def lease_back_def LeaseAce_def Let_def)
  with e handle outside have "entry_ok (scope_user s) original v path ?n" by (auto simp: entry_ok_def)
  then show ?thesis
    using ok key by (auto simp: scope_ok_def assign_entry_def map_of_assign map_of_key split: if_splits)
qed

lemma assign_assign [simp]: "assign_entry path e (assign_entry path e' s) = assign_entry path e s"
  by (simp add: assign_entry_def map_assign_def comp_def case_prod_unfold)

lemma EnsureNamespaceEntries_ok:
  assumes "EnsureNamespaceEntries api directories s w = ((e, s'), w')" and "scope_ok original s (view w)"
    and "scope_user s \<noteq> []" and "\<forall>path \<in> set directories. take 2 path \<noteq> wide [BS, BS]"
  shows "scope_ok original s' (view w') \<and> grows s (view w) s' (view w')"
  using assms
proof (induction directories arbitrary: s w)
  case Nil
  then show ?case by (auto simp: grows_def)
next
  case (Cons path directories)
  let ?m = "s\<lparr>failurePath := path, scope_entries := map_emplace path Entry_default (scope_entries s)\<rparr>"
  let ?e = "entry_at ?m path"
  let ?n = "assign_entry path (?e\<lparr>namespaceDirectory := True\<rparr>) ?m"
  have outside: "take 2 path \<noteq> wide [BS, BS]" using Cons.prems(4) by simp
  have ok1: "scope_ok original ?m (view w)"
    using emplace_ok(1)[of original "s\<lparr>failurePath := path\<rparr>" "view w" nullptr path] Cons.prems(2) no_handle by simp
  have key: "path \<in> fst ` set (scope_entries ?m)" by simp
  have ok2: "scope_ok original ?n (view w)"
    using namespace_entry_ok[OF ok1 outside key, of "object ?e"] by simp
  have kept: "grows s (view w) (assign_entry path entry ?m) v" if "dacl_at v = dacl_at (view w)" for entry v
    using that by (intro grows_outside) (simp_all add: assign_entry_def)
  show ?case
  proof (cases "length (scope_entries ?m) > 10000")
    case True
    with Cons.prems(1) have "s' = ?m" "w' = w" by auto
    with ok1 show ?thesis by (auto intro: grows_outside)
  next
    case False
    obtain status h w1 where o: "(if object (?e\<lparr>namespaceDirectory := True\<rparr>) = nullptr
          \<or> object (?e\<lparr>namespaceDirectory := True\<rparr>) = INVALID_HANDLE_VALUE
        then NtOpenDirectoryObject api path w else ((0, object (?e\<lparr>namespaceDirectory := True\<rparr>)), w)) = ((status, h), w1)" by (metis surj_pair)
    show ?thesis
    proof (cases "nt_error status")
      case True
      then have "view w1 = view w" using o open_directory[of path w status h w1]
        by (auto simp: nt_error_def split: if_split_asm)
      moreover have "s' = ?n" "w' = w1" using Cons.prems(1) False o True by (auto simp: Let_def)
      ultimately show ?thesis using ok2 kept[of "view w1"] by simp
    next
      case open_ok: False
      have "h = object ?e \<and> view w1 = view w \<or> opened (view w) h path (view w1)"
        using o open_ok open_directory[of path w status h w1] by (auto split: if_split_asm)
      then have "scope_ok original ?m (view w1)" "h = object ?e \<or> path_of (view w1) h = Some path"
        and dacls: "dacl_at (view w1) = dacl_at (view w)"
        using ok1 opened_ok[of "view w" h path "view w1" original ?m] by (auto simp: opened_def)
      from namespace_entry_ok[OF this(1) outside key this(2)]
      have ok3: "scope_ok original (assign_entry path (?e\<lparr>namespaceDirectory := True, object := h\<rparr>) ?m) (view w1)" .
      let ?o = "assign_entry path (?e\<lparr>namespaceDirectory := True, object := h\<rparr>) ?m"
      obtain se s4 w4 where set: "SetPathAccess api path 2 False ?o w1 = ((se, s4), w4)" by (metis surj_pair)
      have user: "scope_user ?o \<noteq> []" using Cons.prems(3) by (simp add: assign_entry_def)
      have "namespaceDirectory (entry_at ?o path)" using key by simp
      note step = SetPathAccess_ok[OF ok3 set user disjI2[OF this]]
      have "grows ?o (view w1) s4 (view w4)"
        using step outside unfolding advance_def by (intro grows_outside) auto
      with kept[OF dacls] have grows4: "grows s (view w) s4 (view w4)" by (rule grows_trans)
      have result: "if se \<noteq> ERROR_SUCCESS then e = se \<and> s' = s4 \<and> w' = w4
          else EnsureNamespaceEntries api directories s4 w4 = ((e, s'), w')"
        using Cons.prems(1) False o open_ok set by (simp add: Let_def split: if_split_asm)
      show ?thesis
      proof (cases "se = ERROR_SUCCESS")
        case True
        with result have "EnsureNamespaceEntries api directories s4 w4 = ((e, s'), w')" by simp
        from Cons.IH[OF this] step grows4 Cons.prems(3,4)
        have "scope_ok original s' (view w') \<and> grows s4 (view w4) s' (view w')" by (auto simp: grows_def)
        with grows_trans[OF grows4] show ?thesis by blast
      next
        case False
        with result step grows4 show ?thesis by simp
      qed
    qed
  qed
qed

lemma EnsureWindowsNamespace_ok:
  assumes run: "EnsureWindowsNamespace r token s w = ((e, s'), w')" and api: "scope_objects r = api"
    and ok: "scope_ok original s (view w)" and user: "scope_user s \<noteq> []"
  shows "scope_ok original s' (view w') \<and> grows s (view w) s' (view w')"
proof -
  obtain te session where t: "GetTokenSessionId r token w = (te, session)" by fastforce
  let ?sessions = "wide (BS # ''Sessions'')"
  let ?directory = "?sessions @ [WCHR BS] @ wide (decimal (unat session))"
  let ?directories = "[?sessions, ?directory, ?directory @ wide (BS # ''Windows'')]"
  have refl: "grows s (view w) s (view w)" by (auto simp: grows_def)
  show ?thesis
  proof (cases "te = ERROR_SUCCESS \<and> session \<noteq> 0 \<and> load_native api ''NtOpenDirectoryObject'' = ERROR_SUCCESS")
    case False
    with run t ok user api refl show ?thesis
      by (auto simp: EnsureWindowsNamespace_def EnsureNamespaceDirectories_def Let_def split: if_split_asm)
  next
    case True
    have "EnsureNamespaceEntries api ?directories s w = ((e, s'), w')"
      using run unfolding EnsureWindowsNamespace_def EnsureNamespaceDirectories_def Let_def t api
      using True user by (simp del: EnsureNamespaceEntries.simps)
    moreover have "\<forall>path \<in> set ?directories. take 2 path \<noteq> wide [BS, BS]"
      by (simp add: wide_def)
    ultimately show ?thesis using EnsureNamespaceEntries_ok[OF _ ok user] by blast
  qed
qed

end

text \<open>
  The volumes found, with the error that ended the search; a volume is mounted when it has a path.
  A volume whose paths cannot be told ends the enumeration with its error.
\<close>

lemma MountedVolumes_success:
  assumes "MountedVolumes r finalError found w = (e, volumes)"
  shows "e = finalError \<and> volumes = filter (\<lambda>v. snd (GetVolumePathNamesForVolumeNameW r v w) > 1) found
    \<or> (\<exists>v \<in> set found. fst (GetVolumePathNamesForVolumeNameW r v w) = e \<and> e \<noteq> ERROR_SUCCESS \<and> e \<noteq> ERROR_MORE_DATA)"
  using assms
proof (induction found arbitrary: volumes)
  case (Cons v found)
  obtain pe n where p: "GetVolumePathNamesForVolumeNameW r v w = (pe, n)" by fastforce
  obtain re rest where m: "MountedVolumes r finalError found w = (re, rest)" by fastforce
  from Cons.IH Cons.prems p m show ?case by (auto split: if_split_asm)
qed simp

text \<open>
  The volumes a launch has to deal with, in their order; and a volume it skips: when its turn comes,
  the volumes before it dealt with, its drive is removable and reports no medium.
\<close>

definition mounted_volumes :: "'w read_scope_api \<Rightarrow> 'w \<Rightarrow> wstring list" where
  "mounted_volumes r w =
     filter (\<lambda>volume. snd (GetVolumePathNamesForVolumeNameW r volume w) > 1) (fst (snd (FindFirstVolumeW r w)))"

definition launch_roots ::
  "'w read_scope_api \<Rightarrow> handle \<Rightarrow> wstring list \<Rightarrow> wstring \<Rightarrow> wstring \<Rightarrow> BrokerReadScope \<Rightarrow> 'w
     \<Rightarrow> ((dword \<times> BrokerReadScope) \<times> 'w) option"
where
  "launch_roots r token volumes profile work s w =
     EnsureRoots (scope_objects r) token volumes (snd (GetWindowsDirectoryW r w) # snd (KnownFolders r [0, 1] w))
       profile work 10000 30000 s w"

definition skips_empty_drive ::
  "'w read_scope_api \<Rightarrow> handle \<Rightarrow> wstring \<Rightarrow> wstring \<Rightarrow> BrokerReadScope \<Rightarrow> 'w \<Rightarrow> wstring \<Rightarrow> bool"
where
  "skips_empty_drive r token profile work s w volume \<longleftrightarrow> (\<exists>before after s1 w1.
     mounted_volumes r w = before @ volume # after
     \<and> launch_roots r token before profile work s w = Some ((ERROR_SUCCESS, s1), w1)
     \<and> not_ready (scope_objects r) volume w1)"

context folders
begin

lemma Ensure_ok:
  assumes run: "BrokerReadScope_Ensure r token profile work s w = Some ((e, s'), w')" and api: "scope_objects r = api"
    and ok: "scope_ok original s (view w)"
    and paths: "\<And>volume. fst (GetVolumePathNamesForVolumeNameW r volume w) \<noteq> ERROR_NO_MORE_FILES"
    and search: "snd (snd (FindFirstVolumeW r w)) \<noteq> ERROR_SUCCESS"
  shows "scope_ok original s' (view w') \<and> (e = ERROR_SUCCESS \<longrightarrow>
    (\<forall>volume \<in> set (mounted_volumes r w). walled api children s' (view w') volume
       \<or> skips_empty_drive r token profile work s w volume))"
proof -
  obtain we windows where win: "GetWindowsDirectoryW r w = (we, windows)" by fastforce
  obtain fe known where known: "KnownFolders r [0, 1] w = (fe, known)" by fastforce
  obtain se found le where find: "FindFirstVolumeW r w = (se, found, le)" by (metis surj_pair)
  obtain me volumes where mounted: "MountedVolumes r le found w = (me, volumes)" by fastforce
  show ?thesis
  proof (cases "we = ERROR_SUCCESS \<and> fe = ERROR_SUCCESS \<and> se = ERROR_SUCCESS \<and> me = ERROR_NO_MORE_FILES")
    case False
    have "me \<noteq> ERROR_SUCCESS" using MountedVolumes_success[OF mounted] search by (auto simp: find)
    with False run win known find mounted ok show ?thesis
      by (auto simp: BrokerReadScope_Ensure_def simp del: KnownFolders.simps split: if_split_asm)
  next
    case True
    have volumes: "mounted_volumes r w = volumes"
      using MountedVolumes_success[OF mounted] True paths by (auto simp: mounted_volumes_def find)
    have run': "(case EnsureRoots api token volumes (windows # known) profile work 10000 30000 s w of
          None \<Rightarrow> None
        | Some ((error, s), w) \<Rightarrow> if error \<noteq> ERROR_SUCCESS then Some ((error, s), w)
            else Some (EnsureWindowsNamespace r token s w)) = Some ((e, s'), w')"
      using run True unfolding BrokerReadScope_Ensure_def win known find api
      by (simp add: mounted del: KnownFolders.simps)
    then obtain e1 s1 w1 where roots: "EnsureRoots api token volumes (windows # known) profile work 10000 30000 s w
        = Some ((e1, s1), w1)" by (auto split: option.splits)
    note step = EnsureRoots_ok[OF roots ok]
    show ?thesis
    proof (cases "e1 = ERROR_SUCCESS")
      case False
      with run' roots step show ?thesis by auto
    next
      case True
      with run' roots have ns: "EnsureWindowsNamespace r token s1 w1 = ((e, s'), w')" by simp
      from EnsureWindowsNamespace_ok[OF ns api] step True
      have "scope_ok original s' (view w')" "grows s1 (view w1) s' (view w')" by auto
      moreover have "walled api children s1 (view w1) volume \<or> skips_empty_drive r token profile work s w volume"
        if "volume \<in> set volumes" for volume
        using step True that unfolding skips_empty_drive_def launch_roots_def volumes api win known snd_conv by blast
      ultimately show ?thesis using step True walled_grows volumes by blast
    qed
  qed
qed

end

section \<open>Runs\<close>

text \<open>
  A scope is used by launches and restorations in any order; between them time passes, which does
  not touch the folders.
\<close>

inductive scope_step :: "'w read_scope_api \<Rightarrow> ('w \<Rightarrow> folder_view) \<Rightarrow> BrokerReadScope \<times> 'w \<Rightarrow> BrokerReadScope \<times> 'w \<Rightarrow> bool"
  for r view where
  ensure: "BrokerReadScope_Ensure r token profile work s w = Some ((e, s'), w') \<Longrightarrow> scope_step r view (s, w) (s', w')"
| observe: "scope_step r view (s, w) (SetObserver s, w)"
| restore: "BrokerReadScope_Restore (scope_objects r) s w = ((e, s'), w') \<Longrightarrow> scope_step r view (s, w) (s', w')"
| pass: "view w' = view w \<Longrightarrow> scope_step r view (s, w) (s, w')"

inductive_cases scope_stepE: "scope_step r view (s, w) (s', w')"

locale read_scope = folders "scope_objects r" view children volume_root
  for r :: "'w read_scope_api" and view children volume_root +
  assumes paths: "fst (GetVolumePathNamesForVolumeNameW r volume w) \<noteq> ERROR_NO_MORE_FILES"
    and search_ends: "snd (snd (FindFirstVolumeW r w)) \<noteq> ERROR_SUCCESS"
begin

lemma empty_ok: "scope_ok (dacl_at v) BrokerReadScope_empty v"
  by (simp add: scope_ok_def BrokerReadScope_empty_def ordered_def)

lemma step_ok:
  assumes "scope_step r view c c'" and "scope_ok original (fst c) (view (snd c))"
  shows "scope_ok original (fst c') (view (snd c'))"
  using assms
proof (cases rule: scope_step.cases)
  case (ensure token profile work s w e s' w')
  with assms(2) Ensure_ok[OF ensure(3) refl _ paths search_ends] show ?thesis by simp
next
  case (restore s w e s' w')
  with assms(2) Restore_ok show ?thesis by fastforce
qed (use assms(2) in \<open>simp_all add: SetObserver_def\<close>)

lemma run_ok:
  "(scope_step r view)\<^sup>*\<^sup>* (BrokerReadScope_empty, w0) c \<Longrightarrow> scope_ok (dacl_at (view w0)) (fst c) (view (snd c))"
  by (induction rule: rtranclp_induct) (auto simp: empty_ok intro: step_ok)

lemma run_restored:
  assumes "(scope_step r view)\<^sup>*\<^sup>* (BrokerReadScope_empty, w0) (s, w)"
    and "BrokerReadScope_Restore (scope_objects r) s w = ((ERROR_SUCCESS, s'), w')"
  shows "dacl_at (view w') = dacl_at (view w0) \<and> scope_entries s' = []"
  using Restore_ok[OF assms(2)] run_ok[OF assms(1)] by simp

end

lemma EnsureRoots_returns:
  "\<exists>e s' w'. EnsureRoots api token volumes readables profile work n t s w = Some ((e, s'), w')"
proof -
  have volumes: "\<exists>e s' w'. EnsureVolumes api deadline volumes n s w = Some ((e, s'), w')" for deadline s w
    by (rule EnsureVolumes_returns)
  show ?thesis
    using volumes by (simp add: EnsureRoots_def Let_def split: prod.splits)
qed

lemma Ensure_returns:
  "\<exists>e s' w'. BrokerReadScope_Ensure r token profile work s w = Some ((e, s'), w')"
proof -
  have roots: "EnsureRoots api token volumes readables profile work n t s w \<noteq> None" for api volumes readables n t s w
    using EnsureRoots_returns by (metis option.distinct(1))
  have "BrokerReadScope_Ensure r token profile work s w \<noteq> None"
    unfolding BrokerReadScope_Ensure_def
    by (simp add: roots del: KnownFolders.simps split: prod.split option.split) (metis surj_pair)
  then show ?thesis by (metis option.exhaust surj_pair)
qed

section \<open>Access decided by the lists\<close>

text \<open>
  The documented check of a request against a list: entries are read in order, a deny entry refuses
  when it names a right still asked for, an allow entry takes its rights off the request. What the
  system grants besides the list (to the owner, by a privilege) is not part of it.
\<close>

definition allowing :: "ace \<Rightarrow> bool" where
  "allowing a \<longleftrightarrow> AceType a \<in> {0, 4, 5, 9, 11}"

fun access_granted :: "sid set \<Rightarrow> dacl \<Rightarrow> dword \<Rightarrow> bool" where
  "access_granted sids [] wanted \<longleftrightarrow> wanted = 0"
| "access_granted sids (a # acl) wanted \<longleftrightarrow>
     (if AceFlags a AND INHERIT_ONLY_ACE \<noteq> 0 \<or> AceSid a \<notin> sids then access_granted sids acl wanted
      else if AceType a = ACCESS_DENIED_ACE_TYPE then wanted AND AceMask a = 0 \<and> access_granted sids acl wanted
      else access_granted sids acl (if allowing a then wanted AND NOT (AceMask a) else wanted))"

text \<open>A DACL refuses the account every request for one of the rights \<open>m\<close>, whatever groups it is in.\<close>

definition denies :: "sid \<Rightarrow> dword \<Rightarrow> folder_view \<Rightarrow> wstring \<Rightarrow> bool" where
  "denies user m v path \<longleftrightarrow> (\<exists>acl. dacl_at v path = Some acl
     \<and> (\<forall>sids wanted. user \<in> sids \<longrightarrow> wanted AND m \<noteq> 0 \<longrightarrow> \<not> access_granted sids acl wanted))"

text \<open>
  Below \<open>path\<close> the account is confined to the allowed roots: a folder is in a root, or is refused
  altogether, or is an ancestor of a root, refuses changes to itself and its folders are confined.
\<close>

inductive confined ::
  "(wstring \<Rightarrow> dirent list) \<Rightarrow> sid \<Rightarrow> wstring list \<Rightarrow> folder_view \<Rightarrow> wstring \<Rightarrow> bool"
  for children user allowed v where
  root: "root \<in> set allowed \<Longrightarrow> Within path root \<Longrightarrow> confined children user allowed v path"
| denied: "denies user FILE_ALL_ACCESS v path \<Longrightarrow> confined children user allowed v path"
| ancestor: "root \<in> set allowed \<Longrightarrow> Within root path \<Longrightarrow> denies user AncestorDeny v path \<Longrightarrow>
    (\<And>c. c \<in> set (children path) \<Longrightarrow> is_folder c \<Longrightarrow> confined children user allowed v (child_path path c)) \<Longrightarrow>
    confined children user allowed v path"

definition secured :: "(wstring \<Rightarrow> dirent list) \<Rightarrow> BrokerReadScope \<Rightarrow> folder_view \<Rightarrow> wstring \<Rightarrow> bool" where
  "secured children s v volume \<longleftrightarrow>
     (\<exists>root. scope_volumes s volume = Some root \<and> confined children (scope_user s) (scope_allowed s) v root)"

text \<open>Canonical order, as the system's own tools keep it: no allow entry before an explicit deny entry.\<close>

definition canonical_order :: "dacl \<Rightarrow> bool" where
  "canonical_order acl \<longleftrightarrow> (\<exists>front rest. acl = front @ rest \<and> (\<forall>a \<in> set front. \<not> allowing a)
     \<and> (\<forall>a \<in> set rest. \<not> (AceType a = ACCESS_DENIED_ACE_TYPE \<and> AceFlags a = 0)))"

lemma access_refused:
  assumes "\<forall>a \<in> set front. \<not> allowing a" and "raw \<in> set front" and "AceType raw = ACCESS_DENIED_ACE_TYPE"
    and "AceFlags raw = 0" and "AceSid raw \<in> sids" and "wanted AND AceMask raw \<noteq> 0"
  shows "\<not> access_granted sids (front @ rest) wanted"
  using assms by (induction front arbitrary: wanted) auto

lemma canonical_lease:
  assumes "lease_form api user e original d" and "\<And>acl. original = Some acl \<Longrightarrow> canonical_order acl" and "d = Some acl"
  shows "canonical_order acl"
proof (cases "leased e")
  case True
  with assms(1,3) obtain o' where o': "original = Some o'"
    and acl: "acl = lease_front user (snd (CreatorOwnerRightsSid api)) e @ o' @ lease_back user e"
    by (auto simp: lease_form_def Let_def)
  from assms(2)[OF o'] obtain front rest where parts: "o' = front @ rest" "\<forall>a \<in> set front. \<not> allowing a"
      "\<forall>a \<in> set rest. \<not> (AceType a = ACCESS_DENIED_ACE_TYPE \<and> AceFlags a = 0)"
    unfolding canonical_order_def by blast
  have "\<forall>a \<in> set (lease_front user (snd (CreatorOwnerRightsSid api)) e). \<not> allowing a"
    by (auto simp: lease_front_def denied_ace_def allowing_def split: if_splits)
  moreover have "\<forall>a \<in> set (lease_back user e). AceType a \<noteq> ACCESS_DENIED_ACE_TYPE"
    by (auto simp: lease_back_def allowed_ace_def split: if_splits)
  ultimately show ?thesis
    unfolding canonical_order_def acl parts
    by (intro exI[of _ "lease_front user (snd (CreatorOwnerRightsSid api)) e @ front"] exI[of _ "rest @ lease_back user e"])
      (use parts(2,3) in auto)
qed (use assms in \<open>simp add: lease_form_def Let_def\<close>)

context folders
begin

lemma canonical_kept:
  assumes "scope_ok original s v" and "\<And>path acl. original path = Some acl \<Longrightarrow> canonical_order acl"
    and "dacl_at v path = Some acl"
  shows "canonical_order acl"
proof (cases "map_of (scope_entries s) path")
  case None
  with assms show ?thesis by (simp add: scope_ok_def)
next
  case (Some e)
  with assms(1) have "lease_form api (scope_user s) e (original path) (dacl_at v path)"
    by (simp add: scope_ok_def entry_ok_def)
  from canonical_lease[OF this assms(2,3)] show ?thesis .
qed

lemma listed_denies:
  assumes "deny_listed api user m v path" and "\<And>acl. dacl_at v path = Some acl \<Longrightarrow> canonical_order acl"
  shows "denies user m v path"
proof -
  from assms(1) obtain acl raw where acl: "dacl_at v path = Some acl" "raw \<in> set acl"
    and ace: "AceType raw = ACCESS_DENIED_ACE_TYPE" "AceFlags raw = 0" "AceMask raw = m" "AceSid raw = user"
    unfolding deny_listed_def IsAccessAce_def sid_equal by auto
  from assms(2)[OF acl(1)] obtain front rest where parts: "acl = front @ rest" "\<forall>a \<in> set front. \<not> allowing a"
      "\<forall>a \<in> set rest. \<not> (AceType a = ACCESS_DENIED_ACE_TYPE \<and> AceFlags a = 0)"
    unfolding canonical_order_def by blast
  with acl(2) ace have "raw \<in> set front" by auto
  from access_refused[OF parts(2) this ace(1,2)] show ?thesis
    unfolding denies_def acl(1) parts(1) using ace(3,4) by blast
qed

lemma walk_confines:
  assumes "walk_confined api children user allowed v path"
    and "\<And>path acl. dacl_at v path = Some acl \<Longrightarrow> canonical_order acl"
  shows "confined children user allowed v path"
  using assms(1)
proof (induction rule: walk_confined.induct)
  case (root root path)
  then show ?case by (rule confined.root)
next
  case (denied path)
  then have "denies user FILE_ALL_ACCESS v path" using assms(2) by (rule listed_denies)
  then show ?case by (rule confined.denied)
next
  case (ancestor root path)
  have "denies user AncestorDeny v path" using ancestor(3) assms(2) by (rule listed_denies)
  from confined.ancestor[OF ancestor(1,2) this] ancestor(5) show ?case .
qed

end

context read_scope
begin

lemma run_secured:
  assumes "(scope_step r view)\<^sup>*\<^sup>* (BrokerReadScope_empty, w0) (s, w)"
    and "BrokerReadScope_Ensure r token profile work s w = Some ((ERROR_SUCCESS, s'), w')"
    and "volume \<in> set (mounted_volumes r w)"
    and canonical: "\<And>path acl. dacl_at (view w0) path = Some acl \<Longrightarrow> canonical_order acl"
  shows "secured children s' (view w') volume \<or> skips_empty_drive r token profile work s w volume"
proof -
  have step: "scope_ok (dacl_at (view w0)) s' (view w')"
    "walled (scope_objects r) children s' (view w') volume \<or> skips_empty_drive r token profile work s w volume"
    using Ensure_ok[OF assms(2) refl _ paths search_ends] run_ok[OF assms(1)] assms(3) by auto
  have "canonical_order acl" if "dacl_at (view w') path = Some acl" for path acl
    using canonical_kept[OF step(1) canonical that] .
  with step(2) walk_confines show ?thesis unfolding walled_def secured_def by blast
qed

end

section \<open>A reference file system\<close>

text \<open>One volume with the folders \<open>W\<close>, \<open>U\<close> and \<open>X\<close>, and handles numbered upwards.\<close>

record folder_world =
  folder_state :: folder_view
  next_handle :: handle
  clock :: "64 word"

definition volume_name :: wstring where
  "volume_name = wide [BS, BS, CHR ''V'']"

definition tree :: "wstring \<Rightarrow> dirent list" where
  "tree path = (if path = volume_name then map (\<lambda>n. \<lparr>FileName = wide n, FileAttributes = FILE_ATTRIBUTE_DIRECTORY\<rparr>)
     [''W'', ''U'', ''X''] else [])"

text \<open>The folder a handle is open on; the two invalid handles never are.\<close>

definition open_at :: "folder_world \<Rightarrow> handle \<Rightarrow> wstring option" where
  "open_at w h = (if h = nullptr \<or> h = INVALID_HANDLE_VALUE then None else path_of (folder_state w) h)"

definition open_path :: "wstring option \<Rightarrow> folder_world \<Rightarrow> (dword \<times> handle) \<times> folder_world" where
  "open_path path w = (let h = next_handle w; v = folder_state w in case path of
     None \<Rightarrow> ((0xC0000034, nullptr), w)
   | Some p \<Rightarrow> if h = nullptr \<or> h = INVALID_HANDLE_VALUE \<or> path_of v h \<noteq> None then ((0xC0000017, nullptr), w)
       else ((0, h), w\<lparr>folder_state := v\<lparr>path_of := (path_of v)(h \<mapsto> p), listing := (listing v)(h := [])\<rparr>,
         next_handle := h + 1\<rparr>))"

definition folder_account :: sid where
  "folder_account = [1]"

definition folder_GetTokenInformation :: "handle \<Rightarrow> token_class \<Rightarrow> nat \<Rightarrow> folder_world \<Rightarrow> dword \<times> token_information" where
  "folder_GetTokenInformation h cls n w = (ERROR_SUCCESS,
     case cls of TokenUser \<Rightarrow> UserInformation folder_account | _ \<Rightarrow> GroupsInformation [])"

definition folder_CloseHandle :: "handle \<Rightarrow> folder_world \<Rightarrow> folder_world" where
  "folder_CloseHandle h w = w\<lparr>folder_state := (folder_state w)\<lparr>path_of := (path_of (folder_state w))(h := None)\<rparr>\<rparr>"

definition folder_tokens :: "folder_world token_api" where
  "folder_tokens = \<lparr>
     GetTokenInformationSize = (\<lambda>_ _ _. (ERROR_INSUFFICIENT_BUFFER, 64)),
     GetTokenInformation = folder_GetTokenInformation,
     SetTokenInformation = (\<lambda>_ _ w. (ERROR_ACCESS_DENIED, w)),
     AdjustTokenPrivilegesDisableAll = (\<lambda>_ w. ((False, ERROR_ACCESS_DENIED), w)),
     CreateRestrictedToken = (\<lambda>_ _ _ _ w. ((ERROR_ACCESS_DENIED, nullptr), w)),
     LogonUserW = (\<lambda>_ _ w. ((ERROR_ACCESS_DENIED, nullptr), w)),
     CloseHandle = folder_CloseHandle,
     SetEntriesInAclW = (\<lambda>s rights acl. (ERROR_SUCCESS, acl @ [(s, rights)])),
     LookupPrivilegeValueW = (\<lambda>_. (1313, \<lparr>LowPart = 0, HighPart = 0\<rparr>)),
     CreateWellKnownSid = (\<lambda>_. (ERROR_SUCCESS, [])),
     SidValid = (\<lambda>s. s \<noteq> []), SidEqual = (=),
     GetSidSubAuthorityCount = (\<lambda>_. None), GetSidSubAuthority = (\<lambda>_ _. None),
     GetComputerNameW = (ERROR_SUCCESS, []),
     LookupAccountNameSize = (\<lambda>_ _. (ERROR_NONE_MAPPED, 0, 0)), LookupAccountNameW = (\<lambda>_ _. (ERROR_NONE_MAPPED, [], 0)),
     LsaOpenPolicy = (\<lambda>_. 0), LsaEnumerateAccountRights = (\<lambda>_ _. (0, [])), LsaNtStatusToWinError = id\<rparr>"

text \<open>One definition per call, so that evaluating one does not look at the others.\<close>

definition folder_NtSetSecurityObject :: "handle \<Rightarrow> dword \<Rightarrow> security_descriptor \<Rightarrow> folder_world \<Rightarrow> dword \<times> folder_world" where
  "folder_NtSetSecurityObject h info d w = (let v = folder_state w in case open_at w h of
     None \<Rightarrow> (0xC0000008, w)
   | Some p \<Rightarrow> (0, if info AND DACL_SECURITY_INFORMATION = 0 then w
       else w\<lparr>folder_state := v\<lparr>dacl_at := (dacl_at v)(p := sd_dacl d)\<rparr>\<rparr>))"

definition folder_NtCreateFile :: "handle \<Rightarrow> wstring \<Rightarrow> dword \<Rightarrow> folder_world \<Rightarrow> (dword \<times> handle) \<times> folder_world" where
  "folder_NtCreateFile h name access w =
     open_path (map_option (\<lambda>p. if name = [] then p else p @ [WCHR BS] @ name) (open_at w h)) w"

definition folder_OpenRoot :: "wstring \<Rightarrow> dword \<Rightarrow> folder_world \<Rightarrow> (dword \<times> handle) \<times> folder_world" where
  "folder_OpenRoot path access w = (let ((status, h), w') = open_path (Some volume_name) w in
     ((if status = 0 then ERROR_SUCCESS else ERROR_ACCESS_DENIED, h), w'))"

definition folder_GetSecurityInfo :: "handle \<Rightarrow> bool \<Rightarrow> dword \<Rightarrow> folder_world \<Rightarrow> dword \<times> security_descriptor" where
  "folder_GetSecurityInfo h kind info w = (case open_at w h of
     None \<Rightarrow> (ERROR_INVALID_HANDLE, \<lparr>sd_owner = None, sd_dacl = None, sd_label = None, sd_control = 0\<rparr>)
   | Some p \<Rightarrow> (ERROR_SUCCESS, \<lparr>sd_owner = Some folder_account, sd_dacl = dacl_at (folder_state w) p, sd_label = None,
       sd_control = 0\<rparr>))"

definition folder_GetFinalPathNameByHandleW :: "handle \<Rightarrow> folder_world \<Rightarrow> dword \<times> nat \<times> wstring" where
  "folder_GetFinalPathNameByHandleW h w = (case open_at w h of
     None \<Rightarrow> (ERROR_INVALID_HANDLE, 0, [])
   | Some p \<Rightarrow> if p = [] \<or> last p = WCHR BS then (ERROR_INVALID_DATA, 0, []) else (ERROR_SUCCESS, length p, p))"

definition folder_FileAttributeTagInfo :: "handle \<Rightarrow> folder_world \<Rightarrow> dword \<times> dword" where
  "folder_FileAttributeTagInfo h w = (if open_at w h = None then (ERROR_INVALID_HANDLE, 0)
     else (ERROR_SUCCESS, FILE_ATTRIBUTE_DIRECTORY))"

definition folder_FileIdBothDirectoryInfo :: "handle \<Rightarrow> bool \<Rightarrow> folder_world \<Rightarrow> (dword \<times> dirent \<times> dirent list) \<times> folder_world" where
  "folder_FileIdBothDirectoryInfo h restart w =
     (let v = folder_state w; none = \<lparr>FileName = [], FileAttributes = 0\<rparr>;
          w' = w\<lparr>folder_state := v\<lparr>listing := (listing v)(h := [])\<rparr>\<rparr>
      in case open_at w h of None \<Rightarrow> ((ERROR_INVALID_HANDLE, none, []), w)
      | Some p \<Rightarrow> (case (if restart then tree p else listing v h) of
          [] \<Rightarrow> ((ERROR_NO_MORE_FILES, none, []), w') | c # cs \<Rightarrow> ((ERROR_SUCCESS, c, cs), w')))"

definition folder_GetTickCount64 :: "folder_world \<Rightarrow> 64 word \<times> folder_world" where
  "folder_GetTickCount64 w = (clock w, w\<lparr>clock := clock w + 1\<rparr>)"

definition folder_GetAce :: "dacl \<Rightarrow> nat \<Rightarrow> dword \<times> ace" where
  "folder_GetAce acl n = (if n < length acl then (ERROR_SUCCESS, acl ! n) else (ERROR_INVALID_DATA, denied_ace 0 []))"

definition folder_api :: "folder_world object_api" where
  "folder_api = \<lparr>object_tokens = folder_tokens, GetModuleHandleW = ERROR_SUCCESS, GetProcAddress = (\<lambda>_. ERROR_SUCCESS),
     RtlNtStatusToDosError = (\<lambda>_. ERROR_ACCESS_DENIED), NtSetSecurityObject = folder_NtSetSecurityObject,
     NtCreateFile = folder_NtCreateFile, NtOpenDirectoryObject = (\<lambda>path. open_path (Some path)),
     InitializeSecurityDescriptor = (ERROR_SUCCESS, \<lparr>sd_owner = None, sd_dacl = None, sd_label = None, sd_control = 0\<rparr>),
     SetSecurityDescriptorDacl = (\<lambda>acl d. (ERROR_SUCCESS, d\<lparr>sd_dacl := Some acl\<rparr>)),
     SetSecurityDescriptorSacl = (\<lambda>acl d. (ERROR_SUCCESS, d\<lparr>sd_label := Some acl\<rparr>)),
     SetSecurityDescriptorControl = (\<lambda>_ c d. (ERROR_SUCCESS, d\<lparr>sd_control := c\<rparr>)),
     GetSecurityDescriptorControl = (\<lambda>d. (ERROR_SUCCESS, sd_control d)), GetSecurityInfo = folder_GetSecurityInfo,
     InitializeAcl = (\<lambda>_. ERROR_SUCCESS), GetAce = folder_GetAce,
     AddAce = (\<lambda>acl raw. (ERROR_SUCCESS, acl @ [raw])),
     AddAccessDeniedAce = (\<lambda>acl m s. (ERROR_SUCCESS, acl @ [denied_ace m s])),
     AddAccessAllowedAce = (\<lambda>acl m s. (ERROR_SUCCESS, acl @ [allowed_ace m s])),
     CreatorOwnerRightsSid = (ERROR_SUCCESS, [3, 4]), OpenRoot = folder_OpenRoot, GetDriveTypeW = (\<lambda>_ _. 3),
     GetVolumeInformationByHandleW = (\<lambda>_ _. (ERROR_SUCCESS, FILE_PERSISTENT_ACLS)),
     GetFinalPathNameByHandleW = folder_GetFinalPathNameByHandleW, FileAttributeTagInfo = folder_FileAttributeTagInfo,
     GetFileInformationByHandle = (\<lambda>_ _. (ERROR_SUCCESS, FILE_ATTRIBUTE_DIRECTORY, 1)),
     FileIdBothDirectoryInfo = folder_FileIdBothDirectoryInfo, GetTickCount64 = folder_GetTickCount64\<rparr>"

lemmas folder_call_defs = folder_NtSetSecurityObject_def folder_NtCreateFile_def folder_OpenRoot_def
  folder_GetSecurityInfo_def folder_GetFinalPathNameByHandleW_def folder_FileAttributeTagInfo_def
  folder_FileIdBothDirectoryInfo_def folder_GetTickCount64_def folder_GetAce_def

definition reference_scope_api :: "folder_world read_scope_api" where
  "reference_scope_api = \<lparr>scope_objects = folder_api, GetTokenSessionId = (\<lambda>_ _. (ERROR_SUCCESS, 0)),
     GetWindowsDirectoryW = (\<lambda>_. (ERROR_SUCCESS, wide [CHR ''C'', CHR '':'', BS, CHR ''W''])),
     SHGetKnownFolderPath = (\<lambda>_ _. (ERROR_SUCCESS, wide [CHR ''C'', CHR '':'', BS, CHR ''W''])),
     FindFirstVolumeW = (\<lambda>_. (ERROR_SUCCESS, [volume_name @ [WCHR BS]], ERROR_NO_MORE_FILES)),
     GetVolumePathNamesForVolumeNameW = (\<lambda>_ _. (ERROR_MORE_DATA, 5))\<rparr>"

definition world_view :: "folder_world \<Rightarrow> folder_view" where
  "world_view w = (folder_state w)\<lparr>path_of := open_at w\<rparr>"

definition example_folders :: folder_world where
  "example_folders = \<lparr>folder_state = \<lparr>path_of = (\<lambda>_. None), dacl_at = (\<lambda>_. Some [allowed_ace FILE_ALL_ACCESS folder_account]), listing = (\<lambda>_. [])\<rparr>,
     next_handle = 8, clock = 1000\<rparr>"



lemma world_view_simps [simp]: "dacl_at (world_view w) = dacl_at (folder_state w)"
  by (simp add: world_view_def)

lemma open_at_same: "path_of (folder_state w') = path_of (folder_state w) \<Longrightarrow> open_at w' = open_at w"
  by (simp add: open_at_def fun_eq_iff)

lemma open_at_opened:
  "path_of (folder_state w') = (path_of (folder_state w))(h \<mapsto> p) \<Longrightarrow> h \<noteq> nullptr \<Longrightarrow> h \<noteq> INVALID_HANDLE_VALUE \<Longrightarrow>
    open_at w' = (open_at w)(h \<mapsto> p)"
  by (auto simp: open_at_def fun_eq_iff)

lemma open_path_view:
  assumes "open_path path w = ((status, h), w')"
  shows "if nt_error status then world_view w' = world_view w
    else status = 0 \<and> (\<exists>p. path = Some p \<and> opened (world_view w) h p (world_view w'))"
proof -
  have "nt_error 0xC0000034" "nt_error 0xC0000017" "\<not> nt_error 0" by (simp_all add: nt_error_def)
  with assms show ?thesis
    by (auto simp: open_path_def Let_def opened_def world_view_def open_at_opened intro!: exI[of _ "[]"]
        split: option.splits if_splits) (simp add: open_at_def)
qed

lemma strip_backslashes_id: "name \<noteq> [] \<Longrightarrow> last name \<noteq> WCHR BS \<Longrightarrow> strip_backslashes name = name"
  by (cases name rule: rev_cases) (simp_all add: strip_backslashes_def)

lemma open_at_clock [simp]: "open_at (w\<lparr>clock := c\<rparr>) = open_at w"
  by (rule open_at_same) simp

interpretation reference_read_scope: read_scope reference_scope_api world_view tree "\<lambda>root. root = volume_name"
proof (unfold_locales, goal_cases)
  case (4 h w)
  show ?case
    by (auto simp: reference_scope_api_def folder_api_def folder_call_defs folder_tokens_def folder_CloseHandle_def folder_GetTokenInformation_def world_view_def open_at_def fun_eq_iff)
next
  case (13 h info d w status w' path)
  have "nt_error 0xC0000008" "\<not> nt_error 0" by (simp_all add: nt_error_def)
  with 13 show ?case
    by (auto simp: reference_scope_api_def folder_api_def folder_call_defs world_view_def Let_def open_at_same[of "w\<lparr>folder_state := v\<rparr>" w for v]
        split: if_splits option.splits)
next
  case (14 h name access w status h' w')
  then have "open_path (map_option (\<lambda>p. if name = [] then p else p @ [WCHR BS] @ name) (open_at w h)) w = ((status, h'), w')"
    by (simp add: reference_scope_api_def folder_api_def folder_call_defs)
  from open_path_view[OF this] show ?case
    by (auto simp: world_view_def intro!: exI[of _ "if name = [] then p else p @ [WCHR BS] @ name" for p]
        split: if_split_asm)
next
  case (15 path w status h' w')
  then have "open_path (Some path) w = ((status, h'), w')" by (simp add: reference_scope_api_def folder_api_def folder_call_defs)
  from open_path_view[OF this] show ?case by auto
next
  case (16 path access w e h' w')
  then obtain status where "open_path (Some volume_name) w = ((status, h'), w')"
    and "e = (if status = 0 then ERROR_SUCCESS else ERROR_ACCESS_DENIED)"
    by (auto simp: reference_scope_api_def folder_api_def folder_call_defs split: prod.splits)
  with open_path_view[OF this(1)] show ?case by (auto simp: nt_error_def split: if_splits)
next
  case (17 h w e n name path)
  then show ?case
    by (auto simp: reference_scope_api_def folder_api_def folder_call_defs world_view_def strip_backslashes_id split: if_splits option.splits)
next
  case (24 h restart w e first rest w' path)
  then show ?case
    by (auto simp: reference_scope_api_def folder_api_def folder_call_defs world_view_def Let_def open_at_same[of "w\<lparr>folder_state := v\<rparr>" w for v]
        intro!: exI[of _ "[]"] split: if_splits option.splits list.splits)
qed (auto simp: reference_scope_api_def folder_api_def folder_call_defs folder_tokens_def folder_CloseHandle_def folder_GetTokenInformation_def world_view_def open_at_def[of _ nullptr]
    open_at_def[of _ INVALID_HANDLE_VALUE] tree_def volume_name_def
    QueryTokenInformation_def folder_account_def wide_def split: if_splits option.splits)

section \<open>Properties\<close>

text \<open>A launch in the reference file system, and a restoration after it.\<close>

definition example_launch :: "((dword \<times> BrokerReadScope) \<times> folder_world) option" where
  "example_launch = BrokerReadScope_Ensure reference_scope_api 4 (wide [CHR ''C'', CHR '':'', BS, CHR ''U''])
     (wide [CHR ''C'', CHR '':'', BS, CHR ''U'']) BrokerReadScope_empty example_folders"

text \<open>Evaluation by rewriting: the calls as functions, one step of the fuel, two levels of folders.\<close>

lemma folder_api_simps [simp]:
  "scope_objects reference_scope_api = folder_api" "object_tokens folder_api = folder_tokens"
  "GetModuleHandleW folder_api = ERROR_SUCCESS" "GetProcAddress folder_api f = ERROR_SUCCESS"
  "NtSetSecurityObject folder_api = folder_NtSetSecurityObject" "NtCreateFile folder_api = folder_NtCreateFile"
  "InitializeSecurityDescriptor folder_api = (ERROR_SUCCESS, \<lparr>sd_owner = None, sd_dacl = None, sd_label = None, sd_control = 0\<rparr>)"
  "SetSecurityDescriptorDacl folder_api acl d = (ERROR_SUCCESS, d\<lparr>sd_dacl := Some acl\<rparr>)"
  "SetSecurityDescriptorControl folder_api bits c d = (ERROR_SUCCESS, d\<lparr>sd_control := c\<rparr>)"
  "GetSecurityDescriptorControl folder_api d = (ERROR_SUCCESS, sd_control d)"
  "GetSecurityInfo folder_api = folder_GetSecurityInfo" "InitializeAcl folder_api n = ERROR_SUCCESS"
  "GetAce folder_api = folder_GetAce" "AddAce folder_api acl raw = (ERROR_SUCCESS, acl @ [raw])"
  "AddAccessDeniedAce folder_api acl m u = (ERROR_SUCCESS, acl @ [denied_ace m u])"
  "AddAccessAllowedAce folder_api acl m u = (ERROR_SUCCESS, acl @ [allowed_ace m u])"
  "CreatorOwnerRightsSid folder_api = (ERROR_SUCCESS, [3, 4])" "OpenRoot folder_api = folder_OpenRoot"
  "GetDriveTypeW folder_api path w = 3"
  "GetVolumeInformationByHandleW folder_api h w = (ERROR_SUCCESS, FILE_PERSISTENT_ACLS)"
  "GetFinalPathNameByHandleW folder_api = folder_GetFinalPathNameByHandleW"
  "FileAttributeTagInfo folder_api = folder_FileAttributeTagInfo"
  "FileIdBothDirectoryInfo folder_api = folder_FileIdBothDirectoryInfo" "GetTickCount64 folder_api = folder_GetTickCount64"
  "GetTokenInformationSize folder_tokens h cls w = (ERROR_INSUFFICIENT_BUFFER, 64)"
  "GetTokenInformation folder_tokens = folder_GetTokenInformation"
  "CloseHandle folder_tokens = folder_CloseHandle" "SidEqual folder_tokens a b \<longleftrightarrow> a = b"
  by (simp_all add: reference_scope_api_def folder_api_def folder_tokens_def)

lemma Visit_two_levels:
  "Visit api d 129 = VisitLevel api d (Some (VisitLevel api d (Some (Visit api d 127))))"
  using Visit.simps(2)[of api d 128] Visit.simps(2)[of api d 127] by simp

lemma VisitBatches_numeral:
  "VisitBatches api deadline visit path (numeral k) restart remaining s w =
     (let (now, w) = GetTickCount64 api w in
      if now \<ge> deadline then Some ((ERROR_TIMEOUT, remaining, s), w)
      else
        (let ((enumerationError, first, rest), w) = FileIdBothDirectoryInfo api (object (entry_at s path)) restart w in
         if enumerationError = ERROR_NO_MORE_FILES then
           (let ((error, s), w) = SetPathAccess api path AncestorDeny False s w in Some ((error, remaining, s), w))
         else if enumerationError \<noteq> ERROR_SUCCESS then Some ((enumerationError, remaining, s), w)
         else
           (case VisitRecords api deadline visit path (first # rest) remaining s w of
              None \<Rightarrow> None
            | Some ((error, remaining, s), w) \<Rightarrow>
                if error \<noteq> ERROR_SUCCESS then Some ((error, remaining, s), w)
                else VisitBatches api deadline visit path (pred_numeral k) False remaining s w)))"
  unfolding numeral_eq_Suc VisitBatches.simps by (rule refl)

lemmas scope_evaluation = Let_def example_launch_def BrokerReadScope_Ensure_def reference_scope_api_def FAILED_def
  EnsureRoots_def QueryTokenInformation_def CanonicalDirectory_def scope_path_def absolute_path_def normal_parts_def
  normal_step_def is_slash_def is_letter_def wide_def OpenRelativeFile_def OpenPinnedRelative_def ReopenPinnedFile_def
  load_native_def folder_call_defs folder_CloseHandle_def folder_GetTokenInformation_def example_folders_def
  open_path_def open_at_def UniqueHandle_reset_def volume_name_def contains_any_def CanonicalName_def
  strip_backslashes_def nt_error_def BrokerReadScope_empty_def EnsureNewVolume_def OpenVolumeRoot_def
  Visit_two_levels VisitBatches_numeral VisitLevel_def VisitEntry_def VisitReadable_def SetPathAccess_def SetAccess_def
  entry_at_def assign_entry_def map_assign_def Entry_default_def observe_def is_folder_def OpenChild_def Within_def
  tree_def entries_below_def UpdatedDacl_def and_then_def add_if_def WriteAccess_def MakeWritable_def SetObjectDacl_def
  SetObjectSecurity_def EnsureWindowsNamespace_def LeaseAce_def IsAccessAce_def GrantsTraverse_def denied_ace_def
  allowed_ace_def AncestorDeny_def folder_account_def BrokerReadScope_Restore_def leased_def CloseEntries_def

lemma example_run:
  "(case example_launch of None \<Rightarrow> False | Some ((e, s), w) \<Rightarrow>
      e = ERROR_SUCCESS \<and> dacl_at (folder_state w) (volume_name @ wide [BS, CHR ''X'']) \<noteq>
        dacl_at (folder_state example_folders) (volume_name @ wide [BS, CHR ''X''])
      \<and> (case BrokerReadScope_Restore (scope_objects reference_scope_api) s w of ((e', s'), w') \<Rightarrow> e' = ERROR_SUCCESS))"
  by (simp add: scope_evaluation)

lemma example_runE:
  obtains s w s' w' where "example_launch = Some ((ERROR_SUCCESS, s), w)"
    and "dacl_at (folder_state w) (volume_name @ wide [BS, CHR ''X'']) \<noteq>
      dacl_at (folder_state example_folders) (volume_name @ wide [BS, CHR ''X''])"
    and "BrokerReadScope_Restore (scope_objects reference_scope_api) s w = ((ERROR_SUCCESS, s'), w')"
  using example_run by (auto split: option.splits prod.splits)

text \<open>
  C31: However launches, restorations that fail and the passing of time follow each other, once a
  restoration of the scope succeeds every folder and namespace directory has exactly the DACL it had
  before the first launch, and no entry is left.
\<close>

theorem read_scope_restored:
  assumes "read_scope r view children volume_root"
    and "(scope_step r view)\<^sup>*\<^sup>* (BrokerReadScope_empty, w0) (s, w)"
    and "BrokerReadScope_Restore (scope_objects r) s w = ((ERROR_SUCCESS, s'), w')"
  shows "dacl_at (view w') = dacl_at (view w0) \<and> scope_entries s' = []"
  by (rule read_scope.run_restored[OF assms])

lemma read_scope_restored_witness:
  "\<exists>s w s' w'. example_launch = Some ((ERROR_SUCCESS, s), w)
    \<and> BrokerReadScope_Restore (scope_objects reference_scope_api) s w = ((ERROR_SUCCESS, s'), w')
    \<and> dacl_at (world_view w) \<noteq> dacl_at (world_view example_folders)
    \<and> dacl_at (world_view w') = dacl_at (world_view example_folders)"
proof -
  obtain s w s' w' where run: "example_launch = Some ((ERROR_SUCCESS, s), w)"
    and changed: "dacl_at (folder_state w) (volume_name @ wide [BS, CHR ''X'']) \<noteq>
      dacl_at (folder_state example_folders) (volume_name @ wide [BS, CHR ''X''])"
    and restored: "BrokerReadScope_Restore (scope_objects reference_scope_api) s w = ((ERROR_SUCCESS, s'), w')"
    by (rule example_runE)
  have "(scope_step reference_scope_api world_view)\<^sup>*\<^sup>* (BrokerReadScope_empty, example_folders) (s, w)"
    using scope_step.ensure[OF run[unfolded example_launch_def]] by blast
  from read_scope_restored[OF reference_read_scope.read_scope_axioms this restored] run changed restored
  show ?thesis by (metis world_view_simps)
qed



text \<open>
  The order matters: a folder whose DACL holds the deny entry behind an allow entry before the first
  launch keeps it there, because an equal entry anywhere counts as present; the account is not refused.
\<close>

definition misplaced_deny :: dacl where
  "misplaced_deny = [allowed_ace FILE_ALL_ACCESS folder_account, denied_ace WRITE_DAC [3, 4],
     denied_ace FILE_ALL_ACCESS folder_account]"

lemma SetAccess_misplaced_deny:
  "(let w = example_folders\<lparr>folder_state := (folder_state example_folders)\<lparr>path_of := (\<lambda>_. None)(4 \<mapsto> volume_name),
           dacl_at := (\<lambda>_. Some misplaced_deny)\<rparr>\<rparr>;
        ((e, entry), w') = SetAccess folder_api (BrokerReadScope_empty\<lparr>scope_user := folder_account\<rparr>)
          (Entry_default\<lparr>object := 4\<rparr>) FILE_ALL_ACCESS False w
    in e = ERROR_SUCCESS \<and> dacl_at (folder_state w') volume_name = Some misplaced_deny
       \<and> access_granted {folder_account} misplaced_deny FILE_ALL_ACCESS)"
  by (simp add: scope_evaluation misplaced_deny_def allowing_def)

text \<open>
  C33: A launch always gets its read scope or an error: the walk over the folders returns whatever the
  file system does, however deep or wide it is and however the clock runs.
\<close>

theorem read_scope_returns:
  "\<exists>e s' w'. BrokerReadScope_Ensure r token profile work s w = Some ((e, s'), w')"
  by (rule Ensure_returns)

end
