(* ===== verification/WriteScope.thy ===== *)
theory WriteScope
  imports FileSystemAccess FilePaths
begin

text \<open>
  The write scope of a low integrity session, \<open>src/broker/BrokerWriteScope.cpp\<close>: as the account, the
  profile and the working directory with all they contain get the low mandatory label. \<open>None\<close> as a
  result is not returning: an enumeration that does not end, or \<open>std::terminate\<close> when the broker
  cannot revert to itself.
\<close>

section \<open>The calls\<close>

text \<open>
  \<open>lower\<close> is the case conversion of \<open>_wcsicmp\<close>; \<open>GetWindowsDirectory\<close> gives the error and the path,
  \<open>GetEnvironmentVariableW\<close> the characters it reports and the value. \<open>ConvertLowLabel\<close> and
  \<open>GetLowLabel\<close> make the ACL of \<open>S:(ML;OICI;NW;;;LW)\<close>.
\<close>

record 'w write_scope_api =
  write_objects :: "'w object_api"
  lower :: "wchar \<Rightarrow> wchar"
  IsLowLabelSid :: "sid \<Rightarrow> bool"
  GetWindowsDirectory :: "'w \<Rightarrow> dword \<times> wstring"
  GetEnvironmentVariableW :: "wstring \<Rightarrow> 'w \<Rightarrow> nat \<times> wstring"
  ConvertLowLabel :: dword
  GetLowLabel :: "dword \<times> dacl"
  ImpersonateLoggedOnUser :: "handle \<Rightarrow> 'w \<Rightarrow> dword \<times> 'w"
  RevertToSelf :: "'w \<Rightarrow> bool \<times> 'w"

definition MaximumWriteScopeDepth :: nat where "MaximumWriteScopeDepth = 128"
definition MaximumWriteScopeObjects :: nat where "MaximumWriteScopeObjects = 100000"
definition WriteScopeTimeoutMilliseconds :: "64 word" where "WriteScopeTimeoutMilliseconds = 30000"

abbreviation ERROR_SHARING_VIOLATION :: dword where "ERROR_SHARING_VIOLATION \<equiv> 32"
abbreviation ERROR_BAD_ENVIRONMENT :: dword where "ERROR_BAD_ENVIRONMENT \<equiv> 10"

section \<open>The budget\<close>

definition CheckTime :: "'w object_api \<Rightarrow> 64 word \<Rightarrow> 'w \<Rightarrow> dword \<times> 'w" where
  "CheckTime api deadline w =
     (let (now, w) = GetTickCount64 api w in (if now \<ge> deadline then ERROR_TIMEOUT else ERROR_SUCCESS, w))"

definition ConsumeObject :: "'w object_api \<Rightarrow> 64 word \<Rightarrow> nat \<Rightarrow> 'w \<Rightarrow> (dword \<times> nat) \<times> 'w" where
  "ConsumeObject api deadline remaining w =
     (let (timeError, w) = CheckTime api deadline w in
      if timeError \<noteq> ERROR_SUCCESS then ((timeError, remaining), w)
      else if remaining = 0 then ((ERROR_NOT_ENOUGH_QUOTA, remaining), w)
      else ((ERROR_SUCCESS, remaining - 1), w))"

section \<open>Roots\<close>

definition wcsicmp_equal :: "'w write_scope_api \<Rightarrow> wstring \<Rightarrow> wstring \<Rightarrow> bool" where
  "wcsicmp_equal api a b \<longleftrightarrow> map (lower api) (c_str a) = map (lower api) (c_str b)"

definition IsWithin :: "'w write_scope_api \<Rightarrow> wstring \<Rightarrow> wstring \<Rightarrow> bool" where
  "IsWithin api path root \<longleftrightarrow> wcsicmp_equal api path root
     \<or> (length path > length root
        \<and> map (lower api) (c_str (take (length root) path)) = map (lower api) (c_str root)
        \<and> path ! length root = WCHR BS)"

definition ValidateScopeRoot :: "'w write_scope_api \<Rightarrow> wstring \<Rightarrow> 'w \<Rightarrow> dword" where
  "ValidateScopeRoot api path w =
     (if scope_path path = None then ERROR_BAD_PATHNAME
      else
        (let (windowsError, windows) = GetWindowsDirectory api w;
             protected = (\<lambda>name. let (characters, directory) = GetEnvironmentVariableW api (wide name) w in
               if characters = 0 \<or> characters \<ge> 32768 then ERROR_BAD_ENVIRONMENT
               else if IsWithin api path directory then ERROR_ACCESS_DENIED else ERROR_SUCCESS);
             (characters, publicProfile) = GetEnvironmentVariableW api (wide ''PUBLIC'') w
         in if windowsError \<noteq> ERROR_SUCCESS then windowsError
            else if IsWithin api path windows then ERROR_ACCESS_DENIED
            else first_error [protected ''ProgramFiles'', protected ''ProgramFiles(x86)'', protected ''ProgramData'',
              if characters = 0 \<or> characters \<ge> 32768 then ERROR_BAD_ENVIRONMENT
              else if wcsicmp_equal api path (parent_path publicProfile) then ERROR_ACCESS_DENIED
              else ERROR_SUCCESS]))"

section \<open>Labels\<close>

definition IsLowLabelAce :: "'w write_scope_api \<Rightarrow> bool \<Rightarrow> ace \<Rightarrow> bool" where
  "IsLowLabelAce api directory a \<longleftrightarrow>
     AceType a = SYSTEM_MANDATORY_LABEL_ACE_TYPE \<and> IsLowLabelSid api (AceSid a)
     \<and> AceMask a AND SYSTEM_MANDATORY_LABEL_NO_WRITE_UP \<noteq> 0 \<and> AceFlags a AND INHERIT_ONLY_ACE = 0
     \<and> (directory \<longrightarrow> AceFlags a AND (OBJECT_INHERIT_ACE OR CONTAINER_INHERIT_ACE)
          = (OBJECT_INHERIT_ACE OR CONTAINER_INHERIT_ACE))"

fun ScanLabel :: "'w write_scope_api \<Rightarrow> bool \<Rightarrow> dacl \<Rightarrow> nat list \<Rightarrow> bool \<Rightarrow> dword \<times> bool" where
  "ScanLabel api directory acl [] low = (ERROR_SUCCESS, low)"
| "ScanLabel api directory acl (index # indices) low =
     (let (aceError, a) = GetAce (write_objects api) acl index in
      if aceError \<noteq> ERROR_SUCCESS then (aceError, low)
      else ScanLabel api directory acl indices (low \<or> IsLowLabelAce api directory a))"

definition HasLowLabel :: "'w write_scope_api \<Rightarrow> handle \<Rightarrow> bool \<Rightarrow> 'w \<Rightarrow> dword \<times> bool" where
  "HasLowLabel api object_handle directory w =
     (let (error, descriptor) = GetSecurityInfo (write_objects api) object_handle False LABEL_SECURITY_INFORMATION w in
      if error \<noteq> ERROR_SUCCESS then (error, False)
      else (case sd_label descriptor of
          None \<Rightarrow> (ERROR_SUCCESS, False)
        | Some acl \<Rightarrow> ScanLabel api directory acl [0..<length acl] False))"

definition IsUnavailableChildError :: "dword \<Rightarrow> bool" where
  "IsUnavailableChildError e \<longleftrightarrow> e = ERROR_ACCESS_DENIED \<or> e = ERROR_SHARING_VIOLATION
     \<or> e = ERROR_FILE_NOT_FOUND \<or> e = ERROR_PATH_NOT_FOUND"

text \<open>An error of a child that is merely unavailable is not an error of the tree.\<close>

definition child_error :: "bool \<Rightarrow> dword \<Rightarrow> dword" where
  "child_error root e = (if \<not> root \<and> IsUnavailableChildError e then ERROR_SUCCESS else e)"

section \<open>LabelTree\<close>

text \<open>
  The parts of \<open>LabelTree\<close> up to the enumeration return \<open>Some\<close> error when the function returns there,
  and \<open>None\<close> when it goes on.
\<close>

definition MakeLow ::
  "'w write_scope_api \<Rightarrow> handle \<Rightarrow> handle \<Rightarrow> wstring \<Rightarrow> dacl \<Rightarrow> bool \<Rightarrow> bool \<Rightarrow> 'w \<Rightarrow> dword option \<times> 'w"
where
  "MakeLow api object_handle parent name label_acl root directory w =
     (let (error, low) = HasLowLabel api object_handle directory w in
      if error \<noteq> ERROR_SUCCESS then (Some error, w)
      else if low then (None, w)
      else
        (let ((writeError, writable_handle), w) = OpenRelativeFile (write_objects api) parent name WRITE_OWNER w in
         if writeError \<noteq> ERROR_SUCCESS then (Some (child_error root writeError), w)
         else
           (let (error, w) = SetObjectLabel (write_objects api) writable_handle label_acl w;
                close = CloseObject (write_objects api) writable_handle
            in if error \<noteq> ERROR_SUCCESS then (Some (child_error root error), close w)
            else
              (let (error, low) = HasLowLabel api object_handle directory w in
               if error \<noteq> ERROR_SUCCESS \<or> \<not> low
               then (Some (if error = ERROR_SUCCESS then ERROR_ACCESS_DENIED else error), close w)
               else (None, close w)))))"

definition LabelObject ::
  "'w write_scope_api \<Rightarrow> handle \<Rightarrow> handle \<Rightarrow> wstring \<Rightarrow> dacl \<Rightarrow> bool \<Rightarrow> 'w \<Rightarrow> dword option \<times> 'w"
where
  "LabelObject api object_handle parent name label_acl root w =
     (let (infoError, attributes, links) = GetFileInformationByHandle (write_objects api) object_handle w;
          directory = (attributes AND FILE_ATTRIBUTE_DIRECTORY \<noteq> 0);
          (volumeError, flags) = GetVolumeInformationByHandleW (write_objects api) object_handle w
      in if infoError \<noteq> ERROR_SUCCESS then (Some infoError, w)
      else if attributes AND FILE_ATTRIBUTE_REPARSE_POINT \<noteq> 0 \<or> (\<not> directory \<and> links \<noteq> 1)
      then (Some (if root then ERROR_ACCESS_DENIED else ERROR_SUCCESS), w)
      else if root \<and> \<not> directory then (Some ERROR_DIRECTORY, w)
      else if root \<and> volumeError \<noteq> ERROR_SUCCESS then (Some volumeError, w)
      else if root \<and> flags AND FILE_PERSISTENT_ACLS = 0 then (Some ERROR_NOT_SUPPORTED, w)
      else
        (case MakeLow api object_handle parent name label_acl root directory w of
           (Some error, w) \<Rightarrow> (Some error, w)
         | (None, w) \<Rightarrow> (if directory then None else Some ERROR_SUCCESS, w)))"

type_synonym 'w labeling = "handle \<Rightarrow> wstring \<Rightarrow> bool \<Rightarrow> nat \<Rightarrow> 'w \<Rightarrow> ((dword \<times> nat) \<times> 'w) option"

fun LabelRecords :: "'w labeling \<Rightarrow> handle \<Rightarrow> dirent list \<Rightarrow> nat \<Rightarrow> 'w \<Rightarrow> ((dword \<times> nat) \<times> 'w) option" where
  "LabelRecords label_tree object_handle [] remaining w = Some ((ERROR_SUCCESS, remaining), w)"
| "LabelRecords label_tree object_handle (child # children) remaining w =
     (if FileName child = wide ''.'' \<or> FileName child = wide ''..''
      then LabelRecords label_tree object_handle children remaining w
      else
        (case label_tree object_handle (FileName child) False remaining w of
           None \<Rightarrow> None
         | Some ((childError, remaining), w) \<Rightarrow>
             if childError \<noteq> ERROR_SUCCESS then Some ((childError, remaining), w)
             else LabelRecords label_tree object_handle children remaining w))"

partial_function (option) LabelBatches ::
  "'w object_api \<Rightarrow> 64 word \<Rightarrow> 'w labeling \<Rightarrow> handle \<Rightarrow> handle \<Rightarrow> bool \<Rightarrow> nat \<Rightarrow> 'w \<Rightarrow> ((dword \<times> nat) \<times> 'w) option"
where
  "LabelBatches api deadline label_tree entries object_handle root remaining w =
     (let (timeError, w) = CheckTime api deadline w in
      if timeError \<noteq> ERROR_SUCCESS then Some ((timeError, remaining), w)
      else
        (let ((enumerationError, first, rest), w) = FileIdBothDirectoryInfo api entries False w in
         if enumerationError \<noteq> ERROR_SUCCESS then
           if enumerationError = ERROR_NO_MORE_FILES \<or> (\<not> root \<and> IsUnavailableChildError enumerationError)
           then (let (timeError, w) = CheckTime api deadline w in Some ((timeError, remaining), w))
           else Some ((enumerationError, remaining), w)
         else
           Option.bind (LabelRecords label_tree object_handle (first # rest) remaining w)
             (\<lambda>((childError, remaining), w).
                if childError \<noteq> ERROR_SUCCESS then Some ((childError, remaining), w)
                else LabelBatches api deadline label_tree entries object_handle root remaining w)))"

text \<open>One level of \<open>LabelTree\<close>, with \<open>deeper\<close> for the children, which an object too deep has not.\<close>

definition LabelLevel ::
  "'w write_scope_api \<Rightarrow> dacl \<Rightarrow> 64 word \<Rightarrow> 'w labeling option \<Rightarrow> 'w labeling"
where
  "LabelLevel api label_acl deadline deeper parent name root remaining w =
     (case deeper of
        None \<Rightarrow> Some ((ERROR_NOT_ENOUGH_QUOTA, remaining), w)
      | Some label_tree \<Rightarrow>
          (let objects = write_objects api;
               ((budgetError, remaining), w) = ConsumeObject objects deadline remaining w
           in if budgetError \<noteq> ERROR_SUCCESS then Some ((budgetError, remaining), w)
           else
             (let ((openError, object_handle), w) =
                    OpenRelativeFile objects parent name (READ_CONTROL OR FILE_READ_ATTRIBUTES) w
              in if openError \<noteq> ERROR_SUCCESS then Some ((child_error root openError, remaining), w)
              else
                (case LabelObject api object_handle parent name label_acl root w of
                   (Some error, w) \<Rightarrow> Some ((error, remaining), CloseObject objects object_handle w)
                 | (None, w) \<Rightarrow>
                     (let ((enumerationOpenError, entries), w) =
                            OpenRelativeFile objects parent name FILE_LIST_DIRECTORY w
                      in if enumerationOpenError \<noteq> ERROR_SUCCESS
                      then Some ((child_error root enumerationOpenError, remaining), CloseObject objects object_handle w)
                      else
                        map_option (\<lambda>(result, w). (result, CloseObject objects object_handle (CloseObject objects entries w)))
                          (LabelBatches objects deadline label_tree entries object_handle root remaining w))))))"

text \<open>\<open>LabelTree\<close> at depth \<open>MaximumWriteScopeDepth + 1 - levels\<close>.\<close>

primrec LabelTree :: "'w write_scope_api \<Rightarrow> dacl \<Rightarrow> 64 word \<Rightarrow> nat \<Rightarrow> 'w labeling" where
  "LabelTree api label_acl deadline 0 = LabelLevel api label_acl deadline None"
| "LabelTree api label_acl deadline (Suc levels) =
     LabelLevel api label_acl deadline (Some (LabelTree api label_acl deadline levels))"

section \<open>PrepareWriteScope\<close>

text \<open>The handles opened so far, the volume first, pin the ancestors.\<close>

fun OpenAncestors ::
  "'w object_api \<Rightarrow> 64 word \<Rightarrow> handle list \<Rightarrow> wstring list \<Rightarrow> 'w \<Rightarrow> (dword \<times> handle list) \<times> 'w"
where
  "OpenAncestors api deadline ancestors [] w = ((ERROR_SUCCESS, ancestors), w)"
| "OpenAncestors api deadline ancestors (component # components) w =
     (let (timeError, w) = CheckTime api deadline w in
      if timeError \<noteq> ERROR_SUCCESS then ((timeError, ancestors), w)
      else
        (let ((openError, h), w) = OpenRelativeFile api (last ancestors) component FILE_READ_ATTRIBUTES w in
         if openError \<noteq> ERROR_SUCCESS then ((openError, ancestors), w)
         else
           (let (infoError, attributes) = FileAttributeTagInfo api h w in
            if infoError \<noteq> ERROR_SUCCESS then ((infoError, ancestors), CloseObject api h w)
            else if attributes AND FILE_ATTRIBUTE_REPARSE_POINT \<noteq> 0
            then ((ERROR_ACCESS_DENIED, ancestors), CloseObject api h w)
            else OpenAncestors api deadline (ancestors @ [h]) components w)))"

definition CloseAll :: "'w object_api \<Rightarrow> handle list \<Rightarrow> 'w \<Rightarrow> 'w" where
  "CloseAll api handles w = fold (CloseObject api) handles w"

text \<open>The native spelling of a normal path.\<close>

definition native_path :: "wstring \<times> wstring list \<Rightarrow> wstring" where
  "native_path p = fst p @ join_parts (snd p)"

definition LabelRoot ::
  "'w write_scope_api \<Rightarrow> wstring \<Rightarrow> dacl \<Rightarrow> 64 word \<Rightarrow> nat \<Rightarrow> 'w \<Rightarrow> ((dword \<times> nat) \<times> 'w) option"
where
  "LabelRoot api directory label_acl deadline remaining w =
     (let objects = write_objects api; (timeError, w) = CheckTime objects deadline w in
      if timeError \<noteq> ERROR_SUCCESS then Some ((timeError, remaining), w)
      else (case scope_path directory of
          None \<Rightarrow> Some ((ERROR_BAD_PATHNAME, remaining), w)
        | Some (root_path, parts) \<Rightarrow>
            (let validationError = ValidateScopeRoot api (native_path (root_path, parts)) w in
             if validationError \<noteq> ERROR_SUCCESS then Some ((validationError, remaining), w)
             else
               (let ((openError, volume), w) = OpenRoot objects root_path FILE_READ_ATTRIBUTES w in
                if openError \<noteq> ERROR_SUCCESS then Some ((openError, remaining), w)
                else
                  (let ((error, ancestors), w) = OpenAncestors objects deadline [volume] (butlast parts) w in
                   if error \<noteq> ERROR_SUCCESS then Some ((error, remaining), CloseAll objects ancestors w)
                   else
                     map_option (\<lambda>(result, w). (result, CloseAll objects ancestors w))
                       (LabelTree api label_acl deadline (Suc MaximumWriteScopeDepth) (last ancestors) (last parts) True
                          remaining w))))))"

definition PrepareWriteScope ::
  "'w write_scope_api \<Rightarrow> handle \<Rightarrow> wstring \<Rightarrow> wstring \<Rightarrow> nat \<Rightarrow> 64 word \<Rightarrow> 'w \<Rightarrow> (dword \<times> 'w) option"
where
  "PrepareWriteScope api token profileDirectory workingDirectory maximumObjects timeoutMilliseconds w =
     (let (now, w) = GetTickCount64 (write_objects api) w;
          deadline = now + timeoutMilliseconds;
          (labelError, label_acl) = GetLowLabel api;
          (impersonationError, w') = ImpersonateLoggedOnUser api token w
      in if ConvertLowLabel api \<noteq> ERROR_SUCCESS then Some (ConvertLowLabel api, w)
      else if labelError \<noteq> ERROR_SUCCESS then Some (labelError, w)
      else if impersonationError \<noteq> ERROR_SUCCESS then Some (impersonationError, w')
      else
        Option.bind
          (Option.bind (LabelRoot api profileDirectory label_acl deadline maximumObjects w')
             (\<lambda>((profileError, remaining), w).
                if profileError \<noteq> ERROR_SUCCESS then Some ((profileError, remaining), w)
                else LabelRoot api workingDirectory label_acl deadline remaining w))
          (\<lambda>((error, remaining), w).
             let (reverted, w) = RevertToSelf api w in if reverted then Some (error, w) else None))"

definition PrepareBrokerWriteScope ::
  "'w write_scope_api \<Rightarrow> handle \<Rightarrow> wstring \<Rightarrow> wstring \<Rightarrow> 'w \<Rightarrow> (dword \<times> 'w) option"
where
  "PrepareBrokerWriteScope api token profileDirectory workingDirectory w =
     PrepareWriteScope api token profileDirectory workingDirectory MaximumWriteScopeObjects
       WriteScopeTimeoutMilliseconds w"

end
