(* ===== verification/WriteScopeLabels.thy ===== *)
theory WriteScopeLabels
  imports WriteScope
begin

text \<open>
  What preparing a write scope does to the labels: only objects that can be reached through the two
  directories alone change theirs, to the low label, no handle stays open, and after a success both
  directories are low. Objects are told from their names: a file has one name per hard link, and a
  junction may lead anywhere.
\<close>

section \<open>The contract\<close>

text \<open>
  The file system while the broker works on it: the entries of a directory lead to objects, several
  entries perhaps to the same one; the attributes of an object; the top directory of a volume by its
  root path.
\<close>

type_synonym object_id = nat

record file_tree =
  tree_entry :: "object_id \<Rightarrow> wstring \<Rightarrow> object_id option"
  tree_attributes :: "object_id \<Rightarrow> dword"
  tree_root :: "wstring \<Rightarrow> object_id"

text \<open>The state of the objects: the object a handle is open on, and the label of an object.\<close>

record label_view =
  object_of :: "handle \<Rightarrow> object_id option"
  label_of :: "object_id \<Rightarrow> dacl option"

text \<open>A new handle on an object.\<close>

definition opened :: "label_view \<Rightarrow> handle \<Rightarrow> object_id \<Rightarrow> label_view \<Rightarrow> bool" where
  "opened v h q v' \<longleftrightarrow> h \<noteq> nullptr \<and> h \<noteq> INVALID_HANDLE_VALUE \<and> object_of v h = None
     \<and> v' = v\<lparr>object_of := (object_of v)(h \<mapsto> q)\<rparr>"

text \<open>An object that is no reparse point, and one whose entries are all in the same directory.\<close>

definition plain :: "file_tree \<Rightarrow> object_id \<Rightarrow> bool" where
  "plain t q \<longleftrightarrow> tree_attributes t q AND FILE_ATTRIBUTE_REPARSE_POINT = 0"

definition single :: "file_tree \<Rightarrow> object_id \<Rightarrow> bool" where
  "single t q \<longleftrightarrow> (\<forall>d d' name name'. tree_entry t d name = Some q \<and> tree_entry t d' name' = Some q \<longrightarrow> d = d')"

text \<open>
  The objects enclosed by a directory: itself, and what has entries in enclosed directories and
  nowhere else, so that there is no other way to it.
\<close>

inductive enclosed :: "file_tree \<Rightarrow> object_id \<Rightarrow> object_id \<Rightarrow> bool" for t r where
  itself: "enclosed t r r"
| within: "tree_entry t d name = Some q \<Longrightarrow>
    (\<And>d' name'. tree_entry t d' name' = Some q \<Longrightarrow> enclosed t r d') \<Longrightarrow> enclosed t r q"

fun tree_walk :: "file_tree \<Rightarrow> object_id \<Rightarrow> wstring list \<Rightarrow> object_id option" where
  "tree_walk t q [] = Some q"
| "tree_walk t q (name # names) = Option.bind (tree_entry t q name) (\<lambda>q. tree_walk t q names)"

definition directory_object :: "file_tree \<Rightarrow> wstring \<Rightarrow> object_id option" where
  "directory_object t directory =
     Option.bind (scope_path directory) (\<lambda>(root_path, names). tree_walk t (tree_root t root_path) names)"

definition low_at :: "'w write_scope_api \<Rightarrow> label_view \<Rightarrow> object_id \<Rightarrow> bool" where
  "low_at api v q \<longleftrightarrow> (\<exists>acl. label_of v q = Some acl \<and> (\<exists>a \<in> set acl. IsLowLabelAce api True a))"

text \<open>Labels change only at objects of \<open>P\<close>, and only to \<open>l\<close>; the open handles are the same.\<close>

definition relabels :: "dacl \<Rightarrow> (object_id \<Rightarrow> bool) \<Rightarrow> label_view \<Rightarrow> label_view \<Rightarrow> bool" where
  "relabels l P v v' \<longleftrightarrow> object_of v' = object_of v
     \<and> (\<forall>q. label_of v' q = label_of v q \<or> P q \<and> label_of v' q = Some l)"

lemma relabels_refl [simp]: "relabels l P v v"
  by (simp add: relabels_def)

lemma relabels_trans: "relabels l P v v1 \<Longrightarrow> relabels l P v1 v2 \<Longrightarrow> relabels l P v v2"
  unfolding relabels_def by metis

lemma relabels_mono: "relabels l P v v' \<Longrightarrow> (\<And>q. P q \<Longrightarrow> Q q) \<Longrightarrow> relabels l Q v v'"
  unfolding relabels_def by blast

text \<open>A set of objects that holds what has all its entries in it.\<close>

definition closed :: "file_tree \<Rightarrow> (object_id \<Rightarrow> bool) \<Rightarrow> bool" where
  "closed t P \<longleftrightarrow> (\<forall>q d name. tree_entry t d name = Some q \<longrightarrow> single t q \<longrightarrow> P d \<longrightarrow> P q)"

lemma enclosed_closed: "closed t (enclosed t r)"
  unfolding closed_def single_def by (metis enclosed.within)

lemma tree_walk_append: "tree_walk t q (names @ [name]) = Option.bind (tree_walk t q names) (\<lambda>d. tree_entry t d name)"
  by (induction names arbitrary: q) (auto simp: Option.bind_eq_Some_conv split: option.splits Option.bind_splits)

text \<open>
  Documented behaviour. A directory has one entry, a file one per link; opening relative to a
  directory follows its entry, and is not promised anything for a reparse point; the top directory
  of a volume is none; the low label makes a directory low.
\<close>

locale labels =
  fixes api :: "'w write_scope_api" and view :: "'w \<Rightarrow> label_view" and t :: file_tree
  assumes no_handle: "object_of (view w) nullptr = None" "object_of (view w) INVALID_HANDLE_VALUE = None"
    and close_view: "view (CloseHandle (object_tokens (write_objects api)) h w)
      = (view w)\<lparr>object_of := (object_of (view w))(h := None)\<rparr>"
    and status_error: "nt_error status \<Longrightarrow> RtlNtStatusToDosError (write_objects api) status \<noteq> ERROR_SUCCESS"
    and get_ace: "GetAce (write_objects api) acl n = (ERROR_SUCCESS, raw) \<Longrightarrow> n < length acl \<Longrightarrow> raw = acl ! n"
    and set_sacl: "SetSecurityDescriptorSacl (write_objects api) acl d = (ERROR_SUCCESS, d') \<Longrightarrow> sd_label d' = Some acl"
    and get_security: "GetSecurityInfo (write_objects api) h k LABEL_SECURITY_INFORMATION w = (ERROR_SUCCESS, d) \<Longrightarrow>
      object_of (view w) h = Some q \<Longrightarrow> sd_label d = label_of (view w) q"
    and set_security: "NtSetSecurityObject (write_objects api) h LABEL_SECURITY_INFORMATION d w = (status, w') \<Longrightarrow>
      object_of (view w) h = Some q \<Longrightarrow>
      view w' = (if nt_error status then view w else (view w)\<lparr>label_of := (label_of (view w))(q := sd_label d)\<rparr>)"
    and create_file: "NtCreateFile (write_objects api) h name access w = ((status, h'), w') \<Longrightarrow>
      object_of (view w) h = Some q \<Longrightarrow> plain t q \<Longrightarrow> name \<noteq> [] \<Longrightarrow>
      (if nt_error status then view w' = view w
       else (\<exists>child. tree_entry t q name = Some child \<and> opened (view w) h' child (view w')))"
    and open_root: "OpenRoot (write_objects api) root_path access w = ((e, h'), w') \<Longrightarrow>
      (if e \<noteq> ERROR_SUCCESS then view w' = view w else opened (view w) h' (tree_root t root_path) (view w'))"
    and root_plain: "plain t (tree_root t root_path)"
    and information: "GetFileInformationByHandle (write_objects api) h w = (ERROR_SUCCESS, attributes, links) \<Longrightarrow>
      object_of (view w) h = Some q \<Longrightarrow> attributes = tree_attributes t q
        \<and> (attributes AND FILE_ATTRIBUTE_DIRECTORY \<noteq> 0 \<or> links = 1 \<longrightarrow> single t q)"
    and tag: "FileAttributeTagInfo (write_objects api) h w = (ERROR_SUCCESS, attributes) \<Longrightarrow>
      object_of (view w) h = Some q \<Longrightarrow> attributes = tree_attributes t q"
    and tick: "GetTickCount64 (write_objects api) w = (now, w') \<Longrightarrow> view w' = view w"
    and enumerate: "FileIdBothDirectoryInfo (write_objects api) h restart w = (r, w') \<Longrightarrow> view w' = view w"
    and impersonate: "ImpersonateLoggedOnUser api token w = (e, w') \<Longrightarrow> view w' = view w"
    and revert: "RevertToSelf api w = (reverted, w') \<Longrightarrow> view w' = view w"
    and low_label: "GetLowLabel api = (ERROR_SUCCESS, acl) \<Longrightarrow> \<exists>a \<in> set acl. IsLowLabelAce api True a"
begin

abbreviation objects :: "'w object_api" where "objects \<equiv> write_objects api"

lemma CloseObject_view:
  "view (CloseObject objects h w) = (view w)\<lparr>object_of := (object_of (view w))(h := None)\<rparr>"
proof -
  have "(object_of (view w))(h := None) = object_of (view w)" if "h = nullptr \<or> h = INVALID_HANDLE_VALUE"
    using that no_handle by (auto simp: fun_upd_idem)
  then show ?thesis by (auto simp: UniqueHandle_reset_def close_view)
qed

lemma CheckTime_view: "CheckTime objects deadline w = (e, w') \<Longrightarrow> view w' = view w"
  by (auto simp: CheckTime_def dest: tick split: prod.splits)

lemma ConsumeObject_view: "ConsumeObject objects deadline n w = (r, w') \<Longrightarrow> view w' = view w"
  by (auto simp: ConsumeObject_def dest: CheckTime_view split: prod.splits if_splits)

lemma OpenRelativeFile_view:
  assumes run: "OpenRelativeFile objects parent name access w = ((e, h), w')"
    and parent: "object_of (view w) parent = Some d" "plain t d"
  shows "if e \<noteq> ERROR_SUCCESS then view w' = view w
    else (\<exists>q. tree_entry t d name = Some q \<and> opened (view w) h q (view w'))"
proof (cases "name = [] \<or> name = wide ''.'' \<or> name = wide ''..'' \<or> contains_any (wide [BS, CHR ''/'', CHR '':'']) name
    \<or> length name > 32767")
  case False
  then have "take (length name * 2 mod 2 ^ 16 div 2) name = name" "name \<noteq> []" by simp_all
  with False run create_file[of parent name "access OR SYNCHRONIZE" w _ _ _ d] parent show ?thesis
    unfolding OpenRelativeFile_def OpenPinnedRelative_def Let_def
    by (auto split: prod.splits if_splits dest: status_error)
qed (use run in \<open>auto simp: OpenRelativeFile_def\<close>)

text \<open>A handle opened for an operation and closed after it.\<close>

lemma relabels_closed:
  assumes "opened v h path v1" and "relabels l P v1 (view w)"
  shows "relabels l P v (view (CloseObject objects h w))"
  using assms by (auto simp: relabels_def opened_def CloseObject_view fun_upd_idem)

lemma ScanLabel_low:
  "ScanLabel api directory acl ns low = (ERROR_SUCCESS, low') \<Longrightarrow> \<forall>n \<in> set ns. n < length acl \<Longrightarrow>
    low' = (low \<or> (\<exists>n \<in> set ns. IsLowLabelAce api directory (acl ! n)))"
  by (induction ns arbitrary: low) (auto split: prod.splits if_splits dest: get_ace)

lemma HasLowLabel_low:
  assumes "HasLowLabel api h True w = (ERROR_SUCCESS, True)" and "object_of (view w) h = Some q"
  shows "low_at api (view w) q"
proof -
  obtain d where g: "GetSecurityInfo objects h False LABEL_SECURITY_INFORMATION w = (ERROR_SUCCESS, d)"
    using assms(1) by (auto simp: HasLowLabel_def split: prod.splits if_splits)
  with assms(1) obtain acl where acl: "sd_label d = Some acl" "ScanLabel api True acl [0..<length acl] False = (ERROR_SUCCESS, True)"
    by (auto simp: HasLowLabel_def split: option.splits)
  from ScanLabel_low[OF acl(2)] obtain n where "n < length acl" "IsLowLabelAce api True (acl ! n)" by auto
  then have "\<exists>a \<in> set acl. IsLowLabelAce api True a" by (meson nth_mem)
  with get_security[OF g assms(2)] acl(1) show ?thesis unfolding low_at_def by metis
qed

lemma SetObjectLabel_view:
  assumes "SetObjectLabel objects h l w = (e, w')" and "object_of (view w) h = Some q"
  shows "relabels l (\<lambda>p. p = q) (view w) (view w')"
  using assms(1) set_security[OF _ assms(2)]
  by (auto simp: SetObjectLabel_def SetObjectSecurity_def Let_def relabels_def split: prod.splits if_splits dest!: set_sacl)

lemma MakeLow_ok:
  assumes run: "MakeLow api object_handle parent name l root directory w = (r, w')"
    and parent: "object_of (view w) parent = Some d" "plain t d" "tree_entry t d name = Some q"
    and object_handle: "object_of (view w) object_handle = Some q"
  shows "relabels l (\<lambda>p. p = q) (view w) (view w') \<and> (r = None \<and> directory \<longrightarrow> low_at api (view w') q)"
proof -
  obtain e low where has: "HasLowLabel api object_handle directory w = (e, low)" by fastforce
  show ?thesis
  proof (cases "e = ERROR_SUCCESS \<and> \<not> low")
    case False
    with run has HasLowLabel_low[of object_handle w q] object_handle show ?thesis
      by (auto simp: MakeLow_def split: if_splits)
  next
    case True
    obtain oe h w1 where open1: "OpenRelativeFile objects parent name WRITE_OWNER w = ((oe, h), w1)" by (metis surj_pair)
    note opens = OpenRelativeFile_view[OF open1 parent(1,2)]
    show ?thesis
    proof (cases "oe = ERROR_SUCCESS")
      case False
      with run has True open1 opens show ?thesis by (auto simp: MakeLow_def)
    next
      case ok: True
      then have op: "opened (view w) h q (view w1)" using opens parent(3) by simp
      obtain se w2 where set: "SetObjectLabel objects h l w1 = (se, w2)" by fastforce
      have relabel: "relabels l (\<lambda>p. p = q) (view w1) (view w2)"
        by (rule SetObjectLabel_view[OF set]) (use op in \<open>simp add: opened_def\<close>)
      from relabels_closed[OF op this]
      have "relabels l (\<lambda>p. p = q) (view w) (view (CloseObject objects h w2))" .
      moreover have "w' = CloseObject objects h w2"
        using run has True open1 ok set by (auto simp: MakeLow_def Let_def split: prod.splits if_splits)
      moreover have "low_at api (view w2) q" if "r = None" "directory"
      proof -
        have "HasLowLabel api object_handle True w2 = (ERROR_SUCCESS, True)"
          using run has True open1 ok set that by (auto simp: MakeLow_def Let_def split: prod.splits if_splits)
        moreover have "object_of (view w2) object_handle = Some q"
          using relabel op object_handle by (auto simp: relabels_def opened_def)
        ultimately show ?thesis by (rule HasLowLabel_low)
      qed
      ultimately show ?thesis by (auto simp: low_at_def CloseObject_view)
    qed
  qed
qed

text \<open>
  An object is labelled only if it is no reparse point and has one entry; then, outside the roots,
  it belongs where its directory belongs.
\<close>

lemma LabelObject_ok:
  assumes run: "LabelObject api object_handle parent name l root w = (r, w')"
    and parent: "object_of (view w) parent = Some d" "plain t d" "tree_entry t d name = Some q"
    and object_handle: "object_of (view w) object_handle = Some q"
    and belongs: "single t q \<Longrightarrow> P q"
  shows "relabels l P (view w) (view w') \<and> (r = None \<longrightarrow> low_at api (view w') q \<and> plain t q \<and> P q)
    \<and> (root \<longrightarrow> r \<noteq> Some ERROR_SUCCESS)"
proof -
  obtain ie attributes links where info: "GetFileInformationByHandle objects object_handle w = (ie, attributes, links)"
    by (metis surj_pair)
  let ?directory = "attributes AND FILE_ATTRIBUTE_DIRECTORY \<noteq> 0"
  obtain m w1 where make: "MakeLow api object_handle parent name l root ?directory w = (m, w1)" by fastforce
  note step = MakeLow_ok[OF make parent object_handle]
  have "m \<noteq> Some ERROR_SUCCESS" if root
    using make that by (auto simp: MakeLow_def child_error_def Let_def split: prod.splits if_splits)
  moreover have "plain t q \<and> P q"
    if "ie = ERROR_SUCCESS" "attributes AND FILE_ATTRIBUTE_REPARSE_POINT = 0" "?directory \<or> links = 1"
    using information[OF info[unfolded that(1)] object_handle] that belongs by (simp add: plain_def)
  moreover have "relabels l P (view w) (view w1)" if "P q"
    by (rule relabels_mono[where P = "\<lambda>p. p = q"]) (use step that in auto)
  ultimately show ?thesis
    using run info make step
    by (auto simp: LabelObject_def Let_def split: prod.splits if_splits option.splits)
qed

text \<open>What labelling an object by name guarantees.\<close>

definition labels_ok :: "dacl \<Rightarrow> 'w labeling \<Rightarrow> bool" where
  "labels_ok l label_tree \<longleftrightarrow> (\<forall>parent name root n w e n' w' d P.
     label_tree parent name root n w = Some ((e, n'), w') \<longrightarrow>
     object_of (view w) parent = Some d \<longrightarrow> plain t d \<longrightarrow> closed t P \<longrightarrow>
     (if root then \<forall>q. tree_entry t d name = Some q \<longrightarrow> P q else P d) \<longrightarrow>
     relabels l P (view w) (view w')
     \<and> (root \<and> e = ERROR_SUCCESS \<longrightarrow> (\<exists>q. tree_entry t d name = Some q \<and> low_at api (view w') q)))"

lemma LabelRecords_ok:
  assumes "labels_ok l label_tree" and "closed t P" and "P d" and "plain t d"
  shows "LabelRecords label_tree h records n w = Some ((e, n'), w') \<Longrightarrow> object_of (view w) h = Some d \<Longrightarrow>
    relabels l P (view w) (view w')"
proof (induction records arbitrary: n w)
  case (Cons c records)
  show ?case
  proof (cases "FileName c = wide ''.'' \<or> FileName c = wide ''..''")
    case True
    with Cons.prems have "LabelRecords label_tree h records n w = Some ((e, n'), w')" by auto
    with Cons show ?thesis by blast
  next
    case False
    with Cons.prems(1) obtain e1 n1 w1 where tree: "label_tree h (FileName c) False n w = Some ((e1, n1), w1)"
      by (auto split: option.splits)
    have step: "relabels l P (view w) (view w1)"
      using assms(1)[unfolded labels_ok_def, rule_format, OF tree Cons.prems(2) assms(4,2)] assms(3) by simp
    show ?thesis
    proof (cases "e1 = ERROR_SUCCESS")
      case True
      with Cons.prems(1) False tree have "LabelRecords label_tree h records n1 w1 = Some ((e, n'), w')" by simp
      from Cons.IH[OF this] step Cons.prems(2) have "relabels l P (view w1) (view w')"
        by (simp add: relabels_def)
      with step show ?thesis by (rule relabels_trans)
    next
      case e1: False
      with Cons.prems(1) False tree step show ?thesis by simp
    qed
  qed
qed simp

lemma LabelBatches_ok:
  assumes run: "LabelBatches objects deadline label_tree entries h root n w = Some r" and "labels_ok l label_tree"
    and "object_of (view w) h = Some d" and place: "closed t P" "P d" "plain t d"
  shows "relabels l P (view w) (view (snd r))"
proof -
  have "api' = objects \<longrightarrow> labels_ok l label_tree \<longrightarrow> object_of (view w) h = Some d \<longrightarrow>
      relabels l P (view w) (view (snd r))"
    if "LabelBatches api' deadline label_tree entries h root n w = Some r" for api' deadline label_tree entries h root n w r
    using that
  proof (rule LabelBatches.raw_induct[where P = "\<lambda>api' deadline label_tree entries h root n w r. api' = objects \<longrightarrow>
      labels_ok l label_tree \<longrightarrow> object_of (view w) h = Some d \<longrightarrow> relabels l P (view w) (view (snd r))", rotated],
      intro impI, goal_cases)
    case (1 batches api' deadline label_tree entries h root n w r)
    obtain te w1 where t: "CheckTime objects deadline w = (te, w1)" by fastforce
    obtain ee first rest w2 where b: "FileIdBothDirectoryInfo objects entries False w1 = ((ee, first, rest), w2)"
      by (metis surj_pair)
    have view: "view w1 = view w" "view w2 = view w" using CheckTime_view[OF t] enumerate[OF b] by simp_all
    show ?case
    proof (cases "te = ERROR_SUCCESS \<and> ee = ERROR_SUCCESS")
      case False
      with 1(2,4) t b view CheckTime_view show ?thesis by (auto split: if_split_asm prod.splits)
    next
      case True
      then obtain ce n1 w3 where records: "LabelRecords label_tree h (first # rest) n w2 = Some ((ce, n1), w3)"
        using 1(2,4) t b by (auto simp: Option.bind_eq_Some_conv simp del: LabelRecords.simps)
      from LabelRecords_ok[OF 1(5) place records] 1(6) view
      have step: "relabels l P (view w) (view w3)" by simp
      show ?thesis
      proof (cases "ce = ERROR_SUCCESS")
        case False
        with 1(2,4) t b True records step show ?thesis by (auto simp del: LabelRecords.simps)
      next
        case ce: True
        with 1(2,4) t b True records have "batches objects deadline label_tree entries h root n1 w3 = Some r"
          by (auto simp del: LabelRecords.simps)
        from 1(1)[OF this] 1(5,6) step have "relabels l P (view w3) (view (snd r))"
          by (simp add: relabels_def)
        with step show ?thesis by (rule relabels_trans)
      qed
    qed
  qed
  with assms show ?thesis by blast
qed

lemma LabelLevel_ok:
  assumes deeper: "\<And>label_tree. deeper = Some label_tree \<Longrightarrow> labels_ok l label_tree"
    and low: "\<exists>a \<in> set l. IsLowLabelAce api True a"
  shows "labels_ok l (LabelLevel api l deadline deeper)"
  unfolding labels_ok_def
proof (intro allI impI)
  fix parent name root n w e n' w' d P
  assume run: "LabelLevel api l deadline deeper parent name root n w = Some ((e, n'), w')"
    and parent: "object_of (view w) parent = Some d" "plain t d" and P: "closed t P"
    and place: "if root then \<forall>q. tree_entry t d name = Some q \<longrightarrow> P q else P d"
  let ?goal = "relabels l P (view w) (view w')
    \<and> (root \<and> e = ERROR_SUCCESS \<longrightarrow> (\<exists>q. tree_entry t d name = Some q \<and> low_at api (view w') q))"
  show ?goal
  proof (cases deeper)
    case None
    with run show ?thesis by (simp add: LabelLevel_def Let_def)
  next
    case (Some label_tree)
    obtain be n1 w1 where budget: "ConsumeObject objects deadline n w = ((be, n1), w1)" by (metis surj_pair)
    have view1: "view w1 = view w" by (rule ConsumeObject_view[OF budget])
    obtain oe h w2 where open1: "OpenRelativeFile objects parent name (READ_CONTROL OR FILE_READ_ATTRIBUTES) w1 = ((oe, h), w2)"
      by (metis surj_pair)
    note opens = OpenRelativeFile_view[OF open1, of d, unfolded view1, OF parent]
    show ?thesis
    proof (cases "be = ERROR_SUCCESS \<and> oe = ERROR_SUCCESS")
      case False
      with run Some budget open1 opens view1 show ?thesis
        by (auto simp: LabelLevel_def Let_def child_error_def split: if_split_asm)
    next
      case True
      then obtain q where q: "tree_entry t d name = Some q" and op: "opened (view w) h q (view w2)" using opens by auto
      then have parent2: "object_of (view w2) parent = Some d" and h2: "object_of (view w2) h = Some q"
        using parent by (auto simp: opened_def)
      have belongs: "single t q \<Longrightarrow> P q" using place P q unfolding closed_def by (cases root) auto
      obtain r w3 where label_object: "LabelObject api h parent name l root w2 = (r, w3)" by fastforce
      note step = LabelObject_ok[where P = P, OF label_object parent2 parent(2) q h2 belongs]
      have step3: "relabels l P (view w2) (view w3)" using step by blast
      show ?thesis
      proof (cases r)
        case (Some error)
        with run \<open>deeper = Some label_tree\<close> budget open1 True label_object
        have "w' = CloseObject objects h w3" "e = error" by (auto simp: LabelLevel_def Let_def)
        with relabels_closed[OF op step3] step Some show ?thesis by auto
      next
        case None
        have parent3: "object_of (view w3) parent = Some d" and h3: "object_of (view w3) h = Some q"
          using parent2 h2 step3 by (simp_all add: relabels_def)
        obtain ee entries w4 where open2: "OpenRelativeFile objects parent name FILE_LIST_DIRECTORY w3 = ((ee, entries), w4)"
          by (metis surj_pair)
        note opens2 = OpenRelativeFile_view[OF open2 parent3 parent(2)]
        have low3: "low_at api (view w3) q" and inside: "plain t q" "P q" using step None by simp_all
        show ?thesis
        proof (cases "ee = ERROR_SUCCESS")
          case False
          with run \<open>deeper = Some label_tree\<close> budget open1 True label_object None open2
          have "w' = CloseObject objects h w4" "root \<longrightarrow> e \<noteq> ERROR_SUCCESS"
            by (auto simp: LabelLevel_def Let_def child_error_def)
          with relabels_closed[OF op, of l _ w4] step3 opens2 False show ?thesis by auto
        next
          case ee: True
          then have op2: "opened (view w3) entries q (view w4)" using opens2 q by simp
          obtain w5 where batches: "LabelBatches objects deadline label_tree entries h root n1 w4 = Some ((e, n'), w5)"
            and w': "w' = CloseObject objects h (CloseObject objects entries w5)"
            using run \<open>deeper = Some label_tree\<close> budget open1 True label_object None open2 ee
            by (auto simp: LabelLevel_def Let_def)
          have "object_of (view w4) h = Some q" using op2 h3 by (auto simp: opened_def)
          from LabelBatches_ok[OF batches deeper[OF \<open>deeper = Some label_tree\<close>] this P inside(2,1)]
          have step5: "relabels l P (view w4) (view w5)" by simp
          from relabels_closed[OF op2 this]
          have step4: "relabels l P (view w3) (view (CloseObject objects entries w5))" .
          from relabels_closed[OF op relabels_trans[OF step3 this]]
          have "relabels l P (view w) (view w')" by (simp add: w')
          moreover have "low_at api (view w') q" if "root"
          proof -
            have "label_of (view w') q = label_of (view w3) q \<or> label_of (view w') q = Some l"
              using step4 by (auto simp: w' CloseObject_view relabels_def)
            then show ?thesis using low3 low by (auto simp: low_at_def)
          qed
          ultimately show ?thesis using q by simp
        qed
      qed
    qed
  qed
qed

lemma LabelTree_ok:
  "\<exists>a \<in> set l. IsLowLabelAce api True a \<Longrightarrow> labels_ok l (LabelTree api l deadline levels)"
  by (induction levels) (auto intro: LabelLevel_ok)

section \<open>The roots\<close>

text \<open>The handles \<open>hs\<close> were opened since \<open>v\<close>, and nothing else happened.\<close>

definition pinned :: "label_view \<Rightarrow> handle list \<Rightarrow> label_view \<Rightarrow> bool" where
  "pinned v hs v' \<longleftrightarrow> label_of v' = label_of v
     \<and> (\<forall>h. h \<notin> set hs \<longrightarrow> object_of v' h = object_of v h) \<and> (\<forall>h \<in> set hs. object_of v h = None)"

lemma CloseAll_view:
  "view (CloseAll objects hs w) = (view w)\<lparr>object_of := (\<lambda>h. if h \<in> set hs then None else object_of (view w) h)\<rparr>"
proof (induction hs arbitrary: w)
  case (Cons h hs)
  have "view (CloseAll objects (h # hs) w) = view (CloseAll objects hs (CloseObject objects h w))"
    by (simp add: CloseAll_def)
  also have "\<dots> = (view w)\<lparr>object_of := (\<lambda>g. if g \<in> set hs then None else ((object_of (view w))(h := None)) g)\<rparr>"
    unfolding Cons.IH CloseObject_view by (simp cong: if_cong)
  also have "(\<lambda>g. if g \<in> set hs then None else ((object_of (view w))(h := None)) g)
      = (\<lambda>g. if g \<in> set (h # hs) then None else object_of (view w) g)"
    by auto
  finally show ?case .
qed (simp add: CloseAll_def)

lemma CloseAll_relabels:
  assumes "pinned v hs v1" and "relabels l P v1 (view w)"
  shows "relabels l P v (view (CloseAll objects hs w))"
  using assms unfolding relabels_def pinned_def CloseAll_view by (auto simp: fun_eq_iff)

lemma OpenAncestors_ok:
  "OpenAncestors objects deadline hs components w = ((e, hs'), w') \<Longrightarrow> pinned v hs (view w) \<Longrightarrow> hs \<noteq> [] \<Longrightarrow>
    object_of (view w) (last hs) = Some d \<Longrightarrow> plain t d \<Longrightarrow>
    pinned v hs' (view w') \<and> (e = ERROR_SUCCESS \<longrightarrow> (\<exists>d'. tree_walk t d components = Some d'
      \<and> object_of (view w') (last hs') = Some d' \<and> plain t d'))"
proof (induction components arbitrary: hs w d)
  case (Cons component components)
  obtain te w1 where time: "CheckTime objects deadline w = (te, w1)" by fastforce
  have view1: "view w1 = view w" by (rule CheckTime_view[OF time])
  obtain oe h w2 where open1: "OpenRelativeFile objects (last hs) component FILE_READ_ATTRIBUTES w1 = ((oe, h), w2)"
    by (metis surj_pair)
  note opens = OpenRelativeFile_view[OF open1, of d, unfolded view1, OF Cons.prems(4,5)]
  obtain ie attributes where info: "FileAttributeTagInfo objects h w2 = (ie, attributes)" by fastforce
  show ?case
  proof (cases "te = ERROR_SUCCESS \<and> oe = ERROR_SUCCESS")
    case False
    with Cons.prems time open1 opens view1 show ?thesis by (auto split: if_split_asm)
  next
    case True
    then obtain q where q: "tree_entry t d component = Some q" and op: "opened (view w) h q (view w2)" using opens by auto
    then have h2: "object_of (view w2) h = Some q" by (simp add: opened_def)
    show ?thesis
    proof (cases "ie = ERROR_SUCCESS \<and> attributes AND FILE_ATTRIBUTE_REPARSE_POINT = 0")
      case False
      then have "hs' = hs" "e \<noteq> ERROR_SUCCESS" "w' = CloseObject objects h w2"
        using Cons.prems(1) time open1 info True by (auto split: if_split_asm)
      moreover have "view (CloseObject objects h w2) = view w"
        using op by (auto simp: CloseObject_view opened_def fun_upd_idem)
      ultimately show ?thesis using Cons.prems(2) by simp
    next
      case go: True
      then have "OpenAncestors objects deadline (hs @ [h]) components w2 = ((e, hs'), w')"
        using Cons.prems(1) time open1 info True by simp
      moreover have "pinned v (hs @ [h]) (view w2)"
        using op Cons.prems(2) by (auto simp: pinned_def opened_def split: if_split_asm)
      moreover have "object_of (view w2) (last (hs @ [h])) = Some q" using h2 by simp
      moreover have "plain t q" using tag[of h w2 attributes q] info go h2 by (simp add: plain_def)
      ultimately show ?thesis using Cons.IH[of "hs @ [h]" w2 q] q by simp
    qed
  qed
qed simp

lemma directory_object_last:
  assumes "scope_path directory = Some (root, parts)" and "tree_walk t (tree_root t root) (butlast parts) = Some d"
  shows "directory_object t directory = tree_entry t d (last parts)"
proof -
  from assms(1) have "parts \<noteq> []"
    by (auto simp: scope_path_def absolute_path_def wide_def split: option.splits if_splits)
  then show ?thesis
    using tree_walk_append[of t "tree_root t root" "butlast parts" "last parts"] assms by (simp add: directory_object_def)
qed

lemma LabelRoot_ok:
  assumes run: "LabelRoot api directory l deadline n w = Some ((e, n'), w')" and low: "\<exists>a \<in> set l. IsLowLabelAce api True a"
  shows "relabels l (\<lambda>q. \<exists>r. directory_object t directory = Some r \<and> enclosed t r q) (view w) (view w')
    \<and> (e = ERROR_SUCCESS \<longrightarrow> (\<exists>r. directory_object t directory = Some r \<and> low_at api (view w') r))"
proof -
  let ?P = "\<lambda>q. \<exists>r. directory_object t directory = Some r \<and> enclosed t r q"
  obtain te w1 where time: "CheckTime objects deadline w = (te, w1)" by fastforce
  have view1: "view w1 = view w" by (rule CheckTime_view[OF time])
  show ?thesis
  proof (cases "te = ERROR_SUCCESS \<and> scope_path directory \<noteq> None")
    case False
    with run time view1 show ?thesis
      by (cases "scope_path directory") (auto simp: LabelRoot_def Let_def split: if_split_asm)
  next
    case True
    then obtain root parts where p: "scope_path directory = Some (root, parts)" by auto
    obtain oe volume w2 where o: "OpenRoot objects root FILE_READ_ATTRIBUTES w1 = ((oe, volume), w2)" by (metis surj_pair)
    show ?thesis
    proof (cases "ValidateScopeRoot api (native_path (root, parts)) w1 = ERROR_SUCCESS \<and> oe = ERROR_SUCCESS")
      case False
      with run time True p o view1 open_root[OF o] show ?thesis by (auto simp: LabelRoot_def Let_def split: if_split_asm)
    next
      case opened_root: True
      then have op: "opened (view w) volume (tree_root t root) (view w2)" using open_root[OF o] view1 by simp
      obtain ae hs w3 where a: "OpenAncestors objects deadline [volume] (butlast parts) w2 = ((ae, hs), w3)"
        by (metis surj_pair)
      have start: "pinned (view w) [volume] (view w2)" "object_of (view w2) (last [volume]) = Some (tree_root t root)"
        using op by (auto simp: pinned_def opened_def)
      note ancestors = OpenAncestors_ok[OF a start(1) _ start(2) root_plain]
      show ?thesis
      proof (cases "ae = ERROR_SUCCESS")
        case False
        then have "w' = CloseAll objects hs w3" "e \<noteq> ERROR_SUCCESS"
          using run time True p o opened_root a by (auto simp: LabelRoot_def Let_def simp del: OpenAncestors.simps)
        with ancestors CloseAll_relabels[of "view w" hs "view w3" l _ w3] show ?thesis by auto
      next
        case opened_all: True
        then obtain w4 where tree: "LabelTree api l deadline (Suc MaximumWriteScopeDepth) (last hs) (last parts) True n w3
            = Some ((e, n'), w4)" and w': "w' = CloseAll objects hs w4"
          using run time True p o opened_root a
          by (auto simp: LabelRoot_def Let_def simp del: OpenAncestors.simps LabelTree.simps)
        from ancestors opened_all obtain d where d: "tree_walk t (tree_root t root) (butlast parts) = Some d"
            "object_of (view w3) (last hs) = Some d" "plain t d" and pins: "pinned (view w) hs (view w3)" by auto
        note entry = directory_object_last[OF p d(1)]
        have P: "closed t ?P" using enclosed_closed unfolding closed_def by blast
        have place: "if True then \<forall>q. tree_entry t d (last parts) = Some q \<longrightarrow> ?P q else ?P d"
          using entry by (auto intro: enclosed.itself)
        from LabelTree_ok[OF low, of deadline "Suc MaximumWriteScopeDepth", unfolded labels_ok_def, rule_format,
            OF tree d(2,3) P place]
        have "relabels l ?P (view w3) (view w4)
          \<and> (e = ERROR_SUCCESS \<longrightarrow> (\<exists>r. directory_object t directory = Some r \<and> low_at api (view w4) r))"
          by (simp add: entry)
        with CloseAll_relabels[OF pins] show ?thesis by (auto simp: w' low_at_def CloseAll_view)
      qed
    qed
  qed
qed

lemma PrepareBrokerWriteScope_ok:
  assumes run: "PrepareBrokerWriteScope api token profile work w = Some (e, w')"
  shows "relabels (snd (GetLowLabel api))
      (\<lambda>q. \<exists>directory \<in> {profile, work}. \<exists>r. directory_object t directory = Some r \<and> enclosed t r q) (view w) (view w')
    \<and> (e = ERROR_SUCCESS \<longrightarrow> (\<forall>directory \<in> {profile, work}. \<exists>r. directory_object t directory = Some r
         \<and> low_at api (view w') r))"
proof -
  let ?P = "\<lambda>q. \<exists>directory \<in> {profile, work}. \<exists>r. directory_object t directory = Some r \<and> enclosed t r q"
  obtain now w1 where time: "GetTickCount64 objects w = (now, w1)" by fastforce
  obtain le l where g: "GetLowLabel api = (le, l)" by fastforce
  obtain ie w2 where i: "ImpersonateLoggedOnUser api token w1 = (ie, w2)" by fastforce
  have view1: "view w1 = view w" "view w2 = view w" using tick[OF time] impersonate[OF i] by simp_all
  show ?thesis
  proof (cases "ConvertLowLabel api = ERROR_SUCCESS \<and> le = ERROR_SUCCESS \<and> ie = ERROR_SUCCESS")
    case False
    with run time g i view1 show ?thesis
      by (auto simp: PrepareBrokerWriteScope_def PrepareWriteScope_def Let_def split: if_split_asm)
  next
    case True
    then have low: "\<exists>a \<in> set l. IsLowLabelAce api True a" using low_label g by simp
    let ?deadline = "now + WriteScopeTimeoutMilliseconds"
    let ?roots = "Option.bind (LabelRoot api profile l ?deadline MaximumWriteScopeObjects w2) (\<lambda>((profileError, remaining), w).
        if profileError \<noteq> ERROR_SUCCESS then Some ((profileError, remaining), w)
        else LabelRoot api work l ?deadline remaining w)"
    have "Option.bind ?roots (\<lambda>((error, remaining), w).
        let (reverted, w) = RevertToSelf api w in if reverted then Some (error, w) else None) = Some (e, w')"
      using run time g i True by (simp add: PrepareBrokerWriteScope_def PrepareWriteScope_def Let_def)
    then obtain n2 w4 where roots: "?roots = Some ((e, n2), w4)" and r: "RevertToSelf api w4 = (True, w')"
      by (cases ?roots) (auto split: prod.splits if_split_asm)
    then obtain e1 n1 w3 where first: "LabelRoot api profile l ?deadline MaximumWriteScopeObjects w2 = Some ((e1, n1), w3)"
      by (cases "LabelRoot api profile l ?deadline MaximumWriteScopeObjects w2") auto
    have second: "if e1 \<noteq> ERROR_SUCCESS then e = e1 \<and> w4 = w3 else LabelRoot api work l ?deadline n1 w3 = Some ((e, n2), w4)"
      using roots by (auto simp: first split: if_split_asm)
    note step1 = LabelRoot_ok[OF first low]
    have labels1: "relabels l ?P (view w) (view w3)"
      by (rule relabels_mono[where P = "\<lambda>q. \<exists>r. directory_object t profile = Some r \<and> enclosed t r q"])
        (use step1 view1 in auto)
    show ?thesis
    proof (cases "e1 = ERROR_SUCCESS")
      case False
      with second revert[OF r] labels1 g show ?thesis by auto
    next
      case True
      with second have work: "LabelRoot api work l ?deadline n1 w3 = Some ((e, n2), w4)" by simp
      note step2 = LabelRoot_ok[OF work low]
      have labels2: "relabels l ?P (view w3) (view w4)"
        by (rule relabels_mono[where P = "\<lambda>q. \<exists>r. directory_object t work = Some r \<and> enclosed t r q"])
          (use step2 in auto)
      have "low_at api (view w4) path" if "low_at api (view w3) path" for path
        using that labels2 low unfolding low_at_def relabels_def by metis
      with step1 step2 True revert[OF r] relabels_trans[OF labels1 labels2] g show ?thesis by auto
    qed
  qed
qed

end

section \<open>A reference instance\<close>

text \<open>
  Directories \<open>C:\U\<close>, \<open>C:\D\<close> and \<open>C:\X\<close>. In \<open>U\<close> are a file \<open>f\<close>, a file \<open>g\<close> that is also \<open>X\h\<close>, and a
  junction \<open>j\<close> to \<open>X\<close>. Handles are numbered upwards.
\<close>

record label_world =
  label_state :: label_view
  next_handle :: handle
  enumerated :: "handle \<Rightarrow> bool"
  clock :: "64 word"

definition drive_path :: "string \<Rightarrow> wstring" where
  "drive_path name = wide ([CHR ''C'', CHR '':'', BS] @ name)"

definition example_entries :: "((object_id \<times> wstring) \<times> object_id) list" where
  "example_entries = [((0, wide ''U''), 1), ((0, wide ''D''), 2), ((0, wide ''X''), 3), ((1, wide ''f''), 4),
     ((1, wide ''g''), 5), ((3, wide ''h''), 5), ((1, wide ''j''), 6)]"

definition example_tree :: file_tree where
  "example_tree = \<lparr>tree_entry = (\<lambda>q name. map_of example_entries (q, name)),
     tree_attributes = (\<lambda>q. if q = 6 then FILE_ATTRIBUTE_DIRECTORY OR FILE_ATTRIBUTE_REPARSE_POINT
       else if q = 4 \<or> q = 5 then 0 else FILE_ATTRIBUTE_DIRECTORY),
     tree_root = (\<lambda>_. 0)\<rparr>"

definition open_at :: "label_world \<Rightarrow> handle \<Rightarrow> object_id option" where
  "open_at w h = (if h = nullptr \<or> h = INVALID_HANDLE_VALUE then None else object_of (label_state w) h)"

definition world_view :: "label_world \<Rightarrow> label_view" where
  "world_view w = (label_state w)\<lparr>object_of := open_at w\<rparr>"

definition open_object :: "object_id option \<Rightarrow> label_world \<Rightarrow> (dword \<times> handle) \<times> label_world" where
  "open_object q w = (let h = next_handle w; v = label_state w in case q of
     None \<Rightarrow> ((0xC0000034, nullptr), w)
   | Some p \<Rightarrow> if h = nullptr \<or> h = INVALID_HANDLE_VALUE \<or> object_of v h \<noteq> None then ((0xC0000017, nullptr), w)
       else ((0, h), w\<lparr>label_state := v\<lparr>object_of := (object_of v)(h \<mapsto> p)\<rparr>, next_handle := h + 1\<rparr>))"

definition label_CloseHandle :: "handle \<Rightarrow> label_world \<Rightarrow> label_world" where
  "label_CloseHandle h w = w\<lparr>label_state := (label_state w)\<lparr>object_of := (object_of (label_state w))(h := None)\<rparr>\<rparr>"

definition label_NtCreateFile :: "handle \<Rightarrow> wstring \<Rightarrow> dword \<Rightarrow> label_world \<Rightarrow> (dword \<times> handle) \<times> label_world" where
  "label_NtCreateFile h name access w =
     open_object (Option.bind (open_at w h) (\<lambda>q. tree_entry example_tree (if q = 6 then 3 else q) name)) w"

definition label_OpenRoot :: "wstring \<Rightarrow> dword \<Rightarrow> label_world \<Rightarrow> (dword \<times> handle) \<times> label_world" where
  "label_OpenRoot root access w = (let ((status, h), w') = open_object (Some (tree_root example_tree root)) w in
     ((if status = 0 then ERROR_SUCCESS else ERROR_ACCESS_DENIED, h), w'))"

definition label_GetSecurityInfo :: "handle \<Rightarrow> bool \<Rightarrow> dword \<Rightarrow> label_world \<Rightarrow> dword \<times> security_descriptor" where
  "label_GetSecurityInfo h kind info w = (case open_at w h of
     None \<Rightarrow> (ERROR_INVALID_HANDLE, \<lparr>sd_owner = None, sd_dacl = None, sd_label = None, sd_control = 0\<rparr>)
   | Some p \<Rightarrow> (ERROR_SUCCESS, \<lparr>sd_owner = None, sd_dacl = None, sd_label = label_of (label_state w) p, sd_control = 0\<rparr>))"

definition label_NtSetSecurityObject :: "handle \<Rightarrow> dword \<Rightarrow> security_descriptor \<Rightarrow> label_world \<Rightarrow> dword \<times> label_world" where
  "label_NtSetSecurityObject h info d w = (let v = label_state w in case open_at w h of
     None \<Rightarrow> (0xC0000008, w)
   | Some p \<Rightarrow> (0, w\<lparr>label_state := v\<lparr>label_of := (label_of v)(p := sd_label d)\<rparr>\<rparr>))"

definition label_GetFileInformationByHandle :: "handle \<Rightarrow> label_world \<Rightarrow> dword \<times> dword \<times> dword" where
  "label_GetFileInformationByHandle h w = (case open_at w h of None \<Rightarrow> (ERROR_INVALID_HANDLE, 0, 0)
     | Some q \<Rightarrow> (ERROR_SUCCESS, tree_attributes example_tree q, if q = 5 then 2 else 1))"

definition label_FileAttributeTagInfo :: "handle \<Rightarrow> label_world \<Rightarrow> dword \<times> dword" where
  "label_FileAttributeTagInfo h w = (case open_at w h of None \<Rightarrow> (ERROR_INVALID_HANDLE, 0)
     | Some q \<Rightarrow> (ERROR_SUCCESS, tree_attributes example_tree q))"

definition label_FileIdBothDirectoryInfo ::
  "handle \<Rightarrow> bool \<Rightarrow> label_world \<Rightarrow> (dword \<times> dirent \<times> dirent list) \<times> label_world"
where
  "label_FileIdBothDirectoryInfo h restart w = (let f = (\<lambda>name. \<lparr>FileName = wide name, FileAttributes = 0\<rparr>) in
     if open_at w h = Some 1 \<and> \<not> enumerated w h
     then ((ERROR_SUCCESS, f ''.'', [f ''f'', f ''g'', f ''j'']), w\<lparr>enumerated := (enumerated w)(h := True)\<rparr>)
     else ((ERROR_NO_MORE_FILES, f ''.'', []), w))"

definition label_GetAce :: "dacl \<Rightarrow> nat \<Rightarrow> dword \<times> ace" where
  "label_GetAce acl n = (if n < length acl then (ERROR_SUCCESS, acl ! n)
     else (ERROR_INVALID_DATA, \<lparr>AceType = 0, AceFlags = 0, AceMask = 0, AceSid = []\<rparr>))"

definition label_GetTickCount64 :: "label_world \<Rightarrow> 64 word \<times> label_world" where
  "label_GetTickCount64 w = (clock w, w\<lparr>clock := clock w + 1\<rparr>)"

definition label_tokens :: "label_world token_api" where
  "label_tokens = \<lparr>
     GetTokenInformationSize = (\<lambda>_ _ _. (ERROR_ACCESS_DENIED, 0)),
     GetTokenInformation = (\<lambda>_ _ _ _. (ERROR_ACCESS_DENIED, UserInformation [])),
     SetTokenInformation = (\<lambda>_ _ w. (ERROR_ACCESS_DENIED, w)),
     AdjustTokenPrivilegesDisableAll = (\<lambda>_ w. ((False, ERROR_ACCESS_DENIED), w)),
     CreateRestrictedToken = (\<lambda>_ _ _ _ w. ((ERROR_ACCESS_DENIED, nullptr), w)),
     LogonUserW = (\<lambda>_ _ w. ((ERROR_ACCESS_DENIED, nullptr), w)), CloseHandle = label_CloseHandle,
     SetEntriesInAclW = (\<lambda>s rights acl. (ERROR_SUCCESS, acl @ [(s, rights)])),
     LookupPrivilegeValueW = (\<lambda>_. (1313, \<lparr>LowPart = 0, HighPart = 0\<rparr>)),
     CreateWellKnownSid = (\<lambda>_. (ERROR_SUCCESS, [])), SidValid = (\<lambda>s. s \<noteq> []), SidEqual = (=),
     GetSidSubAuthorityCount = (\<lambda>_. None), GetSidSubAuthority = (\<lambda>_ _. None),
     GetComputerNameW = (ERROR_SUCCESS, []),
     LookupAccountNameSize = (\<lambda>_ _. (ERROR_NONE_MAPPED, 0, 0)), LookupAccountNameW = (\<lambda>_ _. (ERROR_NONE_MAPPED, [], 0)),
     LsaOpenPolicy = (\<lambda>_. 0), LsaEnumerateAccountRights = (\<lambda>_ _. (0, [])), LsaNtStatusToWinError = id\<rparr>"

definition label_objects :: "label_world object_api" where
  "label_objects = \<lparr>object_tokens = label_tokens, GetModuleHandleW = ERROR_SUCCESS, GetProcAddress = (\<lambda>_. ERROR_SUCCESS),
     RtlNtStatusToDosError = (\<lambda>_. ERROR_ACCESS_DENIED), NtSetSecurityObject = label_NtSetSecurityObject,
     NtCreateFile = label_NtCreateFile, NtOpenDirectoryObject = (\<lambda>_. open_object None),
     InitializeSecurityDescriptor = (ERROR_SUCCESS, \<lparr>sd_owner = None, sd_dacl = None, sd_label = None, sd_control = 0\<rparr>),
     SetSecurityDescriptorDacl = (\<lambda>acl d. (ERROR_SUCCESS, d\<lparr>sd_dacl := Some acl\<rparr>)),
     SetSecurityDescriptorSacl = (\<lambda>acl d. (ERROR_SUCCESS, d\<lparr>sd_label := Some acl\<rparr>)),
     SetSecurityDescriptorControl = (\<lambda>_ c d. (ERROR_SUCCESS, d\<lparr>sd_control := c\<rparr>)),
     GetSecurityDescriptorControl = (\<lambda>d. (ERROR_SUCCESS, sd_control d)), GetSecurityInfo = label_GetSecurityInfo,
     InitializeAcl = (\<lambda>_. ERROR_SUCCESS), GetAce = label_GetAce, AddAce = (\<lambda>acl raw. (ERROR_SUCCESS, acl @ [raw])),
     AddAccessDeniedAce = (\<lambda>acl _ _. (ERROR_SUCCESS, acl)), AddAccessAllowedAce = (\<lambda>acl _ _. (ERROR_SUCCESS, acl)),
     CreatorOwnerRightsSid = (ERROR_SUCCESS, [3, 4]), OpenRoot = label_OpenRoot, GetDriveTypeW = (\<lambda>_ _. 3),
     GetVolumeInformationByHandleW = (\<lambda>_ _. (ERROR_SUCCESS, FILE_PERSISTENT_ACLS)),
     GetFinalPathNameByHandleW = (\<lambda>_ _. (ERROR_ACCESS_DENIED, 0, [])),
     FileAttributeTagInfo = label_FileAttributeTagInfo,
     GetFileInformationByHandle = label_GetFileInformationByHandle,
     FileIdBothDirectoryInfo = label_FileIdBothDirectoryInfo, GetTickCount64 = label_GetTickCount64\<rparr>"

definition low_ace :: ace where
  "low_ace = \<lparr>AceType = SYSTEM_MANDATORY_LABEL_ACE_TYPE, AceFlags = 3, AceMask = 1, AceSid = [16]\<rparr>"

definition reference_write_scope :: "label_world write_scope_api" where
  "reference_write_scope = \<lparr>write_objects = label_objects, lower = id, IsLowLabelSid = (\<lambda>s. s = [16]),
     GetWindowsDirectory = (\<lambda>_. (ERROR_SUCCESS, drive_path ''W'')),
     GetEnvironmentVariableW = (\<lambda>name _. (5, if name = wide ''PUBLIC'' then drive_path [CHR ''V'', BS, CHR ''P''] else drive_path ''P'')),
     ConvertLowLabel = ERROR_SUCCESS, GetLowLabel = (ERROR_SUCCESS, [low_ace]),
     ImpersonateLoggedOnUser = (\<lambda>_ w. (ERROR_SUCCESS, w)), RevertToSelf = (\<lambda>w. (True, w))\<rparr>"

definition example_world :: label_world where
  "example_world = \<lparr>label_state = \<lparr>object_of = (\<lambda>_. None), label_of = (\<lambda>_. None)\<rparr>, next_handle = 8,
     enumerated = (\<lambda>_. False), clock = 1000\<rparr>"

lemma label_open_at_same: "object_of (label_state w') = object_of (label_state w) \<Longrightarrow> open_at w' = open_at w"
  by (simp add: open_at_def fun_eq_iff)

lemma label_open_at_opened:
  "object_of (label_state w') = (object_of (label_state w))(h \<mapsto> p) \<Longrightarrow> h \<noteq> nullptr \<Longrightarrow> h \<noteq> INVALID_HANDLE_VALUE \<Longrightarrow>
    open_at w' = (open_at w)(h \<mapsto> p)"
  by (auto simp: open_at_def fun_eq_iff)

lemma label_open_object_view:
  assumes "open_object q w = ((status, h), w')"
  shows "if nt_error status then world_view w' = world_view w
    else status = 0 \<and> (\<exists>p. q = Some p \<and> opened (world_view w) h p (world_view w'))"
proof -
  have "nt_error 0xC0000034" "nt_error 0xC0000017" "\<not> nt_error 0" by (simp_all add: nt_error_def)
  with assms show ?thesis
    by (auto simp: open_object_def Let_def opened_def world_view_def label_open_at_opened split: option.splits if_splits)
      (simp add: open_at_def)
qed

lemmas label_call_defs = label_CloseHandle_def label_NtCreateFile_def label_OpenRoot_def label_GetSecurityInfo_def
  label_NtSetSecurityObject_def label_GetFileInformationByHandle_def label_FileIdBothDirectoryInfo_def label_FileAttributeTagInfo_def label_GetAce_def
  label_GetTickCount64_def

lemma example_entry_iff:
  "tree_entry example_tree d name = Some q \<longleftrightarrow> ((d, name), q) \<in> set example_entries"
proof -
  have "distinct (map fst example_entries)" by (simp add: example_entries_def wide_def)
  then show ?thesis by (simp add: example_tree_def)
qed

lemma example_single: "q \<noteq> 5 \<Longrightarrow> single example_tree q"
  unfolding single_def example_entry_iff by (auto simp: example_entries_def)

interpretation reference_labels: labels reference_write_scope world_view example_tree
proof (unfold_locales, goal_cases)
  case (3 h w)
  show ?case
    by (auto simp: reference_write_scope_def label_objects_def label_tokens_def label_CloseHandle_def world_view_def
        open_at_def fun_eq_iff)
next
  case (8 h d w status w' q)
  have "nt_error 0xC0000008" "\<not> nt_error 0" by (simp_all add: nt_error_def)
  with 8 show ?case
    by (auto simp: reference_write_scope_def label_objects_def label_NtSetSecurityObject_def world_view_def Let_def
        label_open_at_same[of "w\<lparr>label_state := v\<rparr>" w for v] split: if_splits option.splits)
next
  case (9 h name access w status h' w' q)
  then have "open_at w h = Some q" "q \<noteq> 6"
    by (auto simp: world_view_def plain_def example_tree_def)
  with 9(1) have "open_object (tree_entry example_tree q name) w = ((status, h'), w')"
    by (simp add: reference_write_scope_def label_objects_def label_NtCreateFile_def)
  from label_open_object_view[OF this] show ?case by auto
next
  case (10 root_path access w e h' w')
  then obtain status where "open_object (Some (tree_root example_tree root_path)) w = ((status, h'), w')"
    and "e = (if status = 0 then ERROR_SUCCESS else ERROR_ACCESS_DENIED)"
    by (auto simp: reference_write_scope_def label_objects_def label_OpenRoot_def split: prod.splits)
  with label_open_object_view[OF this(1)] show ?case by (auto simp: nt_error_def split: if_splits)
next
  case (12 h w attributes links q)
  then have "attributes = tree_attributes example_tree q" "links = (if q = 5 then 2 else 1)"
    by (auto simp: reference_write_scope_def label_objects_def label_GetFileInformationByHandle_def world_view_def)
  moreover have "tree_attributes example_tree 5 AND FILE_ATTRIBUTE_DIRECTORY = 0" by (simp add: example_tree_def)
  ultimately show ?case using example_single by auto
next
  case (13 h w attributes q)
  then show ?case
    by (auto simp: reference_write_scope_def label_objects_def label_FileAttributeTagInfo_def world_view_def)
qed (auto simp: reference_write_scope_def label_objects_def label_tokens_def label_call_defs world_view_def
    open_at_def[of _ nullptr] open_at_def[of _ INVALID_HANDLE_VALUE] Let_def IsLowLabelAce_def low_ace_def
    plain_def example_tree_def
    label_open_at_same[of "w\<lparr>clock := c\<rparr>" w for w c] label_open_at_same[of "w\<lparr>enumerated := c\<rparr>" w for w c]
    split: if_splits option.splits)

section \<open>Properties\<close>

text \<open>Preparing the two directories of the reference file system.\<close>

definition example_prepare :: "(dword \<times> label_world) option" where
  "example_prepare = PrepareBrokerWriteScope reference_write_scope 4 (drive_path ''U'') (drive_path ''D'') example_world"

lemma reference_write_scope_simps [simp]:
  "write_objects reference_write_scope = label_objects" "lower reference_write_scope = id"
  "IsLowLabelSid reference_write_scope u \<longleftrightarrow> u = [16]"
  "GetWindowsDirectory reference_write_scope v = (ERROR_SUCCESS, drive_path ''W'')"
  "GetEnvironmentVariableW reference_write_scope name v =
     (5, if name = wide ''PUBLIC'' then drive_path [CHR ''V'', BS, CHR ''P''] else drive_path ''P'')"
  "ConvertLowLabel reference_write_scope = ERROR_SUCCESS" "GetLowLabel reference_write_scope = (ERROR_SUCCESS, [low_ace])"
  "ImpersonateLoggedOnUser reference_write_scope token v = (ERROR_SUCCESS, v)"
  "RevertToSelf reference_write_scope v = (True, v)"
  "object_tokens label_objects = label_tokens" "GetModuleHandleW label_objects = ERROR_SUCCESS"
  "GetProcAddress label_objects f = ERROR_SUCCESS" "NtSetSecurityObject label_objects = label_NtSetSecurityObject"
  "NtCreateFile label_objects = label_NtCreateFile"
  "InitializeSecurityDescriptor label_objects = (ERROR_SUCCESS, \<lparr>sd_owner = None, sd_dacl = None, sd_label = None, sd_control = 0\<rparr>)"
  "SetSecurityDescriptorSacl label_objects acl d = (ERROR_SUCCESS, d\<lparr>sd_label := Some acl\<rparr>)"
  "GetSecurityInfo label_objects = label_GetSecurityInfo" "GetAce label_objects = label_GetAce"
  "OpenRoot label_objects = label_OpenRoot"
  "GetVolumeInformationByHandleW label_objects h v = (ERROR_SUCCESS, FILE_PERSISTENT_ACLS)"
  "FileAttributeTagInfo label_objects = label_FileAttributeTagInfo"
  "GetFileInformationByHandle label_objects = label_GetFileInformationByHandle"
  "FileIdBothDirectoryInfo label_objects = label_FileIdBothDirectoryInfo"
  "GetTickCount64 label_objects = label_GetTickCount64" "CloseHandle label_tokens = label_CloseHandle"
  by (simp_all add: reference_write_scope_def label_objects_def label_tokens_def)

lemma LabelTree_two_levels:
  "LabelTree api l deadline 129 = LabelLevel api l deadline (Some (LabelLevel api l deadline (Some (LabelTree api l deadline 127))))"
  using LabelTree.simps(2)[of api l deadline 128] LabelTree.simps(2)[of api l deadline 127] by simp

lemma bind_weak_cong: "x = y \<Longrightarrow> Option.bind x f = Option.bind y f"
  by simp

lemmas write_scope_evaluation = Let_def example_prepare_def PrepareBrokerWriteScope_def PrepareWriteScope_def
  LabelRoot_def CheckTime_def ConsumeObject_def c_str_def wcsicmp_equal_def IsWithin_def ValidateScopeRoot_def
  IsLowLabelAce_def HasLowLabel_def IsUnavailableChildError_def child_error_def MakeLow_def LabelObject_def
  LabelBatches.simps LabelLevel_def LabelTree_two_levels CloseAll_def native_path_def MaximumWriteScopeDepth_def
  MaximumWriteScopeObjects_def WriteScopeTimeoutMilliseconds_def scope_path_def absolute_path_def normal_parts_def
  normal_step_def is_slash_def is_letter_def wide_def OpenRelativeFile_def OpenPinnedRelative_def load_native_def
  SetObjectLabel_def SetObjectSecurity_def UniqueHandle_reset_def contains_any_def nt_error_def parent_path_def
  drive_path_def open_at_def open_object_def label_call_defs low_ace_def example_world_def root_name_length_def
  root_length_def example_tree_def example_entries_def

lemma example_prepared:
  "case example_prepare of None \<Rightarrow> False | Some (e, w) \<Rightarrow> e = ERROR_SUCCESS"
  by (simp add: write_scope_evaluation cong: bind_weak_cong)

text \<open>
  C34: Preparing the write scope of a session changes labels only to the low one, and only at the
  profile, the working directory and objects that can be reached through one of them alone: a file
  with a further hard link elsewhere and what a junction leads to keep theirs. This holds whether it
  succeeds or fails; no handle stays open, and after a success both directories have the low label.
\<close>

theorem write_scope_labels:
  assumes "labels api view t"
    and "PrepareBrokerWriteScope api token profile work w = Some (e, w')"
  shows "object_of (view w') = object_of (view w)
    \<and> (\<forall>q. label_of (view w') q = label_of (view w) q
        \<or> label_of (view w') q = Some (snd (GetLowLabel api))
          \<and> (\<exists>directory \<in> {profile, work}. \<exists>r. directory_object t directory = Some r \<and> enclosed t r q))
    \<and> (e = ERROR_SUCCESS \<longrightarrow> (\<forall>directory \<in> {profile, work}. \<exists>r. directory_object t directory = Some r
        \<and> low_at api (view w') r))"
  using labels.PrepareBrokerWriteScope_ok[OF assms] by (auto simp: relabels_def)

lemma outside_not_enclosed:
  assumes "\<not> enclosed t r d" and "tree_entry t d name = Some q" and "q \<noteq> r"
  shows "\<not> enclosed t r q"
proof
  assume "enclosed t r q"
  then show False by cases (use assms in auto)
qed

lemma not_enclosed_link:
  assumes "r = 1 \<or> r = 2"
  shows "\<not> enclosed example_tree r 5"
proof (rule outside_not_enclosed)
  have "\<not> enclosed example_tree r 0"
  proof
    assume "enclosed example_tree r 0"
    then show False using assms by cases (auto simp: example_entry_iff example_entries_def)
  qed
  moreover have "tree_entry example_tree 0 (wide ''X'') = Some 3" by (simp add: example_entry_iff example_entries_def)
  ultimately show "\<not> enclosed example_tree r 3" by (rule outside_not_enclosed) (use assms in auto)
  show "tree_entry example_tree 3 (wide ''h'') = Some 5" by (simp add: example_entry_iff example_entries_def)
qed (use assms in auto)

lemma write_scope_labels_witness:
  "\<exists>w. example_prepare = Some (ERROR_SUCCESS, w) \<and> object_of (world_view w) = object_of (world_view example_world)
    \<and> low_at reference_write_scope (world_view w) 1 \<and> label_of (world_view w) 5 = label_of (world_view example_world) 5"
proof -
  obtain w where run: "example_prepare = Some (ERROR_SUCCESS, w)"
    using example_prepared by (auto split: option.splits)
  have "directory_object example_tree (drive_path ''U'') = Some 1" "directory_object example_tree (drive_path ''D'') = Some 2"
    by (simp_all add: directory_object_def write_scope_evaluation)
  with write_scope_labels[OF reference_labels.labels_axioms run[unfolded example_prepare_def]]
  have "object_of (world_view w) = object_of (world_view example_world)" "low_at reference_write_scope (world_view w) 1"
    "label_of (world_view w) 5 = label_of (world_view example_world) 5 \<or> (\<exists>r. (r = 1 \<or> r = 2) \<and> enclosed example_tree r 5)"
    by (simp_all del: One_nat_def) blast
  with run not_enclosed_link show ?thesis by blast
qed

end
