(* ===== verification/AppContainer.thy ===== *)
theory AppContainer
  imports WriteScope ReadScope Password BrokerProtocol
begin

text \<open>
  The AppContainer of a console launch: its identity, \<open>src/common/AppContainerIdentity.cpp\<close>, and the
  access of its package to the profile and the working directory,
  \<open>src/broker/BrokerAppContainerScope.cpp\<close>. \<open>None\<close> as a result is \<open>std::terminate\<close>, when the broker
  cannot revert to itself.
\<close>

section \<open>The calls\<close>

text \<open>
  \<open>DeriveCapabilitySids\<close> is none when \<open>kernelbase.dll\<close> has no such function, and gives the group and the
  capability SIDs; \<open>CreateAppContainerProfile\<close> and \<open>DeriveAppContainerSid\<close> give an \<open>HRESULT\<close>;
  \<open>SetEntriesGrant\<close> is \<open>SetEntriesInAclW\<close> with one \<open>GRANT_ACCESS\<close> entry. The memory of a SID is not
  modelled; \<open>CopySid\<close> gives the error of copying one.
\<close>

record 'w container_api =
  container_scope :: "'w write_scope_api"
  CopySid :: "sid \<Rightarrow> dword"
  ConvertStringSidToSidW :: "wstring \<Rightarrow> dword \<times> sid"
  StringSid :: "sid \<Rightarrow> dword \<times> wstring"
  GetSidIdentifierAuthority :: "sid \<Rightarrow> byte list"
  SubAuthorityCount :: "sid \<Rightarrow> byte"
  SubAuthority :: "sid \<Rightarrow> nat \<Rightarrow> dword"
  DeriveCapabilitySids :: "(wstring \<Rightarrow> dword \<times> sid list \<times> sid list) option"
  BCryptHash :: "byte list \<Rightarrow> dword \<times> byte list"
  CreateAppContainerProfile :: "wstring \<Rightarrow> 'w \<Rightarrow> (dword \<times> sid) \<times> 'w"
  DeriveAppContainerSid :: "wstring \<Rightarrow> 'w \<Rightarrow> dword \<times> sid"
  SetEntriesGrant :: "sid \<Rightarrow> dword \<Rightarrow> byte \<Rightarrow> dacl \<Rightarrow> dword \<times> dacl"
  SetSecurityInfo :: "handle \<Rightarrow> dacl \<Rightarrow> 'w \<Rightarrow> dword \<times> 'w"

abbreviation container_objects :: "'w container_api \<Rightarrow> 'w object_api" where
  "container_objects api \<equiv> write_objects (container_scope api)"
abbreviation container_tokens :: "'w container_api \<Rightarrow> 'w token_api" where
  "container_tokens api \<equiv> object_tokens (container_objects api)"

abbreviation FILE_GENERIC_READ :: dword where "FILE_GENERIC_READ \<equiv> 0x120089"
abbreviation FILE_GENERIC_WRITE :: dword where "FILE_GENERIC_WRITE \<equiv> 0x120116"
abbreviation FILE_GENERIC_EXECUTE :: dword where "FILE_GENERIC_EXECUTE \<equiv> 0x1200A0"
abbreviation DRIVE_REMOTE :: nat where "DRIVE_REMOTE \<equiv> 4"
abbreviation HRESULT_ALREADY_EXISTS :: dword where "HRESULT_ALREADY_EXISTS \<equiv> 0x800700B7"
abbreviation SECURITY_CAPABILITY_BASE_RID :: dword where "SECURITY_CAPABILITY_BASE_RID \<equiv> 3"
abbreviation SECURITY_APP_PACKAGE_AUTHORITY :: "byte list" where
  "SECURITY_APP_PACKAGE_AUTHORITY \<equiv> [0, 0, 0, 0, 0, 15]"

section \<open>The identity\<close>

definition CopySidBytes :: "'w container_api \<Rightarrow> sid \<Rightarrow> dword" where
  "CopySidBytes api s = (if \<not> SidValid (container_tokens api) s then ERROR_INVALID_SID else CopySid api s)"

definition ResolveCapability :: "'w container_api \<Rightarrow> wstring \<Rightarrow> dword \<times> sid" where
  "ResolveCapability api name =
     (if take 2 name = wide ''S-'' then
        (let (textError, s) = ConvertStringSidToSidW api (c_str name) in
         if textError \<noteq> ERROR_SUCCESS then (textError, [])
         else if GetSidIdentifierAuthority api s \<noteq> SECURITY_APP_PACKAGE_AUTHORITY \<or> SubAuthorityCount api s < 2
           \<or> SubAuthority api s 0 \<noteq> SECURITY_CAPABILITY_BASE_RID
         then (ERROR_INVALID_SID, [])
         else (CopySidBytes api s, s))
      else (case DeriveCapabilitySids api of
          None \<Rightarrow> (ERROR_NOT_SUPPORTED, [])
        | Some derive \<Rightarrow>
            (let (deriveError, groups, capability_sids) = derive (c_str name) in
             if deriveError \<noteq> ERROR_SUCCESS then (deriveError, [])
             else if length capability_sids = 1 then (CopySidBytes api (hd capability_sids), hd capability_sids)
             else (ERROR_INVALID_SID, []))))"

text \<open>The strings of the SIDs, up to the first that has none.\<close>

fun SidTexts :: "'w container_api \<Rightarrow> sid list \<Rightarrow> dword \<times> wstring list" where
  "SidTexts api [] = (ERROR_SUCCESS, [])"
| "SidTexts api (s # sids) =
     (let (textError, t) = StringSid api s; (e, texts) = SidTexts api sids in
      if textError \<noteq> ERROR_SUCCESS then (textError, []) else (e, t # texts))"

definition hash_digit :: "byte \<Rightarrow> wchar" where
  "hash_digit n = wide ''0123456789abcdef'' ! unat n"

definition hash_byte :: "byte \<Rightarrow> wstring" where
  "hash_byte b = [hash_digit (drop_bit 4 b), hash_digit (b AND 15)]"

definition ProfileName :: "'w container_api \<Rightarrow> handle \<Rightarrow> wstring \<Rightarrow> sid list \<Rightarrow> 'w \<Rightarrow> dword \<times> wstring" where
  "ProfileName api token directory capability_sids w =
     (let (userError, user) = QueryTokenInformation (container_tokens api) token TokenUser w;
          (sidError, userText) = StringSid api (user_sid user);
          (capabilityError, texts) = SidTexts api capability_sids;
          queryError = first_error [userError, sidError, capabilityError];
          hash_key = userText @ [0] @ directory @ [0] @ concat (map (\<lambda>t. t @ [0]) (sort texts));
          (status, hash) = BCryptHash api (bytes_of_wide hash_key)
      in if queryError \<noteq> ERROR_SUCCESS then (queryError, [])
      else if nt_error status then (ERROR_GEN_FAILURE, [])
      else (ERROR_SUCCESS, wide ''launch-as-'' @ concat (map hash_byte (take 24 hash))))"

record AppContainerIdentity =
  identity_name :: wstring
  failureContext :: wstring
  container_sid :: sid
  capabilitySids :: "sid list"

definition AppContainerIdentity_empty :: AppContainerIdentity where
  "AppContainerIdentity_empty = \<lparr>identity_name = [], failureContext = [], container_sid = [], capabilitySids = []\<rparr>"

fun ResolveCapabilities ::
  "'w container_api \<Rightarrow> wstring list \<Rightarrow> AppContainerIdentity \<Rightarrow> dword \<times> AppContainerIdentity"
where
  "ResolveCapabilities api [] identity = (ERROR_SUCCESS, identity)"
| "ResolveCapabilities api (capability # names) identity =
     (let identity = identity\<lparr>failureContext := wide ''resolve capability '' @ [0x27] @ capability @ [0x27]\<rparr>;
          (e, s) = ResolveCapability api capability
      in if e \<noteq> ERROR_SUCCESS then (e, identity)
      else ResolveCapabilities api names (if s \<in> set (capabilitySids identity) then identity
             else identity\<lparr>capabilitySids := capabilitySids identity @ [s]\<rparr>))"

definition AppContainerIdentity_Initialize ::
  "'w container_api \<Rightarrow> handle \<Rightarrow> wstring \<Rightarrow> AppContainerOptions \<Rightarrow> 'w \<Rightarrow> (dword \<times> AppContainerIdentity) \<times> 'w"
where
  "AppContainerIdentity_Initialize api token directory options w =
     (let identity = AppContainerIdentity_empty\<lparr>failureContext :=
            wide ''validate AppContainer options and query managed account''\<rparr>
      in if \<not> enabled options \<or> \<not> IsValidAppContainerOptions options then ((ERROR_INVALID_PARAMETER, identity), w)
      else
        (let (capabilityError, identity) = ResolveCapabilities api (capabilities options) identity;
             (nameError, name) = ProfileName api token directory (capabilitySids identity) w
         in if capabilityError \<noteq> ERROR_SUCCESS then ((capabilityError, identity), w)
         else if nameError \<noteq> ERROR_SUCCESS then ((nameError, identity), w)
         else
           (let identity = identity\<lparr>identity_name := name,
                  failureContext := wide ''create AppContainer profile '' @ [0x27] @ name @ [0x27]\<rparr>;
                ((createResult, created), w) = CreateAppContainerProfile api name w;
                (result, s) = (if createResult = HRESULT_ALREADY_EXISTS then DeriveAppContainerSid api name w
                               else (createResult, created));
                copyError = CopySidBytes api s
            in if FAILED result then ((HRESULT_CODE result, identity), w)
            else if copyError \<noteq> ERROR_SUCCESS then ((copyError, identity), w)
            else ((ERROR_SUCCESS, identity\<lparr>container_sid := s\<rparr>), w))))"

section \<open>The account's rights\<close>

text \<open>What is done while the broker is the account; it reverts on every path.\<close>

definition as_account ::
  "'w write_scope_api \<Rightarrow> handle \<Rightarrow> 'a \<Rightarrow> ('w \<Rightarrow> (dword \<times> 'a) \<times> 'w) \<Rightarrow> 'w \<Rightarrow> ((dword \<times> 'a) \<times> 'w) option"
where
  "as_account api token nothing run w =
     (let (impersonationError, w) = ImpersonateLoggedOnUser api token w in
      if impersonationError \<noteq> ERROR_SUCCESS then Some ((impersonationError, nothing), w)
      else (let (result, w) = run w; (reverted, w) = RevertToSelf api w in if reverted then Some (result, w) else None))"

definition OpenAsAccount ::
  "'w write_scope_api \<Rightarrow> handle \<Rightarrow> handle \<Rightarrow> wstring \<Rightarrow> dword \<Rightarrow> 'w \<Rightarrow> ((dword \<times> handle) \<times> 'w) option"
where
  "OpenAsAccount api token parent name access =
     as_account api token nullptr (OpenRelativeFile (write_objects api) parent name access)"

section \<open>Granting the package access\<close>

definition ModifyAccess :: dword where
  "ModifyAccess = FILE_GENERIC_READ OR FILE_GENERIC_WRITE OR FILE_GENERIC_EXECUTE OR DELETE"

abbreviation grant_flags :: byte where "grant_flags \<equiv> OBJECT_INHERIT_ACE OR CONTAINER_INHERIT_ACE"

definition is_grant :: "'w token_api \<Rightarrow> sid \<Rightarrow> ace \<Rightarrow> bool" where
  "is_grant api s a \<longleftrightarrow> AceType a = ACCESS_ALLOWED_ACE_TYPE \<and> AceFlags a AND INHERIT_ONLY_ACE = 0
     \<and> AceFlags a AND grant_flags = grant_flags \<and> AceMask a AND ModifyAccess = ModifyAccess \<and> SidEqual api (AceSid a) s"

fun FindGrant :: "'w object_api \<Rightarrow> sid \<Rightarrow> dacl \<Rightarrow> nat list \<Rightarrow> dword \<times> bool" where
  "FindGrant api s acl [] = (ERROR_SUCCESS, False)"
| "FindGrant api s acl (index # indices) =
     (let (aceError, a) = GetAce api acl index in
      if aceError \<noteq> ERROR_SUCCESS then (aceError, False)
      else if is_grant (object_tokens api) s a then (ERROR_SUCCESS, True)
      else FindGrant api s acl indices)"

definition GrantPackageAccess :: "'w container_api \<Rightarrow> handle \<Rightarrow> handle \<Rightarrow> sid \<Rightarrow> 'w \<Rightarrow> (dword \<times> 'w) option" where
  "GrantPackageAccess api token object_handle s w =
     (let objects = container_objects api;
          (error, descriptor) = GetSecurityInfo objects object_handle False DACL_SECURITY_INFORMATION w
      in if error \<noteq> ERROR_SUCCESS then Some (error, w)
      else (case sd_dacl descriptor of
          None \<Rightarrow> Some (ERROR_INVALID_ACL, w)
        | Some oldDacl \<Rightarrow>
            (let (scanError, granted) = FindGrant objects s oldDacl [0..<length oldDacl];
                 (grantError, dacl) = (if granted then (ERROR_SUCCESS, oldDacl)
                   else SetEntriesGrant api s ModifyAccess grant_flags oldDacl);
                 aclError = first_error [scanError, grantError]
             in if aclError \<noteq> ERROR_SUCCESS then Some (aclError, w)
             else
               (let ((openError, writable_handle), w) = ReopenPinnedFile objects object_handle
                      (FILE_GENERIC_READ OR FILE_GENERIC_EXECUTE OR WRITE_DAC) w
                in if openError \<noteq> ERROR_SUCCESS then Some (openError, w)
                else
                  map_option (\<lambda>((e, _), w). (e, CloseObject objects writable_handle w))
                    (as_account (container_scope api) token ()
                      (\<lambda>w. let (e, w) = SetSecurityInfo api writable_handle dacl w in ((e, ()), w)) w)))))"

section \<open>The roots\<close>

text \<open>\<open>is_absolute\<close>, \<open>filename\<close> and the components of \<open>relative_path().parent_path()\<close> of a path.\<close>

definition is_absolute :: "wstring \<Rightarrow> bool" where
  "is_absolute p \<longleftrightarrow>
     (if length p \<ge> 2 \<and> is_letter (p ! 0) \<and> p ! 1 = WCHR CHR '':'' then length p \<ge> 3 \<and> is_slash (p ! 2)
      else root_name_length p \<noteq> 0)"

definition file_name :: "wstring \<Rightarrow> wstring" where
  "file_name p = rev (takeWhile (\<lambda>c. \<not> is_slash c) (rev (drop (root_length p) p)))"

definition ancestor_names :: "wstring \<Rightarrow> wstring list" where
  "ancestor_names p = filter (\<lambda>part. part \<noteq> []) (split_path (parent_path (drop (root_length p) p)))"

definition ValidateGrantRoot :: "'w write_scope_api \<Rightarrow> wstring \<Rightarrow> 'w \<Rightarrow> dword" where
  "ValidateGrantRoot api path w =
     (if \<not> is_absolute path \<or> length path = root_length path \<or> take 2 path = wide [BS, BS]
        \<or> WCHR CHR '':'' \<in> set (drop 2 path)
        \<or> GetDriveTypeW (write_objects api) (c_str (take (root_length path) path)) w = DRIVE_REMOTE
      then ERROR_BAD_PATHNAME
      else
        (let (windowsError, windows) = GetWindowsDirectory api w;
             variable = (\<lambda>name denied. let (characters, directory) = GetEnvironmentVariableW api (wide name) w in
               if characters = 0 \<or> characters \<ge> 32768 then ERROR_BAD_ENVIRONMENT
               else if denied directory then ERROR_ACCESS_DENIED else ERROR_SUCCESS)
         in if windowsError \<noteq> ERROR_SUCCESS then windowsError
            else if IsWithin api path windows then ERROR_ACCESS_DENIED
            else first_error (map (\<lambda>name. variable name (IsWithin api path)) [''ProgramFiles'', ''ProgramFiles(x86)'',
                ''ProgramData''] @ [variable ''PUBLIC'' (\<lambda>directory. wcsicmp_equal api path (parent_path directory))])))"

fun OpenAncestorsAs ::
  "'w write_scope_api \<Rightarrow> handle \<Rightarrow> handle list \<Rightarrow> wstring list \<Rightarrow> 'w \<Rightarrow> ((dword \<times> handle list) \<times> 'w) option"
where
  "OpenAncestorsAs api token ancestors [] w = Some ((ERROR_SUCCESS, ancestors), w)"
| "OpenAncestorsAs api token ancestors (component # components) w =
     (case OpenAsAccount api token (last ancestors) component FILE_READ_ATTRIBUTES w of
        None \<Rightarrow> None
      | Some ((error, h), w) \<Rightarrow>
          if error \<noteq> ERROR_SUCCESS then Some ((error, ancestors), w)
          else
            (let (infoError, attributes) = FileAttributeTagInfo (write_objects api) h w in
             if infoError \<noteq> ERROR_SUCCESS
             then Some ((infoError, ancestors), CloseObject (write_objects api) h w)
             else if attributes AND FILE_ATTRIBUTE_REPARSE_POINT \<noteq> 0
             then Some ((ERROR_ACCESS_DENIED, ancestors), CloseObject (write_objects api) h w)
             else OpenAncestorsAs api token (ancestors @ [h]) components w))"

text \<open>The checks of the opened directory, and the grant.\<close>

definition GrantObject ::
  "'w container_api \<Rightarrow> handle \<Rightarrow> wstring \<Rightarrow> handle \<Rightarrow> sid \<Rightarrow> wstring \<Rightarrow> 'w \<Rightarrow> ((dword \<times> wstring) \<times> 'w) option"
where
  "GrantObject api token path object_handle s context w =
     (let objects = container_objects api;
          (infoError, attributes) = FileAttributeTagInfo objects object_handle w;
          (volumeError, flags) = GetVolumeInformationByHandleW objects object_handle w
      in if infoError \<noteq> ERROR_SUCCESS then Some ((infoError, context), w)
      else if attributes AND FILE_ATTRIBUTE_REPARSE_POINT \<noteq> 0 then Some ((ERROR_ACCESS_DENIED, context), w)
      else if attributes AND FILE_ATTRIBUTE_DIRECTORY = 0 then Some ((ERROR_DIRECTORY, context), w)
      else if volumeError \<noteq> ERROR_SUCCESS then Some ((volumeError, context), w)
      else if flags AND FILE_PERSISTENT_ACLS = 0 then Some ((ERROR_NOT_SUPPORTED, context), w)
      else
        map_option (\<lambda>(e, w).
            ((e, wide ''grant inheritable AppContainer Modify access on '' @ [0x27] @ path @ [0x27]), w))
          (GrantPackageAccess api token object_handle s w))"

definition GrantRoot ::
  "'w container_api \<Rightarrow> handle \<Rightarrow> wstring \<Rightarrow> sid \<Rightarrow> 'w \<Rightarrow> ((dword \<times> wstring) \<times> 'w) option"
where
  "GrantRoot api token path s w =
     (let scope = container_scope api; objects = write_objects scope;
          context = wide ''validate and open preparation root '' @ [0x27] @ path @ [0x27];
          verify = wide ''verify managed account read/write/execute access on '' @ [0x27] @ path @ [0x27];
          validationError = ValidateGrantRoot scope path w
      in if validationError \<noteq> ERROR_SUCCESS then Some ((validationError, context), w)
      else
        (case as_account scope token nullptr (OpenRoot objects (c_str (take (root_length path) path)) FILE_READ_ATTRIBUTES) w of
           None \<Rightarrow> None
         | Some ((volumeError, volume), w) \<Rightarrow>
             if volumeError \<noteq> ERROR_SUCCESS then Some ((volumeError, context), w)
             else
               (case OpenAncestorsAs scope token [volume] (ancestor_names path) w of
                  None \<Rightarrow> None
                | Some ((error, ancestors), w) \<Rightarrow>
                    if error \<noteq> ERROR_SUCCESS then Some ((error, context), CloseAll objects ancestors w)
                    else
                      (case OpenAsAccount scope token (last ancestors) (file_name path)
                              (FILE_GENERIC_READ OR FILE_GENERIC_WRITE OR FILE_GENERIC_EXECUTE) w of
                         None \<Rightarrow> None
                       | Some ((error, object_handle), w) \<Rightarrow>
                           if error \<noteq> ERROR_SUCCESS then Some ((error, verify), CloseAll objects ancestors w)
                           else
                             map_option (\<lambda>(result, w).
                                 (result, CloseAll objects ancestors (CloseObject objects object_handle w)))
                               (GrantObject api token path object_handle s verify w)))))"

definition PrepareBrokerAppContainerScope ::
  "'w container_api \<Rightarrow> handle \<Rightarrow> wstring \<Rightarrow> wstring \<Rightarrow> AppContainerOptions \<Rightarrow> 'w \<Rightarrow> ((dword \<times> wstring) \<times> 'w) option"
where
  "PrepareBrokerAppContainerScope api token profileDirectory work options w =
     (let (impersonationError, w) = ImpersonateLoggedOnUser (container_scope api) token w in
      if impersonationError \<noteq> ERROR_SUCCESS then Some ((impersonationError, []), w)
      else
        (let ((error, identity), w) = AppContainerIdentity_Initialize api token work options w;
             (reverted, w) = RevertToSelf (container_scope api) w
         in if \<not> reverted then None
         else if error \<noteq> ERROR_SUCCESS then Some ((error, failureContext identity), w)
         else
           (case GrantRoot api token profileDirectory (container_sid identity) w of
              None \<Rightarrow> None
            | Some ((error, context), w) \<Rightarrow>
                if error \<noteq> ERROR_SUCCESS then Some ((error, context), w)
                else GrantRoot api token work (container_sid identity) w)))"

end
