(* ===== verification/DesktopLease.thy ===== *)
theory DesktopLease
  imports LeaseProtocol FileSystemAccess FilePaths
begin

text \<open>
  Messages over a pipe, \<open>ReadPipeMessage\<close> and \<open>WritePipeMessage\<close> of
  \<open>src/protocol/BrokerProtocol.cpp\<close>, and the broker's side of an interactive desktop lease,
  \<open>src/broker/InteractiveDesktopLeaseClient.cpp\<close>: it connects to the pipe of the caller, asks for the
  lease and gives it back. \<open>None\<close> as a result is a wait for the pipe that never ends.
\<close>

section \<open>The calls\<close>

text \<open>
  \<open>ReadFile\<close> gives the error and the bytes, at most as many as asked for; \<open>WriteFile\<close> the error and
  the bytes written. \<open>CreatePipeFile\<close> is \<open>CreateFileW\<close> with the flags of the lease pipe;
  \<open>SetMessageMode\<close> is \<open>SetNamedPipeHandleState\<close>.
\<close>

record 'w pipe_api =
  pipe_objects :: "'w object_api"
  ReadFile :: "handle \<Rightarrow> nat \<Rightarrow> 'w \<Rightarrow> (dword \<times> string) \<times> 'w"
  WriteFile :: "handle \<Rightarrow> string \<Rightarrow> 'w \<Rightarrow> (dword \<times> nat) \<times> 'w"
  CreatePipeFile :: "wstring \<Rightarrow> 'w \<Rightarrow> (dword \<times> handle) \<times> 'w"
  SetMessageMode :: "handle \<Rightarrow> 'w \<Rightarrow> dword \<times> 'w"
  WaitNamedPipeW :: "wstring \<Rightarrow> nat \<Rightarrow> 'w \<Rightarrow> 'w"
  SidText :: "sid \<Rightarrow> dword \<times> wstring"
  pipe_mb :: "string \<Rightarrow> wstring option"

abbreviation pipe_tokens :: "'w pipe_api \<Rightarrow> 'w token_api" where
  "pipe_tokens api \<equiv> object_tokens (pipe_objects api)"

section \<open>Messages\<close>

definition ReadPipeMessage :: "'w pipe_api \<Rightarrow> handle \<Rightarrow> 'w \<Rightarrow> (dword \<times> string) \<times> 'w" where
  "ReadPipeMessage api pipe w =
     (let ((readError, message), w) = ReadFile api pipe MaximumMessageBytes w in
      if readError \<noteq> ERROR_SUCCESS then ((readError, []), w)
      else if message = [] then ((ERROR_BROKEN_PIPE, []), w)
      else ((ERROR_SUCCESS, message), w))"

definition WritePipeMessage :: "'w pipe_api \<Rightarrow> handle \<Rightarrow> string \<Rightarrow> 'w \<Rightarrow> dword \<times> 'w" where
  "WritePipeMessage api pipe message w =
     (let ((writeError, bytesWritten), w) = WriteFile api pipe message w in
      if writeError \<noteq> ERROR_SUCCESS then (writeError, w)
      else (if bytesWritten = length message then ERROR_SUCCESS else ERROR_WRITE_FAULT, w))"

section \<open>The connection\<close>

definition ConnectTimeoutMilliseconds :: "64 word" where "ConnectTimeoutMilliseconds = 5000"

partial_function (option) OpenLeasePipe ::
  "'w pipe_api \<Rightarrow> wstring \<Rightarrow> 64 word \<Rightarrow> 'w \<Rightarrow> ((dword \<times> handle) \<times> 'w) option"
where
  "OpenLeasePipe api name deadline w =
     (let ((openError, pipe), w) = CreatePipeFile api name w in
      if openError = ERROR_SUCCESS then
        (let (modeError, w) = SetMessageMode api pipe w in
         if modeError \<noteq> ERROR_SUCCESS then Some ((modeError, nullptr), CloseHandle (pipe_tokens api) pipe w)
         else Some ((ERROR_SUCCESS, pipe), w))
      else if openError \<noteq> ERROR_FILE_NOT_FOUND \<and> openError \<noteq> ERROR_PIPE_BUSY then Some ((openError, nullptr), w)
      else
        (let (now, w) = GetTickCount64 (pipe_objects api) (WaitNamedPipeW api name 50 w) in
         if now < deadline then OpenLeasePipe api name deadline w
         else Some ((openError, nullptr), w)))"

definition OpenInteractiveLeasePipe :: "'w pipe_api \<Rightarrow> wstring \<Rightarrow> 'w \<Rightarrow> ((dword \<times> handle) \<times> 'w) option" where
  "OpenInteractiveLeasePipe api pipeName w =
     (if \<not> IsInteractiveLeasePipeName pipeName then Some ((ERROR_INVALID_NAME, nullptr), w)
      else
        (let (now, w) = GetTickCount64 (pipe_objects api) w
         in OpenLeasePipe api (c_str pipeName) (now + ConnectTimeoutMilliseconds) w))"

record LeaseConnection =
  connection_pipe :: handle
  connection_nonce :: wstring

definition LeaseConnection_empty :: LeaseConnection where
  "LeaseConnection_empty = \<lparr>connection_pipe = nullptr, connection_nonce = []\<rparr>"

text \<open>\<open>Reset\<close> leaves an empty connection.\<close>

definition LeaseConnection_Reset :: "'w pipe_api \<Rightarrow> LeaseConnection \<Rightarrow> 'w \<Rightarrow> 'w" where
  "LeaseConnection_Reset api connection w =
     (if connection_pipe connection \<noteq> nullptr then CloseHandle (pipe_tokens api) (connection_pipe connection) w else w)"

text \<open>One request and its answer, on a pipe that is closed on every error.\<close>

definition AcquireOver ::
  "'w pipe_api \<Rightarrow> string \<Rightarrow> wstring \<Rightarrow> handle \<Rightarrow> 'w \<Rightarrow> (dword \<times> LeaseConnection) \<times> 'w"
where
  "AcquireOver api request n pipe w =
     (let connection = \<lparr>connection_pipe = pipe, connection_nonce = n\<rparr>;
          failed = (\<lambda>e w. ((e, LeaseConnection_empty), LeaseConnection_Reset api connection w));
          (writeError, w) = WritePipeMessage api pipe request w
      in if writeError \<noteq> ERROR_SUCCESS then failed writeError w
      else
        (let ((readError, response), w) = ReadPipeMessage api pipe w in
         if readError \<noteq> ERROR_SUCCESS then failed readError w
         else
           (let (parsed, leaseError) = ParseInteractiveLeaseResponse (pipe_mb api) response Acquire n in
            if \<not> parsed then failed ERROR_INVALID_DATA w
            else if leaseError \<noteq> ERROR_SUCCESS then failed leaseError w
            else ((ERROR_SUCCESS, connection), w))))"

definition AcquireInteractiveDesktopLease ::
  "'w pipe_api \<Rightarrow> wstring \<Rightarrow> wstring \<Rightarrow> sid \<Rightarrow> LeaseConnection \<Rightarrow> 'w \<Rightarrow> ((dword \<times> LeaseConnection) \<times> 'w) option"
where
  "AcquireInteractiveDesktopLease api pipeName n lsid connection w =
     (let w = LeaseConnection_Reset api connection w;
          (sidError, sidText) = SidText api lsid;
          request = BuildInteractiveLeaseAcquireRequest n sidText
      in if \<not> SidValid (pipe_tokens api) lsid then Some ((ERROR_INVALID_SID, LeaseConnection_empty), w)
      else if sidError \<noteq> ERROR_SUCCESS then Some ((sidError, LeaseConnection_empty), w)
      else if request = [] then Some ((ERROR_INVALID_PARAMETER, LeaseConnection_empty), w)
      else
        (case OpenInteractiveLeasePipe api pipeName w of
           None \<Rightarrow> None
         | Some ((openError, pipe), w) \<Rightarrow>
             if openError \<noteq> ERROR_SUCCESS then Some ((openError, LeaseConnection_empty), w)
             else Some (AcquireOver api request n pipe w)))"

text \<open>The connection is empty after a release, whatever it returns.\<close>

definition ReleaseInteractiveDesktopLease :: "'w pipe_api \<Rightarrow> LeaseConnection \<Rightarrow> 'w \<Rightarrow> dword \<times> 'w" where
  "ReleaseInteractiveDesktopLease api connection w =
     (if connection_pipe connection = nullptr then (ERROR_INVALID_HANDLE, w)
      else
        (let request = BuildInteractiveLeaseReleaseRequest (connection_nonce connection);
             (writeError, w) = WritePipeMessage api (connection_pipe connection) request w
         in if writeError \<noteq> ERROR_SUCCESS then (writeError, LeaseConnection_Reset api connection w)
         else
           (let ((readError, response), w) = ReadPipeMessage api (connection_pipe connection) w in
            if readError \<noteq> ERROR_SUCCESS then (readError, LeaseConnection_Reset api connection w)
            else
              (let (parsed, leaseError) =
                     ParseInteractiveLeaseResponse (pipe_mb api) response Release (connection_nonce connection)
               in (if parsed then leaseError else ERROR_INVALID_DATA, LeaseConnection_Reset api connection w)))))"

text \<open>A connection that is kept is an open pipe on which the lease was granted.\<close>

lemma AcquireOver_kept:
  "AcquireOver api request n pipe w = ((e, c), w') \<Longrightarrow>
    c = (if e = ERROR_SUCCESS then \<lparr>connection_pipe = pipe, connection_nonce = n\<rparr> else LeaseConnection_empty)"
  by (auto simp: AcquireOver_def Let_def split: prod.splits if_splits)

lemma Acquire_kept:
  assumes "AcquireInteractiveDesktopLease api pipeName n lsid connection w = Some ((e, c), w')"
  shows "(e \<noteq> ERROR_SUCCESS \<longrightarrow> c = LeaseConnection_empty) \<and> (e = ERROR_SUCCESS \<longrightarrow> connection_nonce c = n)"
  using assms by (auto simp: AcquireInteractiveDesktopLease_def Let_def dest!: AcquireOver_kept
      split: prod.splits if_splits option.splits)

end
