(* ===== verification/ProcessLauncher.thy ===== *)
theory ProcessLauncher
  imports AppContainer DesktopLease CommandLine EnrollmentStore
begin

text \<open>
  Launching and ending the process of a session, \<open>src/broker/BrokerProcessLauncher.cpp\<close>. A process is
  created suspended, in a job that ends with its last handle, after the scopes of the session are
  prepared. \<open>None\<close> as a result is a call that does not return: an endless wait, \<open>std::terminate\<close> or
  an exception.
\<close>

section \<open>The calls\<close>

text \<open>
  A call that can fail returns its error first. \<open>AdjustTokenPrivileges\<close> gives its result, the last
  error and the previous state; \<open>ResumeThread\<close> its result and the last error; \<open>ActiveProcesses\<close> the
  count of \<open>QueryInformationJobObject\<close>; \<open>TokenSession\<close> the session and the bytes returned;
  \<open>CreateProcessAsUserW\<close> the handles of the process and its thread; \<open>GetModuleFileNameW\<close> the
  characters copied, the last error and the buffer.
\<close>

record process_creation =
  creation_application :: wstring
  creation_command :: wstring
  creation_inherits :: bool
  creation_flags :: dword
  creation_environment :: handle
  creation_directory :: wstring
  creation_handles :: "handle list"
  creation_desktop :: wstring

type_synonym privileges = "(LUID \<times> dword) list"

record 'w launch_api =
  launch_container :: "'w container_api"
  launch_reading :: "'w read_scope_api"
  launch_pipes :: "'w pipe_api"
  OpenProcessToken :: "handle \<Rightarrow> 'w \<Rightarrow> (dword \<times> handle) \<times> 'w"
  OpenThreadToken :: "'w \<Rightarrow> (dword \<times> handle) \<times> 'w"
  ImpersonateSelf :: "'w \<Rightarrow> dword \<times> 'w"
  AdjustTokenPrivileges :: "handle \<Rightarrow> privileges \<Rightarrow> 'w \<Rightarrow> (bool \<times> dword \<times> privileges) \<times> 'w"
  SetTokenSession :: "handle \<Rightarrow> dword \<Rightarrow> 'w \<Rightarrow> dword \<times> 'w"
  TokenSession :: "handle \<Rightarrow> 'w \<Rightarrow> dword \<times> dword \<times> nat"
  CreateEnvironmentBlock :: "handle \<Rightarrow> 'w \<Rightarrow> (dword \<times> handle) \<times> 'w"
  DestroyEnvironmentBlock :: "handle \<Rightarrow> 'w \<Rightarrow> 'w"
  LoadUserProfileW :: "handle \<Rightarrow> wstring \<Rightarrow> 'w \<Rightarrow> (dword \<times> handle) \<times> 'w"
  UnloadUserProfile :: "handle \<Rightarrow> handle \<Rightarrow> 'w \<Rightarrow> 'w"
  GetUserProfileDirectorySize :: "handle \<Rightarrow> 'w \<Rightarrow> dword \<times> nat"
  GetUserProfileDirectoryW :: "handle \<Rightarrow> nat \<Rightarrow> 'w \<Rightarrow> dword \<times> wstring"
  CreateProcessAsUserW :: "handle \<Rightarrow> process_creation \<Rightarrow> 'w \<Rightarrow> (dword \<times> handle \<times> handle) \<times> 'w"
  TerminateProcess :: "handle \<Rightarrow> 'w \<Rightarrow> bool \<times> 'w"
  WaitForSingleObject :: "handle \<Rightarrow> dword \<Rightarrow> 'w \<Rightarrow> dword \<times> 'w"
  GetProcessId :: "handle \<Rightarrow> 'w \<Rightarrow> dword"
  ResumeThread :: "handle \<Rightarrow> 'w \<Rightarrow> (dword \<times> dword) \<times> 'w"
  AttributeListSize :: "nat \<Rightarrow> dword \<times> nat"
  InitializeProcThreadAttributeList :: "nat \<Rightarrow> dword"
  UpdateProcThreadAttribute :: "handle list \<Rightarrow> dword"
  CreatePipe :: "nat \<Rightarrow> 'w \<Rightarrow> (dword \<times> handle \<times> handle) \<times> 'w"
  SetHandleInformation :: "handle \<Rightarrow> 'w \<Rightarrow> dword \<times> 'w"
  OpenNul :: "'w \<Rightarrow> (dword \<times> handle) \<times> 'w"
  CreateJobObjectW :: "'w \<Rightarrow> (dword \<times> handle) \<times> 'w"
  SetKillOnJobClose :: "handle \<Rightarrow> 'w \<Rightarrow> dword \<times> 'w"
  AssignProcessToJobObject :: "handle \<Rightarrow> handle \<Rightarrow> 'w \<Rightarrow> dword \<times> 'w"
  ActiveProcesses :: "handle \<Rightarrow> 'w \<Rightarrow> nat option"
  TerminateJobObject :: "handle \<Rightarrow> 'w \<Rightarrow> 'w"
  DuplicateHandle :: "handle \<Rightarrow> 'w \<Rightarrow> (dword \<times> handle) \<times> 'w"
  Sleep :: "dword \<Rightarrow> 'w \<Rightarrow> 'w"
  GetModuleFileNameW :: "nat \<Rightarrow> nat \<times> dword \<times> wstring"
  is_regular_file :: "wstring \<Rightarrow> 'w \<Rightarrow> dword \<times> bool"
  canonical_path :: "wstring \<Rightarrow> 'w \<Rightarrow> dword \<times> wstring"
  is_directory :: "wstring \<Rightarrow> 'w \<Rightarrow> dword \<times> bool"

abbreviation launch_objects :: "'w launch_api \<Rightarrow> 'w object_api" where
  "launch_objects api \<equiv> container_objects (launch_container api)"
abbreviation launch_tokens :: "'w launch_api \<Rightarrow> 'w token_api" where
  "launch_tokens api \<equiv> container_tokens (launch_container api)"
abbreviation close_handle :: "'w launch_api \<Rightarrow> handle \<Rightarrow> 'w \<Rightarrow> 'w" where
  "close_handle api \<equiv> UniqueHandle_reset (launch_tokens api)"
abbreviation valid_handle :: "handle \<Rightarrow> bool" where
  "valid_handle h \<equiv> h \<noteq> nullptr \<and> h \<noteq> INVALID_HANDLE_VALUE"

abbreviation GetCurrentProcess :: handle where "GetCurrentProcess \<equiv> - 1"
abbreviation INFINITE :: dword where "INFINITE \<equiv> - 1"
abbreviation MAXDWORD :: dword where "MAXDWORD \<equiv> - 1"
abbreviation WAIT_OBJECT_0 :: dword where "WAIT_OBJECT_0 \<equiv> 0"
abbreviation ERROR_BAD_IMPERSONATION_LEVEL :: dword where "ERROR_BAD_IMPERSONATION_LEVEL \<equiv> 1346"
abbreviation ERROR_NO_TOKEN :: dword where "ERROR_NO_TOKEN \<equiv> 1008"
abbreviation ERROR_BUFFER_OVERFLOW :: dword where "ERROR_BUFFER_OVERFLOW \<equiv> 111"
abbreviation CREATE_SUSPENDED :: dword where "CREATE_SUSPENDED \<equiv> 4"
abbreviation CREATE_UNICODE_ENVIRONMENT :: dword where "CREATE_UNICODE_ENVIRONMENT \<equiv> 0x400"
abbreviation CREATE_NO_WINDOW :: dword where "CREATE_NO_WINDOW \<equiv> 0x8000000"
abbreviation EXTENDED_STARTUPINFO_PRESENT :: dword where "EXTENDED_STARTUPINFO_PRESENT \<equiv> 0x80000"

definition JobTerminationTimeoutMilliseconds :: "64 word" where "JobTerminationTimeoutMilliseconds = 5000"

section \<open>Privileges\<close>

definition required_privileges :: "wstring list" where
  "required_privileges = map wide [''SeBackupPrivilege'', ''SeRestorePrivilege'', ''SeAssignPrimaryTokenPrivilege'',
     ''SeIncreaseQuotaPrivilege'']"

definition SE_TCB_NAME :: wstring where "SE_TCB_NAME = wide ''SeTcbPrivilege''"

record EnabledProcessPrivileges =
  privilege_token :: handle
  previous_states :: "privileges list"

fun EnablePrivileges ::
  "'w launch_api \<Rightarrow> wstring list \<Rightarrow> EnabledProcessPrivileges \<Rightarrow> 'w \<Rightarrow> (dword \<times> EnabledProcessPrivileges) \<times> 'w"
where
  "EnablePrivileges api [] p w = ((ERROR_SUCCESS, p), w)"
| "EnablePrivileges api (name # names) p w =
     (let (lookupError, privilege) = LookupPrivilegeValueW (launch_tokens api) name in
      if lookupError \<noteq> ERROR_SUCCESS then ((lookupError, p), w)
      else
        (let ((adjusted, lastError, before), w) =
               AdjustTokenPrivileges api (privilege_token p) [(privilege, SE_PRIVILEGE_ENABLED)] w
         in if \<not> adjusted \<or> lastError \<noteq> ERROR_SUCCESS then ((lastError, p), w)
         else EnablePrivileges api names (p\<lparr>previous_states := previous_states p @ [before]\<rparr>) w))"

definition EnableRequired :: "'w launch_api \<Rightarrow> 'w \<Rightarrow> (dword \<times> EnabledProcessPrivileges) \<times> 'w" where
  "EnableRequired api w =
     (let ((tokenError, token), w) = OpenProcessToken api GetCurrentProcess w in
      if tokenError \<noteq> ERROR_SUCCESS then ((tokenError, \<lparr>privilege_token = nullptr, previous_states = []\<rparr>), w)
      else EnablePrivileges api required_privileges \<lparr>privilege_token = token, previous_states = []\<rparr> w)"

definition RestorePrivileges :: "'w launch_api \<Rightarrow> EnabledProcessPrivileges \<Rightarrow> 'w \<Rightarrow> 'w" where
  "RestorePrivileges api p w = close_handle api (privilege_token p)
     (fold (\<lambda>state w. snd (AdjustTokenPrivileges api (privilege_token p) state w)) (previous_states p) w)"

definition DisableBrokerProcessTcbPrivilege :: "'w launch_api \<Rightarrow> 'w \<Rightarrow> dword \<times> 'w" where
  "DisableBrokerProcessTcbPrivilege api w =
     (let ((tokenError, token), w) = OpenProcessToken api GetCurrentProcess w;
          (lookupError, privilege) = LookupPrivilegeValueW (launch_tokens api) SE_TCB_NAME
      in if tokenError \<noteq> ERROR_SUCCESS then (tokenError, w)
      else if lookupError \<noteq> ERROR_SUCCESS then (lookupError, close_handle api token w)
      else (let ((_, lastError, _), w) = AdjustTokenPrivileges api token [(privilege, 0)] w
            in (lastError, close_handle api token w)))"

text \<open>The session is set with a private copy of the token; the thread reverts on every path.\<close>

definition AssignSession :: "'w launch_api \<Rightarrow> handle \<Rightarrow> dword \<Rightarrow> 'w \<Rightarrow> dword \<times> 'w" where
  "AssignSession api token session_id w =
     (let ((tokenError, threadToken), w) = OpenThreadToken api w;
          (lookupError, privilege) = LookupPrivilegeValueW (launch_tokens api) SE_TCB_NAME
      in if tokenError \<noteq> ERROR_SUCCESS then (tokenError, w)
      else if lookupError \<noteq> ERROR_SUCCESS then (lookupError, close_handle api threadToken w)
      else
        (let ((adjusted, adjustmentError, _), w) =
               AdjustTokenPrivileges api threadToken [(privilege, SE_PRIVILEGE_ENABLED)] w;
             w = close_handle api threadToken w
         in if \<not> adjusted \<or> adjustmentError \<noteq> ERROR_SUCCESS then (adjustmentError, w)
         else SetTokenSession api token session_id w))"

definition SetBrokerTokenSessionId :: "'w launch_api \<Rightarrow> handle \<Rightarrow> dword \<Rightarrow> 'w \<Rightarrow> (dword \<times> 'w) option" where
  "SetBrokerTokenSessionId api token session_id w =
     (let ((threadTokenError, existingToken), w) = OpenThreadToken api w in
      if threadTokenError = ERROR_SUCCESS
      then Some (ERROR_BAD_IMPERSONATION_LEVEL, CloseHandle (launch_tokens api) existingToken w)
      else if threadTokenError \<noteq> ERROR_NO_TOKEN then Some (threadTokenError, w)
      else
        (let (impersonationError, w) = ImpersonateSelf api w in
         if impersonationError \<noteq> ERROR_SUCCESS then Some (impersonationError, w)
         else
           (let (e, w) = AssignSession api token session_id w;
                (reverted, w) = RevertToSelf (container_scope (launch_container api)) w
            in if reverted then Some (e, w) else None)))"

section \<open>Paths\<close>

text \<open>The buffer of \<open>GetModuleFileNameW\<close> doubles until the path fits; it is never empty.\<close>

function ExecutablePath :: "'w launch_api \<Rightarrow> nat \<Rightarrow> dword \<times> wstring" where
  "ExecutablePath api n =
     (let (copied, moduleError, buffer) = GetModuleFileNameW api n in
      if copied = 0 then (moduleError, [])
      else if copied < n - 1 then (ERROR_SUCCESS, take copied buffer)
      else if n \<ge> 32768 \<or> n = 0 then (ERROR_BUFFER_OVERFLOW, [])
      else ExecutablePath api (n * 2))"
  by pat_completeness auto
termination by (relation "measure (\<lambda>(_, n). 32768 - n)") auto

definition GetCurrentExecutablePath :: "'w launch_api \<Rightarrow> dword \<times> wstring" where
  "GetCurrentExecutablePath api = ExecutablePath api 260"

text \<open>\<open>operator/\<close> with a file name.\<close>

definition path_append :: "wstring \<Rightarrow> wstring \<Rightarrow> wstring" where
  "path_append p name =
     (if root_name_length p = length p then (if length p \<ge> 3 then p @ [WCHR BS] else p) @ name
      else if is_slash (last p) then p @ name else p @ [WCHR BS] @ name)"

definition GetBrokerConhostExecutablePath :: "'w launch_api \<Rightarrow> 'w \<Rightarrow> dword \<times> wstring" where
  "GetBrokerConhostExecutablePath api w =
     (let (moduleError, brokerPath) = GetCurrentExecutablePath api;
          path = path_append (parent_path brokerPath) (wide ''launch-as-conhost.exe'');
          (pathError, regular) = is_regular_file api path w
      in if moduleError \<noteq> ERROR_SUCCESS then (moduleError, [])
      else if \<not> regular then (if pathError \<noteq> ERROR_SUCCESS then pathError else ERROR_FILE_NOT_FOUND, path)
      else (ERROR_SUCCESS, path))"

definition HasNetworkOrDevicePrefix :: "wstring \<Rightarrow> bool" where
  "HasNetworkOrDevicePrefix path \<longleftrightarrow> length path \<ge> 2 \<and> is_slash (path ! 0) \<and> is_slash (path ! 1)"

definition ResolveBrokerWorkingDirectory :: "'w launch_api \<Rightarrow> wstring \<Rightarrow> 'w \<Rightarrow> dword \<times> wstring" where
  "ResolveBrokerWorkingDirectory api work w =
     (let (canonicalError, canonicalDirectory) = canonical_path api work w;
          (directoryError, directory) = is_directory api canonicalDirectory w
      in if work = [] then (ERROR_INVALID_PARAMETER, [])
      else if HasNetworkOrDevicePrefix work then (ERROR_BAD_PATHNAME, [])
      else if \<not> is_absolute work then (ERROR_BAD_PATHNAME, [])
      else if canonicalError \<noteq> ERROR_SUCCESS then (canonicalError, [])
      else if \<not> is_absolute canonicalDirectory \<or> HasNetworkOrDevicePrefix canonicalDirectory
      then (ERROR_BAD_PATHNAME, [])
      else if \<not> directory then (if directoryError \<noteq> ERROR_SUCCESS then directoryError else ERROR_DIRECTORY, [])
      else (ERROR_SUCCESS, canonicalDirectory))"

section \<open>Resources of a launch\<close>

definition SuspendedProcess_reset :: "'w launch_api \<Rightarrow> handle \<Rightarrow> handle \<Rightarrow> 'w \<Rightarrow> 'w" where
  "SuspendedProcess_reset api process thread w =
     (if process \<noteq> nullptr then
        (let (terminated, w) = TerminateProcess api process w;
             w = (if terminated then snd (WaitForSingleObject api process INFINITE w) else w)
         in CloseHandle (launch_tokens api) process (CloseHandle (launch_tokens api) thread w))
      else w)"

definition AttributeList_Initialize :: "'w launch_api \<Rightarrow> nat \<Rightarrow> dword" where
  "AttributeList_Initialize api attributeCount =
     (let (sizeError, bytes) = AttributeListSize api attributeCount in
      if bytes = 0 then sizeError else InitializeProcThreadAttributeList api attributeCount)"

definition CreateBrokerReportPipe :: "'w launch_api \<Rightarrow> nat \<Rightarrow> 'w \<Rightarrow> (dword \<times> handle \<times> handle) \<times> 'w" where
  "CreateBrokerReportPipe api bufferSize w =
     (let ((pipeError, readEnd, writeEnd), w) = CreatePipe api bufferSize w in
      if pipeError \<noteq> ERROR_SUCCESS then ((pipeError, nullptr, nullptr), w)
      else
        (let (inheritError, w) = SetHandleInformation api readEnd w in
         if inheritError \<noteq> ERROR_SUCCESS
         then ((inheritError, nullptr, nullptr), close_handle api writeEnd (close_handle api readEnd w))
         else ((ERROR_SUCCESS, readEnd, writeEnd), w)))"

section \<open>The child process\<close>

record BrokerChildProcess =
  child_job :: handle
  child_process :: handle
  child_thread :: handle
  profileToken :: handle
  child_profile :: handle
  exitReport :: handle
  diagnostics :: handle

definition BrokerChildProcess_empty :: BrokerChildProcess where
  "BrokerChildProcess_empty = \<lparr>child_job = nullptr, child_process = nullptr, child_thread = nullptr,
     profileToken = nullptr, child_profile = nullptr, exitReport = nullptr, diagnostics = nullptr\<rparr>"

text \<open>\<open>Reset\<close> leaves an empty child.\<close>

definition BrokerChildProcess_Reset :: "'w launch_api \<Rightarrow> BrokerChildProcess \<Rightarrow> 'w \<Rightarrow> 'w" where
  "BrokerChildProcess_Reset api child w =
     (let w = close_handle api (child_job child)
            (close_handle api (diagnostics child) (close_handle api (exitReport child) w));
          w = (if child_profile child \<noteq> nullptr
               then UnloadUserProfile api (profileToken child) (child_profile child) w else w)
      in close_handle api (child_process child)
           (close_handle api (child_thread child) (close_handle api (profileToken child) w)))"

definition BrokerChildProcess_processId :: "'w launch_api \<Rightarrow> BrokerChildProcess \<Rightarrow> 'w \<Rightarrow> dword" where
  "BrokerChildProcess_processId api child w =
     (if valid_handle (child_process child) then GetProcessId api (child_process child) w else 0)"

definition BrokerChildProcess_Resume :: "'w launch_api \<Rightarrow> BrokerChildProcess \<Rightarrow> 'w \<Rightarrow> dword \<times> 'w" where
  "BrokerChildProcess_Resume api child w =
     (if \<not> valid_handle (child_thread child) then (ERROR_INVALID_HANDLE, w)
      else
        (let ((suspendedCount, resumeError), w) = ResumeThread api (child_thread child) w
         in (if suspendedCount = MAXDWORD then resumeError
             else if suspendedCount = 1 then ERROR_SUCCESS else ERROR_INVALID_STATE, w)))"

subsection \<open>The report of the console host\<close>

definition PseudoConsoleHostExitReportMagic :: dword where "PseudoConsoleHostExitReportMagic = 0x4C415348"
definition MaximumDiagnosticBytes :: nat where "MaximumDiagnosticBytes = 4096"

function ReadExitReport :: "'w pipe_api \<Rightarrow> handle \<Rightarrow> string \<Rightarrow> 'w \<Rightarrow> (dword \<times> string) \<times> 'w" where
  "ReadExitReport api pipe report w =
     (if length report \<ge> 8 then ((ERROR_SUCCESS, report), w)
      else
        (let ((reportError, received), w) = ReadFile api pipe (8 - length report) w in
         if reportError \<noteq> ERROR_SUCCESS then ((reportError, report), w)
         else if received = [] then ((ERROR_SUCCESS, report), w)
         else ReadExitReport api pipe (report @ received) w))"
  by pat_completeness auto
termination
  by (relation "measure (\<lambda>(_, _, report, _). 8 - length report)")
    (auto intro!: diff_less_mono2 simp flip: length_greater_0_conv)

function ReadHostDiagnostics :: "'w pipe_api \<Rightarrow> handle \<Rightarrow> string \<Rightarrow> 'w \<Rightarrow> (dword \<times> string) \<times> 'w" where
  "ReadHostDiagnostics api pipe bytes w =
     (let ((diagnosticError, received), w) = ReadFile api pipe 512 w in
      if diagnosticError \<noteq> ERROR_SUCCESS then ((diagnosticError, bytes), w)
      else if received = [] then ((ERROR_SUCCESS, bytes), w)
      else
        (let bytes' = bytes @ take (MaximumDiagnosticBytes - length bytes) received in
         if length bytes' \<ge> MaximumDiagnosticBytes then ((ERROR_SUCCESS, bytes'), w)
         else ReadHostDiagnostics api pipe bytes' w))"
  by pat_completeness auto
termination
  by (relation "measure (\<lambda>(_, _, bytes, _). MaximumDiagnosticBytes - length bytes)")
    (auto simp: min_def intro!: diff_less_mono2 split: if_splits simp flip: length_greater_0_conv)

definition ReadPseudoConsoleHostResult ::
  "'w launch_api \<Rightarrow> BrokerChildProcess \<Rightarrow> 'w \<Rightarrow> (bool \<times> dword \<times> wstring) \<times> 'w"
where
  "ReadPseudoConsoleHostResult api child w =
     (if \<not> valid_handle (exitReport child) \<or> \<not> valid_handle (diagnostics child) then ((False, 0, []), w)
      else
        (let pipes = launch_pipes api;
             ((reportError, report), w) = ReadExitReport pipes (exitReport child) [] w;
             text = (if reportError \<noteq> ERROR_SUCCESS \<and> reportError \<noteq> ERROR_BROKEN_PIPE
               then wide ''Could not read the console host exit report: '' @ wide (to_string reportError) @ wide ''.''
               else []);
             ((diagnosticError, bytes), w) = ReadHostDiagnostics pipes (diagnostics child) [] w;
             text = (if diagnosticError \<noteq> ERROR_SUCCESS \<and> diagnosticError \<noteq> ERROR_BROKEN_PIPE \<and> text = []
               then wide ''Could not read console host diagnostics: '' @ wide (to_string diagnosticError) @ wide ''.''
               else text);
             text = (if bytes = [] then text
               else (case Utf8ToWide (pipe_mb pipes) bytes of
                   None \<Rightarrow> wide ''The console host emitted invalid UTF-8 diagnostics.'' | Some t \<Rightarrow> t));
             word_at = (\<lambda>n. dword_of_bytes (map of_char (take 4 (drop n report))))
         in if length report \<noteq> 8 \<or> word_at 0 \<noteq> PseudoConsoleHostExitReportMagic
            then ((False, 0, if text = [] then wide ''The console host exited without reporting the target exit code.''
                             else text), w)
            else ((True, word_at 4, text), w)))"

subsection \<open>Waiting for the job\<close>

partial_function (option) TreeExit ::
  "'w launch_api \<Rightarrow> handle \<Rightarrow> bool \<Rightarrow> 64 word \<Rightarrow> 'w \<Rightarrow> (bool \<times> 'w) option"
where
  "TreeExit api job endless deadline w =
     (case ActiveProcesses api job w of
        None \<Rightarrow> Some (False, w)
      | Some n \<Rightarrow>
          if n = 0 then Some (True, w)
          else
            (let (now, w) = GetTickCount64 (launch_objects api) w;
                 remaining = (if endless then 10 else ucast (deadline - now))
             in if \<not> endless \<and> now \<ge> deadline then Some (False, w)
             else TreeExit api job endless deadline (Sleep api (if remaining < 10 then remaining else 10) w)))"

definition WaitForProcessTreeExit ::
  "'w launch_api \<Rightarrow> BrokerChildProcess \<Rightarrow> dword \<Rightarrow> 'w \<Rightarrow> (bool \<times> 'w) option"
where
  "WaitForProcessTreeExit api child timeoutMilliseconds w =
     (if \<not> valid_handle (child_job child) then Some (False, w)
      else if timeoutMilliseconds = INFINITE then TreeExit api (child_job child) True 0 w
      else (let (now, w) = GetTickCount64 (launch_objects api) w
            in TreeExit api (child_job child) False (now + ucast timeoutMilliseconds) w))"

definition remaining_time :: "64 word \<Rightarrow> 64 word \<Rightarrow> dword" where
  "remaining_time deadline now = (if now \<ge> deadline then 0 else ucast (deadline - now))"

definition TerminateAndWaitForExit ::
  "'w launch_api \<Rightarrow> BrokerChildProcess \<Rightarrow> 'w \<Rightarrow> ((bool \<times> BrokerChildProcess) \<times> 'w) option"
where
  "TerminateAndWaitForExit api child w =
     (if \<not> valid_handle (child_job child)
      then Some ((True, BrokerChildProcess_empty), BrokerChildProcess_Reset api child w)
      else
        (let (now, w) = GetTickCount64 (launch_objects api) w;
             deadline = now + JobTerminationTimeoutMilliseconds;
             w = TerminateJobObject api (child_job child) w;
             (waitResult, w) =
               (if valid_handle (child_process child)
                then (let (now, w) = GetTickCount64 (launch_objects api) w
                      in WaitForSingleObject api (child_process child) (remaining_time deadline now) w)
                else (WAIT_OBJECT_0, w))
         in if waitResult \<noteq> WAIT_OBJECT_0 then Some ((False, child), w)
         else
           (let (now, w) = GetTickCount64 (launch_objects api) w in
            case WaitForProcessTreeExit api child (remaining_time deadline now) w of
              None \<Rightarrow> None
            | Some (exited, w) \<Rightarrow>
                if exited then Some ((True, BrokerChildProcess_empty), BrokerChildProcess_Reset api child w)
                else Some ((False, child), w))))"

partial_function (option) TerminateAndWaitForExitConfirmed ::
  "'w launch_api \<Rightarrow> BrokerChildProcess \<Rightarrow> 'w \<Rightarrow> (BrokerChildProcess \<times> 'w) option"
where
  "TerminateAndWaitForExitConfirmed api child w =
     Option.bind (TerminateAndWaitForExit api child w) (\<lambda>((exited, child), w).
       if exited then Some (child, w) else TerminateAndWaitForExitConfirmed api child (Sleep api 100 w))"

section \<open>Logon SIDs\<close>

definition CopyValidSid :: "'w launch_api \<Rightarrow> sid \<Rightarrow> sid option" where
  "CopyValidSid api s = (if SidValid (launch_tokens api) s \<and> CopySid (launch_container api) s = ERROR_SUCCESS
     then Some s else None)"

fun FindLogonSid :: "'w launch_api \<Rightarrow> (sid \<times> dword) list \<Rightarrow> dword \<times> sid" where
  "FindLogonSid api [] = (ERROR_NOT_FOUND, [])"
| "FindLogonSid api ((groupSid, attributes) # groups) =
     (if attributes AND SE_GROUP_LOGON_ID \<noteq> 0 then
        (case CopyValidSid api groupSid of None \<Rightarrow> (ERROR_INVALID_SID, []) | Some s \<Rightarrow> (ERROR_SUCCESS, s))
      else FindLogonSid api groups)"

definition GetTokenLogonSid :: "'w launch_api \<Rightarrow> handle \<Rightarrow> 'w \<Rightarrow> dword \<times> sid" where
  "GetTokenLogonSid api token w =
     (let (groupsError, groups) = QueryTokenInformation (launch_tokens api) token TokenGroups w in
      if token = nullptr then (ERROR_INVALID_HANDLE, [])
      else if groupsError \<noteq> ERROR_SUCCESS then (groupsError, [])
      else FindLogonSid api (group_list groups))"

definition ValidateChildLogonSid :: "'w launch_api \<Rightarrow> handle \<Rightarrow> sid \<Rightarrow> 'w \<Rightarrow> dword \<times> 'w" where
  "ValidateChildLogonSid api process callerLogonSid w =
     (if process = nullptr \<or> callerLogonSid = [] \<or> \<not> SidValid (launch_tokens api) callerLogonSid
      then (ERROR_INVALID_SID, w)
      else
        (let ((tokenError, token), w) = OpenProcessToken api process w in
         if tokenError \<noteq> ERROR_SUCCESS then (tokenError, w)
         else
           (let (logonSidError, childSid) = GetTokenLogonSid api token w in
            (if logonSidError \<noteq> ERROR_SUCCESS then logonSidError
             else if SidEqual (launch_tokens api) callerLogonSid childSid then ERROR_ACCESS_DENIED
             else ERROR_SUCCESS, close_handle api token w))))"

section \<open>Creating the process\<close>

definition CreateBrokerJob :: "'w launch_api \<Rightarrow> BrokerChildProcess \<Rightarrow> 'w \<Rightarrow> (dword \<times> BrokerChildProcess) \<times> 'w" where
  "CreateBrokerJob api child w =
     (let w = BrokerChildProcess_Reset api child w;
          ((jobError, job), w) = CreateJobObjectW api w
      in if jobError \<noteq> ERROR_SUCCESS then ((jobError, BrokerChildProcess_empty), w)
      else
        (let (limitError, w) = SetKillOnJobClose api job w in
         if limitError \<noteq> ERROR_SUCCESS then ((limitError, BrokerChildProcess_empty), close_handle api job w)
         else ((ERROR_SUCCESS, BrokerChildProcess_empty\<lparr>child_job := job\<rparr>), w)))"

text \<open>
  The preparation of the scopes, each as the session asks for it. The first part of a result is
  \<open>Some\<close> error when the launch returns with it; the text tells where preparing the container failed.
\<close>

definition PrepareReadScope ::
  "'w launch_api \<Rightarrow> handle \<Rightarrow> wstring \<Rightarrow> wstring \<Rightarrow> BrokerReadScope option \<Rightarrow> 'w
     \<Rightarrow> ((dword \<times> BrokerReadScope option) \<times> 'w) option"
where
  "PrepareReadScope api token profileDirectory directory scope w =
     (case scope of
        None \<Rightarrow> Some ((ERROR_SUCCESS, None), w)
      | Some s \<Rightarrow> map_option (\<lambda>((e, s), w). ((e, Some s), w))
          (BrokerReadScope_Ensure (launch_reading api) token profileDirectory directory s w))"

definition PrepareScopes ::
  "'w launch_api \<Rightarrow> handle \<Rightarrow> wstring \<Rightarrow> wstring \<Rightarrow> bool \<Rightarrow> BrokerReadScope option \<Rightarrow> AppContainerOptions \<Rightarrow> 'w
     \<Rightarrow> ((dword \<times> BrokerReadScope option \<times> wstring) \<times> 'w) option"
where
  "PrepareScopes api token profileDirectory directory low scope options w =
     (case PrepareReadScope api token profileDirectory directory scope w of
        None \<Rightarrow> None
      | Some ((error, scope), w) \<Rightarrow>
          if error \<noteq> ERROR_SUCCESS then Some ((error, scope, []), w)
          else
            (case (if low then PrepareBrokerWriteScope (container_scope (launch_container api)) token profileDirectory
                     directory w else Some (ERROR_SUCCESS, w)) of
               None \<Rightarrow> None
             | Some (error, w) \<Rightarrow>
                 if error \<noteq> ERROR_SUCCESS then Some ((error, scope, []), w)
                 else if enabled options then
                   map_option (\<lambda>((error, context), w). ((error, scope, context), w))
                     (PrepareBrokerAppContainerScope (launch_container api) token profileDirectory directory options w)
                 else Some ((ERROR_SUCCESS, scope, []), w)))"

definition PrepareDirectories ::
  "'w launch_api \<Rightarrow> handle \<Rightarrow> wstring \<Rightarrow> bool \<Rightarrow> BrokerReadScope option \<Rightarrow> AppContainerOptions \<Rightarrow> 'w
     \<Rightarrow> ((dword option \<times> BrokerReadScope option \<times> wstring) \<times> 'w) option"
where
  "PrepareDirectories api token directory low scope options w =
     (let (profileSizeError, profileCharacters) = GetUserProfileDirectorySize api token w;
          (profileError, profileDirectory) = GetUserProfileDirectoryW api token profileCharacters w
      in if \<not> low \<and> scope = None \<and> \<not> enabled options then Some ((None, scope, []), w)
      else if profileSizeError \<noteq> ERROR_INSUFFICIENT_BUFFER \<or> profileCharacters = 0
      then Some ((Some profileSizeError, scope, []), w)
      else if profileError \<noteq> ERROR_SUCCESS then Some ((Some profileError, scope, []), w)
      else
        map_option (\<lambda>((error, scope, context), w).
            ((if error \<noteq> ERROR_SUCCESS then Some error else None, scope, context), w))
          (PrepareScopes api token (c_str profileDirectory) directory low scope options w))"

text \<open>The process, in the job of the child, with the profile that is unloaded after it.\<close>

definition StartSuspended ::
  "'w launch_api \<Rightarrow> handle \<Rightarrow> handle \<Rightarrow> process_creation \<Rightarrow> handle \<Rightarrow> BrokerChildProcess \<Rightarrow> 'w
     \<Rightarrow> (dword \<times> BrokerChildProcess) \<times> 'w"
where
  "StartSuspended api token scopedToken creation profile child w =
     (let ((processError, process, thread), w) =
            CreateProcessAsUserW api (if valid_handle scopedToken then scopedToken else token) creation w
      in if processError \<noteq> ERROR_SUCCESS then ((processError, child), w)
      else
        (let (assignmentError, w) = AssignProcessToJobObject api (child_job child) process w in
         if assignmentError \<noteq> ERROR_SUCCESS
         then ((assignmentError, child), SuspendedProcess_reset api process thread w)
         else
           (let ((duplicateError, duplicate), w) = DuplicateHandle api token w in
            if duplicateError \<noteq> ERROR_SUCCESS
            then ((duplicateError, child), SuspendedProcess_reset api process thread w)
            else ((ERROR_SUCCESS, child\<lparr>child_process := process, child_thread := thread, profileToken := duplicate,
                    child_profile := profile\<rparr>),
                  close_handle api (profileToken child)
                    (close_handle api (child_thread child) (close_handle api (child_process child) w))))))"

definition CreateSuspendedInJob ::
  "'w launch_api \<Rightarrow> handle \<Rightarrow> wstring \<Rightarrow> process_creation \<Rightarrow> wstring \<Rightarrow> bool \<Rightarrow> BrokerReadScope option
     \<Rightarrow> AppContainerOptions \<Rightarrow> BrokerChildProcess \<Rightarrow> 'w
     \<Rightarrow> ((dword \<times> BrokerChildProcess \<times> BrokerReadScope option \<times> wstring) \<times> 'w) option"
where
  "CreateSuspendedInJob api token accountName creation directory low scope options child w =
     (let ((profileError, profile), w) = LoadUserProfileW api token accountName w;
          unload = (\<lambda>w. if profile \<noteq> nullptr then UnloadUserProfile api token profile w else w)
      in if profileError \<noteq> ERROR_SUCCESS then Some ((profileError, child, scope, []), w)
      else
        (let ((environmentError, environment), w) = CreateEnvironmentBlock api token w;
             destroy = (\<lambda>w. if environment \<noteq> nullptr then DestroyEnvironmentBlock api environment w else w)
         in if environmentError \<noteq> ERROR_SUCCESS then Some ((environmentError, child, scope, []), unload w)
         else
           (let ((tokenError, scopedToken), w) =
                  (if low \<or> scope \<noteq> None
                   then CreateBrokerLaunchToken (launch_tokens api) token (scope \<noteq> None) low nullptr w
                   else ((ERROR_SUCCESS, nullptr), w))
            in if tokenError \<noteq> ERROR_SUCCESS then Some ((tokenError, child, scope, []), unload (destroy w))
            else
              (case PrepareDirectories api token directory low scope options w of
                 None \<Rightarrow> None
               | Some ((Some e, scope, context), w) \<Rightarrow>
                   Some ((e, child, scope, context), unload (destroy (close_handle api scopedToken w)))
               | Some ((None, scope, context), w) \<Rightarrow>
                   (let ((e, child), w) = StartSuspended api token scopedToken
                          (creation\<lparr>creation_flags := creation_flags creation OR CREATE_SUSPENDED OR CREATE_UNICODE_ENVIRONMENT,
                             creation_environment := environment, creation_directory := c_str directory\<rparr>) profile child w;
                        w = destroy (close_handle api scopedToken w)
                    in Some ((e, child, scope, context), if e \<noteq> ERROR_SUCCESS then unload w else w))))))"

section \<open>The console host\<close>

text \<open>The handles a console host inherits, with our ends of its pipes; on an error all are closed.\<close>

record host_handles =
  nullInput :: handle
  reportRead :: handle
  reportWrite :: handle
  diagnosticsRead :: handle
  diagnosticsWrite :: handle

definition CloseHostHandles :: "'w launch_api \<Rightarrow> host_handles \<Rightarrow> 'w \<Rightarrow> 'w" where
  "CloseHostHandles api h w = close_handle api (nullInput h) (close_handle api (reportRead h)
     (close_handle api (reportWrite h) (close_handle api (diagnosticsRead h) (close_handle api (diagnosticsWrite h) w))))"

definition CreateHostHandles :: "'w launch_api \<Rightarrow> 'w \<Rightarrow> (dword \<times> host_handles) \<times> 'w" where
  "CreateHostHandles api w =
     (let h = \<lparr>nullInput = nullptr, reportRead = nullptr, reportWrite = nullptr, diagnosticsRead = nullptr,
            diagnosticsWrite = nullptr\<rparr>;
          ((inputError, input), w) = OpenNul api w
      in if inputError \<noteq> ERROR_SUCCESS then ((inputError, h), w)
      else
        (let h = h\<lparr>nullInput := input\<rparr>; ((reportError, r, s), w) = CreateBrokerReportPipe api 8 w in
         if reportError \<noteq> ERROR_SUCCESS then ((reportError, h), CloseHostHandles api h w)
         else
           (let h = h\<lparr>reportRead := r, reportWrite := s\<rparr>;
                ((diagnosticsError, r, s), w) = CreateBrokerReportPipe api (64 * 1024) w
            in if diagnosticsError \<noteq> ERROR_SUCCESS then ((diagnosticsError, h), CloseHostHandles api h w)
            else ((ERROR_SUCCESS, h\<lparr>diagnosticsRead := r, diagnosticsWrite := s\<rparr>), w))))"

text \<open>The launch while the privileges are enabled.\<close>

definition LaunchHost ::
  "'w launch_api \<Rightarrow> handle \<Rightarrow> wstring \<Rightarrow> wstring list \<Rightarrow> wstring \<Rightarrow> BrokerChildProcess \<Rightarrow> bool \<Rightarrow> BrokerReadScope option
     \<Rightarrow> AppContainerOptions \<Rightarrow> 'w \<Rightarrow> ((dword \<times> BrokerChildProcess \<times> BrokerReadScope option \<times> wstring) \<times> 'w) option"
where
  "LaunchHost api token accountName args directory child low scope options w =
     (let (conhostError, conhostPath) = GetBrokerConhostExecutablePath api w in
      if conhostError \<noteq> ERROR_SUCCESS then Some ((conhostError, child, scope, []), w)
      else (case BuildWindowsCommandLine conhostPath args of
          None \<Rightarrow> None
        | Some commandLine \<Rightarrow>
            (let ((handleError, h), w) = CreateHostHandles api w;
                 inherited = [nullInput h, reportWrite h, diagnosticsWrite h];
                 attributeError = first_error [AttributeList_Initialize api 1, UpdateProcThreadAttribute api inherited];
                 creation = \<lparr>creation_application = c_str conhostPath, creation_command = commandLine,
                   creation_inherits = True, creation_flags = CREATE_NO_WINDOW OR EXTENDED_STARTUPINFO_PRESENT,
                   creation_environment = nullptr, creation_directory = [], creation_handles = inherited,
                   creation_desktop = []\<rparr>
             in if handleError \<noteq> ERROR_SUCCESS then Some ((handleError, child, scope, []), w)
             else if attributeError \<noteq> ERROR_SUCCESS
             then Some ((attributeError, child, scope, []), CloseHostHandles api h w)
             else
               (case CreateSuspendedInJob api token accountName creation directory low scope options child w of
                  None \<Rightarrow> None
                | Some ((processError, child, scope, context), w) \<Rightarrow>
                    if processError \<noteq> ERROR_SUCCESS
                    then Some ((processError, child, scope, context), CloseHostHandles api h w)
                    else Some ((ERROR_SUCCESS, child\<lparr>exitReport := reportRead h, diagnostics := diagnosticsRead h\<rparr>, scope,
                             context),
                           CloseHostHandles api (h\<lparr>reportRead := nullptr, diagnosticsRead := nullptr\<rparr>)
                             (close_handle api (diagnostics child) (close_handle api (exitReport child) w)))))))"

definition LaunchBrokerConsoleHost ::
  "'w launch_api \<Rightarrow> handle \<Rightarrow> wstring \<Rightarrow> wstring list \<Rightarrow> wstring \<Rightarrow> BrokerChildProcess \<Rightarrow> bool \<Rightarrow> BrokerReadScope option
     \<Rightarrow> AppContainerOptions \<Rightarrow> 'w \<Rightarrow> ((dword \<times> BrokerChildProcess \<times> BrokerReadScope option \<times> wstring) \<times> 'w) option"
where
  "LaunchBrokerConsoleHost api token accountName args work child low scope options w =
     (let (workingDirectoryError, directory) = ResolveBrokerWorkingDirectory api work w in
      if token = nullptr \<or> accountName = [] \<or> args = [] \<or> hd args = [] \<or> work = []
      then Some ((ERROR_INVALID_PARAMETER, child, scope, []), w)
      else if workingDirectoryError \<noteq> ERROR_SUCCESS then Some ((workingDirectoryError, child, scope, []), w)
      else
        (let ((jobError, child), w) = CreateBrokerJob api child w in
         if jobError \<noteq> ERROR_SUCCESS then Some ((jobError, child, scope, []), w)
         else
           (let ((privilegeError, privileges), w) = EnableRequired api w in
            case (if privilegeError \<noteq> ERROR_SUCCESS then Some ((privilegeError, child, scope, []), w)
                  else LaunchHost api token accountName args directory child low scope options w) of
              None \<Rightarrow> None
            | Some ((launchError, child, scope, context), w) \<Rightarrow>
                (let w = RestorePrivileges api privileges w in
                 if launchError \<noteq> ERROR_SUCCESS
                 then Some ((launchError, BrokerChildProcess_empty, scope, context), BrokerChildProcess_Reset api child w)
                 else Some ((ERROR_SUCCESS, child, scope, context), w)))))"

section \<open>Interactive processes\<close>

type_synonym interactive_launch = "dword \<times> BrokerChildProcess \<times> LeaseConnection \<times> BrokerReadScope option"

definition release_after_failure ::
  "'w launch_api \<Rightarrow> dword \<Rightarrow> LeaseConnection \<Rightarrow> BrokerReadScope option \<Rightarrow> 'w \<Rightarrow> interactive_launch \<times> 'w"
where
  "release_after_failure api e lease scope w =
     (let (releaseError, w) = ReleaseInteractiveDesktopLease (launch_pipes api) lease w
      in ((if releaseError = ERROR_SUCCESS then e else releaseError, BrokerChildProcess_empty, LeaseConnection_empty, scope), w))"

text \<open>The checks of the process that was created: its logon and its session.\<close>

definition ValidateLaunched ::
  "'w launch_api \<Rightarrow> handle \<Rightarrow> sid \<Rightarrow> sid \<Rightarrow> dword \<Rightarrow> 'w \<Rightarrow> dword"
where
  "ValidateLaunched api childToken childSid callerLogonSid targetSessionId w =
     (let (launchedLogonSidError, launchedLogonSid) = GetTokenLogonSid api childToken w;
          (launchedSessionError, launchedSessionId, returnedBytes) = TokenSession api childToken w;
          identityMatches = (launchedLogonSidError = ERROR_SUCCESS
            \<and> SidEqual (launch_tokens api) childSid launchedLogonSid
            \<and> \<not> SidEqual (launch_tokens api) callerLogonSid launchedLogonSid)
      in if \<not> identityMatches \<or> launchedSessionError \<noteq> ERROR_SUCCESS \<or> returnedBytes \<noteq> 4
           \<or> launchedSessionId \<noteq> targetSessionId
         then (if launchedLogonSidError \<noteq> ERROR_SUCCESS then launchedLogonSidError
               else if launchedSessionError \<noteq> ERROR_SUCCESS then launchedSessionError else ERROR_ACCESS_DENIED)
         else ERROR_SUCCESS)"

definition TerminateLaunched ::
  "'w launch_api \<Rightarrow> dword \<Rightarrow> BrokerChildProcess \<Rightarrow> LeaseConnection \<Rightarrow> BrokerReadScope option \<Rightarrow> 'w
     \<Rightarrow> (interactive_launch \<times> 'w) option"
where
  "TerminateLaunched api e child lease scope w =
     map_option (\<lambda>(_, w). release_after_failure api e lease scope w) (TerminateAndWaitForExitConfirmed api child w)"

text \<open>The launch while the lease is held.\<close>

definition LaunchLeased ::
  "'w launch_api \<Rightarrow> handle \<Rightarrow> wstring \<Rightarrow> wstring list \<Rightarrow> wstring \<Rightarrow> dword \<Rightarrow> sid \<Rightarrow> sid \<Rightarrow> BrokerChildProcess
     \<Rightarrow> LeaseConnection \<Rightarrow> bool \<Rightarrow> BrokerReadScope option \<Rightarrow> 'w \<Rightarrow> (interactive_launch \<times> 'w) option"
where
  "LaunchLeased api token accountName args directory targetSessionId callerLogonSid childSid child lease low scope w =
     (case BuildWindowsCommandLine (hd args) (tl args) of
        None \<Rightarrow> None
      | Some commandLine \<Rightarrow>
          (case CreateSuspendedInJob api token accountName
                  \<lparr>creation_application = c_str (hd args), creation_command = commandLine, creation_inherits = False,
                   creation_flags = 0, creation_environment = nullptr, creation_directory = [], creation_handles = [],
                   creation_desktop = wide (''WinSta0'' @ [BS] @ ''Default'')\<rparr>
                  directory low scope \<lparr>enabled = False, capabilities = []\<rparr> child w of
             None \<Rightarrow> None
           | Some ((processError, child, scope, _), w) \<Rightarrow>
               if processError \<noteq> ERROR_SUCCESS
               then Some (release_after_failure api processError lease scope (BrokerChildProcess_Reset api child w))
               else
                 (let ((childTokenError, childToken), w) = OpenProcessToken api (child_process child) w in
                  if childTokenError \<noteq> ERROR_SUCCESS then TerminateLaunched api childTokenError child lease scope w
                  else
                    (let validationError = ValidateLaunched api childToken childSid callerLogonSid targetSessionId w;
                         w = close_handle api childToken w
                     in if validationError \<noteq> ERROR_SUCCESS
                     then TerminateLaunched api validationError child lease scope w
                     else Some ((ERROR_SUCCESS, child, lease, scope), w)))))"

text \<open>The launch while the privileges are enabled; \<open>failed\<close> gives up the job.\<close>

definition LaunchInteractive ::
  "'w launch_api \<Rightarrow> handle \<Rightarrow> wstring \<Rightarrow> wstring list \<Rightarrow> wstring \<Rightarrow> dword \<Rightarrow> wstring \<Rightarrow> wstring \<Rightarrow> sid
     \<Rightarrow> BrokerChildProcess \<Rightarrow> bool \<Rightarrow> BrokerReadScope option \<Rightarrow> 'w \<Rightarrow> (interactive_launch \<times> 'w) option"
where
  "LaunchInteractive api token accountName args directory targetSessionId leasePipeName leaseNonce callerLogonSid
       child low scope w =
     (let failed = (\<lambda>e w. Some ((e, BrokerChildProcess_empty, LeaseConnection_empty, scope), BrokerChildProcess_Reset api child w));
          (logonSidError, childSid) = GetTokenLogonSid api token w
      in if logonSidError \<noteq> ERROR_SUCCESS then failed logonSidError w
      else if SidEqual (launch_tokens api) callerLogonSid childSid then failed ERROR_ACCESS_DENIED w
      else
        (case AcquireInteractiveDesktopLease (launch_pipes api) leasePipeName leaseNonce childSid
                LeaseConnection_empty w of
           None \<Rightarrow> None
         | Some ((acquireError, lease), w) \<Rightarrow>
             if acquireError \<noteq> ERROR_SUCCESS then failed acquireError w
             else LaunchLeased api token accountName args directory targetSessionId callerLogonSid childSid
                    child lease low scope w))"

definition LaunchBrokerInteractiveProcess ::
  "'w launch_api \<Rightarrow> handle \<Rightarrow> wstring \<Rightarrow> wstring list \<Rightarrow> wstring \<Rightarrow> dword \<Rightarrow> wstring \<Rightarrow> wstring \<Rightarrow> sid
     \<Rightarrow> BrokerChildProcess \<Rightarrow> LeaseConnection \<Rightarrow> bool \<Rightarrow> BrokerReadScope option \<Rightarrow> 'w \<Rightarrow> (interactive_launch \<times> 'w) option"
where
  "LaunchBrokerInteractiveProcess api token accountName args work targetSessionId leasePipeName leaseNonce
       callerLogonSid child lease low scope w =
     (let w = LeaseConnection_Reset (launch_pipes api) lease (BrokerChildProcess_Reset api child w);
          finish = (\<lambda>e child. (e, child, LeaseConnection_empty, scope));
          (workingDirectoryError, directory) = ResolveBrokerWorkingDirectory api work w
      in if token = nullptr \<or> accountName = [] \<or> args = [] \<or> hd args = [] \<or> WCHR DQ \<in> set (hd args)
           \<or> work = [] \<or> targetSessionId = 0 \<or> targetSessionId = MAXDWORD \<or> leasePipeName = [] \<or> leaseNonce = []
           \<or> callerLogonSid = [] \<or> \<not> SidValid (launch_tokens api) callerLogonSid
         then Some (finish ERROR_INVALID_PARAMETER BrokerChildProcess_empty, w)
      else if workingDirectoryError \<noteq> ERROR_SUCCESS then Some (finish workingDirectoryError BrokerChildProcess_empty, w)
      else
        (let ((jobError, child), w) = CreateBrokerJob api BrokerChildProcess_empty w in
         if jobError \<noteq> ERROR_SUCCESS then Some (finish jobError child, w)
         else
           (case SetBrokerTokenSessionId api token targetSessionId w of
              None \<Rightarrow> None
            | Some (sessionError, w) \<Rightarrow>
                if sessionError \<noteq> ERROR_SUCCESS
                then Some (finish sessionError BrokerChildProcess_empty, BrokerChildProcess_Reset api child w)
                else
                  (let ((privilegeError, privileges), w) = EnableRequired api w in
                   map_option (\<lambda>(result, w). (result, RestorePrivileges api privileges w))
                     (if privilegeError \<noteq> ERROR_SUCCESS
                      then Some (finish privilegeError BrokerChildProcess_empty, BrokerChildProcess_Reset api child w)
                      else LaunchInteractive api token accountName args directory targetSessionId leasePipeName
                             leaseNonce callerLogonSid child low scope w)))))"

end
