(* ===== verification/Frames.thy ===== *)
theory Frames
  imports AppContainer DesktopLease
begin

text \<open>
  What the preparation of a launch leaves alone: a view of the world that none of the calls on
  objects, pipes and tokens changes is the same after the token, the scopes and the lease of a launch
  are prepared, however these end.
\<close>

named_theorems frames

section \<open>Objects and tokens\<close>

locale object_frame =
  fixes objects :: "'w object_api" and view :: "'w \<Rightarrow> 'v"
  assumes close_handle [simp]: "view (CloseHandle (object_tokens objects) h w) = view w"
    and set_token [frames]: "SetTokenInformation (object_tokens objects) h info w = (r1, w') \<Longrightarrow> view w' = view w"
    and disable_privileges [frames]:
      "AdjustTokenPrivilegesDisableAll (object_tokens objects) h w = (r2, w') \<Longrightarrow> view w' = view w"
    and restricted_token [frames]:
      "CreateRestrictedToken (object_tokens objects) h fl ps rs w = (r3, w') \<Longrightarrow> view w' = view w"
    and set_security [frames]: "NtSetSecurityObject objects h i d w = (r4, w') \<Longrightarrow> view w' = view w"
    and create_file [frames]: "NtCreateFile objects h n a w = (r5, w') \<Longrightarrow> view w' = view w"
    and open_namespace [frames]: "NtOpenDirectoryObject objects path w = (r6, w') \<Longrightarrow> view w' = view w"
    and open_root [frames]: "OpenRoot objects path a w = (r7, w') \<Longrightarrow> view w' = view w"
    and enumerate [frames]: "FileIdBothDirectoryInfo objects h restart w = (r8, w') \<Longrightarrow> view w' = view w"
    and tick [frames]: "GetTickCount64 objects w = (r9, w') \<Longrightarrow> view w' = view w"
begin

lemma close_object [simp]: "view (CloseObject objects h w) = view w"
  by (simp add: UniqueHandle_reset_def)

lemma access_token [frames]:
  "CreateAccessRestrictedToken (object_tokens objects) token w = (r, w') \<Longrightarrow> view w' = view w"
  by (auto simp: CreateAccessRestrictedToken_def Let_def dest!: frames split: prod.splits if_splits option.splits)

lemma launch_token [frames]:
  "CreateBrokerLaunchToken (object_tokens objects) token restrict low launchToken w = (r, w') \<Longrightarrow> view w' = view w"
  by (auto simp: CreateBrokerLaunchToken_def Let_def dest!: frames split: prod.splits if_splits)

lemma set_object_security [frames]: "SetObjectSecurity objects h i d w = (e, w') \<Longrightarrow> view w' = view w"
  by (auto simp: SetObjectSecurity_def Let_def dest!: frames split: prod.splits if_splits)

lemma open_pinned [frames]: "OpenPinnedRelative objects h name a w = (r, w') \<Longrightarrow> view w' = view w"
  by (auto simp: OpenPinnedRelative_def Let_def dest!: frames split: prod.splits if_splits)

lemma open_relative [frames]: "OpenRelativeFile objects h name a w = (r, w') \<Longrightarrow> view w' = view w"
  by (auto simp: OpenRelativeFile_def dest!: frames split: if_splits)

lemma reopen_pinned [frames]: "ReopenPinnedFile objects h a w = (r, w') \<Longrightarrow> view w' = view w"
  by (auto simp: ReopenPinnedFile_def dest!: frames)

lemma set_object_dacl [frames]: "SetObjectDacl objects h acl c w = (e, w') \<Longrightarrow> view w' = view w"
  by (auto simp: SetObjectDacl_def Let_def dest!: frames split: prod.splits if_splits)

lemma set_object_label [frames]: "SetObjectLabel objects h acl w = (e, w') \<Longrightarrow> view w' = view w"
  by (auto simp: SetObjectLabel_def Let_def dest!: frames split: prod.splits if_splits)

section \<open>The read scope\<close>

lemma open_components [frames]: "OpenComponents objects h cs w = (r, w') \<Longrightarrow> view w' = view w"
  by (induction cs arbitrary: h w) (auto simp: Let_def dest!: frames split: prod.splits if_splits)

lemma canonical_directory [frames]: "CanonicalDirectory objects directory w = (r, w') \<Longrightarrow> view w' = view w"
  by (auto simp: CanonicalDirectory_def Let_def dest!: frames split: prod.splits if_splits option.splits)

lemma make_writable [frames]: "MakeWritable objects entry w = (r, w') \<Longrightarrow> view w' = view w"
  by (auto simp: MakeWritable_def Let_def dest!: frames split: prod.splits if_splits)

lemma write_access [frames]: "WriteAccess objects d entry acl m a b c w = (r, w') \<Longrightarrow> view w' = view w"
  by (auto simp: WriteAccess_def Let_def dest!: frames split: prod.splits if_splits)

lemma set_access [frames]: "SetAccess objects s entry m root w = (r, w') \<Longrightarrow> view w' = view w"
  by (auto simp: SetAccess_def Let_def dest!: frames split: prod.splits if_splits option.splits)

lemma set_path_access [frames]: "SetPathAccess objects path m root s w = (r, w') \<Longrightarrow> view w' = view w"
  by (auto simp: SetPathAccess_def dest!: frames split: prod.splits)

lemma release_children [frames]: "ReleaseChildren objects paths s w = (r, w') \<Longrightarrow> view w' = view w"
  by (induction paths arbitrary: s w)
    (auto simp: Let_def erase_entry_def dest!: frames split: prod.splits if_splits)

lemma visit_readable [frames]: "VisitReadable objects path s w = (r, w') \<Longrightarrow> view w' = view w"
  by (auto simp: VisitReadable_def Let_def dest!: frames split: prod.splits if_splits)

lemma open_child [frames]: "OpenChild objects path name s w = (r, w') \<Longrightarrow> view w' = view w"
  by (auto simp: OpenChild_def Let_def dest!: frames split: prod.splits if_splits)

definition visit_frame :: "'w visit \<Rightarrow> bool" where
  "visit_frame visit \<longleftrightarrow> (\<forall>path h n s w r w'. visit path h n s w = Some (r, w') \<longrightarrow> view w' = view w)"

lemma visit_records:
  "visit_frame visit \<Longrightarrow> VisitRecords objects deadline visit path records n s w = Some (r, w') \<Longrightarrow> view w' = view w"
proof (induction records arbitrary: n s w)
  case (Cons c records)
  obtain now w1 where t: "GetTickCount64 objects w = (now, w1)" by fastforce
  note v1 = tick[OF t]
  show ?case
  proof (cases "now \<ge> deadline \<or> n = 0 \<or> \<not> is_folder c")
    case True
    with Cons t v1 show ?thesis by (auto simp: Let_def split: if_splits)
  next
    case False
    obtain e h s1 w2 where o: "OpenChild objects path (FileName c) s w1 = ((e, h, s1), w2)" by (metis surj_pair)
    note v2 = open_child[OF o]
    show ?thesis
    proof (cases "visit (path @ [WCHR BS] @ FileName c) h (n - 1) s1 w2")
      case None
      with Cons.prems False t o v1 v2 show ?thesis by (auto simp: Let_def split: if_splits)
    next
      case (Some x)
      then obtain e' n' s' w3 where x: "x = ((e', n', s'), w3)" by (metis surj_pair)
      with Some Cons.prems(1) have "view w3 = view w2" unfolding visit_frame_def by blast
      with Cons False t o v1 v2 Some x show ?thesis by (auto simp: Let_def split: if_splits)
    qed
  qed
qed simp

lemma visit_batches:
  "visit_frame visit \<Longrightarrow> VisitBatches objects deadline visit path fuel restart n s w = Some (r, w') \<Longrightarrow> view w' = view w"
proof (induction fuel arbitrary: restart n s w)
  case (Suc fuel)
  obtain now w1 where t: "GetTickCount64 objects w = (now, w1)" by fastforce
  obtain e first rest w2 where b: "FileIdBothDirectoryInfo objects (object (entry_at s path)) restart w1 = ((e, first, rest), w2)"
    by (metis surj_pair)
  note v = tick[OF t] enumerate[OF b]
  show ?case
  proof (cases "VisitRecords objects deadline visit path (first # rest) n s w2")
    case None
    with Suc.prems t b v show ?thesis
      by (auto simp: Let_def simp del: VisitRecords.simps dest!: frames split: if_splits prod.splits)
  next
    case (Some x)
    then obtain e' n' s' w3 where x: "x = ((e', n', s'), w3)" by (metis surj_pair)
    with Some visit_records[OF Suc.prems(1)] have "view w3 = view w2" by blast
    with Suc t b v Some x show ?thesis
      by (auto simp: Let_def simp del: VisitRecords.simps dest!: frames split: if_splits prod.splits)
  qed
qed simp

lemma visit_entry:
  "visit_frame visit \<Longrightarrow> VisitEntry objects deadline visit path n s w = Some (r, w') \<Longrightarrow> view w' = view w"
  by (auto simp: VisitEntry_def Let_def simp del: VisitBatches.simps dest!: frames dest: visit_batches
      split: prod.splits if_splits)

lemma visit_level:
  assumes "\<And>visit. deeper = Some visit \<Longrightarrow> visit_frame visit"
  shows "visit_frame (VisitLevel objects deadline deeper)"
  unfolding visit_frame_def
proof (intro allI impI)
  fix path h n s w r w'
  assume "VisitLevel objects deadline deeper path h n s w = Some (r, w')"
  with assms show "view w' = view w"
    by (auto simp: VisitLevel_def Let_def dest!: frames dest: visit_entry split: prod.splits if_splits option.splits)
qed

lemma visit: "visit_frame (Visit objects deadline levels)"
  by (induction levels) (auto intro!: visit_level)

lemma visit_view [frames]: "Visit objects deadline levels path h n s w = Some (r, w') \<Longrightarrow> view w' = view w"
  using visit[of deadline levels] unfolding visit_frame_def by blast

lemma canonical_roots [frames]: "CanonicalRoots objects roots allowed s w = (r, w') \<Longrightarrow> view w' = view w"
  by (induction roots arbitrary: allowed s w) (auto simp: Let_def dest!: frames split: prod.splits if_splits)

lemma open_volume_root [frames]: "OpenVolumeRoot objects path w = (r, w') \<Longrightarrow> view w' = view w"
  by (auto simp: OpenVolumeRoot_def Let_def dest!: frames split: prod.splits if_splits)

lemma ensure_new_volume [frames]: "EnsureNewVolume objects deadline volume n s w = Some (r, w') \<Longrightarrow> view w' = view w"
  by (auto simp: EnsureNewVolume_def Let_def dest!: frames split: prod.splits if_splits option.splits)

lemma ensure_volumes [frames]: "EnsureVolumes objects deadline volumes n s w = Some (r, w') \<Longrightarrow> view w' = view w"
  by (induction volumes arbitrary: n s w)
    (fastforce simp: Let_def dest!: frames split: prod.splits if_splits option.splits)+

lemma ensure_roots [frames]: "EnsureRoots objects token volumes readables profile work m t s w = Some (r, w') \<Longrightarrow> view w' = view w"
  by (auto simp: EnsureRoots_def Let_def dest!: frames split: prod.splits if_splits)

lemma ensure_namespace_entries [frames]: "EnsureNamespaceEntries objects paths s w = (r, w') \<Longrightarrow> view w' = view w"
  by (induction paths arbitrary: s w) (auto simp: Let_def dest!: frames split: prod.splits if_splits)

lemma ensure_namespace [frames]: "EnsureNamespaceDirectories objects paths s w = (r, w') \<Longrightarrow> view w' = view w"
  by (auto simp: EnsureNamespaceDirectories_def Let_def dest!: frames split: if_splits)

end

section \<open>The write scope\<close>

locale scope_frame = object_frame "write_objects api" view
  for api :: "'w write_scope_api" and view :: "'w \<Rightarrow> 'v" +
  assumes impersonate [frames]: "ImpersonateLoggedOnUser api token w = (r1, w') \<Longrightarrow> view w' = view w"
    and revert [frames]: "RevertToSelf api w = (r2, w') \<Longrightarrow> view w' = view w"
begin

lemma check_time [frames]: "CheckTime (write_objects api) deadline w = (e, w') \<Longrightarrow> view w' = view w"
  by (auto simp: CheckTime_def dest!: frames split: prod.splits)

lemma consume_object [frames]: "ConsumeObject (write_objects api) deadline n w = (r, w') \<Longrightarrow> view w' = view w"
  by (auto simp: ConsumeObject_def Let_def dest!: frames split: prod.splits if_splits)

lemma make_low [frames]: "MakeLow api h parent name l root directory w = (r, w') \<Longrightarrow> view w' = view w"
  by (auto simp: MakeLow_def Let_def dest!: frames split: prod.splits if_splits)

lemma label_object [frames]: "LabelObject api h parent name l root w = (r, w') \<Longrightarrow> view w' = view w"
  by (auto simp: LabelObject_def Let_def dest!: frames split: prod.splits if_splits option.splits)

definition labeling_frame :: "'w labeling \<Rightarrow> bool" where
  "labeling_frame label_tree \<longleftrightarrow> (\<forall>parent name root n w r w'. label_tree parent name root n w = Some (r, w') \<longrightarrow> view w' = view w)"

lemma label_records:
  "labeling_frame label_tree \<Longrightarrow> LabelRecords label_tree h records n w = Some (r, w') \<Longrightarrow> view w' = view w"
  by (induction records arbitrary: n w) (auto simp: labeling_frame_def split: if_splits option.splits)

lemma label_batches:
  assumes "LabelBatches (write_objects api) deadline label_tree entries h root n w = Some r" and "labeling_frame label_tree"
  shows "view (snd r) = view w"
proof -
  have "objects = write_objects api \<longrightarrow> labeling_frame label_tree \<longrightarrow> view (snd r) = view w"
    if "LabelBatches objects deadline label_tree entries h root n w = Some r" for objects deadline label_tree entries h root n w r
    using that
  proof (rule LabelBatches.raw_induct[where P = "\<lambda>objects deadline label_tree entries h root n w r.
      objects = write_objects api \<longrightarrow> labeling_frame label_tree \<longrightarrow> view (snd r) = view w", rotated], intro impI, goal_cases)
    case (1 batches objects deadline label_tree entries h root n w r)
    obtain te w1 where t: "CheckTime objects deadline w = (te, w1)" by fastforce
    obtain ee first rest w2 where b: "FileIdBothDirectoryInfo objects entries False w1 = ((ee, first, rest), w2)"
      by (metis surj_pair)
    have same: "view w1 = view w" "view w2 = view w" using t b 1(4) by (auto dest!: frames)
    show ?case
    proof (cases "te = ERROR_SUCCESS \<and> ee = ERROR_SUCCESS")
      case False
      with 1(2,4) t b same show ?thesis by (auto dest!: frames split: if_split_asm prod.splits)
    next
      case True
      then obtain ce n1 w3 where records: "LabelRecords label_tree h (first # rest) n w2 = Some ((ce, n1), w3)"
        using 1(2,4) t b by (auto simp: Option.bind_eq_Some_conv simp del: LabelRecords.simps)
      from label_records[OF 1(5) records] have "view w3 = view w" using same by simp
      then show ?thesis
        using 1(1)[of objects deadline label_tree entries h root n1 w3 r] 1(2,4,5) t b True records
        by (auto simp del: LabelRecords.simps split: if_splits)
    qed
  qed
  with assms show ?thesis by blast
qed

lemma label_batches_view: "LabelBatches (write_objects api) deadline label_tree entries h root n w = Some (r, w') \<Longrightarrow>
    labeling_frame label_tree \<Longrightarrow> view w' = view w"
  using label_batches by fastforce

lemma label_level:
  assumes "\<And>label_tree. deeper = Some label_tree \<Longrightarrow> labeling_frame label_tree"
  shows "labeling_frame (LabelLevel api l deadline deeper)"
  unfolding labeling_frame_def
proof (intro allI impI)
  fix parent name root n w r w'
  assume "LabelLevel api l deadline deeper parent name root n w = Some (r, w')"
  with assms show "view w' = view w"
    by (auto simp: LabelLevel_def Let_def dest!: frames dest: label_batches_view split: prod.splits if_splits option.splits)
qed

lemma label_tree: "labeling_frame (LabelTree api l deadline levels)"
  by (induction levels) (auto intro!: label_level)

lemma label_tree_view [frames]: "LabelTree api l deadline levels parent name root n w = Some (r, w') \<Longrightarrow> view w' = view w"
  using label_tree[of l deadline levels] unfolding labeling_frame_def by blast

lemma open_ancestors [frames]: "OpenAncestors (write_objects api) deadline hs names w = (r, w') \<Longrightarrow> view w' = view w"
  by (induction names arbitrary: hs w) (auto simp: Let_def dest!: frames split: prod.splits if_splits)

lemma close_all [simp]: "view (CloseAll (write_objects api) hs w) = view w"
  by (induction hs arbitrary: w) (simp_all add: CloseAll_def)

lemma label_root [frames]: "LabelRoot api directory l deadline n w = Some (r, w') \<Longrightarrow> view w' = view w"
  by (auto simp: LabelRoot_def Let_def simp del: LabelTree.simps dest!: frames split: prod.splits if_splits option.splits)

lemma snd_frames [simp]:
  "view (snd (RevertToSelf api w)) = view w" "view (snd (ImpersonateLoggedOnUser api token w)) = view w"
  "view (snd (GetTickCount64 (write_objects api) w)) = view w"
  using revert[of w] impersonate[of token w] tick[of w] by (metis surj_pair snd_conv)+

lemma prepare_write_scope [frames]:
  "PrepareBrokerWriteScope api token profile work w = Some (e, w') \<Longrightarrow> view w' = view w"
  by (auto simp: PrepareBrokerWriteScope_def PrepareWriteScope_def Let_def Option.bind_eq_Some_conv case_prod_beta
      dest!: frames split: if_splits)

end

section \<open>The AppContainer scope\<close>

locale container_frame = scope_frame "container_scope api" view
  for api :: "'w container_api" and view :: "'w \<Rightarrow> 'v" +
  assumes create_profile [frames]: "CreateAppContainerProfile api name w = (r1, w') \<Longrightarrow> view w' = view w"
    and set_security_info [frames]: "SetSecurityInfo api h acl w = (r2, w') \<Longrightarrow> view w' = view w"
begin

lemma initialize_identity [frames]:
  "AppContainerIdentity_Initialize api token directory options w = (r, w') \<Longrightarrow> view w' = view w"
  by (auto simp: AppContainerIdentity_Initialize_def Let_def dest!: frames split: prod.splits if_splits)

lemma as_account_frame:
  assumes "as_account (container_scope api) token nothing run w = Some (r, w')"
    and "\<And>w r w'. run w = (r, w') \<Longrightarrow> view w' = view w"
  shows "view w' = view w"
proof -
  obtain ie w1 where i: "ImpersonateLoggedOnUser (container_scope api) token w = (ie, w1)" by fastforce
  obtain r2 w2 where run: "run w1 = (r2, w2)" by fastforce
  obtain reverted w3 where r: "RevertToSelf (container_scope api) w2 = (reverted, w3)" by fastforce
  have "view w1 = view w" "view w2 = view w1" "view w3 = view w2"
    using impersonate[OF i] assms(2)[OF run] revert[OF r] by simp_all
  with assms(1) i run r show ?thesis by (auto simp: as_account_def split: if_splits)
qed

lemma open_as_account [frames]:
  "OpenAsAccount (container_scope api) token parent name access w = Some (r, w') \<Longrightarrow> view w' = view w"
  unfolding OpenAsAccount_def by (erule as_account_frame) (rule open_relative)

lemma open_root_as_account [frames]:
  "as_account (container_scope api) token nullptr (OpenRoot (container_objects api) path access) w = Some (r, w') \<Longrightarrow>
    view w' = view w"
  by (erule as_account_frame) (rule open_root)

lemma set_as_account [frames]:
  "as_account (container_scope api) token () (\<lambda>w. case SetSecurityInfo api h acl w of (e, w) \<Rightarrow> ((e, ()), w)) w = Some (r, w') \<Longrightarrow>
    view w' = view w"
  by (erule as_account_frame) (auto dest!: frames split: prod.splits)

lemma grant_package_access [frames]: "GrantPackageAccess api token h s w = Some (e, w') \<Longrightarrow> view w' = view w"
  by (auto simp: GrantPackageAccess_def Let_def dest!: frames split: prod.splits if_splits option.splits)

lemma open_ancestors_as [frames]:
  "OpenAncestorsAs (container_scope api) token hs names w = Some (r, w') \<Longrightarrow> view w' = view w"
  by (induction names arbitrary: hs w) (fastforce simp: Let_def dest!: frames split: prod.splits if_splits option.splits)+

lemma grant_object [frames]: "GrantObject api token path h s context w = Some (r, w') \<Longrightarrow> view w' = view w"
  by (auto simp: GrantObject_def Let_def dest!: frames split: prod.splits if_splits)

lemma grant_root [frames]: "GrantRoot api token path s w = Some (r, w') \<Longrightarrow> view w' = view w"
  by (auto simp: GrantRoot_def Let_def simp del: OpenAncestorsAs.simps dest!: frames
      split: prod.splits if_splits option.splits)

lemma prepare_container_scope [frames]:
  "PrepareBrokerAppContainerScope api token profile work options w = Some (r, w') \<Longrightarrow> view w' = view w"
  by (auto simp: PrepareBrokerAppContainerScope_def Let_def dest!: frames split: prod.splits if_splits option.splits)

end

section \<open>The lease\<close>

locale pipe_frame = object_frame "pipe_objects api" view
  for api :: "'w pipe_api" and view :: "'w \<Rightarrow> 'v" +
  assumes read_file [frames]: "ReadFile api h n w = (r1, w') \<Longrightarrow> view w' = view w"
    and write_file [frames]: "WriteFile api h bytes w = (r2, w') \<Longrightarrow> view w' = view w"
    and create_pipe_file [frames]: "CreatePipeFile api name w = (r3, w') \<Longrightarrow> view w' = view w"
    and message_mode [frames]: "SetMessageMode api h w = (r4, w') \<Longrightarrow> view w' = view w"
    and wait_pipe [simp]: "view (WaitNamedPipeW api name n w) = view w"
begin

lemma read_message [frames]: "ReadPipeMessage api h w = (r, w') \<Longrightarrow> view w' = view w"
  by (auto simp: ReadPipeMessage_def dest!: frames split: prod.splits if_splits)

lemma write_message [frames]: "WritePipeMessage api h bytes w = (r, w') \<Longrightarrow> view w' = view w"
  by (auto simp: WritePipeMessage_def dest!: frames split: prod.splits if_splits)

lemma open_lease_pipe:
  assumes "OpenLeasePipe api name deadline w = Some r"
  shows "view (snd r) = view w"
proof -
  have "pipes = api \<longrightarrow> view (snd r) = view w" if "OpenLeasePipe pipes name deadline w = Some r" for pipes name deadline w r
    using that
  proof (rule OpenLeasePipe.raw_induct[where P = "\<lambda>pipes name deadline w r. pipes = api \<longrightarrow> view (snd r) = view w", rotated],
      intro impI, goal_cases)
    case (1 recur pipes name deadline w r)
    obtain e h w1 where c: "CreatePipeFile api name w = ((e, h), w1)" by (metis surj_pair)
    obtain now w2 where t: "GetTickCount64 (pipe_objects api) (WaitNamedPipeW api name 50 w1) = (now, w2)" by fastforce
    have same: "view w1 = view w" "view w2 = view w" using c t 1(4) by (auto dest!: frames)
    with 1(1)[of pipes name deadline w2 r] 1(2,4) c t show ?case
      by (auto dest!: frames split: prod.splits if_splits)
  qed
  with assms show ?thesis by blast
qed

lemma open_interactive_pipe [frames]: "OpenInteractiveLeasePipe api name w = Some (r, w') \<Longrightarrow> view w' = view w"
  by (auto simp: OpenInteractiveLeasePipe_def dest!: frames open_lease_pipe split: prod.splits if_splits)

lemma connection_reset [simp]: "view (LeaseConnection_Reset api c w) = view w"
  by (simp add: LeaseConnection_Reset_def)

lemma acquire_over [frames]: "AcquireOver api request n pipe w = (r, w') \<Longrightarrow> view w' = view w"
  by (auto simp: AcquireOver_def Let_def dest!: frames split: prod.splits if_splits)

lemma acquire_lease [frames]: "AcquireInteractiveDesktopLease api name n s c w = Some (r, w') \<Longrightarrow> view w' = view w"
  by (auto simp: AcquireInteractiveDesktopLease_def Let_def dest!: frames split: prod.splits if_splits option.splits)

lemma release_lease [frames]: "ReleaseInteractiveDesktopLease api c w = (r, w') \<Longrightarrow> view w' = view w"
  by (auto simp: ReleaseInteractiveDesktopLease_def Let_def dest!: frames split: prod.splits if_splits)

end

end
