(* ===== verification/LaunchContained.thy ===== *)
theory LaunchContained
  imports ProcessLauncher Frames
begin

text \<open>
  What a launch does with processes, as the log of the calls that create, place and end them: a
  launch that fails leaves no process behind, and one that succeeds leaves one suspended process, in
  its job, created after its scopes were prepared and with the token of its session.
\<close>

section \<open>The log of the process calls\<close>

datatype launch_event = JobLimited handle | ProcessCreated handle handle bool | ProcessAssigned handle handle
  | ProcessTerminated handle | JobTerminated handle | ThreadResumed handle

text \<open>Every process created is ended afterwards, itself or with its job, and no thread runs.\<close>

fun assigned_to :: "handle \<Rightarrow> launch_event list \<Rightarrow> launch_event \<Rightarrow> bool" where
  "assigned_to process events (ProcessAssigned job p) \<longleftrightarrow> p = process \<and> JobTerminated job \<in> set events"
| "assigned_to process events e \<longleftrightarrow> False"

fun all_ended :: "launch_event list \<Rightarrow> bool" where
  "all_ended [] \<longleftrightarrow> True"
| "all_ended (ProcessCreated process token suspended # events) \<longleftrightarrow>
     (ProcessTerminated process \<in> set events \<or> list_ex (assigned_to process events) events) \<and> all_ended events"
| "all_ended (ThreadResumed thread # events) \<longleftrightarrow> False"
| "all_ended (e # events) \<longleftrightarrow> all_ended events"

section \<open>What a launch promises\<close>

text \<open>The scopes of a session are ready in \<open>w\<close>; the read scope became \<open>scope'\<close>.\<close>

definition scopes_ready ::
  "'w launch_api \<Rightarrow> ('w \<Rightarrow> launch_event list) \<Rightarrow> launch_event list \<Rightarrow> handle \<Rightarrow> wstring \<Rightarrow> bool \<Rightarrow> BrokerReadScope option \<Rightarrow> BrokerReadScope option \<Rightarrow> bool"
where
  "scopes_ready api log events token directory low scope scope' \<longleftrightarrow>
     (case scope of None \<Rightarrow> scope' = None
      | Some s \<Rightarrow> \<exists>profile w w' s'. BrokerReadScope_Ensure (launch_reading api) token profile directory s w
            = Some ((ERROR_SUCCESS, s'), w') \<and> scope' = Some s' \<and> log w' = events)
     \<and> (low \<longrightarrow> (\<exists>profile w w'. PrepareBrokerWriteScope (container_scope (launch_container api)) token profile directory w
            = Some (ERROR_SUCCESS, w') \<and> log w' = events))"

text \<open>The token of a process is the one made for the session, when the session is restricted or low.\<close>

definition session_token :: "'w launch_api \<Rightarrow> handle \<Rightarrow> bool \<Rightarrow> BrokerReadScope option \<Rightarrow> handle \<Rightarrow> bool" where
  "session_token api token low scope used \<longleftrightarrow>
     (if low \<or> scope \<noteq> None then \<exists>w w'. CreateBrokerLaunchToken (launch_tokens api) token (scope \<noteq> None) low nullptr w
          = ((ERROR_SUCCESS, used), w')
      else used = token)"

definition contained ::
  "'w launch_api \<Rightarrow> ('w \<Rightarrow> launch_event list) \<Rightarrow> launch_event list \<Rightarrow> handle \<Rightarrow> wstring \<Rightarrow> bool \<Rightarrow> BrokerReadScope option \<Rightarrow> dword \<Rightarrow> BrokerChildProcess
     \<Rightarrow> BrokerReadScope option \<Rightarrow> launch_event list \<Rightarrow> bool"
where
  "contained api log before token directory low scope e child scope' after \<longleftrightarrow>
     (if e = ERROR_SUCCESS then
        \<exists>used. after = before @ [ProcessCreated (child_process child) used True, ProcessAssigned (child_job child) (child_process child)]
          \<and> session_token api token low scope used \<and> scopes_ready api log before token directory low scope scope'
      else \<exists>new. after = before @ new \<and> all_ended new)"

text \<open>
  The log has the calls that succeeded; ending a process or a job is requested when the call is made.
  Asking for the size of a profile directory always fails; new handles are valid, and a call that fails
  leaves an error.
\<close>

locale launch_log =
  c: container_frame "launch_container api" log + r: object_frame "scope_objects (launch_reading api)" log
  + p: pipe_frame "launch_pipes api" log
  for api :: "'w launch_api" and log :: "'w \<Rightarrow> launch_event list" +
  assumes open_process_token [frames]: "OpenProcessToken api h w = (r1, w') \<Longrightarrow> log w' = log w"
    and open_thread_token [frames]: "OpenThreadToken api w = (r2, w') \<Longrightarrow> log w' = log w"
    and impersonate_self [frames]: "ImpersonateSelf api w = (r3, w') \<Longrightarrow> log w' = log w"
    and adjust_privileges [frames]: "AdjustTokenPrivileges api h ps w = (r4, w') \<Longrightarrow> log w' = log w"
    and set_session [frames]: "SetTokenSession api h i w = (r5, w') \<Longrightarrow> log w' = log w"
    and environment [frames]: "CreateEnvironmentBlock api h w = (r6, w') \<Longrightarrow> log w' = log w"
    and destroy_environment [simp]: "log (DestroyEnvironmentBlock api h w) = log w"
    and load_profile [frames]: "LoadUserProfileW api h name w = (r7, w') \<Longrightarrow> log w' = log w"
    and unload_profile [simp]: "log (UnloadUserProfile api h profile w) = log w"
    and wait [frames]: "WaitForSingleObject api h timeout w = (r8, w') \<Longrightarrow> log w' = log w"
    and create_pipe [frames]: "CreatePipe api bytes w = (r9, w') \<Longrightarrow> log w' = log w"
    and handle_information [frames]: "SetHandleInformation api h w = (r10, w') \<Longrightarrow> log w' = log w"
    and open_nul [frames]: "OpenNul api w = (r11, w') \<Longrightarrow> log w' = log w"
    and create_job: "CreateJobObjectW api w = ((e, job), w') \<Longrightarrow> log w' = log w \<and> (e = ERROR_SUCCESS \<longrightarrow> valid_handle job)"
    and duplicate_handle [frames]: "DuplicateHandle api h w = (r12, w') \<Longrightarrow> log w' = log w"
    and sleep [simp]: "log (Sleep api timeout w) = log w"
    and limit_job: "SetKillOnJobClose api job w = (e, w') \<Longrightarrow>
      log w' = log w @ (if e = ERROR_SUCCESS then [JobLimited job] else [])"
    and create_process: "CreateProcessAsUserW api h c w = ((e, process, thread), w') \<Longrightarrow>
      log w' = log w @ (if e = ERROR_SUCCESS then [ProcessCreated process h (creation_flags c AND CREATE_SUSPENDED \<noteq> 0)] else [])
      \<and> (e = ERROR_SUCCESS \<longrightarrow> valid_handle process)"
    and assign_process: "AssignProcessToJobObject api job process w = (e, w') \<Longrightarrow>
      log w' = log w @ (if e = ERROR_SUCCESS then [ProcessAssigned job process] else [])"
    and terminate_process: "TerminateProcess api process w = (ok, w') \<Longrightarrow> log w' = log w @ [ProcessTerminated process]"
    and terminate_job: "log (TerminateJobObject api job w) = log w @ [JobTerminated job]"
    and resume_thread: "ResumeThread api thread w = (r13, w') \<Longrightarrow> log w' = log w @ [ThreadResumed thread]"
    and profile_size: "GetUserProfileDirectorySize api h w = (size_error, characters_needed) \<Longrightarrow> size_error \<noteq> ERROR_SUCCESS"
    and restricted_valid: "CreateRestrictedToken (launch_tokens api) h fl ps rs w = ((e, restricted), w') \<Longrightarrow>
      e = ERROR_SUCCESS \<Longrightarrow> valid_handle restricted"
    and disable_error: "AdjustTokenPrivilegesDisableAll (launch_tokens api) h w = ((False, e), w') \<Longrightarrow> e \<noteq> ERROR_SUCCESS"
begin

lemma read_ensure [frames]:
  "BrokerReadScope_Ensure (launch_reading api) token profile work s w = Some (x, w') \<Longrightarrow> log w' = log w"
  by (auto simp: BrokerReadScope_Ensure_def EnsureWindowsNamespace_def Let_def dest!: frames
      split: prod.splits if_splits option.splits)

lemma enable_privileges [frames]: "EnablePrivileges api names ps w = (x, w') \<Longrightarrow> log w' = log w"
  by (induction names arbitrary: ps w) (auto simp: Let_def dest!: frames split: prod.splits if_splits)

lemma enable_required [frames]: "EnableRequired api w = (x, w') \<Longrightarrow> log w' = log w"
  by (auto simp: EnableRequired_def dest!: frames split: prod.splits if_splits)

lemma restore_privileges [simp]: "log (RestorePrivileges api ps w) = log w"
proof -
  have adjust: "log (snd (AdjustTokenPrivileges api h p w)) = log w" for h p w
    by (cases "AdjustTokenPrivileges api h p w") (auto dest: adjust_privileges)
  have "log (fold (\<lambda>p w. snd (AdjustTokenPrivileges api h p w)) states w) = log w" for h states w
    by (induction states arbitrary: w) (simp_all add: adjust)
  then show ?thesis by (simp add: RestorePrivileges_def)
qed

lemma assign_session [frames]: "AssignSession api token i w = (e, w') \<Longrightarrow> log w' = log w"
  by (auto simp: AssignSession_def Let_def dest!: frames split: prod.splits if_splits)

lemma set_token_session [frames]: "SetBrokerTokenSessionId api token i w = Some (e, w') \<Longrightarrow> log w' = log w"
  by (auto simp: SetBrokerTokenSessionId_def Let_def dest!: frames split: prod.splits if_splits)

lemma report_pipe [frames]: "CreateBrokerReportPipe api n w = (x, w') \<Longrightarrow> log w' = log w"
  by (auto simp: CreateBrokerReportPipe_def Let_def dest!: frames split: prod.splits if_splits)

lemma close_host_handles [simp]: "log (CloseHostHandles api h w) = log w"
  by (simp add: CloseHostHandles_def)

lemma host_handles [frames]: "CreateHostHandles api w = (x, w') \<Longrightarrow> log w' = log w"
  by (auto simp: CreateHostHandles_def Let_def dest!: frames split: prod.splits if_splits)

lemma child_reset [simp]: "log (BrokerChildProcess_Reset api child w) = log w"
  by (simp add: BrokerChildProcess_Reset_def Let_def)

lemma prepare_directories [frames]:
  "PrepareDirectories api token directory low scope options w = Some (x, w') \<Longrightarrow> log w' = log w"
  by (auto simp: PrepareDirectories_def PrepareScopes_def PrepareReadScope_def Let_def dest!: frames
      split: prod.splits if_splits option.splits)

lemma suspended_reset: "valid_handle process \<Longrightarrow>
    log (SuspendedProcess_reset api process thread w) = log w @ [ProcessTerminated process]"
  by (auto simp: SuspendedProcess_reset_def dest!: terminate_process split: prod.splits)
    (metis wait surj_pair snd_conv)

lemma create_broker_job: "CreateBrokerJob api child w = ((e, child'), w') \<Longrightarrow>
    if e = ERROR_SUCCESS then valid_handle (child_job child') \<and> log w' = log w @ [JobLimited (child_job child')]
      \<and> child' = BrokerChildProcess_empty\<lparr>child_job := child_job child'\<rparr>
    else child' = BrokerChildProcess_empty \<and> log w' = log w"
  by (auto simp: CreateBrokerJob_def Let_def dest!: create_job limit_job split: prod.splits if_splits)

lemma PrepareScopes_ready:
  assumes "PrepareScopes api token profile directory low scope options w = Some ((ERROR_SUCCESS, scope', context), w')"
  shows "scopes_ready api log (log w) token directory low scope scope'"
proof -
  from assms obtain w1 where r: "PrepareReadScope api token profile directory scope w = Some ((ERROR_SUCCESS, scope'), w1)"
    and l: "low \<Longrightarrow> \<exists>w2. PrepareBrokerWriteScope (container_scope (launch_container api)) token profile directory w1
      = Some (ERROR_SUCCESS, w2)"
    by (auto simp: PrepareScopes_def split: option.splits if_splits)
  have "log w1 = log w" using r by (auto simp: PrepareReadScope_def dest!: frames split: option.splits)
  moreover have "log w2 = log w1" if "PrepareBrokerWriteScope (container_scope (launch_container api)) token profile directory w1
      = Some (ERROR_SUCCESS, w2)" for w2
    using that by (auto dest!: frames)
  ultimately show ?thesis
    using r l by (fastforce simp: scopes_ready_def PrepareReadScope_def dest: read_ensure split: option.splits)
qed

lemma PrepareDirectories_ready:
  assumes "PrepareDirectories api token directory low scope options w = Some ((e, scope', context), w')"
  shows "e \<noteq> Some ERROR_SUCCESS \<and> (e = None \<longrightarrow> scopes_ready api log (log w) token directory low scope scope')"
proof (cases "\<not> low \<and> scope = None \<and> \<not> enabled options")
  case True
  with assms show ?thesis by (auto simp: PrepareDirectories_def scopes_ready_def Let_def split: prod.splits)
next
  case False
  with assms profile_size[of token w] show ?thesis
    by (fastforce simp: PrepareDirectories_def Let_def dest: PrepareScopes_ready split: prod.splits if_splits)
qed

lemma access_token_valid: "CreateAccessRestrictedToken (launch_tokens api) token w = ((ERROR_SUCCESS, t), w') \<Longrightarrow> valid_handle t"
  by (auto simp: CreateAccessRestrictedToken_def Let_def dest!: restricted_valid split: prod.splits if_splits option.splits)

lemma launch_token_valid:
  "CreateBrokerLaunchToken (launch_tokens api) token restrict low h w = ((ERROR_SUCCESS, t), w') \<Longrightarrow> valid_handle t"
  by (auto simp: CreateBrokerLaunchToken_def Let_def dest!: restricted_valid access_token_valid disable_error split: prod.splits if_splits)

lemma StartSuspended_log:
  assumes run: "StartSuspended api token scopedToken creation profile child w = ((e, child'), w')"
    and suspended: "creation_flags creation AND CREATE_SUSPENDED \<noteq> 0"
  shows "if e = ERROR_SUCCESS then child_job child' = child_job child
      \<and> log w' = log w @ [ProcessCreated (child_process child') (if valid_handle scopedToken then scopedToken else token) True,
          ProcessAssigned (child_job child) (child_process child')]
    else child' = child \<and> (\<exists>new. log w' = log w @ new \<and> all_ended new)"
proof -
  let ?used = "if valid_handle scopedToken then scopedToken else token"
  obtain pe process thread w1 where c: "CreateProcessAsUserW api ?used creation w = ((pe, process, thread), w1)"
    by (metis surj_pair)
  note created = create_process[OF c]
  show ?thesis
  proof (cases "pe = ERROR_SUCCESS")
    case False
    with run c created show ?thesis by (auto simp: StartSuspended_def intro!: exI[of _ "[]"])
  next
    case True
    obtain ae w2 where a: "AssignProcessToJobObject api (child_job child) process w1 = (ae, w2)" by fastforce
    note assigned = assign_process[OF a]
    show ?thesis
    proof (cases "ae = ERROR_SUCCESS")
      case False
      with run c created True a assigned show ?thesis by (auto simp: StartSuspended_def suspended_reset)
    next
      case ok: True
      obtain de duplicate w3 where d: "DuplicateHandle api token w2 = ((de, duplicate), w3)" by (metis surj_pair)
      have "log w3 = log w2" by (rule duplicate_handle[OF d])
      with run c created True a assigned ok d suspended show ?thesis
        by (auto simp: StartSuspended_def suspended_reset split: if_splits)
    qed
  qed
qed

lemma suspended_flag: "(f OR CREATE_SUSPENDED OR CREATE_UNICODE_ENVIRONMENT) AND CREATE_SUSPENDED \<noteq> (0 :: dword)"
proof -
  have "bit ((f OR 4 OR 0x400) AND 4 :: dword) 2" by (simp add: bit_simps)
  then show ?thesis by (metis bit_0_eq bot_apply bot_bool_def)
qed

lemma nothing_new: "\<exists>new. log w' = log w @ new \<and> all_ended new" if "log w' = log w"
  using that by (auto intro!: exI[of _ "[]"])

lemma destroy_view [simp]: "log (if environment \<noteq> nullptr then DestroyEnvironmentBlock api environment w else w) = log w"
    "log (if profile \<noteq> nullptr then UnloadUserProfile api token profile w else w) = log w"
  by simp_all

lemma CreateSuspendedInJob_log:
  assumes run: "CreateSuspendedInJob api token account creation directory low scope options child w
    = Some ((e, child', scope', context), w')"
  shows "contained api log (log w) token directory low scope e child' scope' (log w')
    \<and> (if e = ERROR_SUCCESS then child_job child' = child_job child else child' = child)"
proof -
  obtain pe profile w1 where p: "LoadUserProfileW api token account w = ((pe, profile), w1)" by (metis surj_pair)
  obtain ee environment w2 where v: "CreateEnvironmentBlock api token w1 = ((ee, environment), w2)" by (metis surj_pair)
  let ?make = "if low \<or> scope \<noteq> None then CreateBrokerLaunchToken (launch_tokens api) token (scope \<noteq> None) low nullptr w2
    else ((ERROR_SUCCESS, nullptr), w2)"
  obtain te scopedToken w3 where t: "?make = ((te, scopedToken), w3)" by (metis surj_pair)
  have log3: "log w1 = log w" "log w2 = log w" "log w3 = log w"
    using p v t by (auto dest!: frames split: if_splits)
  show ?thesis
  proof (cases "pe = ERROR_SUCCESS \<and> ee = ERROR_SUCCESS \<and> te = ERROR_SUCCESS")
    case False
    then have "e \<noteq> ERROR_SUCCESS \<and> child' = child \<and> log w' = log w"
      using run p v t log3 unfolding CreateSuspendedInJob_def by (auto simp: Let_def split: if_split_asm)
    then show ?thesis using nothing_new[of w' w] by (simp add: contained_def)
  next
    case True
    obtain r w4 where d: "PrepareDirectories api token directory low scope options w3 = Some (r, w4)"
      using run p v t True unfolding CreateSuspendedInJob_def
      by (cases "PrepareDirectories api token directory low scope options w3") (auto simp: Let_def)
    obtain de scope1 context1 where r: "r = (de, scope1, context1)" by (metis surj_pair)
    note ready = PrepareDirectories_ready[OF d[unfolded r]] and log4 = prepare_directories[OF d]
    show ?thesis
    proof (cases de)
      case (Some x)
      then have "e \<noteq> ERROR_SUCCESS \<and> child' = child \<and> log w' = log w"
        using run p v t True d r ready log3 log4 unfolding CreateSuspendedInJob_def
        by (auto simp: Let_def split: if_split_asm)
      then show ?thesis using nothing_new[of w' w] by (simp add: contained_def)
    next
      case None
      let ?creation = "creation\<lparr>creation_flags := creation_flags creation OR CREATE_SUSPENDED OR CREATE_UNICODE_ENVIRONMENT,
        creation_environment := environment, creation_directory := c_str directory\<rparr>"
      obtain se child1 w5 where start: "StartSuspended api token scopedToken ?creation profile child w4 = ((se, child1), w5)"
        by (metis surj_pair)
      have "e = se \<and> child' = child1 \<and> scope' = scope1 \<and> log w' = log w5"
        using run p v t True d r None start unfolding CreateSuspendedInJob_def
        by (auto simp: Let_def split: if_split_asm)
      moreover have "session_token api token low scope (if valid_handle scopedToken then scopedToken else token)"
      proof (cases "low \<or> scope \<noteq> None")
        case True
        then have made: "CreateBrokerLaunchToken (launch_tokens api) token (scope \<noteq> None) low nullptr w2
            = ((ERROR_SUCCESS, scopedToken), w3)"
          using t \<open>pe = ERROR_SUCCESS \<and> _\<close> by (simp split: if_splits)
        with True launch_token_valid[OF made] show ?thesis unfolding session_token_def by (simp only: if_True simp_thms) blast
      qed (use t in \<open>simp add: session_token_def\<close>)
      ultimately show ?thesis
        using StartSuspended_log[OF start] suspended_flag[of "creation_flags creation"] ready None log3 log4
        by (auto simp: contained_def)
    qed
  qed
qed

lemma contained_failed: "e \<noteq> ERROR_SUCCESS \<Longrightarrow> log w' = log w \<Longrightarrow>
    contained api log (log w) token directory low scope e child scope' (log w')"
  using nothing_new[of w' w] by (simp add: contained_def)

lemma contained_child:
  "child_process c' = child_process c \<Longrightarrow> child_job c' = child_job c \<Longrightarrow>
    contained api log before token directory low scope e c' scope' after
      = contained api log before token directory low scope e c scope' after"
  by (simp add: contained_def)

lemma LaunchHost_log:
  assumes run: "LaunchHost api token account args directory child low scope options w = Some ((e, child', scope', context), w')"
  shows "contained api log (log w) token directory low scope e child' scope' (log w')
    \<and> (e = ERROR_SUCCESS \<longrightarrow> child_job child' = child_job child)"
proof -
  obtain ce path where p: "GetBrokerConhostExecutablePath api w = (ce, path)" by fastforce
  obtain he h w1 where h: "CreateHostHandles api w = ((he, h), w1)" by (metis surj_pair)
  have log1: "log w1 = log w" using h by (rule host_handles)
  show ?thesis
  proof (cases "ce = ERROR_SUCCESS")
    case False
    with run p show ?thesis by (auto simp: LaunchHost_def intro: contained_failed)
  next
    case True
    from run p True obtain line where line: "BuildWindowsCommandLine path args = Some line"
      by (auto simp: LaunchHost_def split: option.splits)
    let ?inherited = "[nullInput h, reportWrite h, diagnosticsWrite h]"
    let ?ae = "first_error [AttributeList_Initialize api 1, UpdateProcThreadAttribute api ?inherited]"
    show ?thesis
    proof (cases "he = ERROR_SUCCESS \<and> ?ae = ERROR_SUCCESS")
      case False
      then have "e \<noteq> ERROR_SUCCESS \<and> log w' = log w"
        using run p True line h log1 unfolding LaunchHost_def
        by (auto simp: Let_def simp del: first_error.simps split: if_split_asm)
      then show ?thesis by (auto intro: contained_failed)
    next
      case ok: True
      let ?creation = "\<lparr>creation_application = c_str path, creation_command = line, creation_inherits = True,
        creation_flags = CREATE_NO_WINDOW OR EXTENDED_STARTUPINFO_PRESENT, creation_environment = nullptr,
        creation_directory = [], creation_handles = ?inherited, creation_desktop = []\<rparr>"
      obtain r w2 where c: "CreateSuspendedInJob api token account ?creation directory low scope options child w1 = Some (r, w2)"
        using run p True line h ok unfolding LaunchHost_def
        by (auto simp: Let_def simp del: first_error.simps split: option.splits)
      obtain pe child1 scope1 context1 where r: "r = (pe, child1, scope1, context1)" by (metis surj_pair)
      note step = CreateSuspendedInJob_log[OF c[unfolded r]]
      have "e = pe \<and> child_process child' = child_process child1 \<and> child_job child' = child_job child1 \<and> scope' = scope1
        \<and> log w' = log w2"
        using run p True line h ok c r unfolding LaunchHost_def
        by (auto simp: Let_def simp del: first_error.simps split: if_split_asm)
      with step log1 contained_child[of child' child1] show ?thesis by (auto split: if_splits)
    qed
  qed
qed

lemma LaunchBrokerConsoleHost_log:
  assumes run: "LaunchBrokerConsoleHost api token account args work child low scope options w
    = Some ((e, child', scope', context), w')"
  shows "contained api log (if e = ERROR_SUCCESS then log w @ [JobLimited (child_job child')] else log w) token
    (snd (ResolveBrokerWorkingDirectory api work w)) low scope e child' scope' (log w')"
proof -
  obtain re directory where d: "ResolveBrokerWorkingDirectory api work w = (re, directory)" by fastforce
  let ?bad = "token = nullptr \<or> account = [] \<or> args = [] \<or> hd args = [] \<or> work = []"
  obtain je child1 w1 where j: "CreateBrokerJob api child w = ((je, child1), w1)" by (metis surj_pair)
  note job = create_broker_job[OF j]
  obtain pe ps w2 where p: "EnableRequired api w1 = ((pe, ps), w2)" by (metis surj_pair)
  have log2: "log w2 = log w1" using p by (rule enable_required)
  let ?launch = "if pe \<noteq> ERROR_SUCCESS then Some ((pe, child1, scope, []), w2)
    else LaunchHost api token account args directory child1 low scope options w2"
  show ?thesis
  proof (cases "?bad \<or> re \<noteq> ERROR_SUCCESS \<or> je \<noteq> ERROR_SUCCESS")
    case True
    then have "e \<noteq> ERROR_SUCCESS \<and> log w' = log w"
      using run d j job unfolding LaunchBrokerConsoleHost_def by (auto simp: Let_def split: if_split_asm)
    then show ?thesis by (auto intro: contained_failed)
  next
    case False
    then obtain le child2 scope2 context2 w3 where l: "?launch = Some ((le, child2, scope2, context2), w3)"
      and out: "e = le" "scope' = scope2" "log w' = log w3" "e = ERROR_SUCCESS \<longrightarrow> child' = child2"
      using run d j p unfolding LaunchBrokerConsoleHost_def
      by (auto simp: Let_def split: if_split_asm option.splits)
    have limited: "log w2 = log w @ [JobLimited (child_job child1)]" using job log2 False by simp
    show ?thesis
    proof (cases "pe = ERROR_SUCCESS")
      case ok: True
      note step = LaunchHost_log[of token account args directory child1 low scope options w2 le child2 scope2 context2 w3]
      have "contained api log (log w2) token directory low scope le child2 scope2 (log w3)
        \<and> (le = ERROR_SUCCESS \<longrightarrow> child_job child2 = child_job child1)"
        by (rule step) (use l ok in simp)
      with out limited d show ?thesis by (auto simp: contained_def)
    next
      case failed: False
      with l out limited have "e \<noteq> ERROR_SUCCESS \<and> log w' = log w @ [JobLimited (child_job child1)]" by auto
      then show ?thesis by (simp add: contained_def)
    qed
  qed
qed

section \<open>Ending the job\<close>

lemma tree_exit:
  assumes "TreeExit api job endless deadline w = Some (exited, w')"
  shows "log w' = log w \<and> (exited \<longrightarrow> ActiveProcesses api job w' = Some 0)"
proof -
  have "a = api \<longrightarrow> log (snd r) = log w \<and> (fst r \<longrightarrow> ActiveProcesses api job (snd r) = Some 0)"
    if "TreeExit a job endless deadline w = Some r" for a job endless deadline w r
    using that
  proof (rule TreeExit.raw_induct[where P = "\<lambda>a job endless deadline w r. a = api \<longrightarrow>
      log (snd r) = log w \<and> (fst r \<longrightarrow> ActiveProcesses api job (snd r) = Some 0)", rotated], intro impI, goal_cases)
    case (1 recur a job endless deadline w r)
    obtain now w1 where t: "GetTickCount64 (launch_objects api) w = (now, w1)" by fastforce
    have "log w1 = log w" using t by (rule c.tick)
    with 1(1)[of a job endless deadline _ r] 1(2,4) t show ?case
      by (auto simp: Let_def split: option.splits if_splits)
  qed
  with assms show ?thesis by force
qed

lemma wait_tree_exit:
  "WaitForProcessTreeExit api child timeout w = Some (exited, w') \<Longrightarrow>
    log w' = log w \<and> (exited \<longrightarrow> ActiveProcesses api (child_job child) w' = Some 0)"
  by (auto simp: WaitForProcessTreeExit_def dest!: tree_exit c.tick split: prod.splits if_splits)

lemma terminate_and_wait:
  assumes run: "TerminateAndWaitForExit api child w = Some ((exited, child'), w')" and job: "valid_handle (child_job child)"
  shows "log w' = log w @ [JobTerminated (child_job child)] \<and> (\<not> exited \<longrightarrow> child' = child)
    \<and> (exited \<longrightarrow> (\<exists>w. ActiveProcesses api (child_job child) w = Some 0))"
proof -
  obtain now w1 where t1: "GetTickCount64 (launch_objects api) w = (now, w1)" by fastforce
  let ?w2 = "TerminateJobObject api (child_job child) w1"
  obtain now2 w3 where t2: "GetTickCount64 (launch_objects api) ?w2 = (now2, w3)" by fastforce
  let ?deadline = "now + JobTerminationTimeoutMilliseconds"
  let ?waiting = "if valid_handle (child_process child)
    then WaitForSingleObject api (child_process child) (remaining_time ?deadline now2) w3 else (WAIT_OBJECT_0, ?w2)"
  obtain wr w4 where wt: "?waiting = (wr, w4)" by fastforce
  obtain now3 w5 where t3: "GetTickCount64 (launch_objects api) w4 = (now3, w5)" by fastforce
  have log4: "log w4 = log w @ [JobTerminated (child_job child)]" "log w5 = log w4"
    using t1 t2 t3 wt terminate_job by (auto dest!: frames split: if_splits)
  show ?thesis
  proof (cases "wr = WAIT_OBJECT_0")
    case False
    with run job t1 t2 wt log4 show ?thesis
      by (auto simp: TerminateAndWaitForExit_def Let_def split: if_split_asm prod.splits)
  next
    case True
    obtain ex w6 where x: "WaitForProcessTreeExit api child (remaining_time ?deadline now3) w5 = Some (ex, w6)"
      using run job t1 t2 t3 wt True
      by (auto simp: TerminateAndWaitForExit_def Let_def split: if_split_asm prod.splits option.splits)
    from wait_tree_exit[OF x] log4 run job t1 t2 t3 wt True x show ?thesis
      by (auto simp: TerminateAndWaitForExit_def Let_def split: if_split_asm prod.splits)
  qed
qed

lemma terminate_confirmed:
  assumes "TerminateAndWaitForExitConfirmed api child w = Some (child', w')" and "valid_handle (child_job child)"
  shows "(\<exists>n. log w' = log w @ replicate (Suc n) (JobTerminated (child_job child)))
    \<and> (\<exists>w. ActiveProcesses api (child_job child) w = Some 0)"
proof -
  let ?P = "\<lambda>a child w r. a = api \<longrightarrow> valid_handle (child_job child) \<longrightarrow>
    (\<exists>n. log (snd r) = log w @ replicate (Suc n) (JobTerminated (child_job child)))
    \<and> (\<exists>w. ActiveProcesses api (child_job child) w = Some 0)"
  have "?P a child w r" if "TerminateAndWaitForExitConfirmed a child w = Some r" for a child w r
    using that
  proof (rule TerminateAndWaitForExitConfirmed.raw_induct[where P = ?P, rotated], intro impI, goal_cases)
    case (1 recur a child w r)
    from 1(2,4) obtain exited child1 w1 where t: "TerminateAndWaitForExit api child w = Some ((exited, child1), w1)"
      and r: "(if exited then Some (child1, w1) else recur a child1 (Sleep a 100 w1)) = Some r"
      by (auto simp: Option.bind_eq_Some_conv)
    note step = terminate_and_wait[OF t 1(5)]
    show ?case
    proof (cases exited)
      case True
      with r step have "snd r = w1" by auto
      with step True show ?thesis by (intro conjI exI[of _ 0]) auto
    next
      case False
      with r step have again: "recur a child (Sleep a 100 w1) = Some r" by simp
      from 1(1)[OF again] 1(4,5) step obtain n where
        n: "log (snd r) = log w @ JobTerminated (child_job child) # replicate (Suc n) (JobTerminated (child_job child))"
        and e: "\<exists>w. ActiveProcesses api (child_job child) w = Some 0" by auto
      from n have "log (snd r) = log w @ replicate (Suc (Suc n)) (JobTerminated (child_job child))" by simp
      with e show ?thesis by blast
    qed
  qed
  with assms show ?thesis by fastforce
qed

section \<open>Interactive processes\<close>

lemma release_after_failure_log:
  assumes "release_after_failure api e lease scope w = ((e', child', lease', scope'), w')" and "e \<noteq> ERROR_SUCCESS"
  shows "e' \<noteq> ERROR_SUCCESS \<and> log w' = log w \<and> child' = BrokerChildProcess_empty \<and> lease' = LeaseConnection_empty"
  using assms by (auto simp: release_after_failure_def dest!: p.release_lease split: prod.splits if_splits)

lemma all_ended_terminated: "all_ended (replicate n (JobTerminated job))"
  by (induction n) simp_all

lemma TerminateLaunched_log:
  assumes run: "TerminateLaunched api e child lease scope w = Some ((e', child', lease', scope'), w')"
    and e: "e \<noteq> ERROR_SUCCESS" and job: "valid_handle (child_job child)"
    and w: "log w = before @ [ProcessCreated (child_process child) used True, ProcessAssigned (child_job child) (child_process child)]"
  shows "e' \<noteq> ERROR_SUCCESS \<and> child' = BrokerChildProcess_empty \<and> lease' = LeaseConnection_empty
    \<and> (\<exists>new. log w' = before @ new \<and> all_ended new)"
proof -
  from run obtain child1 w1 where t: "TerminateAndWaitForExitConfirmed api child w = Some (child1, w1)"
    and r: "release_after_failure api e lease scope w1 = ((e', child', lease', scope'), w')"
    by (auto simp: TerminateLaunched_def)
  from terminate_confirmed[OF t job] obtain n where
    "log w1 = log w @ replicate (Suc n) (JobTerminated (child_job child))" by blast
  with release_after_failure_log[OF r e] w all_ended_terminated show ?thesis
    by (intro conjI exI[of _ "[ProcessCreated (child_process child) used True,
          ProcessAssigned (child_job child) (child_process child)] @ replicate (Suc n) (JobTerminated (child_job child))"])
      auto
qed

lemma LaunchLeased_log:
  assumes run: "LaunchLeased api token account args directory session caller logon child lease low scope w
    = Some ((e, child', lease', scope'), w')"
    and job: "valid_handle (child_job child)"
  shows "contained api log (log w) token directory low scope e child' scope' (log w')
    \<and> (if e = ERROR_SUCCESS then child_job child' = child_job child \<and> lease' = lease
       else child' = BrokerChildProcess_empty \<and> lease' = LeaseConnection_empty)"
proof -
  from run obtain line where line: "BuildWindowsCommandLine (hd args) (tl args) = Some line"
    by (auto simp: LaunchLeased_def split: option.splits)
  let ?creation = "\<lparr>creation_application = c_str (hd args), creation_command = line, creation_inherits = False,
    creation_flags = 0, creation_environment = nullptr, creation_directory = [], creation_handles = [],
    creation_desktop = wide (''WinSta0'' @ [BS] @ ''Default'')\<rparr>"
  obtain r w1 where c: "CreateSuspendedInJob api token account ?creation directory low scope
      \<lparr>enabled = False, capabilities = []\<rparr> child w = Some (r, w1)"
    using run line unfolding LaunchLeased_def by (auto split: option.splits)
  obtain pe child1 scope1 context1 where r: "r = (pe, child1, scope1, context1)" by (metis surj_pair)
  note step = CreateSuspendedInJob_log[OF c[unfolded r]]
  show ?thesis
  proof (cases "pe = ERROR_SUCCESS")
    case False
    with run line c r have "release_after_failure api pe lease scope1 (BrokerChildProcess_Reset api child1 w1)
        = ((e, child', lease', scope'), w')"
      unfolding LaunchLeased_def by (auto split: option.splits)
    from release_after_failure_log[OF this False] step False show ?thesis by (auto simp: contained_def)
  next
    case True
    obtain te childToken w2 where o: "OpenProcessToken api (child_process child1) w1 = ((te, childToken), w2)"
      by (metis surj_pair)
    let ?ve = "ValidateLaunched api childToken logon caller session w2"
    let ?w3 = "close_handle api childToken w2"
    have same: "log w2 = log w1" "log ?w3 = log w1" using open_process_token[OF o] by simp_all
    from step True job obtain used where created: "log w1 = log w @ [ProcessCreated (child_process child1) used True,
        ProcessAssigned (child_job child1) (child_process child1)]" and job1: "child_job child1 = child_job child"
      by (auto simp: contained_def)
    have failed: ?thesis if "TerminateLaunched api x child1 lease scope1 v = Some ((e, child', lease', scope'), w')"
        "x \<noteq> ERROR_SUCCESS" "log v = log w1" for x v
      using TerminateLaunched_log[OF that(1,2) _ that(3)[unfolded created]] job job1 by (auto simp: contained_def)
    show ?thesis
    proof (cases "te = ERROR_SUCCESS \<and> ?ve = ERROR_SUCCESS")
      case ok: True
      then have "e = ERROR_SUCCESS \<and> child' = child1 \<and> lease' = lease \<and> scope' = scope1 \<and> w' = ?w3"
        using run line c r True o unfolding LaunchLeased_def by (auto simp: Let_def)
      with step True same show ?thesis by (auto simp: contained_def)
    next
      case bad: False
      then consider "te \<noteq> ERROR_SUCCESS" "TerminateLaunched api te child1 lease scope1 w2 = Some ((e, child', lease', scope'), w')"
        | "te = ERROR_SUCCESS" "?ve \<noteq> ERROR_SUCCESS"
          "TerminateLaunched api ?ve child1 lease scope1 ?w3 = Some ((e, child', lease', scope'), w')"
        using run line c r True o unfolding LaunchLeased_def by (auto simp: Let_def split: if_splits)
      then show ?thesis using failed same by cases blast+
    qed
  qed
qed

lemma LaunchInteractive_log:
  assumes run: "LaunchInteractive api token account args directory session pipe n caller child low scope w
    = Some ((e, child', lease', scope'), w')"
    and job: "valid_handle (child_job child)"
  shows "contained api log (log w) token directory low scope e child' scope' (log w')
    \<and> (if e = ERROR_SUCCESS then child_job child' = child_job child
       else child' = BrokerChildProcess_empty \<and> lease' = LeaseConnection_empty)"
proof -
  obtain le logon where l: "GetTokenLogonSid api token w = (le, logon)" by fastforce
  show ?thesis
  proof (cases "le = ERROR_SUCCESS \<and> \<not> SidEqual (launch_tokens api) caller logon")
    case False
    with run l show ?thesis by (auto simp: LaunchInteractive_def Let_def intro: contained_failed split: if_splits)
  next
    case True
    with run l obtain ae lease w1 where a: "AcquireInteractiveDesktopLease (launch_pipes api) pipe n logon
        LeaseConnection_empty w = Some ((ae, lease), w1)"
      by (auto simp: LaunchInteractive_def Let_def split: option.splits)
    have log1: "log w1 = log w" using a by (rule p.acquire_lease)
    show ?thesis
    proof (cases "ae = ERROR_SUCCESS")
      case False
      with run l True a log1 show ?thesis by (auto simp: LaunchInteractive_def Let_def intro: contained_failed)
    next
      case acquired: True
      with run l True a have "LaunchLeased api token account args directory session caller logon child lease low scope w1
          = Some ((e, child', lease', scope'), w')" by (auto simp: LaunchInteractive_def Let_def)
      from LaunchLeased_log[OF this job] log1 show ?thesis by (auto split: if_splits)
    qed
  qed
qed

lemma LaunchBrokerInteractiveProcess_log:
  assumes run: "LaunchBrokerInteractiveProcess api token account args work session pipe n caller child lease low scope w
    = Some ((e, child', lease', scope'), w')"
  shows "(\<exists>reset. log reset = log w \<and>
      contained api log (if e = ERROR_SUCCESS then log w @ [JobLimited (child_job child')] else log w) token
        (snd (ResolveBrokerWorkingDirectory api work reset)) low scope e child' scope' (log w'))
    \<and> (e \<noteq> ERROR_SUCCESS \<longrightarrow> child' = BrokerChildProcess_empty \<and> lease' = LeaseConnection_empty)"
proof -
  define v where "v = LeaseConnection_Reset (launch_pipes api) lease (BrokerChildProcess_Reset api child w)"
  have logv: "log v = log w" by (simp add: v_def)
  obtain re directory where d: "ResolveBrokerWorkingDirectory api work v = (re, directory)" by fastforce
  let ?bad = "token = nullptr \<or> account = [] \<or> args = [] \<or> hd args = [] \<or> WCHR DQ \<in> set (hd args) \<or> work = []
    \<or> session = 0 \<or> session = MAXDWORD \<or> pipe = [] \<or> n = [] \<or> caller = [] \<or> \<not> SidValid (launch_tokens api) caller"
  obtain je child1 w1 where j: "CreateBrokerJob api BrokerChildProcess_empty v = ((je, child1), w1)" by (metis surj_pair)
  note job = create_broker_job[OF j]
  have early: ?thesis if "e \<noteq> ERROR_SUCCESS" "child' = BrokerChildProcess_empty" "lease' = LeaseConnection_empty"
      "\<exists>new. log w' = log v @ new \<and> all_ended new"
    using that logv by (auto simp: contained_def)
  show ?thesis
  proof (cases "?bad \<or> re \<noteq> ERROR_SUCCESS \<or> je \<noteq> ERROR_SUCCESS")
    case True
    then have "e \<noteq> ERROR_SUCCESS \<and> child' = BrokerChildProcess_empty \<and> lease' = LeaseConnection_empty \<and> log w' = log v"
      using run d j job unfolding LaunchBrokerInteractiveProcess_def v_def[symmetric]
      by (auto simp: Let_def split: if_split_asm)
    with early nothing_new[of w' v] show ?thesis by blast
  next
    case False
    with job have limited: "valid_handle (child_job child1)" "log w1 = log v @ [JobLimited (child_job child1)]" by simp_all
    from run False d j obtain se w2 where s: "SetBrokerTokenSessionId api token session w1 = Some (se, w2)"
      unfolding LaunchBrokerInteractiveProcess_def v_def[symmetric] by (auto simp: Let_def split: option.splits)
    obtain pe ps w3 where p: "EnableRequired api w2 = ((pe, ps), w3)" by (metis surj_pair)
    have same: "log w2 = log w1" "log w3 = log w1" using s p by (auto dest!: frames)
    show ?thesis
    proof (cases "se = ERROR_SUCCESS \<and> pe = ERROR_SUCCESS")
      case False': False
      then have "e \<noteq> ERROR_SUCCESS \<and> child' = BrokerChildProcess_empty \<and> lease' = LeaseConnection_empty \<and> log w' = log w1"
        using run False d j s p same unfolding LaunchBrokerInteractiveProcess_def v_def[symmetric]
        by (auto simp: Let_def split: if_split_asm)
      with early limited show ?thesis by auto
    next
      case True
      then obtain w4 where l: "LaunchInteractive api token account args directory session pipe n caller child1 low scope w3
          = Some ((e, child', lease', scope'), w4)" and w': "w' = RestorePrivileges api ps w4"
        using run False d j s p unfolding LaunchBrokerInteractiveProcess_def v_def[symmetric] by (auto simp: Let_def)
      note step = LaunchInteractive_log[OF l limited(1)]
      show ?thesis
      proof (cases "e = ERROR_SUCCESS")
        case True
        with step same limited logv w' d show ?thesis by (intro conjI exI[of _ v]) auto
      next
        case failed: False
        with step same limited w' have "\<exists>new. log w' = log v @ JobLimited (child_job child1) # new \<and> all_ended new"
          by (auto simp: contained_def)
        then have "\<exists>new. log w' = log v @ new \<and> all_ended new" by (metis all_ended.simps(4))
        with early failed step show ?thesis by auto
      qed
    qed
  qed
qed

end

end
