(* ===== verification/Application.thy ===== *)
theory Application
  imports Sessions Registration CallerPolicy Password ReadScope ProcessLauncher Invocation
begin

text \<open>
  Request handling, \<open>src/broker/BrokerApplication.cpp\<close>: configuring accounts, launching a session and
  finishing it, over the session table, the registration service, the logon and the launcher. Each
  request is one function of the application's state and the world; requests of other workers run
  between the critical sections of a request, which is the subject of \<open>Sessions\<close>.
\<close>

section \<open>The application\<close>

text \<open>\<open>random_draws\<close> are the results the next calls of \<open>BCryptGenRandom\<close> give.\<close>

record 'w application_api =
  app_audit :: "'w audit_api"
  app_policy :: "'w policy_api"
  app_registration :: "'w registration_api"
  app_launch :: "'w launch_api"
  app_fold :: "wstring \<Rightarrow> wstring"
  random_draws :: "'w \<Rightarrow> draws"

record BrokerApplication =
  authorizedCallerSid :: sid
  enrollmentDirectory :: wstring
  app_sessions :: "BrokerReadScope session_table"

record BrokerSession =
  session_child :: BrokerChildProcess
  desktopLease :: LeaseConnection

definition BrokerSession_empty :: BrokerSession where
  "BrokerSession_empty = \<lparr>session_child = BrokerChildProcess_empty, desktopLease = LeaseConnection_empty\<rparr>"

definition BrokerApplication_new :: "wstring \<Rightarrow> sid \<Rightarrow> BrokerApplication" where
  "BrokerApplication_new directory callerSid = \<lparr>authorizedCallerSid = callerSid, enrollmentDirectory = directory,
     app_sessions = session_table_empty\<rparr>"

text \<open>
  The table keeps read scopes. The observer of an entry is set whenever its scope is used, so the
  scope always reports its actions; the entry decides whether they are routed.
\<close>

definition scope_env :: "'w application_api \<Rightarrow> ('w, BrokerReadScope) session_env" where
  "scope_env api = \<lparr>audit_of = app_audit api, fold_name = app_fold api, new_scope = BrokerReadScope_empty,
     Restore = (\<lambda>s w. let ((e, s), w) = BrokerReadScope_Restore (scope_objects (launch_reading (app_launch api)))
                             ((SetObserver s)\<lparr>observed := []\<rparr>) w
                      in ((e, observed s, s\<lparr>observed := []\<rparr>), w))\<rparr>"

text \<open>The scope a request got with its reservation, and its entry after the launch used the scope.\<close>

definition reserved_scope :: "'w application_api \<Rightarrow> BrokerRequest \<Rightarrow> BrokerApplication \<Rightarrow> BrokerReadScope option" where
  "reserved_scope api request app =
     Option.bind (sessionsByAccount (app_sessions app) (app_fold api (profileId request))) readScope"

definition put_scope ::
  "'w application_api \<Rightarrow> BrokerRequest \<Rightarrow> BrokerReadScope option \<Rightarrow> BrokerApplication \<Rightarrow> BrokerApplication"
where
  "put_scope api request scope app =
     (let account = app_fold api (profileId request); st = app_sessions app in
      case (scope, sessionsByAccount st account) of
        (Some s, Some e) \<Rightarrow> app\<lparr>app_sessions := st\<lparr>sessionsByAccount :=
          (sessionsByAccount st)(account \<mapsto> e\<lparr>readScope := Some (s\<lparr>observed := []\<rparr>)\<rparr>)\<rparr>\<rparr>
      | _ \<Rightarrow> app)"

definition report_actions ::
  "'w application_api \<Rightarrow> BrokerRequest \<Rightarrow> BrokerReadScope option \<Rightarrow> BrokerApplication \<Rightarrow> 'w \<Rightarrow> 'w"
where
  "report_actions api request scope app w =
     (case (scope, sessionsByAccount (app_sessions app) (app_fold api (profileId request))) of
        (Some s, Some e) \<Rightarrow>
          (case (observer e, session_log e) of
             (Some account, Some l) \<Rightarrow>
               fold (\<lambda>(action, path, actionError). ScopeLog_Record (app_audit api) l account action path actionError)
                 (observed s) w
           | _ \<Rightarrow> w)
      | _ \<Rightarrow> w)"

section \<open>Configuration\<close>

definition CompleteConfiguration ::
  "'w application_api \<Rightarrow> BrokerRequest \<Rightarrow> BrokerCallerIdentity \<Rightarrow> dword \<times> 'w \<Rightarrow> dword \<times> 'w"
where
  "CompleteConfiguration api request caller = (\<lambda>(result, w).
     (result, AuditRequest (app_audit api)
        (if result = ERROR_SUCCESS then ConfigurationChanged else ConfigurationRejected)
        (if result = ERROR_SUCCESS then EVENTLOG_INFORMATION_TYPE else EVENTLOG_WARNING_TYPE)
        request caller result 0 [] w))"

definition Configure ::
  "'w application_api \<Rightarrow> BrokerRequest \<Rightarrow> BrokerCallerIdentity \<Rightarrow> BrokerApplication \<Rightarrow> 'w
     \<Rightarrow> ((dword \<times> wstring list) \<times> 'w) option"
where
  "Configure api request caller app w =
     (let complete = CompleteConfiguration api request caller;
          done = (\<lambda>result. Some (let (e, w) = complete result in ((e, []), w)));
          registration = app_registration api; directory = enrollmentDirectory app; account = profileId request
      in if \<not> IsAuthorizedCaller (app_policy api) (authorizedCallerSid app) (userSid caller)
         then done (ERROR_ACCESS_DENIED, w)
      else if operation request = List
      then (let ((listError, accounts), w) = RegistrationService_List registration directory w;
                (e, w) = complete (listError, w)
            in Some ((e, accounts), w))
      else if \<not> isElevated caller then done (ERROR_ELEVATION_REQUIRED, w)
      else if operation request = Create
      then Option.bind (RegistrationService_Create registration directory account (random_draws api w) w) done
      else if operation request = TakeOver
      then Option.bind (RegistrationService_TakeOver registration directory account (force request)
                          (random_draws api w) w) done
      else if operation request = Forget then done (RegistrationService_Forget registration directory account w)
      else if operation request = Delete
      then done (if HasActiveSession (scope_env api) account (app_sessions app) then (ERROR_BUSY, w)
                 else RegistrationService_Delete registration directory account w)
      else done (ERROR_INVALID_PARAMETER, w))"

section \<open>Launching\<close>

definition is_launch :: "RequestOperation \<Rightarrow> bool" where
  "is_launch op \<longleftrightarrow> op = ConsoleLaunch \<or> op = InteractiveLaunch"

abbreviation log_if ::
  "'w application_api \<Rightarrow> BrokerRequest \<Rightarrow> string \<Rightarrow> wstring \<Rightarrow> dword \<Rightarrow> 'w \<Rightarrow> 'w"
where
  "log_if api request action path e w \<equiv>
     (if log_access request
      then LogLaunchAction (app_audit api) (requestId request) (profileId request) (wide action) path e w else w)"

text \<open>The end of every path of a launch: a failed launch gives up its reservation.\<close>

type_synonym 'w launching = "((dword \<times> BrokerSession \<times> BrokerApplication) \<times> 'w) option"

definition GiveUpReservation ::
  "'w application_api \<Rightarrow> BrokerRequest \<Rightarrow> dword \<Rightarrow> BrokerSession \<Rightarrow> BrokerApplication \<Rightarrow> 'w \<Rightarrow> 'w launching"
where
  "GiveUpReservation api request result session app w =
     (case TerminateAndWaitForExitConfirmed (app_launch api) (session_child session) w of
        None \<Rightarrow> None
      | Some (child, w) \<Rightarrow>
          map_option (\<lambda>((restoreError, st), w).
              ((if restoreError \<noteq> ERROR_SUCCESS then restoreError else result, session\<lparr>session_child := child\<rparr>,
                app\<lparr>app_sessions := st\<rparr>), w))
            (ReleaseSession (scope_env api) request (app_sessions app) w))"

definition CompleteLaunch ::
  "'w application_api \<Rightarrow> BrokerRequest \<Rightarrow> BrokerCallerIdentity \<Rightarrow> bool \<Rightarrow> dword \<Rightarrow> BrokerSession
     \<Rightarrow> BrokerApplication \<Rightarrow> 'w \<Rightarrow> 'w launching"
where
  "CompleteLaunch api request caller reserved result session app w =
     (let scopePath = (case reserved_scope api request app of
            Some s \<Rightarrow> if result \<noteq> ERROR_SUCCESS \<and> reserved then failurePath s else [] | None \<Rightarrow> [])
      in map_option (\<lambda>((result, session, app), w).
           ((result, session, app),
             (let w = log_if api request (if result = ERROR_SUCCESS then ''launch.started'' else ''launch.failed'')
                    (workingDirectory request) result w
              in AuditRequest (app_audit api) (if result = ERROR_SUCCESS then LaunchAllowed else LaunchRejected)
                   (if result = ERROR_SUCCESS then EVENTLOG_INFORMATION_TYPE else EVENTLOG_WARNING_TYPE)
                   request caller result (BrokerChildProcess_processId (app_launch api) (session_child session) w)
                   scopePath w)))
         (if result \<noteq> ERROR_SUCCESS \<and> reserved then GiveUpReservation api request result session app w
          else Some ((result, session, app), w)))"

text \<open>A process that is ready but does not run is ended.\<close>

definition TerminateSession ::
  "'w application_api \<Rightarrow> BrokerSession \<Rightarrow> 'w \<Rightarrow> (BrokerSession \<times> 'w) option"
where
  "TerminateSession api session w =
     map_option (\<lambda>(child, w). (session\<lparr>session_child := child\<rparr>, w))
       (TerminateAndWaitForExitConfirmed (app_launch api) (session_child session) w)"

text \<open>An interactive launch; its lease is closed when the process cannot run.\<close>

definition LaunchInteractiveSession ::
  "'w application_api \<Rightarrow> BrokerRequest \<Rightarrow> BrokerCallerIdentity \<Rightarrow> handle \<Rightarrow> BrokerSession \<Rightarrow> BrokerApplication
     \<Rightarrow> 'w \<Rightarrow> 'w launching"
where
  "LaunchInteractiveSession api request caller token session app w =
     (let complete = CompleteLaunch api request caller True; launcher = app_launch api in
      case LaunchBrokerInteractiveProcess launcher token (profileId request) (arguments request)
             (workingDirectory request) (sessionId caller) (leasePipe (interactive request))
             (nonce (interactive request)) (caller_logonSid caller) (session_child session) LeaseConnection_empty
             (lowIntegrity request) (map_option SetObserver (reserved_scope api request app)) w of
        None \<Rightarrow> None
      | Some ((launchError, child, lease, scope), w) \<Rightarrow>
          (let session = session\<lparr>session_child := child\<rparr>;
               w = report_actions api request scope app w;
               app = put_scope api request scope app;
               closing = map_option (\<lambda>(result, w). (result, LeaseConnection_Reset (launch_pipes launcher) lease w))
           in if launchError \<noteq> ERROR_SUCCESS then closing (complete launchError session app w)
           else
             (let (resumeError, w) = BrokerChildProcess_Resume launcher child w in
              if resumeError \<noteq> ERROR_SUCCESS
              then closing (Option.bind (TerminateSession api session w)
                       (\<lambda>(session, w). complete resumeError session app w))
              else complete ERROR_SUCCESS (session\<lparr>desktopLease := lease\<rparr>) app
                     (LeaseConnection_Reset (launch_pipes launcher) (desktopLease session) w))))"

definition LaunchConsoleSession ::
  "'w application_api \<Rightarrow> BrokerRequest \<Rightarrow> BrokerCallerIdentity \<Rightarrow> handle \<Rightarrow> BrokerSession \<Rightarrow> BrokerApplication
     \<Rightarrow> 'w \<Rightarrow> 'w launching"
where
  "LaunchConsoleSession api request caller token session app w =
     (let complete = CompleteLaunch api request caller True; launcher = app_launch api in
      case LaunchBrokerConsoleHost launcher token (profileId request) (conhostArguments request)
             (workingDirectory request) (session_child session) (lowIntegrity request)
             (map_option SetObserver (reserved_scope api request app)) (appContainer request) w of
        None \<Rightarrow> None
      | Some ((launchError, child, scope, preparationContext), w) \<Rightarrow>
          (let session = session\<lparr>session_child := child\<rparr>;
               w = report_actions api request scope app w;
               app = put_scope api request scope app
           in if launchError \<noteq> ERROR_SUCCESS
              then complete launchError session app
                (if AppContainerOptions.enabled (appContainer request) \<and> preparationContext \<noteq> []
                 then LogLaunchAction (app_audit api) (requestId request) (profileId request)
                        (wide ''appcontainer.prepare.failed'') preparationContext launchError w else w)
           else
             (let (validationError, w) = ValidateChildLogonSid launcher (child_process child) (caller_logonSid caller) w in
              if validationError \<noteq> ERROR_SUCCESS
              then Option.bind (TerminateSession api session w) (\<lambda>(session, w). complete validationError session app w)
              else
                (let (resumeError, w) = BrokerChildProcess_Resume launcher child w in
                 if resumeError \<noteq> ERROR_SUCCESS
                 then Option.bind (TerminateSession api session w) (\<lambda>(session, w). complete resumeError session app w)
                 else complete ERROR_SUCCESS session app w))))"

text \<open>The launch of a reserved session: a fresh password, a logon with it, and the process.\<close>

definition LaunchReserved ::
  "'w application_api \<Rightarrow> BrokerRequest \<Rightarrow> BrokerCallerIdentity \<Rightarrow> BrokerSession \<Rightarrow> BrokerApplication \<Rightarrow> 'w \<Rightarrow> 'w launching"
where
  "LaunchReserved api request caller session app w =
     (let complete = CompleteLaunch api request caller True;
          w = log_if api request ''launch.begin'' (workingDirectory request) ERROR_SUCCESS w
      in case GenerateBrokerPassword SecurePassword_empty (random_draws api w) of
           None \<Rightarrow> None
         | Some ((passwordError, password), _) \<Rightarrow>
             if passwordError \<noteq> ERROR_SUCCESS then complete passwordError session app w
             else
               (let (resetError, w) = RegistrationService_ResetPassword (app_registration api) (enrollmentDirectory app)
                      (profileId request) password w
                in if resetError \<noteq> ERROR_SUCCESS then complete resetError session app w
                else
                  (let ((logonError, token), w) = LogOnBrokerAccount (launch_tokens (app_launch api)) (profileId request)
                         password nullptr (restrictAccess request) w
                   in if logonError \<noteq> ERROR_SUCCESS then complete logonError session app w
                   else
                     map_option (\<lambda>(result, w). (result, BrokerLogonToken_Reset (launch_tokens (app_launch api)) token w))
                       ((if operation request = InteractiveLaunch then LaunchInteractiveSession else LaunchConsoleSession)
                          api request caller token session app
                          (log_if api request ''launch.account_logged_on'' [] ERROR_SUCCESS w)))))"

definition Launch ::
  "'w application_api \<Rightarrow> BrokerRequest \<Rightarrow> BrokerCallerIdentity \<Rightarrow> BrokerSession \<Rightarrow> BrokerApplication \<Rightarrow> 'w \<Rightarrow> 'w launching"
where
  "Launch api request caller session app w =
     (let refuse = (\<lambda>e. CompleteLaunch api request caller False e session) in
      if \<not> is_launch (operation request) \<or> \<not> IsAuthorizedCaller (app_policy api) (authorizedCallerSid app) (userSid caller)
      then refuse ERROR_ACCESS_DENIED app w
      else if arguments request = [] then refuse ERROR_INVALID_PARAMETER app w
      else
        (case TryReserveSession (scope_env api) request (app_sessions app) w of
           None \<Rightarrow> None
         | Some ((reserved, st), w) \<Rightarrow>
             (let app = app\<lparr>app_sessions := st\<rparr> in
              if \<not> reserved then refuse ERROR_BUSY app w else LaunchReserved api request caller session app w)))"

section \<open>Finishing\<close>

definition TeardownFailed :: "'w application_api \<Rightarrow> BrokerRequest \<Rightarrow> string \<Rightarrow> dword \<Rightarrow> 'w \<Rightarrow> 'w" where
  "TeardownFailed api request reason e w = snd (WriteBrokerAuditEvent (app_audit api) EVENTLOG_ERROR_TYPE
     SessionTeardownFailed [wide ''operation=launch'', AuditProfileId ''profileId'' (profileId request),
       wide ''reason='' @ wide reason, wide ''win32Error='' @ to_wstring e] w)"

definition FinishSession ::
  "'w application_api \<Rightarrow> BrokerRequest \<Rightarrow> BrokerSession \<Rightarrow> bool \<Rightarrow> BrokerApplication \<Rightarrow> 'w \<Rightarrow> 'w launching"
where
  "FinishSession api request session processTreeExited app w =
     (if \<not> processTreeExited
      then Some ((ERROR_BUSY, session, app), TeardownFailed api request ''process_tree_not_confirmed'' ERROR_BUSY w)
      else
        (let interactive = (operation request = InteractiveLaunch);
             (leaseError, w) = (if interactive
               then ReleaseInteractiveDesktopLease (launch_pipes (app_launch api)) (desktopLease session) w
               else (ERROR_SUCCESS, w));
             session = (if interactive then session\<lparr>desktopLease := LeaseConnection_empty\<rparr> else session)
         in case ReleaseSession (scope_env api) request (app_sessions app) w of
              None \<Rightarrow> None
            | Some ((restoreError, st), w) \<Rightarrow>
                (let e = (if restoreError \<noteq> ERROR_SUCCESS then restoreError else leaseError);
                     w = log_if api request ''session.closed'' [] e w;
                     w = (if e \<noteq> ERROR_SUCCESS then TeardownFailed api request ''lease_release_failed'' e w else w)
                 in Some ((e, session, app\<lparr>app_sessions := st\<rparr>), w))))"

text \<open>The end of a session's lifetime: the lease outlives the process tree.\<close>

definition DestroySession :: "'w launch_api \<Rightarrow> BrokerSession \<Rightarrow> 'w \<Rightarrow> 'w option" where
  "DestroySession api session w =
     map_option (\<lambda>(child, w). BrokerChildProcess_Reset api child
         (LeaseConnection_Reset (launch_pipes api) (desktopLease session) w))
       (TerminateAndWaitForExitConfirmed api (session_child session) w)"

section \<open>The reservations of requests\<close>

text \<open>
  \<open>sessions_held api app hs\<close>: the table of the application is in order and the requests \<open>hs\<close> hold its
  sessions. It is kept by each operation; a launch adds its request exactly when it succeeds.
\<close>

definition sessions_held :: "'w application_api \<Rightarrow> BrokerApplication \<Rightarrow> BrokerRequest list \<Rightarrow> bool" where
  "sessions_held api app hs \<longleftrightarrow>
     (\<forall>w. sessions_ok (scope_env api) \<lparr>table = app_sessions app, holders = hs, world = w\<rparr>)"

lemma sessions_held_new: "sessions_held api (BrokerApplication_new directory callerSid) []"
  by (simp add: sessions_held_def BrokerApplication_new_def sessions_ok_def session_table_empty_def entry_ok_def held_by_def)

lemma sessions_held_any:
  "sessions_ok (scope_env api) \<lparr>table = app_sessions app, holders = hs, world = w\<rparr> \<Longrightarrow> sessions_held api app hs"
  by (simp add: sessions_held_def sessions_ok_def)

lemma reserve_held:
  assumes "sessions_held api app hs"
    and "TryReserveSession (scope_env api) request (app_sessions app) w = Some ((reserved, st), w')"
  shows "sessions_held api (app\<lparr>app_sessions := st\<rparr>) (if reserved then request # hs else hs)"
proof -
  let ?b = "\<lparr>table = app_sessions app, holders = hs, world = w\<rparr>"
  have ok: "sessions_ok (scope_env api) ?b" using assms(1) by (simp add: sessions_held_def)
  show ?thesis
  proof (cases rule: TryReserve_ok[OF ok, of request, case_names refused reserved])
    case (refused st1 w1)
    with assms(2) show ?thesis by (intro sessions_held_any) auto
  next
    case (reserved st1 w1)
    with assms(2) show ?thesis by (intro sessions_held_any) auto
  qed
qed

lemma release_held:
  assumes "sessions_held api app (request # hs)"
    and "ReleaseSession (scope_env api) request (app_sessions app) w = Some ((e, st), w')"
  shows "sessions_held api (app\<lparr>app_sessions := st\<rparr>) hs"
proof -
  let ?b = "\<lparr>table = app_sessions app, holders = request # hs, world = w\<rparr>"
  have ok: "sessions_ok (scope_env api) ?b" using assms(1) by (simp add: sessions_held_def)
  obtain e1 st1 w1 where "ReleaseSession (scope_env api) request (app_sessions app) w = Some ((e1, st1), w1)"
    and "sessions_ok (scope_env api) \<lparr>table = st1, holders = hs, world = w1\<rparr>"
    by (rule Release_ok[OF ok, of request]) simp_all
  with assms(2) show ?thesis by (intro sessions_held_any[where w = w1]) simp
qed

lemma put_scope_held:
  assumes ok: "sessions_held api app hs" and scope: "scope \<noteq> None \<Longrightarrow> reserved_scope api request app \<noteq> None"
  shows "sessions_held api (put_scope api request scope app) hs"
proof (cases "\<exists>s e. scope = Some s \<and> sessionsByAccount (app_sessions app) (app_fold api (profileId request)) = Some e")
  case False
  then have "put_scope api request scope app = app" by (auto simp: put_scope_def Let_def split: option.splits)
  with ok show ?thesis by simp
next
  case True
  then obtain s e where s: "scope = Some s"
    and e: "sessionsByAccount (app_sessions app) (app_fold api (profileId request)) = Some e" by blast
  with scope have r: "readScope e \<noteq> None" by (simp add: reserved_scope_def)
  let ?account = "app_fold api (profileId request)"
  have "sessions_ok (scope_env api) \<lparr>table = (app_sessions app)\<lparr>sessionsByAccount := (sessionsByAccount (app_sessions app))
      (?account \<mapsto> e\<lparr>readScope := Some (s\<lparr>observed := []\<rparr>)\<rparr>)\<rparr>, holders = hs, world = w\<rparr>" for w
  proof (rule sessions_ok_update[where b = "\<lparr>table = app_sessions app, holders = hs, world = w\<rparr>" and account = ?account
        and entry = "Some (e\<lparr>readScope := Some (s\<lparr>observed := []\<rparr>)\<rparr>)"])
    have "entry_ok (held_by (scope_env api) hs ?account) (Some e)"
      using ok e by (auto simp: sessions_held_def sessions_ok_def) metis
    with r show "entry_ok (held_by (scope_env api) (holders \<lparr>table = (app_sessions app)\<lparr>sessionsByAccount :=
        (sessionsByAccount (app_sessions app))(?account \<mapsto> e\<lparr>readScope := Some (s\<lparr>observed := []\<rparr>)\<rparr>)\<rparr>, holders = hs, world = w\<rparr>) ?account)
        (Some (e\<lparr>readScope := Some (s\<lparr>observed := []\<rparr>)\<rparr>))"
      by (auto simp: entry_ok_def)
  qed (use ok in \<open>auto simp: sessions_held_def sessions_ok_def\<close>)
  then show ?thesis by (simp add: sessions_held_def put_scope_def s e Let_def)
qed

lemma give_up_held:
  assumes "sessions_held api app (request # hs)" and "result \<noteq> ERROR_SUCCESS"
    and "GiveUpReservation api request result session app w = Some ((e, session', app'), w')"
  shows "e \<noteq> ERROR_SUCCESS \<and> sessions_held api app' hs"
  using assms by (auto simp: GiveUpReservation_def dest: release_held split: option.splits if_splits)

lemma complete_held:
  assumes ok: "sessions_held api app (if reserved then request # hs else hs)"
    and run: "CompleteLaunch api request caller reserved result session app w = Some ((e, session', app'), w')"
  shows "if result = ERROR_SUCCESS then e = ERROR_SUCCESS \<and> session' = session \<and> app' = app
    else e \<noteq> ERROR_SUCCESS \<and> sessions_held api app' hs"
  using run ok give_up_held by (fastforce simp: CompleteLaunch_def Let_def split: if_split_asm)

text \<open>A launch without a read scope has none afterwards.\<close>

lemma prepare_unscoped: "PrepareDirectories api token directory low None options w = Some ((e, scope', context), w') \<Longrightarrow>
    scope' = None"
  by (auto simp: PrepareDirectories_def PrepareScopes_def PrepareReadScope_def Let_def split: prod.splits if_splits option.splits)

lemma create_unscoped:
  assumes "CreateSuspendedInJob api token account creation directory low None options child w
    = Some ((e, child', scope', context), w')"
  shows "scope' = None"
  using assms by (auto simp: CreateSuspendedInJob_def Let_def dest: prepare_unscoped split: prod.splits if_splits option.splits)

lemma console_unscoped:
  assumes "LaunchBrokerConsoleHost api token account args work child low None options w
    = Some ((e, child', scope', context), w')"
  shows "scope' = None"
proof -
  have host: "scope' = None" if "LaunchHost api token account args directory child low None options w
      = Some ((e, child', scope', ctx), w')" for directory child w e child' scope' ctx w'
    using that by (auto simp: LaunchHost_def Let_def dest: create_unscoped split: prod.splits if_splits option.splits)
  from assms show ?thesis
    by (auto simp: LaunchBrokerConsoleHost_def Let_def dest: host split: prod.splits if_splits option.splits)
qed

lemma interactive_unscoped:
  assumes "LaunchBrokerInteractiveProcess api token account args work session pipe n caller child lease low None w
    = Some ((e, child', lease', scope'), w')"
  shows "scope' = None"
proof -
  have terminated: "scope' = None" if "TerminateLaunched api e0 child lease None w = Some ((e, child', lease', scope'), w')"
    for e0 child lease w e child' lease' scope' w'
    using that by (auto simp: TerminateLaunched_def release_after_failure_def Let_def case_prod_beta)
  have leased: "scope' = None" if "LaunchLeased api token account args directory session caller logon child lease low None w
      = Some ((e, child', lease', scope'), w')" for directory logon child lease w e child' lease' scope' w'
    using that by (auto simp: LaunchLeased_def release_after_failure_def Let_def dest!: create_unscoped dest: terminated
        split: prod.splits if_splits option.splits)
  have inner: "scope' = None" if "LaunchInteractive api token account args directory session pipe n caller child low None w
      = Some ((e, child', lease', scope'), w')" for directory child w e child' lease' scope' w'
    using that by (auto simp: LaunchInteractive_def Let_def dest: leased split: prod.splits if_splits option.splits)
  from assms show ?thesis
    by (auto simp: LaunchBrokerInteractiveProcess_def Let_def dest: inner split: prod.splits if_splits option.splits)
qed

text \<open>What a launch of a reserved session leaves reserved.\<close>

definition reservation_kept :: "'w application_api \<Rightarrow> BrokerRequest \<Rightarrow> BrokerRequest list \<Rightarrow> dword \<Rightarrow> BrokerApplication \<Rightarrow> bool" where
  "reservation_kept api request hs e app \<longleftrightarrow> sessions_held api app (if e = ERROR_SUCCESS then request # hs else hs)"

lemma complete_kept:
  assumes "sessions_held api app (request # hs)"
    and "CompleteLaunch api request caller True result session app w = Some ((e, session', app'), w')"
  shows "reservation_kept api request hs e app'"
  using complete_held[where reserved = True, OF _ assms(2), of hs] assms(1)
  by (auto simp: reservation_kept_def split: if_split_asm)

lemma put_scope_console:
  assumes "sessions_held api app hs"
    and "LaunchBrokerConsoleHost launcher token account args work child low
      (map_option SetObserver (reserved_scope api request app)) options w = Some ((e, child', scope', text), w')"
  shows "sessions_held api (put_scope api request scope' app) hs"
  using assms by (cases "reserved_scope api request app") (auto intro!: put_scope_held dest: console_unscoped)

lemma put_scope_interactive:
  assumes "sessions_held api app hs"
    and "LaunchBrokerInteractiveProcess launcher token account args work session pipe n caller child lease low
      (map_option SetObserver (reserved_scope api request app)) w = Some ((e, child', lease', scope'), w')"
  shows "sessions_held api (put_scope api request scope' app) hs"
  using assms by (cases "reserved_scope api request app") (auto intro!: put_scope_held dest: interactive_unscoped)

lemma interactive_session_kept:
  assumes "sessions_held api app (request # hs)"
    and "LaunchInteractiveSession api request caller token session app w = Some ((e, session', app'), w')"
  shows "reservation_kept api request hs e app'"
  using assms(2) unfolding LaunchInteractiveSession_def Let_def TerminateSession_def
  by (auto split: option.splits prod.splits if_split_asm simp: bind_eq_Some_conv map_option_eq_Some
      dest!: put_scope_interactive[OF assms(1)] complete_kept)

lemma console_session_kept:
  assumes "sessions_held api app (request # hs)"
    and "LaunchConsoleSession api request caller token session app w = Some ((e, session', app'), w')"
  shows "reservation_kept api request hs e app'"
  using assms(2) unfolding LaunchConsoleSession_def Let_def TerminateSession_def
  by (auto split: option.splits prod.splits if_split_asm simp: bind_eq_Some_conv map_option_eq_Some
      dest!: put_scope_console[OF assms(1)] complete_kept)

lemma LaunchReserved_kept:
  assumes "sessions_held api app (request # hs)"
    and "LaunchReserved api request caller session app w = Some ((e, session', app'), w')"
  shows "reservation_kept api request hs e app'"
  using assms(2) unfolding LaunchReserved_def Let_def
  by (auto split: option.splits prod.splits if_split_asm simp: map_option_eq_Some
      dest: complete_kept[OF assms(1)] console_session_kept[OF assms(1)] interactive_session_kept[OF assms(1)])

lemma Launch_kept:
  assumes ok: "sessions_held api app hs"
    and run: "Launch api request caller session app w = Some ((e, session', app'), w')"
  shows "reservation_kept api request hs e app'"
proof -
  let ?authorized = "is_launch (operation request) \<and> IsAuthorizedCaller (app_policy api) (authorizedCallerSid app) (userSid caller)"
  have refuse: "reservation_kept api request hs e app'" if "CompleteLaunch api request caller False err session app1 w1
      = Some ((e, session', app'), w')" "sessions_held api app1 hs" "err \<noteq> ERROR_SUCCESS" for err app1 w1
    using complete_held[where reserved = False, OF _ that(1), of hs] that by (simp add: reservation_kept_def)
  show ?thesis
  proof (cases "?authorized \<and> arguments request \<noteq> []")
    case False
    with run ok show ?thesis by (auto simp: Launch_def Let_def intro: refuse split: if_split_asm)
  next
    case True
    with run obtain reserved st w1 where r: "TryReserveSession (scope_env api) request (app_sessions app) w = Some ((reserved, st), w1)"
      by (auto simp: Launch_def Let_def split: option.splits)
    note held = reserve_held[OF ok r]
    show ?thesis
    proof (cases reserved)
      case False
      with run True r held show ?thesis by (auto simp: Launch_def Let_def intro: refuse)
    next
      case reserved: True
      with run True r held show ?thesis by (auto simp: Launch_def Let_def intro: LaunchReserved_kept)
    qed
  qed
qed

lemma Finish_kept:
  assumes "sessions_held api app (request # hs)"
    and "FinishSession api request session exited app w = Some ((e, session', app'), w')"
  shows "sessions_held api app' (if exited then hs else request # hs)"
proof (cases exited)
  case False
  with assms show ?thesis by (simp add: FinishSession_def)
next
  case True
  obtain le w1 where "(if operation request = InteractiveLaunch
      then ReleaseInteractiveDesktopLease (launch_pipes (app_launch api)) (desktopLease session) w else (ERROR_SUCCESS, w)) = (le, w1)"
    by fastforce
  with True assms show ?thesis
    by (auto simp: FinishSession_def Let_def dest: release_held split: option.splits)
qed

end
