(* ===== verification/PipeServer.thy ===== *)
theory PipeServer
  imports Application BrokerResponses
begin

text \<open>
  One request on the control pipe, \<open>src/broker/BrokerPipeServer.cpp\<close>: reading it, identifying its
  caller, handing it to the handlers, answering, following the session it started and ending it. The
  handlers are those \<open>BrokerControlPipeListener.cpp\<close> binds to the application. \<open>None\<close> is a call that
  does not return.
\<close>

section \<open>The calls\<close>

text \<open>
  \<open>BeginRead\<close> and \<open>BeginWrite\<close> are \<open>ReadFile\<close> and \<open>WriteFile\<close> with an \<open>OVERLAPPED\<close> on the event:
  they complete, or fail with \<open>ERROR_IO_PENDING\<close> or another error. \<open>ReadResult\<close> and \<open>WriteResult\<close> are
  \<open>GetOverlappedResult\<close> for the pending call, told whether to wait. Identification calls return their
  error first; \<open>TokenElevation\<close> also the bytes returned.
\<close>

record 'w server_api =
  server_launch :: "'w launch_api"
  CreateEventW :: "'w \<Rightarrow> (dword \<times> handle) \<times> 'w"
  ResetEvent :: "handle \<Rightarrow> 'w \<Rightarrow> 'w"
  BeginRead :: "handle \<Rightarrow> nat \<Rightarrow> handle \<Rightarrow> 'w \<Rightarrow> (dword \<times> string) \<times> 'w"
  BeginWrite :: "handle \<Rightarrow> string \<Rightarrow> handle \<Rightarrow> 'w \<Rightarrow> (dword \<times> nat) \<times> 'w"
  ReadResult :: "handle \<Rightarrow> handle \<Rightarrow> bool \<Rightarrow> 'w \<Rightarrow> (bool \<times> string) \<times> 'w"
  WriteResult :: "handle \<Rightarrow> handle \<Rightarrow> bool \<Rightarrow> 'w \<Rightarrow> (bool \<times> nat) \<times> 'w"
  CancelIoEx :: "handle \<Rightarrow> 'w \<Rightarrow> 'w"
  WaitForMultipleObjects :: "handle list \<Rightarrow> dword \<Rightarrow> 'w \<Rightarrow> dword \<times> 'w"
  GetExitCodeProcess :: "handle \<Rightarrow> 'w \<Rightarrow> dword \<times> dword"
  ImpersonateNamedPipeClient :: "handle \<Rightarrow> 'w \<Rightarrow> bool \<times> 'w"
  TokenElevation :: "handle \<Rightarrow> 'w \<Rightarrow> dword \<times> bool \<times> nat"
  GetNamedPipeClientProcessId :: "handle \<Rightarrow> 'w \<Rightarrow> dword \<times> dword"
  OpenProcess :: "dword \<Rightarrow> 'w \<Rightarrow> (dword \<times> handle) \<times> 'w"

abbreviation server_tokens :: "'w server_api \<Rightarrow> 'w token_api" where
  "server_tokens api \<equiv> launch_tokens (server_launch api)"
abbreviation close_event :: "'w server_api \<Rightarrow> handle \<Rightarrow> 'w \<Rightarrow> 'w" where
  "close_event api \<equiv> UniqueHandle_reset (server_tokens api)"

abbreviation ERROR_IO_PENDING :: dword where "ERROR_IO_PENDING \<equiv> 997"
abbreviation ERROR_NOT_READY :: dword where "ERROR_NOT_READY \<equiv> 21"
abbreviation WAIT_TIMEOUT :: dword where "WAIT_TIMEOUT \<equiv> 258"

definition RequestTimeoutMilliseconds :: dword where "RequestTimeoutMilliseconds = 5000"
definition ControlConnectionCloseTimeoutMilliseconds :: dword where
  "ControlConnectionCloseTimeoutMilliseconds = 250"

section \<open>Pipe operations\<close>

definition WaitForOperation ::
  "'w server_api \<Rightarrow> (bool \<Rightarrow> 'w \<Rightarrow> (bool \<times> 'b) \<times> 'w) \<Rightarrow> handle \<Rightarrow> handle \<Rightarrow> handle \<Rightarrow> 'w \<Rightarrow> (bool \<times> 'b) \<times> 'w"
where
  "WaitForOperation api result pipe stopEvent operationEvent w =
     (let (wait, w) = WaitForMultipleObjects api [stopEvent, operationEvent] RequestTimeoutMilliseconds w in
      if wait \<noteq> WAIT_OBJECT_0 + 1
      then (let ((_, transferred), w) = result True (CancelIoEx api pipe w) in ((False, transferred), w))
      else result False w)"

text \<open>An event for one operation, closed after it; without the event, \<open>failed\<close>.\<close>

definition with_event ::
  "'w server_api \<Rightarrow> 'b \<Rightarrow> (handle \<Rightarrow> 'w \<Rightarrow> 'b \<times> 'w) \<Rightarrow> 'w \<Rightarrow> 'b \<times> 'w"
where
  "with_event api failed perform w =
     (let ((eventError, event), w) = CreateEventW api w in
      if eventError \<noteq> ERROR_SUCCESS then (failed, w)
      else (let (result, w) = perform event (ResetEvent api event w) in (result, close_event api event w)))"

definition ReadRequest :: "'w server_api \<Rightarrow> handle \<Rightarrow> handle \<Rightarrow> 'w \<Rightarrow> (bool \<times> string) \<times> 'w" where
  "ReadRequest api pipe stopEvent = with_event api (False, []) (\<lambda>operationEvent w.
     let ((readError, bytes), w) = BeginRead api pipe MaximumMessageBytes operationEvent w;
         ((completed, bytes), w) =
           (if readError = ERROR_SUCCESS then ((True, bytes), w)
            else if readError \<noteq> ERROR_IO_PENDING then ((False, []), w)
            else WaitForOperation api (ReadResult api pipe operationEvent) pipe stopEvent operationEvent w)
     in (if \<not> completed \<or> bytes = [] then (False, []) else (True, bytes), w))"

definition WriteResponse :: "'w server_api \<Rightarrow> handle \<Rightarrow> handle \<Rightarrow> string \<Rightarrow> 'w \<Rightarrow> bool \<times> 'w" where
  "WriteResponse api pipe stopEvent response = with_event api False (\<lambda>operationEvent w.
     let ((writeError, bytesWritten), w) = BeginWrite api pipe response operationEvent w;
         ((completed, bytesWritten), w) =
           (if writeError = ERROR_SUCCESS then ((True, bytesWritten), w)
            else if writeError \<noteq> ERROR_IO_PENDING then ((False, 0), w)
            else WaitForOperation api (WriteResult api pipe operationEvent) pipe stopEvent operationEvent w)
     in (completed \<and> bytesWritten = length response, w))"

text \<open>The client is gone, or breaks the rules, when its pipe has anything to read.\<close>

definition WaitForBrokerChildExit :: "'w server_api \<Rightarrow> handle \<Rightarrow> handle \<Rightarrow> handle \<Rightarrow> 'w \<Rightarrow> bool \<times> 'w" where
  "WaitForBrokerChildExit api pipe stopEvent childProcess = with_event api False (\<lambda>operationEvent w.
     let ((readError, _), w) = BeginRead api pipe 1 operationEvent w
     in if readError \<noteq> ERROR_IO_PENDING then (False, w)
        else
          (let (wait, w) = WaitForMultipleObjects api [stopEvent, childProcess, operationEvent] INFINITE w;
               (_, w) = ReadResult api pipe operationEvent True (CancelIoEx api pipe w)
           in (wait = WAIT_OBJECT_0 + 1, w)))"

definition WaitForControlConnectionClose :: "'w server_api \<Rightarrow> handle \<Rightarrow> handle \<Rightarrow> 'w \<Rightarrow> 'w" where
  "WaitForControlConnectionClose api pipe stopEvent w =
     snd (with_event api () (\<lambda>operationEvent w.
       let ((readError, _), w) = BeginRead api pipe 1 operationEvent w
       in if readError \<noteq> ERROR_IO_PENDING then ((), w)
          else
            (let (wait, w) = WaitForMultipleObjects api [stopEvent, operationEvent]
                   ControlConnectionCloseTimeoutMilliseconds w;
                 (_, w) = (if wait \<noteq> WAIT_OBJECT_0 + 1 then ReadResult api pipe operationEvent True (CancelIoEx api pipe w)
                           else ReadResult api pipe operationEvent False w)
             in ((), w))) w)"

partial_function (option) WaitForDetachedProcessTree ::
  "'w launch_api \<Rightarrow> handle \<Rightarrow> BrokerChildProcess \<Rightarrow> 'w \<Rightarrow> (bool \<times> 'w) option"
where
  "WaitForDetachedProcessTree api stopEvent child w =
     (let (wait, w) = WaitForSingleObject api stopEvent 0 w in
      if wait \<noteq> WAIT_TIMEOUT then Some (False, w)
      else Option.bind (WaitForProcessTreeExit api child 50 w) (\<lambda>(exited, w).
        if exited then Some (True, w) else WaitForDetachedProcessTree api stopEvent child w))"

section \<open>The caller\<close>

definition impersonated_token :: "'w server_api \<Rightarrow> 'w \<Rightarrow> ((dword \<times> handle) \<times> 'w) option" where
  "impersonated_token api w =
     (let ((tokenError, token), w) = OpenThreadToken (server_launch api) w;
          (reverted, w) = RevertToSelf (container_scope (launch_container (server_launch api))) w
      in if reverted then Some ((tokenError, token), w) else None)"

definition TokenIdentity :: "'w server_api \<Rightarrow> handle \<Rightarrow> 'w \<Rightarrow> BrokerCallerIdentity option" where
  "TokenIdentity api token w =
     (let launcher = server_launch api;
          (userError, user) = QueryTokenInformation (server_tokens api) token TokenUser w;
          (logonError, logonSid) = GetTokenLogonSid launcher token w;
          (sessionError, session_id, sessionBytes) = TokenSession launcher token w;
          (elevationError, elevated, elevationBytes) = TokenElevation api token w
      in if userError \<noteq> ERROR_SUCCESS then None
      else (case CopyValidSid launcher (user_sid user) of
          None \<Rightarrow> None
        | Some callerSid \<Rightarrow>
            if logonError \<noteq> ERROR_SUCCESS \<or> sessionError \<noteq> ERROR_SUCCESS \<or> sessionBytes \<noteq> 4
               \<or> elevationError \<noteq> ERROR_SUCCESS \<or> elevationBytes \<noteq> 4
            then None
            else Some \<lparr>userSid = callerSid, caller_logonSid = logonSid, sessionId = session_id,
                   isElevated = elevated\<rparr>))"

text \<open>The process at the other end must belong to the same user.\<close>

definition ClientProcessMatches :: "'w server_api \<Rightarrow> handle \<Rightarrow> sid \<Rightarrow> 'w \<Rightarrow> bool \<times> 'w" where
  "ClientProcessMatches api pipe callerSid w =
     (let launcher = server_launch api; tokens = server_tokens api;
          (clientError, clientProcessId) = GetNamedPipeClientProcessId api pipe w
      in if clientError \<noteq> ERROR_SUCCESS \<or> clientProcessId = 0 then (False, w)
      else
        (let ((processError, clientProcess), w) = OpenProcess api clientProcessId w in
         if processError \<noteq> ERROR_SUCCESS then (False, w)
         else
           (let ((tokenError, clientToken), w) = OpenProcessToken launcher clientProcess w in
            if tokenError \<noteq> ERROR_SUCCESS then (False, UniqueHandle_reset tokens clientProcess w)
            else
              (let (userError, client) = QueryTokenInformation tokens clientToken TokenUser w
               in (userError = ERROR_SUCCESS \<and> SidValid tokens callerSid \<and> SidValid tokens (user_sid client)
                     \<and> SidEqual tokens callerSid (user_sid client),
                   UniqueHandle_reset tokens clientProcess (UniqueHandle_reset tokens clientToken w))))))"

definition CaptureCallerIdentity ::
  "'w server_api \<Rightarrow> handle \<Rightarrow> 'w \<Rightarrow> (BrokerCallerIdentity option \<times> 'w) option"
where
  "CaptureCallerIdentity api pipe w =
     (let (impersonated, w) = ImpersonateNamedPipeClient api pipe w in
      if \<not> impersonated then Some (None, w)
      else (case impersonated_token api w of
          None \<Rightarrow> None
        | Some ((tokenError, token), w) \<Rightarrow>
            if tokenError \<noteq> ERROR_SUCCESS then Some (None, w)
            else (case TokenIdentity api token w of
                None \<Rightarrow> Some (None, UniqueHandle_reset (server_tokens api) token w)
              | Some identity \<Rightarrow>
                  (let (matches, w) = ClientProcessMatches api pipe (userSid identity) w
                   in Some (if matches then Some identity else None,
                        UniqueHandle_reset (server_tokens api) token w)))))"

section \<open>Serving a request\<close>

text \<open>The handlers a server is given, over the state \<open>'a\<close> behind their contexts; each may be absent.\<close>

record ('a, 'w) request_handlers =
  configurationRequestHandler :: "(BrokerRequest \<Rightarrow> BrokerCallerIdentity \<Rightarrow> 'a \<Rightarrow> 'w
    \<Rightarrow> ((dword \<times> wstring list \<times> 'a) \<times> 'w) option) option"
  launchRequestHandler :: "(BrokerRequest \<Rightarrow> BrokerCallerIdentity \<Rightarrow> BrokerSession \<Rightarrow> 'a \<Rightarrow> 'w
    \<Rightarrow> ((dword \<times> BrokerSession \<times> 'a) \<times> 'w) option) option"
  sessionFinishedHandler :: "(BrokerRequest \<Rightarrow> BrokerSession \<Rightarrow> bool \<Rightarrow> 'a \<Rightarrow> 'w
    \<Rightarrow> ((BrokerSession \<times> 'a) \<times> 'w) option) option"

text \<open>What is served: the request, its session, whether one was started, and the answer to send.\<close>

record serving =
  served_request :: BrokerRequest
  served_session :: BrokerSession
  sessionStarted :: bool
  served_response :: string

definition child_ready :: "BrokerChildProcess \<Rightarrow> bool" where
  "child_ready child \<longleftrightarrow> valid_handle (child_job child) \<and> valid_handle (child_process child)
     \<and> valid_handle (child_thread child)"

definition unserved :: "string \<Rightarrow> dword \<Rightarrow> serving" where
  "unserved reason e = \<lparr>served_request = BrokerRequest_default, served_session = BrokerSession_empty,
     sessionStarted = False, served_response = BuildErrorResponse [] reason e\<rparr>"

definition AnswerManagement ::
  "('a, 'w) request_handlers \<Rightarrow> BrokerRequest \<Rightarrow> BrokerCallerIdentity \<Rightarrow> 'a \<Rightarrow> 'w \<Rightarrow> ((serving \<times> 'a) \<times> 'w) option"
where
  "AnswerManagement handlers request caller a w =
     (let answer = (\<lambda>response. \<lparr>served_request = request, served_session = BrokerSession_empty,
            sessionStarted = False, served_response = response\<rparr>)
      in case configurationRequestHandler handlers of
           None \<Rightarrow> Some ((answer (BuildErrorResponse (requestId request) ''not_configured'' ERROR_NOT_READY), a), w)
         | Some handler \<Rightarrow>
             map_option (\<lambda>((configurationError, accounts, a), w).
                 ((answer
                    (if configurationError \<noteq> ERROR_SUCCESS
                     then BuildErrorResponse (requestId request) (RequestOperationFailureReason (operation request))
                            configurationError
                     else if operation request = List then BuildListResponse (requestId request) accounts
                     else BuildSuccessResponse (requestId request) (RequestOperationSuccessReason (operation request))),
                   a), w))
               (handler request caller a w))"

definition AnswerLaunch ::
  "'w server_api \<Rightarrow> ('a, 'w) request_handlers \<Rightarrow> BrokerRequest \<Rightarrow> BrokerCallerIdentity \<Rightarrow> 'a \<Rightarrow> 'w
     \<Rightarrow> ((serving \<times> 'a) \<times> 'w) option"
where
  "AnswerLaunch api handlers request caller a w =
     (let answer = (\<lambda>session started response. \<lparr>served_request = request, served_session = session,
            sessionStarted = started, served_response = response\<rparr>)
      in case launchRequestHandler handlers of
           None \<Rightarrow> Some ((answer BrokerSession_empty False
                     (BuildErrorResponse (requestId request) ''not_configured'' ERROR_NOT_READY), a), w)
         | Some handler \<Rightarrow>
             map_option (\<lambda>((launchError, session, a), w).
                 ((if launchError = ERROR_SUCCESS \<and> child_ready (session_child session)
                   then answer session True (BuildLaunchSuccessResponse (requestId request)
                          (BrokerChildProcess_processId (server_launch api) (session_child session) w))
                   else answer session False (BuildErrorResponse (requestId request)
                          (if launchError = ERROR_BUSY then ''session_limit_reached'' else ''launch_failed'')
                          (if launchError = ERROR_SUCCESS then ERROR_INVALID_DATA else launchError)),
                   a), w))
               (handler request caller BrokerSession_empty a w))"

definition AnswerRequest ::
  "'w server_api \<Rightarrow> ('a, 'w) request_handlers \<Rightarrow> handle \<Rightarrow> handle \<Rightarrow> 'a \<Rightarrow> 'w \<Rightarrow> ((serving \<times> 'a) \<times> 'w) option"
where
  "AnswerRequest api handlers pipe stopEvent a w =
     (let ((received, message), w) = ReadRequest api pipe stopEvent w;
          denied = unserved ''caller_identity'' ERROR_ACCESS_DENIED
      in if \<not> received then Some ((denied, a), w)
      else (case CaptureCallerIdentity api pipe w of
          None \<Rightarrow> None
        | Some (None, w) \<Rightarrow> Some ((denied, a), w)
        | Some (Some caller, w) \<Rightarrow>
            (case ParseBrokerRequest (pipe_mb (launch_pipes (server_launch api))) message of
               None \<Rightarrow> Some ((unserved ''invalid_request'' ERROR_INVALID_DATA, a), w)
             | Some request \<Rightarrow>
                 if IsManagementOperation (operation request) then AnswerManagement handlers request caller a w
                 else AnswerLaunch api handlers request caller a w)))"

text \<open>The exit of a console host, as it is reported to the client.\<close>

definition ReportHostExit ::
  "'w server_api \<Rightarrow> handle \<Rightarrow> handle \<Rightarrow> BrokerRequest \<Rightarrow> BrokerChildProcess \<Rightarrow> 'w \<Rightarrow> bool \<times> 'w"
where
  "ReportHostExit api pipe stopEvent request child w =
     (let (exitCodeError, exitCode) = GetExitCodeProcess api (child_process child) w in
      if exitCodeError \<noteq> ERROR_SUCCESS
      then WriteResponse api pipe stopEvent (BuildErrorResponse (requestId request) ''exit_code_failed'' exitCodeError) w
      else
        (let ((reported, childExitCode, text), w) = ReadPseudoConsoleHostResult (server_launch api) child w
         in WriteResponse api pipe stopEvent
              (if reported then BuildLaunchExitResponse (requestId request) childExitCode
               else BuildLaunchHostFailureResponse (requestId request) exitCode text) w))"

text \<open>Send the answer and follow the session; true when an exit was reported.\<close>

definition FollowSession :: "'w server_api \<Rightarrow> handle \<Rightarrow> handle \<Rightarrow> serving \<Rightarrow> 'w \<Rightarrow> (bool \<times> 'w) option" where
  "FollowSession api pipe stopEvent s w =
     (let (written, w) = WriteResponse api pipe stopEvent (served_response s) w;
          child = session_child (served_session s); request = served_request s
      in if \<not> written \<or> \<not> child_ready child then Some (False, w)
      else if operation request = InteractiveLaunch
      then map_option (\<lambda>(_, w). (False, w)) (WaitForDetachedProcessTree (server_launch api) stopEvent child w)
      else
        (let (exited, w) = WaitForBrokerChildExit api pipe stopEvent (child_process child) w
         in if exited then Some (ReportHostExit api pipe stopEvent request child w) else Some (False, w)))"

definition FinishBrokerSession ::
  "('a, 'w) request_handlers \<Rightarrow> serving \<Rightarrow> bool \<Rightarrow> 'a \<Rightarrow> 'w \<Rightarrow> ((serving \<times> 'a) \<times> 'w) option"
where
  "FinishBrokerSession handlers s processTreeExited a w =
     (case (sessionStarted s, sessionFinishedHandler handlers) of
        (True, Some handler) \<Rightarrow> map_option (\<lambda>((session, a), w). ((s\<lparr>served_session := session\<rparr>, a), w))
          (handler (served_request s) (served_session s) processTreeExited a w)
      | _ \<Rightarrow> Some ((s, a), w))"

abbreviation with_child :: "serving \<Rightarrow> BrokerChildProcess \<Rightarrow> serving" where
  "with_child s child \<equiv> s\<lparr>served_session := (served_session s)\<lparr>session_child := child\<rparr>\<rparr>"

text \<open>
  The process tree is gone before the session is given up. When that cannot be confirmed in time, the
  handler is told, and the worker keeps the session until it is confirmed.
\<close>

definition EndSession ::
  "'w server_api \<Rightarrow> ('a, 'w) request_handlers \<Rightarrow> serving \<Rightarrow> 'a \<Rightarrow> 'w \<Rightarrow> ((serving \<times> 'a) \<times> 'w) option"
where
  "EndSession api handlers s a w =
     (case TerminateAndWaitForExit (server_launch api) (session_child (served_session s)) w of
        None \<Rightarrow> None
      | Some ((exited, child), w) \<Rightarrow>
          Option.bind
            (if exited then Some ((with_child s child, a), w)
             else Option.bind (FinishBrokerSession handlers (with_child s child) False a w) (\<lambda>((s, a), w).
               map_option (\<lambda>(child, w). ((with_child s child, a), w))
                 (TerminateAndWaitForExitConfirmed (server_launch api) (session_child (served_session s)) w)))
            (\<lambda>((s, a), w). FinishBrokerSession handlers s True a w))"

definition ServeControlPipeRequest ::
  "'w server_api \<Rightarrow> ('a, 'w) request_handlers \<Rightarrow> handle \<Rightarrow> handle \<Rightarrow> 'a \<Rightarrow> 'w \<Rightarrow> ('a \<times> 'w) option"
where
  "ServeControlPipeRequest api handlers pipe stopEvent a w =
     Option.bind (AnswerRequest api handlers pipe stopEvent a w) (\<lambda>((s, a), w).
       Option.bind (FollowSession api pipe stopEvent s w) (\<lambda>(waitForControlClose, w).
         Option.bind (EndSession api handlers s a w) (\<lambda>((s, a), w).
           (let w = (if waitForControlClose then WaitForControlConnectionClose api pipe stopEvent w else w)
            in map_option (\<lambda>w. (a, w)) (DestroySession (server_launch api) (served_session s) w)))))"

section \<open>The handlers of the application\<close>

text \<open>The listener binds every handler to one application, never to a null pointer.\<close>

definition ConfigureProfile ::
  "'w application_api \<Rightarrow> BrokerRequest \<Rightarrow> BrokerCallerIdentity \<Rightarrow> BrokerApplication option \<Rightarrow> 'w
     \<Rightarrow> ((dword \<times> wstring list \<times> BrokerApplication option) \<times> 'w) option"
where
  "ConfigureProfile api request caller application w =
     (case application of
        None \<Rightarrow> Some ((ERROR_INVALID_PARAMETER, [], None), w)
      | Some app \<Rightarrow> map_option (\<lambda>((e, accounts), w). ((e, accounts, Some app), w)) (Configure api request caller app w))"

definition LaunchProfile ::
  "'w application_api \<Rightarrow> BrokerRequest \<Rightarrow> BrokerCallerIdentity \<Rightarrow> BrokerSession \<Rightarrow> BrokerApplication option \<Rightarrow> 'w
     \<Rightarrow> ((dword \<times> BrokerSession \<times> BrokerApplication option) \<times> 'w) option"
where
  "LaunchProfile api request caller session application w =
     (case application of
        None \<Rightarrow> Some ((ERROR_INVALID_PARAMETER, session, None), w)
      | Some app \<Rightarrow> map_option (\<lambda>((e, session, app), w). ((e, session, Some app), w)) (Launch api request caller session app w))"

definition FinishProfileSession ::
  "'w application_api \<Rightarrow> BrokerRequest \<Rightarrow> BrokerSession \<Rightarrow> bool \<Rightarrow> BrokerApplication option \<Rightarrow> 'w
     \<Rightarrow> ((BrokerSession \<times> BrokerApplication option) \<times> 'w) option"
where
  "FinishProfileSession api request session processTreeExited application w =
     (case application of
        None \<Rightarrow> Some ((session, None), w)
      | Some app \<Rightarrow> map_option (\<lambda>((_, session, app), w). ((session, Some app), w))
          (FinishSession api request session processTreeExited app w))"

definition broker_handlers :: "'w application_api \<Rightarrow> (BrokerApplication option, 'w) request_handlers" where
  "broker_handlers api = \<lparr>configurationRequestHandler = Some (ConfigureProfile api),
     launchRequestHandler = Some (LaunchProfile api), sessionFinishedHandler = Some (FinishProfileSession api)\<rparr>"

end
