(* ===== verification/RequestFrames.thy ===== *)
theory RequestFrames
  imports Frames PipeServer
begin

text \<open>
  What the rest of a request leaves alone: a view of the world that no call on files, accounts, the
  event log and the control pipe changes is the same after the registration service, a logon, an audit
  event, and every operation of the pipe server.
\<close>

section \<open>Accounts\<close>

locale registration_frame = store_frame "store_of api" view
  for api :: "'w registration_api" and view :: "'w \<Rightarrow> 'v" +
  assumes set_flags [frames]: "NetUserSetFlags api account fl w = (e1, w') \<Longrightarrow> view w' = view w"
    and set_password [frames]: "NetUserSetPassword api account text w = (e2, w') \<Longrightarrow> view w' = view w"
    and set_comment [frames]: "NetUserSetComment api account text w = (e3, w') \<Longrightarrow> view w' = view w"
    and add_user [frames]: "NetUserAdd api user w = (e4, w') \<Longrightarrow> view w' = view w"
    and delete_user [frames]: "NetUserDel api account w = (e5, w') \<Longrightarrow> view w' = view w"
begin

lemmas store_frames [frames] = Load_view Store_view Remove_view

lemma harden [frames]: "EnableAndHardenBrokerManagedAccount api account w = (e, w') \<Longrightarrow> view w' = view w"
  by (auto simp: EnableAndHardenBrokerManagedAccount_def Let_def dest!: frames split: prod.splits if_splits option.splits)

lemma set_managed_comment [frames]: "SetManagedAccountComment api account w = (e, w') \<Longrightarrow> view w' = view w"
  by (auto simp: SetManagedAccountComment_def dest!: frames split: prod.splits if_splits)

lemma create_account [frames]: "CreateBrokerManagedLocalAccount api account password w = (e, w') \<Longrightarrow> view w' = view w"
  by (auto simp: CreateBrokerManagedLocalAccount_def Let_def dest!: frames split: prod.splits if_splits)

lemma refresh_account [frames]: "RefreshBrokerManagedLocalAccount api account password w = (e, w') \<Longrightarrow> view w' = view w"
  by (auto simp: RefreshBrokerManagedLocalAccount_def Let_def and_then_def dest!: frames split: prod.splits if_splits)

lemma take_over_existing [frames]:
  "TakeOverExistingLocalAccount api account password allow w = (e, w') \<Longrightarrow> view w' = view w"
  by (auto simp: TakeOverExistingLocalAccount_def Let_def dest!: frames split: prod.splits if_splits option.splits)

lemma take_over_account [frames]: "TakeOverAccount api account password allow w = (e, w') \<Longrightarrow> view w' = view w"
  by (auto simp: TakeOverAccount_def Let_def dest!: frames split: prod.splits if_splits)

lemma enroll_account [frames]: "EnrollAccount api directory account w = (e, w') \<Longrightarrow> view w' = view w"
  by (auto simp: EnrollAccount_def Let_def dest!: frames split: prod.splits if_splits)

lemma registration_create [frames]:
  "RegistrationService_Create api directory account draws w = Some (e, w') \<Longrightarrow> view w' = view w"
  by (auto simp: RegistrationService_Create_def Let_def and_then_def dest!: frames split: prod.splits if_splits option.splits)

lemma registration_take_over [frames]:
  "RegistrationService_TakeOver api directory account allow draws w = Some (e, w') \<Longrightarrow> view w' = view w"
  by (auto simp: RegistrationService_TakeOver_def Let_def and_then_def dest!: frames split: prod.splits if_splits option.splits)

lemma registration_reset [frames]:
  "RegistrationService_ResetPassword api directory account password w = (e, w') \<Longrightarrow> view w' = view w"
  by (auto simp: RegistrationService_ResetPassword_def Let_def dest!: frames split: prod.splits if_splits)

lemma registration_forget [frames]: "RegistrationService_Forget api directory account w = (e, w') \<Longrightarrow> view w' = view w"
  by (auto simp: RegistrationService_Forget_def dest!: frames split: prod.splits if_splits)

lemma registration_delete [frames]: "RegistrationService_Delete api directory account w = (e, w') \<Longrightarrow> view w' = view w"
  by (auto simp: RegistrationService_Delete_def Let_def dest!: frames split: prod.splits if_splits)

lemma keep_listed [frames]: "KeepListed api directory account w = (r, w') \<Longrightarrow> view w' = view w"
  by (auto simp: KeepListed_def dest!: frames split: prod.splits)

lemma filter_listed [frames]: "FilterListed api directory accounts w = (r, w') \<Longrightarrow> view w' = view w"
  by (induction accounts arbitrary: r w) (auto dest!: frames split: prod.splits)

lemma registration_list [frames]: "RegistrationService_List api directory w = (r, w') \<Longrightarrow> view w' = view w"
  by (auto simp: RegistrationService_List_def dest!: frames split: prod.splits if_splits)

end

section \<open>Audit events and logons\<close>

locale audit_frame =
  fixes audit :: "'w audit_api" and view :: "'w \<Rightarrow> 'v"
  assumes report_event [frames]: "ReportEventW audit type event texts w = (e, w') \<Longrightarrow> view w' = view w"
begin

lemma write_event [simp]: "view (snd (WriteBrokerAuditEvent audit type event texts w)) = view w"
  by (cases "ReportEventW audit type (event_id event) texts w")
    (auto simp: WriteBrokerAuditEvent_def Let_def dest: frames)

lemma audit_request [simp]: "view (AuditRequest audit event type request caller result process path w) = view w"
  by (simp add: AuditRequest_def)

lemma log_action [simp]: "view (LogLaunchAction audit request account action path e w) = view w"
  by (simp add: LogLaunchAction_def)

lemma scope_record [simp]: "view (ScopeLog_Record audit l account action path e w) = view w"
proof -
  have "view (fold (\<lambda>request. LogLaunchAction audit request account action path e) requests w) = view w" for requests w
    by (induction requests arbitrary: w) simp_all
  then show ?thesis by (simp add: ScopeLog_Record_def Let_def)
qed

lemma record_actions [simp]:
  "view (fold (\<lambda>(action, path, e). ScopeLog_Record audit l account action path e) actions w) = view w"
  by (induction actions arbitrary: w) (simp_all add: case_prod_beta)

end

locale logon_frame =
  fixes tokens :: "'w token_api" and view :: "'w \<Rightarrow> 'v"
  assumes close_token [simp]: "view (CloseHandle tokens h w) = view w"
    and restricted_logon [frames]: "CreateRestrictedToken tokens h fl ps rs w = (r1, w') \<Longrightarrow> view w' = view w"
    and logon_user [frames]: "LogonUserW tokens account text w = (r2, w') \<Longrightarrow> view w' = view w"
begin

lemma reset_logon_token [simp]: "view (BrokerLogonToken_Reset tokens h w) = view w"
  by (simp add: BrokerLogonToken_Reset_def)

lemma restrict_token [frames]: "RestrictToken tokens h w = (r, w') \<Longrightarrow> view w' = view w"
  by (auto simp: RestrictToken_def Let_def dest!: frames split: prod.splits if_splits)

lemma log_on [frames]: "LogOnBrokerAccount tokens account password h restrict w = (r, w') \<Longrightarrow> view w' = view w"
  by (auto simp: LogOnBrokerAccount_def AdmitLogonToken_def RestrictLogonToken_def Let_def simp del: first_error.simps
      dest!: frames split: prod.splits if_splits)

end

end
