(* ===== verification/SessionLog.thy ===== *)
theory SessionLog
  imports LaunchContained RequestFrames
begin

text \<open>
  The processes of a request, as the log of the calls that create, place, run and end them: a launch
  request that fails leaves no process, and serving a request ends every process it created.
\<close>

section \<open>Ended processes\<close>

text \<open>Every process created is ended afterwards, itself or with its job, whether it resumed or not.\<close>

fun processes_ended :: "launch_event list \<Rightarrow> bool" where
  "processes_ended [] \<longleftrightarrow> True"
| "processes_ended (ProcessCreated process token suspended # events) \<longleftrightarrow>
     (ProcessTerminated process \<in> set events \<or> list_ex (assigned_to process events) events) \<and> processes_ended events"
| "processes_ended (e # events) \<longleftrightarrow> processes_ended events"

lemma all_ended_processes: "all_ended events \<Longrightarrow> processes_ended events"
  by (induction events rule: all_ended.induct) auto

lemma assigned_to_append: "assigned_to process xs e \<Longrightarrow> assigned_to process (xs @ ys) e"
  by (cases e) auto

lemma processes_ended_append [intro]: "processes_ended xs \<Longrightarrow> processes_ended ys \<Longrightarrow> processes_ended (xs @ ys)"
  by (induction xs rule: processes_ended.induct) (auto simp: list_ex_iff dest: assigned_to_append)

lemma processes_ended_terminated [simp]: "processes_ended (replicate n (JobTerminated job))"
  by (induction n) simp_all

text \<open>The events of one process in its job, up to the termination of the job.\<close>

abbreviation launched_events :: "handle \<Rightarrow> handle \<Rightarrow> handle \<Rightarrow> launch_event list" where
  "launched_events job process used \<equiv> [JobLimited job, ProcessCreated process used True, ProcessAssigned job process]"

lemma processes_ended_job:
  assumes "n > 0" and "resumed = [] \<or> resumed = [ThreadResumed thread]"
  shows "processes_ended (launched_events job process used @ resumed @ replicate n (JobTerminated job))"
proof -
  obtain m where "n = Suc m" using assms(1) gr0_conv_Suc by blast
  with assms(2) show ?thesis by auto
qed

section \<open>The child of a successful launch\<close>

context launch_log
begin

lemma start_valid:
  "StartSuspended api token scopedToken creation profile child w = ((ERROR_SUCCESS, child'), w') \<Longrightarrow>
    valid_handle (child_process child')"
  by (auto simp: StartSuspended_def Let_def dest!: create_process split: prod.splits if_splits)

lemma create_valid:
  assumes "CreateSuspendedInJob api token account creation directory low scope options child w
    = Some ((ERROR_SUCCESS, child', scope', context), w')"
  shows "valid_handle (child_process child')"
  using assms by (auto simp: CreateSuspendedInJob_def Let_def dest: start_valid PrepareDirectories_ready
      split: prod.splits if_split_asm option.splits)

lemma console_ready:
  assumes "LaunchBrokerConsoleHost api token account args work child low scope options w
    = Some ((ERROR_SUCCESS, child', scope', context), w')"
  shows "valid_handle (child_job child') \<and> valid_handle (child_process child')"
proof -
  have host: "valid_handle (child_process c) \<and> child_job c = child_job c0" if "LaunchHost api token account args directory c0 low scope options v
      = Some ((ERROR_SUCCESS, c, s, ctx), v')" for directory c0 v c s ctx v'
    using that LaunchHost_log[OF that]
    by (auto simp: LaunchHost_def Let_def dest: create_valid split: prod.splits if_split_asm option.splits)
  from assms show ?thesis
    by (auto simp: LaunchBrokerConsoleHost_def Let_def dest!: host create_broker_job
        split: prod.splits if_split_asm option.splits)
qed

lemma interactive_ready:
  assumes "LaunchBrokerInteractiveProcess api token account args work session pipe n caller child lease low scope w
    = Some ((ERROR_SUCCESS, child', lease', scope'), w')"
  shows "valid_handle (child_job child') \<and> valid_handle (child_process child')"
proof -
  have terminated: False if "TerminateLaunched api e0 c0 l0 s0 v = Some ((ERROR_SUCCESS, c, l, s), v')"
    "e0 \<noteq> ERROR_SUCCESS" for e0 c0 l0 s0 v c l s v'
    using that by (auto simp: TerminateLaunched_def release_after_failure_def Let_def case_prod_beta split: if_split_asm)
  have leased: "valid_handle (child_process c)" if "LaunchLeased api token account args directory session caller logon c0 l0 low s0 v
      = Some ((ERROR_SUCCESS, c, l, s), v')" for directory logon c0 l0 s0 v c l s v'
    using that by (auto simp: LaunchLeased_def release_after_failure_def Let_def dest: terminated create_valid
        split: prod.splits if_split_asm option.splits)
  have inner: "valid_handle (child_process c) \<and> (valid_handle (child_job c0) \<longrightarrow> child_job c = child_job c0)" if "LaunchInteractive api token account args directory session pipe n caller c0 low s0 v
      = Some ((ERROR_SUCCESS, c, l, s), v')" for directory c0 s0 v c l s v'
    using that LaunchInteractive_log[OF that]
    by (auto simp: LaunchInteractive_def Let_def dest: leased split: prod.splits if_split_asm option.splits)
  from assms show ?thesis
    by (auto simp: LaunchBrokerInteractiveProcess_def Let_def dest!: create_broker_job inner
        split: prod.splits if_split_asm option.splits)
qed

text \<open>Ending a child, whether or not it has a job.\<close>

lemma terminate_any:
  assumes "TerminateAndWaitForExit api child w = Some ((exited, child'), w')"
  shows "\<exists>n. log w' = log w @ replicate n (JobTerminated (child_job child)) \<and> (valid_handle (child_job child) \<longrightarrow> n > 0)
    \<and> (if exited then child' = BrokerChildProcess_empty else child' = child \<and> valid_handle (child_job child))"
proof (cases "valid_handle (child_job child)")
  case True
  have "exited \<longrightarrow> child' = BrokerChildProcess_empty"
    using assms True by (auto simp: TerminateAndWaitForExit_def Let_def split: prod.splits if_split_asm option.splits)
  with terminate_and_wait[OF assms True] True show ?thesis by (intro exI[of _ 1]) auto
next
  case False
  with assms show ?thesis by (intro exI[of _ 0]) (auto simp: TerminateAndWaitForExit_def)
qed

lemma confirm_any:
  assumes "TerminateAndWaitForExitConfirmed api child w = Some (child', w')"
  shows "\<exists>n. log w' = log w @ replicate n (JobTerminated (child_job child)) \<and> (valid_handle (child_job child) \<longrightarrow> n > 0)"
proof (cases "valid_handle (child_job child)")
  case True
  with terminate_confirmed[OF assms] show ?thesis by blast
next
  case False
  with assms show ?thesis
    by (intro exI[of _ 0]) (auto simp: TerminateAndWaitForExitConfirmed.simps[of api child w] TerminateAndWaitForExit_def)
qed

lemma resume_log: "BrokerChildProcess_Resume api child w = (e, w') \<Longrightarrow>
    (\<exists>resumed. log w' = log w @ resumed \<and> (resumed = [] \<or> resumed = [ThreadResumed (child_thread child)]))
    \<and> (e = ERROR_SUCCESS \<longrightarrow> valid_handle (child_thread child) \<and> log w' = log w @ [ThreadResumed (child_thread child)])"
  by (auto simp: BrokerChildProcess_Resume_def dest!: resume_thread split: prod.splits if_split_asm)

end

section \<open>Restoring a scope\<close>

context object_frame
begin

lemma restore_entries [frames]: "RestoreEntries objects paths e s w = (r, w') \<Longrightarrow> view w' = view w"
  by (induction paths arbitrary: e s w) (auto simp: Let_def dest!: frames split: prod.splits if_splits)

lemma close_entries [simp]: "view (CloseEntries objects entries w) = view w"
  unfolding CloseEntries_def by (induction entries arbitrary: w) (simp_all add: case_prod_beta)

lemma read_scope_restore [frames]: "BrokerReadScope_Restore objects s w = (r, w') \<Longrightarrow> view w' = view w"
  by (auto simp: BrokerReadScope_Restore_def Let_def dest!: frames split: prod.splits if_splits)

end

section \<open>The log of a request\<close>

locale session_log = launch_log "app_launch api" log + registration_frame "app_registration api" log
  + audit_frame "app_audit api" log + g: logon_frame "launch_tokens (app_launch api)" log
  for api :: "'w application_api" and log :: "'w \<Rightarrow> launch_event list"
begin

lemma restore_scope [frames]:
  assumes "RestoreScope (scope_env api) e w = (r, w')"
  shows "log w' = log w"
proof (cases "readScope e")
  case (Some s)
  obtain x w1 where x: "BrokerReadScope_Restore (scope_objects (launch_reading (app_launch api)))
      ((SetObserver s)\<lparr>observed := []\<rparr>) w = (x, w1)" by fastforce
  have "log w1 = log w" using x by (rule r.read_scope_restore)
  with assms Some x show ?thesis
    by (auto simp: RestoreScope_def scope_env_def Let_def case_prod_beta split: option.splits)
qed (use assms in \<open>simp add: RestoreScope_def\<close>)

lemma reserve_log [frames]: "TryReserveSession (scope_env api) request st w = Some (x, w') \<Longrightarrow> log w' = log w"
  by (auto simp: TryReserveSession_def Let_def dest!: frames split: prod.splits if_split_asm option.splits)

lemma release_log [frames]: "ReleaseSession (scope_env api) request st w = Some (x, w') \<Longrightarrow> log w' = log w"
  by (auto simp: ReleaseSession_def Let_def dest!: frames split: prod.splits if_split_asm option.splits)

lemma report_log [simp]: "log (report_actions api request scope app w) = log w"
  by (auto simp: report_actions_def split: option.splits)

lemma configure_log: "Configure api request caller app w = Some (x, w') \<Longrightarrow> log w' = log w"
  by (auto simp: Configure_def CompleteConfiguration_def Let_def bind_eq_Some_conv dest!: frames
      split: prod.splits if_split_asm)

text \<open>\<open>terminated job before after\<close>: the log grew by terminations of the job, at least one if it is a job.\<close>

definition terminated :: "handle \<Rightarrow> launch_event list \<Rightarrow> launch_event list \<Rightarrow> bool" where
  "terminated job before after \<longleftrightarrow> (\<exists>n. after = before @ replicate n (JobTerminated job) \<and> (valid_handle job \<longrightarrow> n > 0))"

lemma complete_log:
  assumes "CompleteLaunch api request caller reserved result session app w = Some ((e, session', app'), w')"
  shows "if result = ERROR_SUCCESS then e = ERROR_SUCCESS \<and> session' = session \<and> log w' = log w
    else e \<noteq> ERROR_SUCCESS \<and> (if reserved then terminated (child_job (session_child session)) (log w) (log w')
      else session' = session \<and> log w' = log w)"
  using assms
  by (auto simp: CompleteLaunch_def GiveUpReservation_def terminated_def Let_def dest!: confirm_any release_log
      split: if_split_asm option.splits)

text \<open>What a launch adds to the log.\<close>

definition launch_outcome :: "launch_event list \<Rightarrow> dword \<Rightarrow> BrokerSession \<Rightarrow> launch_event list \<Rightarrow> bool" where
  "launch_outcome before e session after \<longleftrightarrow>
     (let child = session_child session in
      if e = ERROR_SUCCESS
      then child_ready child \<and> (\<exists>used. after = before @ launched_events (child_job child) (child_process child) used
        @ [ThreadResumed (child_thread child)])
      else \<exists>new. after = before @ new \<and> processes_ended new)"

lemma launch_outcome_failed: "e \<noteq> ERROR_SUCCESS \<Longrightarrow> log w' = log w @ new \<Longrightarrow> processes_ended new \<Longrightarrow>
    launch_outcome (log w) e session (log w')"
  by (auto simp: launch_outcome_def)

lemma launched_terminated:
  assumes "terminated job (before @ launched_events job process used @ resumed) after" and "valid_handle job"
    and "resumed = [] \<or> resumed = [ThreadResumed thread]"
  shows "\<exists>new. after = before @ new \<and> processes_ended new"
  using assms processes_ended_job unfolding terminated_def by (metis append_assoc)

lemma validate_child [frames]: "ValidateChildLogonSid (app_launch api) process caller w = (e, w') \<Longrightarrow> log w' = log w"
  by (auto simp: ValidateChildLogonSid_def Let_def dest!: frames split: prod.splits if_split_asm)

lemma console_outcome:
  assumes "LaunchBrokerConsoleHost (app_launch api) token account args work child low scope options w
    = Some ((e, child', scope', ctx), w')"
  shows "if e = ERROR_SUCCESS then valid_handle (child_job child') \<and> valid_handle (child_process child')
      \<and> (\<exists>used. log w' = log w @ launched_events (child_job child') (child_process child') used)
    else \<exists>new. log w' = log w @ new \<and> processes_ended new"
  using LaunchBrokerConsoleHost_log[OF assms] console_ready assms
  by (auto simp: contained_def dest: all_ended_processes split: if_split_asm)

lemma interactive_outcome:
  assumes "LaunchBrokerInteractiveProcess (app_launch api) token account args work session pipe n caller child lease low scope w
    = Some ((e, child', lease', scope'), w')"
  shows "if e = ERROR_SUCCESS then valid_handle (child_job child') \<and> valid_handle (child_process child')
      \<and> (\<exists>used. log w' = log w @ launched_events (child_job child') (child_process child') used)
    else \<exists>new. log w' = log w @ new \<and> processes_ended new"
  using LaunchBrokerInteractiveProcess_log[OF assms] interactive_ready assms
  by (auto simp: contained_def dest: all_ended_processes split: if_split_asm)

text \<open>The ends of a launch: one that failed, one that has a process to end, and one that runs.\<close>

lemma complete_failed:
  assumes "log w = before @ new" and "processes_ended new" and "result \<noteq> ERROR_SUCCESS"
    and "CompleteLaunch api request caller reserved result session app w = Some ((e, session', app'), w')"
  shows "launch_outcome before e session' (log w')"
proof -
  from complete_log[OF assms(4)] assms(3) have e: "e \<noteq> ERROR_SUCCESS"
    and "log w' = log w \<or> terminated (child_job (session_child session)) (log w) (log w')" by (auto split: if_split_asm)
  then have "\<exists>more. log w' = log w @ more \<and> processes_ended more" by (auto simp: terminated_def)
  with assms(1,2) e show ?thesis by (auto simp: launch_outcome_def)
qed

lemma terminate_failed:
  assumes w: "log w = before @ launched_events (child_job (session_child session)) process used @ resumed"
    and job: "valid_handle (child_job (session_child session))" and "resumed = [] \<or> resumed = [ThreadResumed thread]"
    and result: "result \<noteq> ERROR_SUCCESS" and t: "TerminateSession api session w = Some (session1, w1)"
    and c: "CompleteLaunch api request caller True result session1 app w1 = Some ((e, session', app'), w')"
  shows "launch_outcome before e session' (log w')"
proof -
  from t have "terminated (child_job (session_child session)) (log w) (log w1)"
    by (auto simp: TerminateSession_def terminated_def dest!: confirm_any)
  from launched_terminated[OF this[unfolded w] job assms(3)]
  obtain new where "log w1 = before @ new" "processes_ended new" by blast
  from complete_failed[OF this result c] show ?thesis .
qed

lemma console_session_log:
  assumes run: "LaunchConsoleSession api request caller token session app w = Some ((e, session', app'), w')"
  shows "launch_outcome (log w) e session' (log w')"
proof -
  let ?launcher = "app_launch api"
  from run obtain le child scope ctx w1 where l: "LaunchBrokerConsoleHost ?launcher token (profileId request)
      (conhostArguments request) (workingDirectory request) (session_child session) (lowIntegrity request)
      (map_option SetObserver (reserved_scope api request app)) (appContainer request) w = Some ((le, child, scope, ctx), w1)"
    unfolding LaunchConsoleSession_def Let_def by (auto split: option.splits)
  note outcome = console_outcome[OF l]
  let ?session = "session\<lparr>session_child := child\<rparr>" and ?w2 = "report_actions api request scope app w1"
  show ?thesis
  proof (cases "le = ERROR_SUCCESS")
    case False
    with outcome obtain new where new: "log w1 = log w @ new" "processes_ended new" by auto
    from False run l show ?thesis
      by (auto simp: LaunchConsoleSession_def Let_def new intro!: complete_failed[OF _ new(2)] split: if_split_asm)
  next
    case True
    with outcome obtain used where ready: "valid_handle (child_job child)" "valid_handle (child_process child)"
      and new: "log w1 = log w @ launched_events (child_job child) (child_process child) used" by auto
    obtain ve w3 where v: "ValidateChildLogonSid ?launcher (child_process child) (caller_logonSid caller) ?w2 = (ve, w3)"
      by fastforce
    have log3: "log w3 = log w1" using v by (auto dest!: frames)
    obtain re w4 where r: "BrokerChildProcess_Resume ?launcher child w3 = (re, w4)" by fastforce
    note resumed = resume_log[OF r]
    show ?thesis
    proof (cases "ve = ERROR_SUCCESS")
      case False
      with run l True v obtain session1 w5 where t: "TerminateSession api ?session w3 = Some (session1, w5)"
        and c: "CompleteLaunch api request caller True ve session1 (put_scope api request scope app) w5 = Some ((e, session', app'), w')"
        by (auto simp: LaunchConsoleSession_def Let_def bind_eq_Some_conv)
      show ?thesis by (rule terminate_failed[OF _ _ _ False t c, of "log w" _ _ "[]"]) (use log3 new ready in auto)
    next
      case valid: True
      show ?thesis
      proof (cases "re = ERROR_SUCCESS")
        case False
        with run l True v valid r obtain session1 w5 where t: "TerminateSession api ?session w4 = Some (session1, w5)"
          and c: "CompleteLaunch api request caller True re session1 (put_scope api request scope app) w5 = Some ((e, session', app'), w')"
          by (auto simp: LaunchConsoleSession_def Let_def bind_eq_Some_conv)
        from resumed obtain rs where "log w4 = log w3 @ rs" "rs = [] \<or> rs = [ThreadResumed (child_thread child)]" by blast
        then show ?thesis by (intro terminate_failed[OF _ _ _ False t c, of "log w" _ _ rs]) (use log3 new ready in auto)
      next
        case running: True
        with run l True v valid r have c: "CompleteLaunch api request caller True ERROR_SUCCESS ?session
            (put_scope api request scope app) w4 = Some ((e, session', app'), w')"
          by (auto simp: LaunchConsoleSession_def Let_def)
        from complete_log[OF c] resumed running ready new log3 show ?thesis
          by (auto simp: launch_outcome_def child_ready_def Let_def)
      qed
    qed
  qed
qed

lemma connection_reset_log [simp]: "log (LeaseConnection_Reset (launch_pipes (app_launch api)) connection w) = log w"
  by simp

lemma interactive_session_log:
  assumes run: "LaunchInteractiveSession api request caller token session app w = Some ((e, session', app'), w')"
  shows "launch_outcome (log w) e session' (log w')"
proof -
  let ?launcher = "app_launch api"
  from run obtain le child lease scope w1 where l: "LaunchBrokerInteractiveProcess ?launcher token (profileId request)
      (arguments request) (workingDirectory request) (sessionId caller) (leasePipe (interactive request))
      (nonce (interactive request)) (caller_logonSid caller) (session_child session) LeaseConnection_empty
      (lowIntegrity request) (map_option SetObserver (reserved_scope api request app)) w = Some ((le, child, lease, scope), w1)"
    unfolding LaunchInteractiveSession_def Let_def by (auto split: option.splits)
  note outcome = interactive_outcome[OF l]
  let ?session = "session\<lparr>session_child := child\<rparr>" and ?w2 = "report_actions api request scope app w1"
  show ?thesis
  proof (cases "le = ERROR_SUCCESS")
    case False
    with outcome obtain new where new: "log w1 = log w @ new" "processes_ended new" by auto
    from False run l obtain w2 where c: "CompleteLaunch api request caller True le ?session
        (put_scope api request scope app) ?w2 = Some ((e, session', app'), w2)"
      and w': "w' = LeaseConnection_Reset (launch_pipes ?launcher) lease w2"
      by (auto simp: LaunchInteractiveSession_def Let_def map_option_eq_Some)
    have "launch_outcome (log w) e session' (log w2)"
      by (rule complete_failed[OF _ new(2) False c]) (simp add: new(1))
    with w' show ?thesis by simp
  next
    case True
    with outcome obtain used where ready: "valid_handle (child_job child)" "valid_handle (child_process child)"
      and new: "log w1 = log w @ launched_events (child_job child) (child_process child) used" by auto
    obtain re w4 where r: "BrokerChildProcess_Resume ?launcher child ?w2 = (re, w4)" by fastforce
    note resumed = resume_log[OF r]
    show ?thesis
    proof (cases "re = ERROR_SUCCESS")
      case False
      with run l True r obtain session1 w5 w6 where t: "TerminateSession api ?session w4 = Some (session1, w5)"
        and c: "CompleteLaunch api request caller True re session1 (put_scope api request scope app) w5 = Some ((e, session', app'), w6)"
        and w': "w' = LeaseConnection_Reset (launch_pipes ?launcher) lease w6"
        by (auto simp: LaunchInteractiveSession_def Let_def bind_eq_Some_conv map_option_eq_Some)
      from resumed obtain rs where "log w4 = log w1 @ rs" "rs = [] \<or> rs = [ThreadResumed (child_thread child)]" by auto
      then have "launch_outcome (log w) e session' (log w6)"
        by (intro terminate_failed[OF _ _ _ False t c, of "log w" _ _ rs]) (use new ready in auto)
      with w' show ?thesis by simp
    next
      case running: True
      with run l True r have c: "CompleteLaunch api request caller True ERROR_SUCCESS (?session\<lparr>desktopLease := lease\<rparr>)
          (put_scope api request scope app) (LeaseConnection_Reset (launch_pipes ?launcher) (desktopLease session) w4)
          = Some ((e, session', app'), w')"
        by (auto simp: LaunchInteractiveSession_def Let_def)
      from complete_log[OF c] resumed running ready new show ?thesis
        by (auto simp: launch_outcome_def child_ready_def Let_def)
    qed
  qed
qed

lemma LaunchReserved_log:
  assumes run: "LaunchReserved api request caller session app w = Some ((e, session', app'), w')"
  shows "launch_outcome (log w) e session' (log w')"
proof -
  have failed: "launch_outcome (log w) e session' (log w')" if
    "CompleteLaunch api request caller True result session app v = Some ((e, session', app'), w')"
    "log v = log w" "result \<noteq> ERROR_SUCCESS" for v result
    using complete_failed[OF _ _ that(3,1), of "log w" "[]"] that(2) by simp
  define w0 where "w0 = log_if api request ''launch.begin'' (workingDirectory request) ERROR_SUCCESS w"
  have log0: "log w0 = log w" by (simp add: w0_def)
  from run obtain pe password ds where p: "GenerateBrokerPassword SecurePassword_empty (random_draws api w0) = Some ((pe, password), ds)"
    unfolding LaunchReserved_def w0_def[symmetric] Let_def by (auto split: option.splits)
  obtain re w1 where r: "RegistrationService_ResetPassword (app_registration api) (enrollmentDirectory app)
      (profileId request) password w0 = (re, w1)" by fastforce
  obtain ge token w2 where g: "LogOnBrokerAccount (launch_tokens (app_launch api)) (profileId request) password nullptr
      (restrictAccess request) w1 = ((ge, token), w2)" by (metis surj_pair)
  have same: "log w1 = log w" "log w2 = log w" using r g log0 by (auto dest!: frames)
  show ?thesis
  proof (cases "pe = ERROR_SUCCESS \<and> re = ERROR_SUCCESS \<and> ge = ERROR_SUCCESS")
    case False
    with run p r g same log0 show ?thesis
      unfolding LaunchReserved_def w0_def[symmetric] Let_def by (auto intro: failed split: if_split_asm)
  next
    case True
    let ?start = "log_if api request ''launch.account_logged_on'' [] ERROR_SUCCESS w2"
    from True run p r g obtain w3 where
      "(if operation request = InteractiveLaunch then LaunchInteractiveSession else LaunchConsoleSession)
        api request caller token session app ?start = Some ((e, session', app'), w3)"
      and w': "w' = BrokerLogonToken_Reset (launch_tokens (app_launch api)) token w3"
      unfolding LaunchReserved_def w0_def[symmetric] Let_def by (auto simp: map_option_eq_Some)
    then have "launch_outcome (log ?start) e session' (log w3)"
      by (auto dest: interactive_session_log console_session_log split: if_split_asm)
    moreover have "log ?start = log w" using same by simp
    ultimately show ?thesis using w' by simp
  qed
qed

lemma Launch_log:
  assumes run: "Launch api request caller session app w = Some ((e, session', app'), w')"
  shows "launch_outcome (log w) e session' (log w')"
proof -
  have refuse: "launch_outcome (log w) e session' (log w')" if
    "CompleteLaunch api request caller False result session app1 v = Some ((e, session', app'), w')"
    "log v = log w" "result \<noteq> ERROR_SUCCESS" for v result app1
    using complete_failed[OF _ _ that(3,1), of "log w" "[]"] that(2) by simp
  have reserved: "launch_outcome (log w) e session' (log w')" if
    "LaunchReserved api request caller session app1 v = Some ((e, session', app'), w')" "log v = log w" for v app1
    using LaunchReserved_log[OF that(1)] that(2) by simp
  show ?thesis
  proof (cases "is_launch (operation request) \<and> arguments request \<noteq> []
      \<and> IsAuthorizedCaller (app_policy api) (authorizedCallerSid app) (userSid caller)")
    case False
    with run show ?thesis by (auto simp: Launch_def Let_def intro: refuse split: if_split_asm)
  next
    case True
    with run obtain held st v where t: "TryReserveSession (scope_env api) request (app_sessions app) w = Some ((held, st), v)"
      by (auto simp: Launch_def Let_def split: option.splits)
    note same = reserve_log[OF t]
    show ?thesis
      by (cases held) (use True run t same in \<open>auto simp: Launch_def Let_def intro: refuse[OF _ same] reserved[OF _ same]\<close>)
  qed
qed

lemma Finish_log: "FinishSession api request session exited app w = Some ((e, session', app'), w') \<Longrightarrow>
    log w' = log w \<and> session_child session' = session_child session"
  by (auto simp: FinishSession_def TeardownFailed_def Let_def dest!: frames split: if_split_asm prod.splits option.splits)

end

end
