(* ===== verification/LaunchRuns.thy ===== *)
theory LaunchRuns
  imports LaunchContained
begin

text \<open>
  A reference instance of the launch calls: a world with a log and fresh handles, in which placing
  a process in its job can fail; and the properties of launches.
\<close>

section \<open>A reference instance\<close>

record launch_world =
  process_events :: "launch_event list"
  fresh_handle :: handle
  assignment_fails :: bool
  impersonating :: bool

text \<open>Calls on tokens and objects that change nothing; every token has the logon SID \<open>[1]\<close>.\<close>

definition idle_tokens :: "'w token_api" where
  "idle_tokens = \<lparr>
     GetTokenInformationSize = (\<lambda>_ _ _. (ERROR_INSUFFICIENT_BUFFER, 1)),
     GetTokenInformation = (\<lambda>_ _ _ _. (ERROR_SUCCESS, GroupsInformation [([1], SE_GROUP_LOGON_ID)])),
     SetTokenInformation = (\<lambda>_ _ w. (ERROR_ACCESS_DENIED, w)),
     AdjustTokenPrivilegesDisableAll = (\<lambda>_ w. ((False, ERROR_ACCESS_DENIED), w)),
     CreateRestrictedToken = (\<lambda>_ _ _ _ w. ((ERROR_ACCESS_DENIED, nullptr), w)),
     LogonUserW = (\<lambda>_ _ w. ((ERROR_ACCESS_DENIED, nullptr), w)), CloseHandle = (\<lambda>_ w. w),
     SetEntriesInAclW = (\<lambda>s rights acl. (ERROR_SUCCESS, acl @ [(s, rights)])),
     LookupPrivilegeValueW = (\<lambda>_. (ERROR_SUCCESS, \<lparr>LowPart = 7, HighPart = 0\<rparr>)),
     CreateWellKnownSid = (\<lambda>_. (ERROR_SUCCESS, [])), SidValid = (\<lambda>s. s \<noteq> []), SidEqual = (=),
     GetSidSubAuthorityCount = (\<lambda>_. None), GetSidSubAuthority = (\<lambda>_ _. None),
     GetComputerNameW = (ERROR_SUCCESS, []),
     LookupAccountNameSize = (\<lambda>_ _. (ERROR_NONE_MAPPED, 0, 0)), LookupAccountNameW = (\<lambda>_ _. (ERROR_NONE_MAPPED, [], 0)),
     LsaOpenPolicy = (\<lambda>_. 0), LsaEnumerateAccountRights = (\<lambda>_ _. (0, [])), LsaNtStatusToWinError = id\<rparr>"

definition idle_objects :: "'w object_api" where
  "idle_objects = \<lparr>object_tokens = idle_tokens, GetModuleHandleW = ERROR_SUCCESS, GetProcAddress = (\<lambda>_. ERROR_SUCCESS),
     RtlNtStatusToDosError = (\<lambda>_. ERROR_ACCESS_DENIED), NtSetSecurityObject = (\<lambda>_ _ _ w. (0xC0000022, w)),
     NtCreateFile = (\<lambda>_ _ _ w. ((0xC0000022, nullptr), w)), NtOpenDirectoryObject = (\<lambda>_ w. ((0xC0000022, nullptr), w)),
     InitializeSecurityDescriptor = (ERROR_SUCCESS, \<lparr>sd_owner = None, sd_dacl = None, sd_label = None, sd_control = 0\<rparr>),
     SetSecurityDescriptorDacl = (\<lambda>acl d. (ERROR_SUCCESS, d\<lparr>sd_dacl := Some acl\<rparr>)),
     SetSecurityDescriptorSacl = (\<lambda>acl d. (ERROR_SUCCESS, d\<lparr>sd_label := Some acl\<rparr>)),
     SetSecurityDescriptorControl = (\<lambda>_ c d. (ERROR_SUCCESS, d\<lparr>sd_control := c\<rparr>)),
     GetSecurityDescriptorControl = (\<lambda>d. (ERROR_SUCCESS, sd_control d)),
     GetSecurityInfo = (\<lambda>_ _ _ _. (ERROR_ACCESS_DENIED, \<lparr>sd_owner = None, sd_dacl = None, sd_label = None, sd_control = 0\<rparr>)),
     InitializeAcl = (\<lambda>_. ERROR_SUCCESS),
     GetAce = (\<lambda>_ _. (ERROR_INVALID_DATA, \<lparr>AceType = 0, AceFlags = 0, AceMask = 0, AceSid = []\<rparr>)),
     AddAce = (\<lambda>acl raw. (ERROR_SUCCESS, acl @ [raw])),
     AddAccessDeniedAce = (\<lambda>acl _ _. (ERROR_SUCCESS, acl)), AddAccessAllowedAce = (\<lambda>acl _ _. (ERROR_SUCCESS, acl)),
     CreatorOwnerRightsSid = (ERROR_SUCCESS, [3, 4]), OpenRoot = (\<lambda>_ _ w. ((ERROR_ACCESS_DENIED, nullptr), w)),
     GetDriveTypeW = (\<lambda>_ _. 3), GetVolumeInformationByHandleW = (\<lambda>_ _. (ERROR_ACCESS_DENIED, 0)),
     GetFinalPathNameByHandleW = (\<lambda>_ _. (ERROR_ACCESS_DENIED, 0, [])),
     FileAttributeTagInfo = (\<lambda>_ _. (ERROR_ACCESS_DENIED, 0)), GetFileInformationByHandle = (\<lambda>_ _. (ERROR_ACCESS_DENIED, 0, 0)),
     FileIdBothDirectoryInfo = (\<lambda>_ _ w. ((ERROR_NO_MORE_FILES, \<lparr>FileName = [], FileAttributes = 0\<rparr>, []), w)),
     GetTickCount64 = (\<lambda>w. (1000, w))\<rparr>"

definition idle_container :: "'w container_api" where
  "idle_container = \<lparr>container_scope = \<lparr>write_objects = idle_objects, lower = id, IsLowLabelSid = (\<lambda>_. False),
       GetWindowsDirectory = (\<lambda>_. (ERROR_ACCESS_DENIED, [])), GetEnvironmentVariableW = (\<lambda>_ _. (0, [])),
       ConvertLowLabel = ERROR_ACCESS_DENIED, GetLowLabel = (ERROR_ACCESS_DENIED, []),
       ImpersonateLoggedOnUser = (\<lambda>_ w. (ERROR_ACCESS_DENIED, w)), RevertToSelf = (\<lambda>w. (True, w))\<rparr>,
     CopySid = (\<lambda>_. ERROR_SUCCESS), ConvertStringSidToSidW = (\<lambda>_. (ERROR_INVALID_SID, [])),
     StringSid = (\<lambda>_. (ERROR_INVALID_SID, [])), GetSidIdentifierAuthority = (\<lambda>_. []), SubAuthorityCount = (\<lambda>_. 0),
     SubAuthority = (\<lambda>_ _. 0), DeriveCapabilitySids = None, BCryptHash = (\<lambda>_. (0xC0000001, [])),
     CreateAppContainerProfile = (\<lambda>_ w. ((0x80070005, []), w)), DeriveAppContainerSid = (\<lambda>_ _. (0x80070005, [])),
     SetEntriesGrant = (\<lambda>_ _ _ acl. (ERROR_SUCCESS, acl)), SetSecurityInfo = (\<lambda>_ _ w. (ERROR_ACCESS_DENIED, w))\<rparr>"

definition idle_reading :: "'w read_scope_api" where
  "idle_reading = \<lparr>scope_objects = idle_objects, GetTokenSessionId = (\<lambda>_ _. (ERROR_ACCESS_DENIED, 0)),
     GetWindowsDirectoryW = (\<lambda>_. (ERROR_ACCESS_DENIED, [])), SHGetKnownFolderPath = (\<lambda>_ _. (0x80004005, [])),
     FindFirstVolumeW = (\<lambda>_. (ERROR_ACCESS_DENIED, [], 0)), GetVolumePathNamesForVolumeNameW = (\<lambda>_ _. (ERROR_ACCESS_DENIED, 0))\<rparr>"

text \<open>The other end of a lease pipe grants the lease.\<close>

definition granting_pipe :: "'w pipe_api" where
  "granting_pipe = \<lparr>pipe_objects = idle_objects,
     ReadFile = (\<lambda>_ _ w. ((ERROR_SUCCESS, BuildInteractiveLeaseResponse Acquire example_id ERROR_SUCCESS), w)),
     WriteFile = (\<lambda>_ bytes w. ((ERROR_SUCCESS, length bytes), w)), CreatePipeFile = (\<lambda>_ w. ((ERROR_SUCCESS, 5), w)),
     SetMessageMode = (\<lambda>_ w. (ERROR_SUCCESS, w)), WaitNamedPipeW = (\<lambda>_ _ w. w),
     SidText = (\<lambda>_. (ERROR_SUCCESS, wide ''S-1-5-5-0-1'')), pipe_mb = reference_mb\<rparr>"

definition log_event :: "launch_event \<Rightarrow> launch_world \<Rightarrow> launch_world" where
  "log_event e w = w\<lparr>process_events := process_events w @ [e]\<rparr>"

definition new_handle :: "launch_world \<Rightarrow> (dword \<times> handle) \<times> launch_world" where
  "new_handle w = (if valid_handle (fresh_handle w) then ((ERROR_SUCCESS, fresh_handle w), w\<lparr>fresh_handle := fresh_handle w + 4\<rparr>)
     else ((ERROR_NOT_ENOUGH_QUOTA, nullptr), w))"

definition reference_create_process :: "handle \<Rightarrow> process_creation \<Rightarrow> launch_world \<Rightarrow> (dword \<times> handle \<times> handle) \<times> launch_world" where
  "reference_create_process token c w = (case new_handle w of ((e, h), w) \<Rightarrow>
     if e \<noteq> ERROR_SUCCESS then ((e, nullptr, nullptr), w)
     else ((ERROR_SUCCESS, h, h + 1), log_event (ProcessCreated h token (creation_flags c AND CREATE_SUSPENDED \<noteq> 0)) w))"

definition reference_assign :: "handle \<Rightarrow> handle \<Rightarrow> launch_world \<Rightarrow> dword \<times> launch_world" where
  "reference_assign job process w = (if assignment_fails w then (ERROR_ACCESS_DENIED, w)
     else (ERROR_SUCCESS, log_event (ProcessAssigned job process) w))"

definition reference_launch :: "launch_world launch_api" where
  "reference_launch = \<lparr>launch_container = idle_container\<lparr>container_scope :=
       (container_scope idle_container)\<lparr>RevertToSelf := (\<lambda>w. (True, w\<lparr>impersonating := False\<rparr>))\<rparr>\<rparr>,
     launch_reading = idle_reading, launch_pipes = granting_pipe,
     OpenProcessToken = (\<lambda>_ w. ((ERROR_SUCCESS, 6), w)), OpenThreadToken = (\<lambda>w. (if impersonating w then (ERROR_SUCCESS, 7) else (ERROR_NO_TOKEN, nullptr), w)),
     ImpersonateSelf = (\<lambda>w. (ERROR_SUCCESS, w\<lparr>impersonating := True\<rparr>)), AdjustTokenPrivileges = (\<lambda>_ ps w. ((True, ERROR_SUCCESS, ps), w)),
     SetTokenSession = (\<lambda>_ _ w. (ERROR_SUCCESS, w)), TokenSession = (\<lambda>_ _. (ERROR_SUCCESS, 2, 4)),
     CreateEnvironmentBlock = (\<lambda>_ w. ((ERROR_SUCCESS, 9), w)), DestroyEnvironmentBlock = (\<lambda>_ w. w),
     LoadUserProfileW = (\<lambda>_ _ w. ((ERROR_SUCCESS, 10), w)), UnloadUserProfile = (\<lambda>_ _ w. w),
     GetUserProfileDirectorySize = (\<lambda>_ _. (ERROR_INSUFFICIENT_BUFFER, 5)), GetUserProfileDirectoryW = (\<lambda>_ _ _. (ERROR_ACCESS_DENIED, [])),
     CreateProcessAsUserW = reference_create_process, TerminateProcess = (\<lambda>h w. (True, log_event (ProcessTerminated h) w)),
     WaitForSingleObject = (\<lambda>_ _ w. (WAIT_OBJECT_0, w)), GetProcessId = (\<lambda>_ _. 77),
     ResumeThread = (\<lambda>h w. ((1, ERROR_SUCCESS), log_event (ThreadResumed h) w)),
     AttributeListSize = (\<lambda>_. (ERROR_INSUFFICIENT_BUFFER, 48)), InitializeProcThreadAttributeList = (\<lambda>_. ERROR_SUCCESS),
     UpdateProcThreadAttribute = (\<lambda>_. ERROR_SUCCESS), CreatePipe = (\<lambda>_ w. ((ERROR_SUCCESS, 11, 12), w)),
     SetHandleInformation = (\<lambda>_ w. (ERROR_SUCCESS, w)), OpenNul = (\<lambda>w. ((ERROR_SUCCESS, 13), w)),
     CreateJobObjectW = new_handle, SetKillOnJobClose = (\<lambda>h w. (ERROR_SUCCESS, log_event (JobLimited h) w)),
     AssignProcessToJobObject = reference_assign, ActiveProcesses = (\<lambda>_ _. Some 0),
     TerminateJobObject = (\<lambda>h. log_event (JobTerminated h)), DuplicateHandle = (\<lambda>_ w. ((ERROR_SUCCESS, 14), w)),
     Sleep = (\<lambda>_ w. w), GetModuleFileNameW = (\<lambda>_. (6, ERROR_SUCCESS, wide [CHR ''C'', CHR '':'', BS, CHR ''B'', BS, CHR ''b''])),
     is_regular_file = (\<lambda>_ _. (ERROR_SUCCESS, True)), canonical_path = (\<lambda>path _. (ERROR_SUCCESS, path)),
     is_directory = (\<lambda>_ _. (ERROR_SUCCESS, True))\<rparr>"

lemma log_event_events [simp]: "process_events (log_event e w) = process_events w @ [e]"
  by (simp add: log_event_def)

lemma new_handle_events: "new_handle w = ((e, h), w') \<Longrightarrow>
    process_events w' = process_events w \<and> (e = ERROR_SUCCESS \<longrightarrow> valid_handle h)"
  by (auto simp: new_handle_def split: if_splits)

lemmas idle_defs = idle_objects_def idle_tokens_def idle_container_def idle_reading_def granting_pipe_def

interpretation reference_launch_log: launch_log reference_launch process_events
  by (unfold_locales) (auto simp: reference_launch_def idle_defs reference_create_process_def reference_assign_def
      dest!: new_handle_events split: prod.splits if_splits)

section \<open>Launches of the reference instance\<close>

definition launch_start :: "bool \<Rightarrow> launch_world" where
  "launch_start fails = \<lparr>process_events = [], fresh_handle = 16, assignment_fails = fails, impersonating = False\<rparr>"

definition example_console_launch :: "bool \<Rightarrow> ((dword \<times> BrokerChildProcess \<times> BrokerReadScope option \<times> wstring) \<times> launch_world) option" where
  "example_console_launch fails = LaunchBrokerConsoleHost reference_launch 4 (wide ''guest'') [wide ''cmd'']
     (wide [CHR ''C'', CHR '':'', BS, CHR ''D'']) BrokerChildProcess_empty False None \<lparr>enabled = False, capabilities = []\<rparr>
     (launch_start fails)"

definition example_interactive_launch :: "bool \<Rightarrow> (interactive_launch \<times> launch_world) option" where
  "example_interactive_launch fails = LaunchBrokerInteractiveProcess reference_launch 4 (wide ''guest'') [wide ''cmd'']
     (wide [CHR ''C'', CHR '':'', BS, CHR ''D'']) 2 (leasePipe example_lease) example_id [9] BrokerChildProcess_empty
     LeaseConnection_empty False None (launch_start fails)"

lemma reference_launch_simps [simp]:
  "object_tokens (launch_objects reference_launch) = idle_tokens" "object_tokens idle_objects = idle_tokens"
  "launch_pipes reference_launch = granting_pipe" "launch_objects reference_launch = idle_objects"
  "RevertToSelf (container_scope (launch_container reference_launch)) v = (True, v\<lparr>impersonating := False\<rparr>)"
  "CopySid (launch_container reference_launch) s = ERROR_SUCCESS"
  "OpenProcessToken reference_launch h v = ((ERROR_SUCCESS, 6), v)"
  "OpenThreadToken reference_launch v = (if impersonating v then (ERROR_SUCCESS, 7) else (ERROR_NO_TOKEN, nullptr), v)"
  "ImpersonateSelf reference_launch v = (ERROR_SUCCESS, v\<lparr>impersonating := True\<rparr>)"
  "AdjustTokenPrivileges reference_launch h ps v = ((True, ERROR_SUCCESS, ps), v)"
  "SetTokenSession reference_launch h i v = (ERROR_SUCCESS, v)" "TokenSession reference_launch h v = (ERROR_SUCCESS, 2, 4)"
  "CreateEnvironmentBlock reference_launch h v = ((ERROR_SUCCESS, 9), v)" "DestroyEnvironmentBlock reference_launch h v = v"
  "LoadUserProfileW reference_launch h name v = ((ERROR_SUCCESS, 10), v)" "UnloadUserProfile reference_launch h h' v = v"
  "CreateProcessAsUserW reference_launch = reference_create_process"
  "TerminateProcess reference_launch h v = (True, log_event (ProcessTerminated h) v)"
  "WaitForSingleObject reference_launch h t v = (WAIT_OBJECT_0, v)"
  "AttributeListSize reference_launch n = (ERROR_INSUFFICIENT_BUFFER, 48)"
  "InitializeProcThreadAttributeList reference_launch n = ERROR_SUCCESS" "UpdateProcThreadAttribute reference_launch hs = ERROR_SUCCESS"
  "CreatePipe reference_launch n v = ((ERROR_SUCCESS, 11, 12), v)" "SetHandleInformation reference_launch h v = (ERROR_SUCCESS, v)"
  "OpenNul reference_launch v = ((ERROR_SUCCESS, 13), v)" "CreateJobObjectW reference_launch = new_handle"
  "SetKillOnJobClose reference_launch h v = (ERROR_SUCCESS, log_event (JobLimited h) v)"
  "AssignProcessToJobObject reference_launch = reference_assign" "DuplicateHandle reference_launch h v = ((ERROR_SUCCESS, 14), v)"
  "GetModuleFileNameW reference_launch n = (6, ERROR_SUCCESS, wide [CHR ''C'', CHR '':'', BS, CHR ''B'', BS, CHR ''b''])"
  "is_regular_file reference_launch path v = (ERROR_SUCCESS, True)" "canonical_path reference_launch path v = (ERROR_SUCCESS, path)"
  "is_directory reference_launch path v = (ERROR_SUCCESS, True)"
  by (simp_all add: reference_launch_def idle_container_def idle_objects_def)

lemma idle_tokens_simps [simp]:
  "CloseHandle idle_tokens h v = v" "LookupPrivilegeValueW idle_tokens name = (ERROR_SUCCESS, \<lparr>LowPart = 7, HighPart = 0\<rparr>)"
  "SidValid idle_tokens s \<longleftrightarrow> s \<noteq> []" "SidEqual idle_tokens a b \<longleftrightarrow> a = b"
  "QueryTokenInformation idle_tokens h cls v = (ERROR_SUCCESS, GroupsInformation [([1], SE_GROUP_LOGON_ID)])"
  by (simp_all add: idle_tokens_def QueryTokenInformation_def)

lemmas launch_evaluation = Let_def UniqueHandle_reset_def launch_start_def LaunchBrokerConsoleHost_def
  ResolveBrokerWorkingDirectory_def HasNetworkOrDevicePrefix_def is_absolute_def is_slash_def is_letter_def wide_def
  CreateBrokerJob_def BrokerChildProcess_Reset_def BrokerChildProcess_empty_def new_handle_def log_event_def
  EnableRequired_def RestorePrivileges_def required_privileges_def LaunchHost_def GetBrokerConhostExecutablePath_def
  GetCurrentExecutablePath_def path_append_def root_name_length_def root_length_def parent_path_def
  BuildWindowsCommandLine_def CreateHostHandles_def CreateBrokerReportPipe_def AttributeList_Initialize_def
  CloseHostHandles_def CreateSuspendedInJob_def PrepareDirectories_def StartSuspended_def SuspendedProcess_reset_def
  reference_create_process_def reference_assign_def

lemma example_console_launched:
  "\<exists>child w. example_console_launch False = Some ((ERROR_SUCCESS, child, None, []), w)
    \<and> child_process child = 20 \<and> child_job child = 16"
  by (simp add: example_console_launch_def launch_evaluation del: ExecutablePath.simps add: ExecutablePath.simps[of reference_launch 260])

lemma example_console_failed:
  "\<exists>w. example_console_launch True = Some ((ERROR_ACCESS_DENIED, BrokerChildProcess_empty, None, []), w)
    \<and> process_events w = [JobLimited 16, ProcessCreated 20 4 True, ProcessTerminated 20]"
  by (simp add: example_console_launch_def launch_evaluation del: ExecutablePath.simps add: ExecutablePath.simps[of reference_launch 260])

lemma granting_pipe_acquire:
  "AcquireInteractiveDesktopLease granting_pipe (leasePipe example_lease) example_id [1] LeaseConnection_empty w
    = Some ((ERROR_SUCCESS, \<lparr>connection_pipe = 5, connection_nonce = example_id\<rparr>), w)"
proof -
  have "BuildInteractiveLeaseResponse Acquire example_id ERROR_SUCCESS \<noteq> []"
    using example_valid(1) by (simp add: BuildInteractiveLeaseResponse_def Let_def)
  moreover have "BuildInteractiveLeaseAcquireRequest example_id (wide ''S-1-5-5-0-1'') \<noteq> []"
    using example_valid(1) example_logon_sid by (simp add: BuildInteractiveLeaseAcquireRequest_def Let_def)
  ultimately show ?thesis
    using example_valid(5) reference.lease_response_roundtrip[OF example_valid(1), of Acquire ERROR_SUCCESS]
    by (simp add: AcquireInteractiveDesktopLease_def OpenInteractiveLeasePipe_def OpenLeasePipe.simps granting_pipe_def
        idle_objects_def idle_tokens_def LeaseConnection_Reset_def LeaseConnection_empty_def AcquireOver_def
        WritePipeMessage_def ReadPipeMessage_def Let_def)
qed

lemma reset_empty [simp]: "LeaseConnection_Reset api LeaseConnection_empty w = w"
  by (simp add: LeaseConnection_Reset_def LeaseConnection_empty_def)

lemma example_interactive_launched:
  "\<exists>child w. example_interactive_launch False = Some ((ERROR_SUCCESS, child, \<lparr>connection_pipe = 5, connection_nonce = example_id\<rparr>, None), w)"
proof -
  have "leasePipe example_lease \<noteq> []" "example_id \<noteq> []"
    using example_valid(5) IsRequestId_length[OF example_valid(1)] by (auto simp: IsInteractiveLeasePipeName_def)
  then show ?thesis
    by (simp add: example_interactive_launch_def LaunchBrokerInteractiveProcess_def LaunchInteractive_def LaunchLeased_def
        granting_pipe_acquire GetTokenLogonSid_def CopyValidSid_def ValidateLaunched_def
        SetBrokerTokenSessionId_def AssignSession_def launch_evaluation)
qed

section \<open>Properties\<close>

text \<open>
  C35: A console launch that fails leaves no process: one it created is terminated. A launch that
  succeeds made exactly one process, suspended, in the child's job, after the job was limited to end
  with its handle and after the read and the write scope were prepared; a restricted or low session
  gets the token made for it.
\<close>

theorem console_launch_contained:
  assumes "launch_log api log"
    and "LaunchBrokerConsoleHost api token account args work child low scope options w
      = Some ((e, child', scope', context), w')"
  shows "if e = ERROR_SUCCESS then
      (\<exists>used. log w' = log w @ [JobLimited (child_job child'), ProcessCreated (child_process child') used True,
          ProcessAssigned (child_job child') (child_process child')]
        \<and> session_token api token low scope used
        \<and> scopes_ready api log (log w @ [JobLimited (child_job child')]) token
            (snd (ResolveBrokerWorkingDirectory api work w)) low scope scope')
    else \<exists>new. log w' = log w @ new \<and> all_ended new"
  using launch_log.LaunchBrokerConsoleHost_log[OF assms] by (auto simp: contained_def split: if_splits)

lemma console_launch_contained_witness:
  "(\<exists>child w used. example_console_launch False = Some ((ERROR_SUCCESS, child, None, []), w)
      \<and> process_events w = [JobLimited 16, ProcessCreated 20 used True, ProcessAssigned 16 20])
    \<and> (\<exists>w. example_console_launch True = Some ((ERROR_ACCESS_DENIED, BrokerChildProcess_empty, None, []), w)
      \<and> all_ended (process_events w))"
proof (rule conjI)
  obtain child w where run: "example_console_launch False = Some ((ERROR_SUCCESS, child, None, []), w)"
    and h: "child_process child = 20" "child_job child = 16"
    using example_console_launched by blast
  from console_launch_contained[OF reference_launch_log.launch_log_axioms run[unfolded example_console_launch_def]] run h
  show "\<exists>child w used. example_console_launch False = Some ((ERROR_SUCCESS, child, None, []), w)
      \<and> process_events w = [JobLimited 16, ProcessCreated 20 used True, ProcessAssigned 16 20]"
    by (auto simp: launch_start_def)
  obtain v where failed: "example_console_launch True = Some ((ERROR_ACCESS_DENIED, BrokerChildProcess_empty, None, []), v)"
    using example_console_failed by blast
  from console_launch_contained[OF reference_launch_log.launch_log_axioms failed[unfolded example_console_launch_def]] failed
  show "\<exists>w. example_console_launch True = Some ((ERROR_ACCESS_DENIED, BrokerChildProcess_empty, None, []), w)
      \<and> all_ended (process_events w)"
    by (auto simp: launch_start_def)
qed



end
