(* ===== verification/RefusedRequests.thy ===== *)
theory RefusedRequests
  imports RequestFrames
begin

text \<open>
  The calls of the pipe server as a frame: a view of the world that none of them changes is the same
  before and after each of its operations. A refused request does nothing else, apart from its audit
  event.
\<close>

section \<open>The pipe server\<close>

locale server_frame =
  fixes srv :: "'w server_api" and view :: "'w \<Rightarrow> 'v"
  assumes create_event [frames]: "CreateEventW srv w = (s1, w') \<Longrightarrow> view w' = view w"
    and reset_event [simp]: "view (ResetEvent srv event w) = view w"
    and begin_read [frames]: "BeginRead srv pipe n event w = (s2, w') \<Longrightarrow> view w' = view w"
    and begin_write [frames]: "BeginWrite srv pipe bytes event w = (s3, w') \<Longrightarrow> view w' = view w"
    and read_result [frames]: "ReadResult srv pipe event wait w = (s4, w') \<Longrightarrow> view w' = view w"
    and write_result [frames]: "WriteResult srv pipe event wait w = (s5, w') \<Longrightarrow> view w' = view w"
    and cancel_io [simp]: "view (CancelIoEx srv pipe w) = view w"
    and wait_multiple [frames]: "WaitForMultipleObjects srv handles timeout w = (s6, w') \<Longrightarrow> view w' = view w"
    and impersonate_client [frames]: "ImpersonateNamedPipeClient srv pipe w = (s7, w') \<Longrightarrow> view w' = view w"
    and open_client [frames]: "OpenProcess srv pid w = (s8, w') \<Longrightarrow> view w' = view w"
    and close_server_handle [simp]: "view (CloseHandle (server_tokens srv) h w) = view w"
    and open_client_token [frames]: "OpenProcessToken (server_launch srv) h w = (s9, w') \<Longrightarrow> view w' = view w"
    and thread_token [frames]: "OpenThreadToken (server_launch srv) w = (s10, w') \<Longrightarrow> view w' = view w"
    and revert_client [frames]: "RevertToSelf (container_scope (launch_container (server_launch srv))) w = (s11, w') \<Longrightarrow>
      view w' = view w"
begin

lemma reset_server_handle [simp]: "view (UniqueHandle_reset (server_tokens srv) h w) = view w"
  by (simp add: UniqueHandle_reset_def)

lemma wait_operation:
  assumes "WaitForOperation srv result pipe stopEvent event w = (x, w')"
    and "\<And>wait w y w'. result wait w = (y, w') \<Longrightarrow> view w' = view w"
  shows "view w' = view w"
  using assms(1) by (auto simp: WaitForOperation_def dest!: frames assms(2) split: prod.splits if_split_asm)

lemma with_event_frame:
  assumes "with_event srv failed perform w = (x, w')"
    and "\<And>event w y w'. perform event w = (y, w') \<Longrightarrow> view w' = view w"
  shows "view w' = view w"
  using assms(1) by (auto simp: with_event_def dest!: create_event assms(2) split: prod.splits if_split_asm)

lemma read_request [frames]: "ReadRequest srv pipe stopEvent w = (x, w') \<Longrightarrow> view w' = view w"
  unfolding ReadRequest_def
  by (erule with_event_frame)
    (auto simp: Let_def dest!: begin_read wait_operation[OF _ read_result] split: prod.splits if_split_asm)

lemma write_response [frames]: "WriteResponse srv pipe stopEvent response w = (x, w') \<Longrightarrow> view w' = view w"
  unfolding WriteResponse_def
  by (erule with_event_frame)
    (auto simp: Let_def dest!: begin_write wait_operation[OF _ write_result] split: prod.splits if_split_asm)

lemma child_exit [frames]: "WaitForBrokerChildExit srv pipe stopEvent process w = (x, w') \<Longrightarrow> view w' = view w"
  unfolding WaitForBrokerChildExit_def
  by (erule with_event_frame) (auto simp: Let_def dest!: begin_read wait_multiple read_result split: prod.splits if_split_asm)

lemma with_event_snd:
  "(\<And>event w y w'. perform event w = (y, w') \<Longrightarrow> view w' = view w) \<Longrightarrow> view (snd (with_event srv failed perform w)) = view w"
  by (rule with_event_frame[OF prod.collapse[symmetric]])

lemma connection_close [simp]: "view (WaitForControlConnectionClose srv pipe stopEvent w) = view w"
  unfolding WaitForControlConnectionClose_def
  by (rule with_event_snd) (auto simp: Let_def dest!: begin_read wait_multiple read_result split: prod.splits if_split_asm)

lemma caller_token [frames]: "impersonated_token srv w = Some (x, w') \<Longrightarrow> view w' = view w"
  by (auto simp: impersonated_token_def dest!: frames split: prod.splits if_split_asm)

lemma client_process [frames]: "ClientProcessMatches srv pipe s w = (x, w') \<Longrightarrow> view w' = view w"
  by (auto simp: ClientProcessMatches_def Let_def dest!: open_client open_client_token split: prod.splits if_split_asm)

lemma capture_caller [frames]: "CaptureCallerIdentity srv pipe w = Some (x, w') \<Longrightarrow> view w' = view w"
  by (auto simp: CaptureCallerIdentity_def dest!: impersonate_client caller_token client_process
      split: prod.splits if_split_asm option.splits)

end

section \<open>Refused requests\<close>

text \<open>The error of a request the application refuses for its caller.\<close>

definition refusal :: "'w application_api \<Rightarrow> BrokerApplication \<Rightarrow> BrokerCallerIdentity \<Rightarrow> BrokerRequest \<Rightarrow> dword option" where
  "refusal api app caller request =
     (if \<not> IsAuthorizedCaller (app_policy api) (authorizedCallerSid app) (userSid caller) then Some ERROR_ACCESS_DENIED
      else if IsManagementOperation (operation request) \<and> operation request \<noteq> List \<and> \<not> isElevated caller
      then Some ERROR_ELEVATION_REQUIRED else None)"

definition refusal_reason :: "BrokerRequest \<Rightarrow> string" where
  "refusal_reason request = (if IsManagementOperation (operation request)
     then RequestOperationFailureReason (operation request) else ''launch_failed'')"

text \<open>A session in which nothing was started needs no end.\<close>

lemma empty_session_ends:
  "served_session s = BrokerSession_empty \<Longrightarrow> \<not> sessionStarted s \<Longrightarrow> EndSession srv handlers s a w = Some ((s, a), w)"
  by (cases s) (simp add: EndSession_def TerminateAndWaitForExit_def BrokerSession_empty_def BrokerChildProcess_empty_def
      BrokerChildProcess_Reset_def UniqueHandle_reset_def FinishBrokerSession_def)

lemma empty_session_destroyed: "DestroySession api BrokerSession_empty w = Some w"
  by (simp add: DestroySession_def TerminateAndWaitForExitConfirmed.simps TerminateAndWaitForExit_def BrokerSession_empty_def
      BrokerChildProcess_empty_def BrokerChildProcess_Reset_def UniqueHandle_reset_def LeaseConnection_Reset_def
      LeaseConnection_empty_def)

locale refusing_server = server_frame srv view + audit_frame "app_audit api" view
  for srv :: "'w server_api" and api :: "'w application_api" and view :: "'w \<Rightarrow> 'v"
begin

lemma configure_refused:
  assumes "refusal api app caller request = Some e" and "IsManagementOperation (operation request)"
  obtains w' where "Configure api request caller app w = Some ((e, []), w')" and "view w' = view w"
  using assms by (auto simp: refusal_def Configure_def CompleteConfiguration_def Let_def split: if_split_asm)

lemma launch_refused:
  assumes "refusal api app caller request = Some e" and "\<not> IsManagementOperation (operation request)"
  obtains w' where "Launch api request caller session app w = Some ((e, session, app), w')" and "view w' = view w"
  using assms by (auto simp: refusal_def Launch_def CompleteLaunch_def Let_def split: if_split_asm)

lemma refusal_error: "refusal api app caller request = Some e \<Longrightarrow> e \<noteq> ERROR_SUCCESS \<and> e \<noteq> ERROR_BUSY"
  by (auto simp: refusal_def split: if_split_asm)

lemma answer_refused:
  assumes "ReadRequest srv pipe stopEvent w = ((True, message), w1)"
    and "CaptureCallerIdentity srv pipe w1 = Some (Some caller, w2)"
    and "ParseBrokerRequest (pipe_mb (launch_pipes (server_launch srv))) message = Some request"
    and e: "refusal api app caller request = Some e"
  obtains w' where "AnswerRequest srv (broker_handlers api) pipe stopEvent (Some app) w
      = Some ((\<lparr>served_request = request, served_session = BrokerSession_empty, sessionStarted = False,
          served_response = BuildErrorResponse (requestId request) (refusal_reason request) e\<rparr>, Some app), w')"
    and "view w' = view w"
proof -
  have same: "view w2 = view w" using read_request[OF assms(1)] capture_caller[OF assms(2)] by simp
  show thesis
  proof (cases "IsManagementOperation (operation request)")
    case True
    from configure_refused[OF e True] obtain w3 where "Configure api request caller app w2 = Some ((e, []), w3)" "view w3 = view w2" .
    with True same refusal_error[OF e] show thesis
      by (intro that[of w3]) (auto simp: AnswerRequest_def assms(1-3) AnswerManagement_def broker_handlers_def
          ConfigureProfile_def refusal_reason_def)
  next
    case False
    from launch_refused[OF e False] obtain w3
      where "Launch api request caller BrokerSession_empty app w2 = Some ((e, BrokerSession_empty, app), w3)" "view w3 = view w2" .
    with False same refusal_error[OF e] show thesis
      by (intro that[of w3]) (auto simp: AnswerRequest_def assms(1-3) AnswerLaunch_def broker_handlers_def
          LaunchProfile_def refusal_reason_def)
  qed
qed

lemma refused_served:
  assumes "ReadRequest srv pipe stopEvent w = ((True, message), w1)"
    and "CaptureCallerIdentity srv pipe w1 = Some (Some caller, w2)"
    and "ParseBrokerRequest (pipe_mb (launch_pipes (server_launch srv))) message = Some request"
    and "refusal api app caller request = Some e"
  shows "\<exists>w3 w'. ServeControlPipeRequest srv (broker_handlers api) pipe stopEvent (Some app) w = Some (Some app, w')
    \<and> w' = snd (WriteResponse srv pipe stopEvent (BuildErrorResponse (requestId request) (refusal_reason request) e) w3)
    \<and> view w' = view w"
proof -
  let ?response = "BuildErrorResponse (requestId request) (refusal_reason request) e"
  from answer_refused[OF assms] obtain w3 where a: "AnswerRequest srv (broker_handlers api) pipe stopEvent (Some app) w
      = Some ((\<lparr>served_request = request, served_session = BrokerSession_empty, sessionStarted = False,
          served_response = ?response\<rparr>, Some app), w3)" "view w3 = view w" .
  obtain written w4 where r: "WriteResponse srv pipe stopEvent ?response w3 = (written, w4)" by (metis surj_pair)
  have "\<not> child_ready (session_child BrokerSession_empty)"
    by (simp add: child_ready_def BrokerSession_empty_def BrokerChildProcess_empty_def)
  then have "ServeControlPipeRequest srv (broker_handlers api) pipe stopEvent (Some app) w = Some (Some app, w4)"
    by (simp add: ServeControlPipeRequest_def a(1) FollowSession_def r Let_def empty_session_ends empty_session_destroyed)
  with r a(2) write_response[OF r] show ?thesis by (simp, intro exI[of _ w3]) simp
qed

end

end
