(* ===== verification/ServedRequests.thy ===== *)
theory ServedRequests
  imports SessionLog LaunchRuns RefusedRequests
begin

text \<open>
  Serving one request, end to end: the contract the pipe server relies on from its handlers, that the
  application meets it, and what follows: a served request keeps no session and no process.
\<close>

section \<open>The contract of the handlers\<close>

text \<open>
  \<open>held a hs\<close>: the requests \<open>hs\<close> hold the sessions of \<open>a\<close>. A launch adds its request exactly when it
  succeeds, with a child to follow; a finished session is given up once its process tree is gone.
\<close>

locale request_service =
  fixes handlers :: "('a, 'w) request_handlers" and held :: "'a \<Rightarrow> BrokerRequest list \<Rightarrow> bool"
  assumes configure_held: "configurationRequestHandler handlers = Some configure \<Longrightarrow>
      configure request caller a w = Some ((e, accounts, a'), w') \<Longrightarrow> held a hs \<Longrightarrow> held a' hs"
    and launch_held: "launchRequestHandler handlers = Some launch \<Longrightarrow>
      launch request caller BrokerSession_empty a w = Some ((e, session', a'), w') \<Longrightarrow> held a hs \<Longrightarrow>
      held a' (if e = ERROR_SUCCESS then request # hs else hs)
        \<and> (e = ERROR_SUCCESS \<longrightarrow> child_ready (session_child session'))"
    and finish_held: "sessionFinishedHandler handlers = Some finish \<Longrightarrow>
      finish request session exited a w = Some ((session', a'), w') \<Longrightarrow> held a (request # hs) \<Longrightarrow>
      held a' (if exited then hs else request # hs)"
    and finish_present: "launchRequestHandler handlers \<noteq> None \<Longrightarrow> sessionFinishedHandler handlers \<noteq> None"
begin

definition serving_held :: "serving \<Rightarrow> 'a \<Rightarrow> BrokerRequest list \<Rightarrow> bool" where
  "serving_held s a hs \<longleftrightarrow> held a (if sessionStarted s then served_request s # hs else hs)
     \<and> (sessionStarted s \<longrightarrow> sessionFinishedHandler handlers \<noteq> None)"

lemma management_held:
  assumes "AnswerManagement handlers request caller a w = Some ((s, a'), w')" and "held a hs"
  shows "serving_held s a' hs"
  using assms by (auto simp: AnswerManagement_def serving_held_def Let_def map_option_eq_Some
      split: option.splits dest: configure_held)

lemma answer_launch_held:
  assumes "AnswerLaunch api handlers request caller a w = Some ((s, a'), w')" and "held a hs"
  shows "serving_held s a' hs"
proof (cases "launchRequestHandler handlers")
  case None
  with assms show ?thesis by (auto simp: AnswerLaunch_def serving_held_def Let_def)
next
  case (Some launch)
  with assms(1) obtain e session' v where l: "launch request caller BrokerSession_empty a w = Some ((e, session', a'), v)"
    and s: "sessionStarted s \<longleftrightarrow> e = ERROR_SUCCESS \<and> child_ready (session_child session')" "served_request s = request"
    by (auto simp: AnswerLaunch_def Let_def map_option_eq_Some split: if_split_asm)
  from launch_held[OF Some l assms(2)] s Some finish_present show ?thesis
    by (auto simp: serving_held_def split: if_split_asm)
qed

lemma answer_held:
  assumes run: "AnswerRequest api handlers pipe stopEvent a w = Some ((s, a'), w')" and "held a hs"
  shows "serving_held s a' hs"
proof -
  have "serving_held (unserved reason e) a hs" for reason e using assms(2) by (simp add: serving_held_def unserved_def)
  with run assms(2) show ?thesis
    by (auto simp: AnswerRequest_def Let_def split: prod.splits option.splits if_split_asm
        dest: management_held answer_launch_held)
qed

lemma finish_serving:
  assumes "FinishBrokerSession handlers s exited a w = Some ((s', a'), w')" and "serving_held s a hs"
  shows "if exited then held a' hs else serving_held s' a' hs"
  using assms by (auto simp: FinishBrokerSession_def serving_held_def split: bool.splits option.splits if_split_asm
      dest: finish_held)

lemma end_held:
  assumes "EndSession api handlers s a w = Some ((s', a'), w')" and "serving_held s a hs"
  shows "held a' hs"
proof -
  have child: "serving_held (with_child s c) a hs = serving_held s a hs" for s c a by (simp add: serving_held_def)
  from assms show ?thesis
    by (auto simp: EndSession_def bind_eq_Some_conv map_option_eq_Some child split: option.splits if_split_asm
        dest!: finish_serving[where hs = hs])
qed

lemma served_held:
  assumes "ServeControlPipeRequest api handlers pipe stopEvent a w = Some (a', w')" and "held a hs"
  shows "held a' hs"
  using assms by (auto simp: ServeControlPipeRequest_def Let_def bind_eq_Some_conv map_option_eq_Some
      dest!: answer_held[where hs = hs] end_held)

end

section \<open>The application meets the contract\<close>

context session_log
begin

lemma application_service: "request_service (broker_handlers api)
    (\<lambda>application hs. \<exists>app. application = Some app \<and> sessions_held api app hs)"
proof (unfold_locales, goal_cases)
  case (1 configure request caller a w e accounts a' w' hs)
  then show ?case by (auto simp: broker_handlers_def ConfigureProfile_def)
next
  case (2 launch request caller a w e session' a' w' hs)
  then obtain app app' where a: "a = Some app" "a' = Some app'" "sessions_held api app hs"
    and l: "Launch api request caller BrokerSession_empty app w = Some ((e, session', app'), w')"
    by (auto simp: broker_handlers_def LaunchProfile_def)
  from Launch_kept[OF a(3) l] Launch_log[OF l] a show ?case
    by (auto simp: reservation_kept_def launch_outcome_def Let_def)
next
  case (3 finish request session exited a w session' a' w' hs)
  then obtain app app' e where a: "a = Some app" "a' = Some app'" "sessions_held api app (request # hs)"
    and f: "FinishSession api request session exited app w = Some ((e, session', app'), w')"
    by (auto simp: broker_handlers_def FinishProfileSession_def)
  from Finish_kept[OF a(3) f] a show ?case by simp
qed (simp add: broker_handlers_def)

end

section \<open>The log of a served request\<close>

locale server_log = session_log api log + server_frame srv log
  for api :: "'w application_api" and log :: "'w \<Rightarrow> launch_event list" and srv :: "'w server_api" +
  assumes server_launcher [simp]: "server_launch srv = app_launch api"
begin

lemma detached_tree [frames]:
  assumes "WaitForDetachedProcessTree (app_launch api) stopEvent child w = Some (x, w')"
  shows "log w' = log w"
proof -
  have "a = app_launch api \<longrightarrow> log (snd r) = log w" if "WaitForDetachedProcessTree a stopEvent child w = Some r" for a stopEvent child w r
    using that
  proof (rule WaitForDetachedProcessTree.raw_induct[where P = "\<lambda>a stopEvent child w r. a = app_launch api \<longrightarrow> log (snd r) = log w",
        rotated], intro impI, goal_cases)
    case (1 recur a stopEvent child w r)
    obtain x w1 where t: "WaitForSingleObject a stopEvent 0 w = (x, w1)" by fastforce
    have log1: "log w1 = log w" using t 1(4) by (auto dest: wait)
    show ?case
    proof (cases "x = WAIT_TIMEOUT")
      case False
      with 1(2) t log1 show ?thesis by auto
    next
      case True
      with 1(2) t obtain exited w2 where x: "WaitForProcessTreeExit a child 50 w1 = Some (exited, w2)"
        and r: "(if exited then Some (True, w2) else recur a stopEvent child w2) = Some r"
        by (auto simp: bind_eq_Some_conv)
      have "log w2 = log w1" using wait_tree_exit[of child 50 w1 exited w2] x 1(4) by simp
      with r log1 1(1)[of a stopEvent child w2 r] 1(4) show ?thesis by (auto split: if_split_asm)
    qed
  qed
  with assms show ?thesis by fastforce
qed

lemma exit_report [frames]: "ReadExitReport (launch_pipes (app_launch api)) pipe report w = (x, w') \<Longrightarrow> log w' = log w"
proof (induction "launch_pipes (app_launch api)" pipe report w rule: ReadExitReport.induct)
  case (1 pipe report w)
  obtain e received w1 where t: "DesktopLease.ReadFile (launch_pipes (app_launch api)) pipe (8 - length report) w = ((e, received), w1)"
    by (metis surj_pair)
  show ?case
  proof (cases "length report \<ge> 8 \<or> e \<noteq> ERROR_SUCCESS \<or> received = []")
    case True
    with "1.prems" t p.read_file[OF t] show ?thesis by (auto simp: ReadExitReport.simps[of _ pipe] split: if_split_asm)
  next
    case False
    with "1.prems" t have "ReadExitReport (launch_pipes (app_launch api)) pipe (report @ received) w1 = (x, w')"
      by (simp add: ReadExitReport.simps[of _ pipe report])
    with "1.hyps"[OF _ t[symmetric] refl refl] False p.read_file[OF t] show ?thesis by auto
  qed
qed

lemma host_diagnostics [frames]:
  "ReadHostDiagnostics (launch_pipes (app_launch api)) pipe bytes w = (x, w') \<Longrightarrow> log w' = log w"
proof (induction "launch_pipes (app_launch api)" pipe bytes w rule: ReadHostDiagnostics.induct)
  case (1 pipe bytes w)
  obtain e received w1 where t: "DesktopLease.ReadFile (launch_pipes (app_launch api)) pipe 512 w = ((e, received), w1)"
    by (metis surj_pair)
  let ?bytes = "bytes @ take (MaximumDiagnosticBytes - length bytes) received"
  show ?case
  proof (cases "e \<noteq> ERROR_SUCCESS \<or> received = [] \<or> length ?bytes \<ge> MaximumDiagnosticBytes")
    case True
    with "1.prems" t p.read_file[OF t] show ?thesis
      by (auto simp: ReadHostDiagnostics.simps[of _ pipe bytes] Let_def split: if_split_asm)
  next
    case False
    with "1.prems" t have "ReadHostDiagnostics (launch_pipes (app_launch api)) pipe ?bytes w1 = (x, w')"
      by (simp add: ReadHostDiagnostics.simps[of _ pipe bytes] Let_def)
    from "1.hyps"[OF t[symmetric] refl refl _ _ refl _ this] False p.read_file[OF t] show ?thesis
      by (simp del: ReadHostDiagnostics.simps)
  qed
qed

lemma host_result [frames]:
  assumes "ReadPseudoConsoleHostResult (app_launch api) child w = (x, w')"
  shows "log w' = log w"
proof (cases "valid_handle (exitReport child) \<and> valid_handle (diagnostics child)")
  case False
  with assms show ?thesis by (auto simp: ReadPseudoConsoleHostResult_def simp del: ReadExitReport.simps ReadHostDiagnostics.simps)
next
  case True
  obtain re report w1 where r: "ReadExitReport (launch_pipes (app_launch api)) (exitReport child) [] w = ((re, report), w1)"
    by (metis surj_pair)
  obtain de bytes w2 where d: "ReadHostDiagnostics (launch_pipes (app_launch api)) (diagnostics child) [] w1 = ((de, bytes), w2)"
    by (metis surj_pair)
  have "w' = w2" using assms True unfolding ReadPseudoConsoleHostResult_def Let_def
    by (simp add: r d del: ReadExitReport.simps ReadHostDiagnostics.simps split: if_split_asm)
  with exit_report[OF r] host_diagnostics[OF d] show ?thesis by simp
qed

lemma report_exit [frames]: "ReportHostExit srv pipe stopEvent request child w = (x, w') \<Longrightarrow> log w' = log w"
  by (auto simp: ReportHostExit_def dest!: write_response host_result split: prod.splits if_split_asm)

lemma follow_log [frames]: "FollowSession srv pipe stopEvent s w = Some (x, w') \<Longrightarrow> log w' = log w"
  by (auto simp: FollowSession_def Let_def map_option_eq_Some dest!: write_response child_exit report_exit detached_tree
      split: prod.splits if_split_asm)

text \<open>What answering leaves to follow: a process that runs in its job, or nothing.\<close>

definition serving_outcome :: "launch_event list \<Rightarrow> serving \<Rightarrow> launch_event list \<Rightarrow> bool" where
  "serving_outcome before s after \<longleftrightarrow>
     (let child = session_child (served_session s) in
      (\<exists>new. after = before @ new \<and> processes_ended new)
      \<or> (valid_handle (child_job child) \<and> (\<exists>used. after = before
          @ launched_events (child_job child) (child_process child) used @ [ThreadResumed (child_thread child)])))"

lemma serving_outcome_same: "log w' = log w \<Longrightarrow> serving_outcome (log w) s (log w')"
  by (auto simp: serving_outcome_def Let_def intro!: exI[of _ "[]"])

lemma answer_launch_log:
  assumes "AnswerLaunch srv (broker_handlers api) request caller (Some app) w = Some ((s, a'), w')"
  shows "serving_outcome (log w) s (log w')"
proof -
  from assms obtain e session' app' where l: "Launch api request caller BrokerSession_empty app w = Some ((e, session', app'), w')"
    and s: "served_session s = session'"
    by (auto simp: AnswerLaunch_def broker_handlers_def LaunchProfile_def Let_def map_option_eq_Some split: if_split_asm)
  from Launch_log[OF l] s show ?thesis
    by (auto simp: launch_outcome_def serving_outcome_def child_ready_def Let_def split: if_split_asm)
qed

lemma management_log:
  "AnswerManagement (broker_handlers api) request caller (Some app) w = Some ((s, a'), w') \<Longrightarrow> log w' = log w"
  by (auto simp: AnswerManagement_def broker_handlers_def ConfigureProfile_def Let_def map_option_eq_Some
      dest!: configure_log split: if_split_asm)

lemma answer_log:
  assumes "AnswerRequest srv (broker_handlers api) pipe stopEvent (Some app) w = Some ((s, a'), w')"
  shows "serving_outcome (log w) s (log w')"
proof -
  obtain received message w1 where r: "ReadRequest srv pipe stopEvent w = ((received, message), w1)" by (metis surj_pair)
  have log1: "log w1 = log w" using r by (rule read_request)
  have same: ?thesis if "log w' = log w1" using that log1 serving_outcome_same[of w' w s] by simp
  show ?thesis
  proof (cases received)
    case False
    with assms r same show ?thesis by (simp add: AnswerRequest_def Let_def)
  next
    case True
    with assms r obtain caller w2 where c: "CaptureCallerIdentity srv pipe w1 = Some (caller, w2)"
      by (auto simp: AnswerRequest_def Let_def split: option.splits)
    have log2: "log w2 = log w1" using c by (rule capture_caller)
    from assms True r c log1 log2 same show ?thesis
      by (auto simp: AnswerRequest_def Let_def split: option.splits if_split_asm
          dest!: management_log answer_launch_log)
  qed
qed

lemma finish_handler_log:
  "FinishBrokerSession (broker_handlers api) s exited a w = Some ((s', a'), w') \<Longrightarrow>
    log w' = log w \<and> session_child (served_session s') = session_child (served_session s)"
  by (auto simp: FinishBrokerSession_def broker_handlers_def FinishProfileSession_def map_option_eq_Some
      split: bool.splits option.splits if_split_asm dest!: Finish_log)

text \<open>Ending a session terminates its job, and leaves an empty child.\<close>

lemma end_log:
  assumes "EndSession srv (broker_handlers api) s a w = Some ((s', a'), w')"
  shows "terminated (child_job (session_child (served_session s))) (log w) (log w')"
proof -
  let ?job = "child_job (session_child (served_session s))"
  from assms obtain exited child w1 where t: "TerminateAndWaitForExit (app_launch api) (session_child (served_session s)) w
      = Some ((exited, child), w1)"
    by (auto simp: EndSession_def split: option.splits)
  note ended = terminate_any[OF t]
  show ?thesis
  proof (cases exited)
    case True
    with assms t have "FinishBrokerSession (broker_handlers api) (with_child s child) True a w1 = Some ((s', a'), w')"
      by (simp add: EndSession_def)
    with ended show ?thesis by (auto simp: terminated_def dest!: finish_handler_log)
  next
    case False
    with assms t obtain s1 a1 w2 child2 w3
      where f: "FinishBrokerSession (broker_handlers api) (with_child s child) False a w1 = Some ((s1, a1), w2)"
        and c: "TerminateAndWaitForExitConfirmed (app_launch api) (session_child (served_session s1)) w2 = Some (child2, w3)"
        and f': "FinishBrokerSession (broker_handlers api) (with_child s1 child2) True a1 w3 = Some ((s', a'), w')"
      by (auto simp: EndSession_def bind_eq_Some_conv map_option_eq_Some)
    from ended False obtain n where n: "log w1 = log w @ replicate n (JobTerminated ?job)" "n > 0" by auto
    from confirm_any[OF c] finish_handler_log[OF f] finish_handler_log[OF f'] ended False n(1)
    obtain m where "log w' = log w @ replicate (n + m) (JobTerminated ?job)" by (auto simp: replicate_add)
    with n(2) show ?thesis unfolding terminated_def by blast
  qed
qed

lemma served_log:
  assumes "ServeControlPipeRequest srv (broker_handlers api) pipe stopEvent (Some app) w = Some (a', w')"
  shows "\<exists>new. log w' = log w @ new \<and> processes_ended new"
proof -
  from assms obtain s a1 w1 closing w2 s2 a2 w3 w4
    where a: "AnswerRequest srv (broker_handlers api) pipe stopEvent (Some app) w = Some ((s, a1), w1)"
      and f: "FollowSession srv pipe stopEvent s w1 = Some (closing, w2)"
      and e: "EndSession srv (broker_handlers api) s a1 w2 = Some ((s2, a2), w3)"
      and w4: "w4 = (if closing then WaitForControlConnectionClose srv pipe stopEvent w3 else w3)"
      and d: "DestroySession (app_launch api) (served_session s2) w4 = Some w'"
    by (auto simp: ServeControlPipeRequest_def bind_eq_Some_conv map_option_eq_Some Let_def)
  let ?job = "child_job (session_child (served_session s))"
  have log4: "log w4 = log w3" and log2: "log w2 = log w1" using w4 f by (auto dest!: follow_log)
  from end_log[OF e] log2 have t: "terminated ?job (log w1) (log w3)" by simp
  have "\<exists>new. log w3 = log w @ new \<and> processes_ended new"
  proof -
    from answer_log[OF a] consider (ended) new where "log w1 = log w @ new" "processes_ended new"
      | (running) used where "valid_handle ?job" "log w1 = log w @ launched_events ?job
          (child_process (session_child (served_session s))) used @ [ThreadResumed (child_thread (session_child (served_session s)))]"
      unfolding serving_outcome_def Let_def by blast
    then show ?thesis
    proof cases
      case ended
      with t show ?thesis
        by (auto simp: terminated_def intro!: processes_ended_append[OF _ processes_ended_terminated])
    next
      case running
      from launched_terminated[OF t[unfolded running(2)] running(1)] show ?thesis by blast
    qed
  qed
  moreover have "\<exists>more. log w' = log w4 @ more \<and> processes_ended more"
    using d by (auto simp: DestroySession_def map_option_eq_Some dest!: confirm_any)
  ultimately show ?thesis using log4 by auto
qed

end

end
