(* ===== verification/RequestRuns.thy ===== *)
theory RequestRuns
  imports ServedRequests
begin

text \<open>
  A reference instance of everything a request needs, the run of an interactive launch on it from
  the message to the end of the session, and the properties of requests.
\<close>

section \<open>A reference instance\<close>

text \<open>The records of a machine that enrolled an account, as files that are only read.\<close>

definition frozen_store :: "machine \<Rightarrow> 'w store_env" where
  "frozen_store d = \<lparr>files_of = \<lparr>OpenRead = (\<lambda>p _. OpenRead disk_api p d),
       ReadFile = (\<lambda>p i n _. FileSystem.ReadFile disk_api p i n d), GetFileSize = (\<lambda>p _. GetFileSize disk_api p d),
       CreateAlways = (\<lambda>_ w. (ERROR_ACCESS_DENIED, w)), WriteFile = (\<lambda>_ _ w. ((ERROR_ACCESS_DENIED, 0), w)),
       FlushFileBuffers = (\<lambda>_ w. (ERROR_ACCESS_DENIED, w)), DeleteFileW = (\<lambda>_ w. (ERROR_ACCESS_DENIED, w)),
       MoveFileReplace = (\<lambda>_ _ w. (ERROR_ACCESS_DENIED, w))\<rparr>,
     BCryptGenRandom = (\<lambda>_ w. ((False, []), w)), Hmac = Hmac (reference_env :: machine store_env),
     IsValidSid_of = sid_valid, GetLengthSid_of = sid_length,
     FindFiles = (\<lambda>_ _. (ERROR_FILE_NOT_FOUND, [], ERROR_NO_MORE_FILES))\<rparr>"

lemma frozen_load:
  assumes "OpenRead disk_api (MachineKeyPath dir) d = ERROR_SUCCESS"
  shows "EnrollmentStore_Load (frozen_store d) dir n w = (fst (EnrollmentStore_Load (reference_env :: machine store_env) dir n d), w)"
proof -
  let ?F = "files_of (frozen_store d)"
  have read: "ReadExactly ?F p i n w = ReadExactly disk_api p i n d" for p i n
    by (simp add: ReadExactly_def frozen_store_def)
  have open': "OpenRead ?F p w = OpenRead disk_api p d" for p by (simp add: frozen_store_def)
  have tag: "ComputeRecordTag (frozen_store d) k header s = ComputeRecordTag (reference_env :: machine store_env) k header s" for k header s
    by (simp add: ComputeRecordTag_def frozen_store_def)
  have sid: "IsValidSid_of (frozen_store d) = sid_valid" "GetLengthSid_of (frozen_store d) = sid_length"
    "IsValidSid_of (reference_env :: machine store_env) = sid_valid"
    "GetLengthSid_of (reference_env :: machine store_env) = sid_length" "files_of (reference_env :: machine store_env) = disk_api"
    by (simp_all add: frozen_store_def reference_env_def)
  have key: "LoadOrCreateMachineKey (frozen_store d) (MachineKeyPath dir) w = (fst (LoadOrCreateMachineKey (reference_env :: machine store_env) (MachineKeyPath dir) d), w)"
    "snd (LoadOrCreateMachineKey (reference_env :: machine store_env) (MachineKeyPath dir) d) = d"
    using assms by (auto simp: LoadOrCreateMachineKey_def read open' sid Let_def split: prod.splits)
  obtain k where k: "LoadOrCreateMachineKey (reference_env :: machine store_env) (MachineKeyPath dir) d = (k, d)"
    using key(2) by (metis prod.collapse)
  show ?thesis
    unfolding EnrollmentStore_Load_def Let_def
    by (simp add: read open' tag sid key(1) k case_prod_beta)
qed

definition guest_sid :: sid where
  "guest_sid = [1, 2, 0, 0, 0, 0, 0, 5, 21, 0, 0, 0, 1, 3, 0, 0]"

lemma guest_record:
  "EnrollmentStore_Load (frozen_store example_enrolled) (wide ''C:'') (wide ''guest'') w
    = ((ERROR_SUCCESS, \<lparr>accountSid = guest_sid, brokerManaged = True\<rparr>), w)"
proof -
  have "OpenRead disk_api (MachineKeyPath (wide ''C:'')) example_enrolled = ERROR_SUCCESS" by code_simp
  moreover have "fst (EnrollmentStore_Load (reference_env :: machine store_env) (wide ''C:'') (wide ''guest'') example_enrolled)
      = (ERROR_SUCCESS, \<lparr>accountSid = guest_sid, brokerManaged = True\<rparr>)" by code_simp
  ultimately show ?thesis by (simp add: frozen_load)
qed

text \<open>
  Tokens by their handles: 7 is the caller's, 6 a process's, 29 and 30 those of the account. The
  caller's logon differs from that of the account.
\<close>

definition serving_tokens :: "'w token_api" where
  "serving_tokens = idle_tokens\<lparr>
     GetTokenInformation := (\<lambda>h cls _ _. (ERROR_SUCCESS, case cls of
         TokenUser \<Rightarrow> UserInformation (if h = 6 \<or> h = 7 then [2] else guest_sid)
       | TokenGroups \<Rightarrow> GroupsInformation [(if h = 7 then [9] else [1], SE_GROUP_LOGON_ID)]
       | TokenPrivileges \<Rightarrow> PrivilegesInformation []
       | _ \<Rightarrow> IntegrityInformation [4])),
     CreateRestrictedToken := (\<lambda>_ _ _ _ w. ((ERROR_SUCCESS, 30), w)),
     LogonUserW := (\<lambda>_ _ w. ((ERROR_SUCCESS, 29), w)), CreateWellKnownSid := (\<lambda>_. (ERROR_SUCCESS, [8])),
     GetSidSubAuthorityCount := (\<lambda>_. Some 1), GetSidSubAuthority := (\<lambda>_ _. Some SECURITY_MANDATORY_MEDIUM_RID),
     LookupAccountNameSize := (\<lambda>_ _. (ERROR_INSUFFICIENT_BUFFER, 16, 5)),
     LookupAccountNameW := (\<lambda>_ _. (ERROR_SUCCESS, guest_sid, SidTypeUser))\<rparr>"

definition serving_launch :: "launch_world launch_api" where
  "serving_launch = reference_launch\<lparr>launch_container := (launch_container reference_launch)\<lparr>container_scope :=
     (container_scope (launch_container reference_launch))\<lparr>write_objects := idle_objects\<lparr>object_tokens := serving_tokens\<rparr>\<rparr>\<rparr>\<rparr>"

definition serving_registration :: "launch_world registration_api" where
  "serving_registration = \<lparr>tokens_of = serving_tokens, store_of = frozen_store example_enrolled,
     NetUserGetInfo4 = (\<lambda>_ _. (NERR_Success, Some 0)), NetUserSetFlags = (\<lambda>_ _ w. (NERR_Success, w)),
     NetUserSetPassword = (\<lambda>_ _ w. (NERR_Success, w)), NetUserSetComment = (\<lambda>_ _ w. (NERR_Success, w)),
     NetUserAdd = (\<lambda>_ w. (NERR_UserExists, w)), NetUserDel = (\<lambda>_ w. (NERR_Success, w)),
     NetUserGetLocalGroups = (\<lambda>_ _. (NERR_Success, [])), LookupGroupSid = (\<lambda>_. (ERROR_NONE_MAPPED, []))\<rparr>"

definition serving_application :: "launch_world application_api" where
  "serving_application = \<lparr>
     app_audit = \<lparr>RegCreateKeyExW = (\<lambda>_ w. (ERROR_SUCCESS, w)), RegSetValueExW = (\<lambda>_ _ _ w. (ERROR_SUCCESS, w)),
       RegDeleteTreeW = (\<lambda>_ w. (ERROR_SUCCESS, w)), RegisterEventSourceW = (\<lambda>_ _. ERROR_SUCCESS),
       ReportEventW = (\<lambda>_ _ _ w. (ERROR_SUCCESS, w)), ConvertSidToStringSidW = (\<lambda>_. None), audit_IsValidSid = (\<lambda>_. False)\<rparr>,
     app_policy = \<lparr>policy_files = files_of (frozen_store example_enrolled), policy_valid = (\<lambda>s. s \<noteq> []),
       policy_length = length, policy_equal = (=)\<rparr>,
     app_registration = serving_registration, app_launch = serving_launch, app_fold = map ascii_lower,
     random_draws = (\<lambda>_. example_draws)\<rparr>"

text \<open>The message every read of the control pipe gives; reads complete at once.\<close>

definition serving_message :: string where
  "serving_message = the (BuildInteractiveLaunchRequest reference_wc example_id (wide ''guest'') [wide ''cmd'']
     (wide [CHR ''C'', CHR '':'', BS, CHR ''D'']) example_lease False False True)"

definition serving_server :: "launch_world server_api" where
  "serving_server = \<lparr>server_launch = serving_launch, CreateEventW = (\<lambda>w. ((ERROR_SUCCESS, 40), w)),
     ResetEvent = (\<lambda>_ w. w), BeginRead = (\<lambda>_ _ _ w. ((ERROR_SUCCESS, serving_message), w)),
     BeginWrite = (\<lambda>_ bytes _ w. ((ERROR_SUCCESS, length bytes), w)), ReadResult = (\<lambda>_ _ _ w. ((False, []), w)),
     WriteResult = (\<lambda>_ _ _ w. ((False, 0), w)), CancelIoEx = (\<lambda>_ w. w),
     WaitForMultipleObjects = (\<lambda>_ _ w. (WAIT_OBJECT_0, w)), GetExitCodeProcess = (\<lambda>_ _. (ERROR_SUCCESS, 0)),
     ImpersonateNamedPipeClient = (\<lambda>_ w. (True, w\<lparr>impersonating := True\<rparr>)), TokenElevation = (\<lambda>_ _. (ERROR_SUCCESS, False, 4)),
     GetNamedPipeClientProcessId = (\<lambda>_ _. (ERROR_SUCCESS, 99)), OpenProcess = (\<lambda>_ w. ((ERROR_SUCCESS, 41), w))\<rparr>"

lemmas serving_defs = serving_tokens_def serving_launch_def serving_registration_def serving_application_def
  serving_server_def

interpretation serving_log: server_log serving_application process_events serving_server
  by (unfold_locales) (auto simp: serving_defs frozen_store_def reference_launch_def idle_defs reference_create_process_def
      reference_assign_def dest!: new_handle_events split: prod.splits if_splits)

interpretation serving_service: request_service "broker_handlers serving_application"
    "\<lambda>application hs. \<exists>app. application = Some app \<and> sessions_held serving_application app hs"
  by (rule serving_log.application_service)

interpretation serving_refusal: refusing_server serving_server serving_application
    "\<lambda>w :: launch_world. (process_events w, fresh_handle w)"
  by (unfold_locales) (auto simp: serving_defs reference_launch_def idle_defs)

section \<open>An interactive launch, served\<close>

definition serving_request :: BrokerRequest where
  "serving_request = \<lparr>operation = InteractiveLaunch, requestId = example_id, profileId = wide ''guest'', force = False,
     restrictAccess = False, lowIntegrity = False, log_access = True, appContainer = AppContainerOptions_default,
     arguments = [wide ''cmd''], workingDirectory = wide [CHR ''C'', CHR '':'', BS, CHR ''D''],
     console = ConsoleRequest_default, interactive = example_lease\<rparr>"

lemma serving_message_built:
  "BuildInteractiveLaunchRequest reference_wc example_id (wide ''guest'') [wide ''cmd'']
     (wide [CHR ''C'', CHR '':'', BS, CHR ''D'']) example_lease False False True = Some serving_message"
proof -
  have "BuildInteractiveLaunchRequest reference_wc example_id (wide ''guest'') [wide ''cmd'']
      (wide [CHR ''C'', CHR '':'', BS, CHR ''D'']) example_lease False False True \<noteq> None"
    by (simp add: BuildInteractiveLaunchRequest_def BeginLaunchRequest_eq IsValidUtf16_wide
        example_simps example_lease_def ascii_def launch_members_def text_simps key_def Let_def
        MaximumMessageBytes_def json_string_wide_length,
      simp add: wide_def json_char_def hex_escape_def)
  then show ?thesis by (simp add: serving_message_def)
qed

lemma serving_message_read: "ParseBrokerRequest reference_mb serving_message = Some serving_request"
  using windows_utf.interactive_roundtrip[OF reference.windows_utf_axioms serving_message_built example_valid(1,2) _ _ _
      example_valid(5,6)]
  by (simp add: MaximumArguments_def serving_request_def)

definition serving_caller :: BrokerCallerIdentity where
  "serving_caller = \<lparr>userSid = [2], caller_logonSid = [9], sessionId = 2, isElevated = False\<rparr>"

definition serving_app :: BrokerApplication where
  "serving_app = BrokerApplication_new (wide ''C:'') [2]"

lemma serving_tokens_simps [simp]:
  "CloseHandle serving_tokens h v = v" "SidValid serving_tokens s \<longleftrightarrow> s \<noteq> []" "SidEqual serving_tokens a b \<longleftrightarrow> a = b"
  "LookupPrivilegeValueW serving_tokens name = (ERROR_SUCCESS, \<lparr>LowPart = 7, HighPart = 0\<rparr>)"
  "QueryTokenInformation serving_tokens h TokenUser v = (ERROR_SUCCESS, UserInformation (if h = 6 \<or> h = 7 then [2] else guest_sid))"
  "QueryTokenInformation serving_tokens h TokenGroups v
    = (ERROR_SUCCESS, GroupsInformation [(if h = 7 then [9] else [1], SE_GROUP_LOGON_ID)])"
  "QueryTokenInformation serving_tokens h TokenPrivileges v = (ERROR_SUCCESS, PrivilegesInformation [])"
  "QueryTokenInformation serving_tokens h TokenIntegrityLevel v = (ERROR_SUCCESS, IntegrityInformation [4])"
  "CreateRestrictedToken serving_tokens h fl ps rs v = ((ERROR_SUCCESS, 30), v)"
  "LogonUserW serving_tokens name password v = ((ERROR_SUCCESS, 29), v)"
  "CreateWellKnownSid serving_tokens k = (ERROR_SUCCESS, [8])"
  "GetSidSubAuthorityCount serving_tokens s = Some 1"
  "GetSidSubAuthority serving_tokens s i = Some SECURITY_MANDATORY_MEDIUM_RID"
  "GetComputerNameW serving_tokens = (ERROR_SUCCESS, [])"
  "LookupAccountNameSize serving_tokens q v = (ERROR_INSUFFICIENT_BUFFER, 16, 5)"
  "LookupAccountNameW serving_tokens q v = (ERROR_SUCCESS, guest_sid, SidTypeUser)"
  "LsaOpenPolicy serving_tokens = LsaOpenPolicy idle_tokens"
  "LsaEnumerateAccountRights serving_tokens = LsaEnumerateAccountRights idle_tokens"
  by (simp_all add: serving_tokens_def idle_tokens_def QueryTokenInformation_def)

lemma guest_sid_complete: "guest_sid \<noteq> []"
  by (simp add: guest_sid_def)

lemma serving_launch_simps [simp]:
  "launch_tokens serving_launch = serving_tokens" "launch_pipes serving_launch = granting_pipe"
  "CopySid (launch_container serving_launch) s = ERROR_SUCCESS"
  "RevertToSelf (container_scope (launch_container serving_launch)) v = (True, v\<lparr>impersonating := False\<rparr>)"
  "GetTickCount64 (launch_objects serving_launch) v = (1000, v)"
  "OpenProcessToken serving_launch h v = ((ERROR_SUCCESS, 6), v)"
  "OpenThreadToken serving_launch v = (if impersonating v then (ERROR_SUCCESS, 7) else (ERROR_NO_TOKEN, nullptr), v)"
  "ImpersonateSelf serving_launch v = (ERROR_SUCCESS, v\<lparr>impersonating := True\<rparr>)"
  "AdjustTokenPrivileges serving_launch h ps v = ((True, ERROR_SUCCESS, ps), v)"
  "SetTokenSession serving_launch h i v = (ERROR_SUCCESS, v)" "TokenSession serving_launch h v = (ERROR_SUCCESS, 2, 4)"
  "CreateEnvironmentBlock serving_launch h v = ((ERROR_SUCCESS, 9), v)" "DestroyEnvironmentBlock serving_launch h v = v"
  "LoadUserProfileW serving_launch h name v = ((ERROR_SUCCESS, 10), v)" "UnloadUserProfile serving_launch h h' v = v"
  "CreateProcessAsUserW serving_launch = reference_create_process"
  "WaitForSingleObject serving_launch h t v = (WAIT_OBJECT_0, v)" "GetProcessId serving_launch h v = 77"
  "ResumeThread serving_launch h v = ((1, ERROR_SUCCESS), log_event (ThreadResumed h) v)"
  "CreateJobObjectW serving_launch = new_handle" "SetKillOnJobClose serving_launch h v = (ERROR_SUCCESS, log_event (JobLimited h) v)"
  "AssignProcessToJobObject serving_launch = reference_assign" "DuplicateHandle serving_launch h v = ((ERROR_SUCCESS, 14), v)"
  "ActiveProcesses serving_launch h v = Some 0" "TerminateJobObject serving_launch h v = log_event (JobTerminated h) v"
  "canonical_path serving_launch path v = (ERROR_SUCCESS, path)" "is_directory serving_launch path v = (ERROR_SUCCESS, True)"
  by (simp_all add: serving_launch_def reference_launch_def idle_container_def idle_objects_def)

lemma serving_application_simps [simp]:
  "app_registration serving_application = serving_registration" "app_launch serving_application = serving_launch"
  "random_draws serving_application v = example_draws" "app_fold serving_application = map ascii_lower"
  "IsAuthorizedCaller (app_policy serving_application) [2] [2]"
  by (simp_all add: serving_application_def IsAuthorizedCaller_def IsCompleteSid_def)

lemma serving_audit [simp]: "snd (WriteBrokerAuditEvent (app_audit serving_application) type event texts v) = v"
  by (simp add: serving_application_def WriteBrokerAuditEvent_def Let_def)

lemma guest_name: "IsValidBrokerAccountName (wide ''guest'')" "wide ''guest'' \<noteq> []"
  by (simp_all add: IsValidBrokerAccountName_def contains_any_def wide_def)

lemma serving_reset: "password_length p = 32 \<Longrightarrow>
    RegistrationService_ResetPassword serving_registration (wide ''C:'') (wide ''guest'') p v = (ERROR_SUCCESS, v)"
  by (simp add: RegistrationService_ResetPassword_def serving_registration_def guest_record GetBrokerAccountSid_def
      LookupLocalUserSid_def serving_tokens_def idle_tokens_def guest_sid_def guest_name)

lemma serving_logon: "password_length p = 32 \<Longrightarrow>
    LogOnBrokerAccount serving_tokens (wide ''guest'') p nullptr False v = ((ERROR_SUCCESS, 30), v)"
  by (simp add: LogOnBrokerAccount_def AdmitLogonToken_def RestrictLogonToken_def RestrictToken_def BrokerLogonToken_Reset_def
      LookupLocalUserSid_def ValidateAccountPrivilegeAllowList_def ValidateTokenUser_def ValidateNonAdministrativeToken_def
      ValidateTokenPrivilegeAllowList_def ValidateMediumIntegrityLevel_def ValidateRestrictedTokenPrivileges_def
      AllowedTokenPrivilegeNames_def guest_sid_complete guest_name idle_tokens_def)

lemma serving_lease: "leasePipe example_lease \<noteq> []" "nonce example_lease = example_id" "example_id \<noteq> []"
  using example_valid(5) IsRequestId_length[OF example_valid(1)]
  by (auto simp: IsInteractiveLeasePipeName_def example_lease_def)

definition serving_child :: BrokerChildProcess where
  "serving_child = \<lparr>child_job = 16, child_process = 20, child_thread = 21, profileToken = 14, child_profile = 10,
     exitReport = nullptr, diagnostics = nullptr\<rparr>"

lemma serving_launched:
  "LaunchBrokerInteractiveProcess serving_launch 30 (wide ''guest'') [wide ''cmd''] (wide [CHR ''C'', CHR '':'', BS, CHR ''D''])
     2 (leasePipe example_lease) example_id [9] BrokerChildProcess_empty LeaseConnection_empty False None (launch_start False)
   = Some ((ERROR_SUCCESS, serving_child, \<lparr>connection_pipe = 5, connection_nonce = example_id\<rparr>, None),
       (launch_start False)\<lparr>process_events := launched_events 16 20 30, fresh_handle := 24\<rparr>)"
  using serving_lease
  by (simp add: LaunchBrokerInteractiveProcess_def LaunchInteractive_def LaunchLeased_def serving_child_def
      granting_pipe_acquire GetTokenLogonSid_def CopyValidSid_def ValidateLaunched_def
      SetBrokerTokenSessionId_def AssignSession_def launch_evaluation)

text \<open>The state of the request after its launch, with the table that holds its session.\<close>

definition serving_session :: BrokerSession where
  "serving_session = \<lparr>session_child = serving_child, desktopLease = \<lparr>connection_pipe = 5, connection_nonce = example_id\<rparr>\<rparr>"

definition served_app :: BrokerApplication where
  "served_app = serving_app\<lparr>app_sessions := \<lparr>sessionsByAccount =
     [map ascii_lower (wide ''guest'') \<mapsto> AccountSessions_empty\<lparr>session_count := 1\<rparr>], sessionCount = 1\<rparr>\<rparr>"

definition launched_world :: launch_world where
  "launched_world = (launch_start False)\<lparr>process_events := launched_events 16 20 30 @ [ThreadResumed 21], fresh_handle := 24\<rparr>"

lemma serving_scope_env [simp]:
  "fold_name (scope_env serving_application) = map ascii_lower"
  by (simp add: scope_env_def)

lemma serving_reserved:
  "TryReserveSession (scope_env serving_application) serving_request (app_sessions serving_app) v
    = Some ((True, app_sessions served_app), v)"
  by (simp add: TryReserveSession_def serving_app_def BrokerApplication_new_def session_table_empty_def served_app_def
      MaximumConcurrentSessions_def serving_request_def AccountSessions_empty_def RestoreScope_def AttachLog_def)

lemma serving_released:
  "ReleaseSession (scope_env serving_application) serving_request (app_sessions served_app) v
    = Some ((ERROR_SUCCESS, app_sessions serving_app), v)"
  by (simp add: ReleaseSession_def serving_app_def BrokerApplication_new_def session_table_empty_def served_app_def
      serving_request_def AccountSessions_empty_def RestoreScope_def)

lemma serving_logged [simp]: "LogLaunchAction (app_audit serving_application) r a b c e v = v"
  by (simp add: LogLaunchAction_def Let_def)

lemma serving_audited [simp]: "AuditRequest (app_audit serving_application) event type request caller e pid scope v = v"
  by (simp add: AuditRequest_def Let_def)

lemma serving_launch_run:
  "Launch serving_application serving_request serving_caller BrokerSession_empty serving_app (launch_start False)
    = Some ((ERROR_SUCCESS, serving_session, served_app), launched_world)"
proof -
  obtain p rest where p: "GenerateBrokerPassword SecurePassword_empty example_draws = Some ((ERROR_SUCCESS, p), rest)"
    "password_length p = 32" by (rule example_password_generated)
  have scope: "reserved_scope serving_application serving_request served_app = None"
    by (simp add: reserved_scope_def served_app_def serving_request_def AccountSessions_empty_def)
  have app: "authorizedCallerSid serving_app = [2]" "enrollmentDirectory serving_app = wide ''C:''"
    "serving_app\<lparr>app_sessions := app_sessions served_app\<rparr> = served_app"
    by (simp_all add: serving_app_def BrokerApplication_new_def served_app_def)
  have request: "operation serving_request = InteractiveLaunch" "profileId serving_request = wide ''guest''"
    "arguments serving_request = [wide ''cmd'']" "restrictAccess serving_request = False"
    "lowIntegrity serving_request = False" "interactive serving_request = example_lease"
    "workingDirectory serving_request = wide [CHR ''C'', CHR '':'', BS, CHR ''D'']"
    by (simp_all add: serving_request_def)
  have caller: "userSid serving_caller = [2]" "sessionId serving_caller = 2" "caller_logonSid serving_caller = [9]"
    by (simp_all add: serving_caller_def)
  have empty: "session_child BrokerSession_empty = BrokerChildProcess_empty" "desktopLease BrokerSession_empty = LeaseConnection_empty"
    by (simp_all add: BrokerSession_empty_def)
  have no_lease: "LeaseConnection_Reset granting_pipe LeaseConnection_empty v = v" for v :: launch_world
    by (simp add: LeaseConnection_Reset_def LeaseConnection_empty_def)
  have result: "BrokerSession_empty\<lparr>session_child := serving_child, desktopLease := \<lparr>connection_pipe = 5, connection_nonce = example_id\<rparr>\<rparr>
      = serving_session" by (simp add: serving_session_def BrokerSession_empty_def)
  show ?thesis
    unfolding Launch_def LaunchReserved_def LaunchInteractiveSession_def CompleteLaunch_def
    by (simp add: is_launch_def app serving_reserved scope request caller p serving_reset serving_logon serving_lease
        serving_launched empty result BrokerChildProcess_Resume_def put_scope_def report_actions_def
        no_lease BrokerLogonToken_Reset_def launched_world_def Let_def,
      simp add: serving_child_def launch_start_def log_event_def)
qed

lemma serving_server_simps [simp]:
  "server_launch serving_server = serving_launch" "CreateEventW serving_server v = ((ERROR_SUCCESS, 40), v)"
  "ResetEvent serving_server h v = v" "BeginRead serving_server h n h' v = ((ERROR_SUCCESS, serving_message), v)"
  "BeginWrite serving_server h bytes h' v = ((ERROR_SUCCESS, length bytes), v)"
  "ImpersonateNamedPipeClient serving_server h v = (True, v\<lparr>impersonating := True\<rparr>)"
  "TokenElevation serving_server h v = (ERROR_SUCCESS, False, 4)"
  "GetNamedPipeClientProcessId serving_server h v = (ERROR_SUCCESS, 99)" "OpenProcess serving_server pid v = ((ERROR_SUCCESS, 41), v)"
  by (simp_all add: serving_server_def)

lemma serving_reset_handle [simp]: "UniqueHandle_reset serving_tokens h v = v"
  by (simp add: UniqueHandle_reset_def)

lemma serving_captured: "\<not> impersonating v \<Longrightarrow> CaptureCallerIdentity serving_server h v = Some (Some serving_caller, v)"
  by (simp add: CaptureCallerIdentity_def impersonated_token_def TokenIdentity_def ClientProcessMatches_def CopyValidSid_def
      GetTokenLogonSid_def serving_caller_def)

lemma serving_message_received: "ReadRequest serving_server 3 4 v = ((True, serving_message), v)"
proof -
  have "serving_message \<noteq> []" using serving_message_read by (auto simp: ParseBrokerRequest_def)
  then show ?thesis by (simp add: ReadRequest_def with_event_def)
qed

lemma serving_answered:
  "AnswerRequest serving_server (broker_handlers serving_application) 3 4 (Some serving_app) (launch_start False)
    = Some ((\<lparr>served_request = serving_request, served_session = serving_session, sessionStarted = True,
        served_response = BuildLaunchSuccessResponse example_id 77\<rparr>, Some served_app), launched_world)"
proof -
  note serving_message_received
  moreover have "CaptureCallerIdentity serving_server 3 (launch_start False) = Some (Some serving_caller, launch_start False)"
    by (rule serving_captured) (simp add: launch_start_def)
  moreover have "operation serving_request = InteractiveLaunch" "requestId serving_request = example_id"
    by (simp_all add: serving_request_def)
  moreover have "child_ready serving_child" "session_child serving_session = serving_child"
    "BrokerChildProcess_processId serving_launch serving_child launched_world = 77"
    by (simp_all add: child_ready_def serving_child_def serving_session_def BrokerChildProcess_processId_def)
  moreover have "pipe_mb (granting_pipe :: launch_world pipe_api) = reference_mb" by (simp add: granting_pipe_def)
  ultimately show ?thesis
    by (simp add: AnswerRequest_def serving_message_read IsManagementOperation_def AnswerLaunch_def broker_handlers_def
        LaunchProfile_def serving_launch_run)
qed

lemma serving_reset_child: "BrokerChildProcess_Reset serving_launch child v = v"
  by (simp add: BrokerChildProcess_Reset_def UniqueHandle_reset_def)

lemma serving_terminated: "TerminateAndWaitForExit serving_launch child v
    = Some ((True, BrokerChildProcess_empty), if valid_handle (child_job child) then log_event (JobTerminated (child_job child)) v else v)"
  by (simp add: TerminateAndWaitForExit_def WaitForProcessTreeExit_def TreeExit.simps serving_reset_child remaining_time_def Let_def)

lemma serving_confirmed: "TerminateAndWaitForExitConfirmed serving_launch child v
    = Some (BrokerChildProcess_empty, if valid_handle (child_job child) then log_event (JobTerminated (child_job child)) v else v)"
  by (simp add: TerminateAndWaitForExitConfirmed.simps serving_terminated)

lemma serving_lease_released:
  "\<exists>e. \<forall>v :: launch_world. ReleaseInteractiveDesktopLease granting_pipe connection v = (e, v)"
proof -
  have "snd (ReleaseInteractiveDesktopLease granting_pipe connection v) = v" for v :: launch_world
    by (simp add: ReleaseInteractiveDesktopLease_def granting_pipe_def Let_def WritePipeMessage_def ReadPipeMessage_def
        LeaseConnection_Reset_def idle_tokens_def split: prod.splits)
  moreover have "fst (ReleaseInteractiveDesktopLease granting_pipe connection v)
      = fst (ReleaseInteractiveDesktopLease granting_pipe connection (launch_start False))" for v :: launch_world
    by (simp add: ReleaseInteractiveDesktopLease_def granting_pipe_def Let_def WritePipeMessage_def ReadPipeMessage_def
        LeaseConnection_Reset_def idle_tokens_def split: prod.splits)
  ultimately show ?thesis by (metis prod.collapse)
qed

text \<open>The end of the world: the process was resumed, and its job terminated.\<close>

definition served_world :: launch_world where
  "served_world = log_event (JobTerminated 16) launched_world"

lemma request_served:
  "ServeControlPipeRequest serving_server (broker_handlers serving_application) 3 4 (Some serving_app) (launch_start False)
    = Some (Some serving_app, served_world)"
proof -
  let ?s = "\<lparr>served_request = serving_request, served_session = serving_session, sessionStarted = True,
        served_response = BuildLaunchSuccessResponse example_id 77\<rparr>"
  have op: "operation serving_request = InteractiveLaunch" by (simp add: serving_request_def)
  have child: "session_child serving_session = serving_child" "valid_handle (child_job serving_child)"
    by (simp_all add: serving_session_def serving_child_def)
  have "FollowSession serving_server 3 4 ?s launched_world = Some (False, launched_world)"
    by (simp add: FollowSession_def WriteResponse_def with_event_def op WaitForDetachedProcessTree.simps Let_def)
  moreover obtain e where e: "\<And>v :: launch_world. ReleaseInteractiveDesktopLease granting_pipe
      (desktopLease serving_session) v = (e, v)" using serving_lease_released by blast
  have "served_app\<lparr>app_sessions := app_sessions serving_app\<rparr> = serving_app"
    by (simp add: served_app_def)
  then have "FinishSession serving_application serving_request (serving_session\<lparr>session_child := BrokerChildProcess_empty\<rparr>)
      True served_app v = Some ((e, BrokerSession_empty, serving_app), v)" for v
    by (simp add: FinishSession_def op e serving_released TeardownFailed_def Let_def)
      (simp add: serving_session_def BrokerSession_empty_def)
  then have "EndSession serving_server (broker_handlers serving_application) ?s (Some served_app) launched_world
      = Some ((?s\<lparr>served_session := BrokerSession_empty\<rparr>, Some serving_app), served_world)"
    using child by (simp add: EndSession_def serving_terminated FinishBrokerSession_def broker_handlers_def
        FinishProfileSession_def served_world_def serving_child_def)
  moreover have "DestroySession serving_launch BrokerSession_empty v = Some v" for v
    by (simp add: DestroySession_def serving_confirmed BrokerSession_empty_def serving_reset_child
        LeaseConnection_Reset_def LeaseConnection_empty_def BrokerChildProcess_empty_def)
  ultimately show ?thesis
    by (simp add: ServeControlPipeRequest_def serving_answered)
qed

section \<open>Properties\<close>

text \<open>
  C39: Serving any request keeps the session table in order, and afterwards exactly the requests hold
  sessions that held them before: a launch that fails, is refused or ends gives its reservation up,
  whatever the calls it makes return.
\<close>

theorem served_request_keeps_sessions:
  assumes "session_log api log" and "sessions_held api app hs"
    and "ServeControlPipeRequest srv (broker_handlers api) pipe stopEvent (Some app) w = Some (application, w')"
  shows "\<exists>app'. application = Some app' \<and> sessions_held api app' hs"
  using request_service.served_held[OF session_log.application_service[OF assms(1)] assms(3), of hs] assms(2) by simp

lemma served_request_keeps_sessions_witness:
  "ServeControlPipeRequest serving_server (broker_handlers serving_application) 3 4 (Some serving_app) (launch_start False)
    = Some (Some serving_app, served_world) \<and> sessions_held serving_application serving_app []"
  using served_request_keeps_sessions[OF serving_log.session_log_axioms _ request_served, of "[]"]
    sessions_held_new[of serving_application "wide ''C:''" "[2]"] request_served
  by (simp add: serving_app_def)



text \<open>
  C38: A request whose caller is not the authorized one, and a management request other than list of
  a caller who is not elevated, is served with the error and nothing else: the application and its
  sessions stay as they are, and so does everything that the pipe and the audit event do not touch.
\<close>

theorem refused_request_changes_nothing:
  assumes "refusing_server srv api view"
    and "ReadRequest srv pipe stopEvent w = ((True, message), w1)"
    and "CaptureCallerIdentity srv pipe w1 = Some (Some caller, w2)"
    and "ParseBrokerRequest (pipe_mb (launch_pipes (server_launch srv))) message = Some request"
    and "refusal api app caller request = Some e"
  shows "\<exists>w3 w'. ServeControlPipeRequest srv (broker_handlers api) pipe stopEvent (Some app) w = Some (Some app, w')
    \<and> w' = snd (WriteResponse srv pipe stopEvent (BuildErrorResponse (requestId request) (refusal_reason request) e) w3)
    \<and> view w' = view w"
  by (rule refusing_server.refused_served[OF assms])

lemma refused_request_changes_nothing_witness:
  "\<exists>w'. ServeControlPipeRequest serving_server (broker_handlers serving_application) 3 4
      (Some (BrokerApplication_new (wide ''C:'') [3])) (launch_start False)
    = Some (Some (BrokerApplication_new (wide ''C:'') [3]), w') \<and> process_events w' = []"
proof -
  have parsed: "ParseBrokerRequest (pipe_mb (launch_pipes (server_launch serving_server))) serving_message = Some serving_request"
    using serving_message_read by (simp add: granting_pipe_def)
  have refused: "refusal serving_application (BrokerApplication_new (wide ''C:'') [3]) serving_caller serving_request
      = Some ERROR_ACCESS_DENIED"
    by (simp add: refusal_def BrokerApplication_new_def serving_application_def IsAuthorizedCaller_def serving_caller_def)
  have "CaptureCallerIdentity serving_server 3 (launch_start False) = Some (Some serving_caller, launch_start False)"
    by (rule serving_captured) (simp add: launch_start_def)
  from refused_request_changes_nothing[OF serving_refusal.refusing_server_axioms serving_message_received this parsed refused]
  show ?thesis by (auto simp: launch_start_def)
qed

end
