(* ===== verification/LaunchAuthority.thy ===== *)
theory LaunchAuthority
  imports RequestRuns
begin

text \<open>
  What stands behind a successful launch: the authorized caller, a password made for it, the managed
  record of the account, and a logon with that password.
\<close>

text \<open>A launch with the logon token \<open>token\<close> that leaves the child of the session.\<close>

definition launched_with ::
  "'w application_api \<Rightarrow> BrokerRequest \<Rightarrow> BrokerCallerIdentity \<Rightarrow> handle \<Rightarrow> BrokerSession \<Rightarrow> BrokerSession
     \<Rightarrow> BrokerReadScope option \<Rightarrow> 'w \<Rightarrow> bool"
where
  "launched_with api request caller token session session' scope w \<longleftrightarrow>
     (if operation request = InteractiveLaunch
      then \<exists>lease scope' w'. LaunchBrokerInteractiveProcess (app_launch api) token (profileId request) (arguments request)
          (workingDirectory request) (sessionId caller) (leasePipe (interactive request))
          (nonce (interactive request)) (caller_logonSid caller) (session_child session) LeaseConnection_empty
          (lowIntegrity request) scope w
        = Some ((ERROR_SUCCESS, session_child session', lease, scope'), w') \<and> desktopLease session' = lease
      else \<exists>scope' preparation w'. LaunchBrokerConsoleHost (app_launch api) token (profileId request)
          (conhostArguments request) (workingDirectory request) (session_child session) (lowIntegrity request)
          scope (appContainer request) w
        = Some ((ERROR_SUCCESS, session_child session', scope', preparation), w'))"

lemma CompleteLaunch_success:
  assumes "CompleteLaunch api request caller reserved e session app w = Some ((ERROR_SUCCESS, session', app'), w')"
  shows "e = ERROR_SUCCESS \<and> session' = session"
  using assms by (auto simp: CompleteLaunch_def GiveUpReservation_def Let_def map_option_eq_Some
      split: if_split_asm option.splits)

lemma interactive_success:
  assumes "LaunchInteractiveSession api request caller token session app w = Some ((ERROR_SUCCESS, session', app'), w')"
    and "operation request = InteractiveLaunch"
  shows "launched_with api request caller token session session' (map_option SetObserver (reserved_scope api request app)) w"
  using assms unfolding LaunchInteractiveSession_def launched_with_def
  by (auto simp: Let_def map_option_eq_Some bind_eq_Some_conv dest!: CompleteLaunch_success
      split: option.splits prod.splits if_split_asm)

lemma console_success:
  assumes "LaunchConsoleSession api request caller token session app w = Some ((ERROR_SUCCESS, session', app'), w')"
    and "operation request \<noteq> InteractiveLaunch"
  shows "launched_with api request caller token session session' (map_option SetObserver (reserved_scope api request app)) w"
  using assms unfolding LaunchConsoleSession_def launched_with_def
  by (auto simp: Let_def map_option_eq_Some bind_eq_Some_conv dest!: CompleteLaunch_success
      split: option.splits prod.splits if_split_asm)

lemma reset_success:
  assumes "RegistrationService_ResetPassword api dir n p w = (ERROR_SUCCESS, w')"
  shows "\<exists>enrollment v s. EnrollmentStore_Load (store_of api) dir n w = ((ERROR_SUCCESS, enrollment), v) \<and> brokerManaged enrollment
    \<and> GetBrokerAccountSid (tokens_of api) n v = (ERROR_SUCCESS, s) \<and> SidEqual (tokens_of api) (accountSid enrollment) s"
  using assms by (auto simp: RegistrationService_ResetPassword_def Let_def split: prod.splits if_split_asm)

lemma reserved_success:
  assumes "LaunchReserved api request caller session app w = Some ((ERROR_SUCCESS, session', app'), w')"
  shows "\<exists>v p rest v1 token v2 v3.
      GenerateBrokerPassword SecurePassword_empty (random_draws api v) = Some ((ERROR_SUCCESS, p), rest)
    \<and> RegistrationService_ResetPassword (app_registration api) (enrollmentDirectory app) (profileId request) p v
      = (ERROR_SUCCESS, v1)
    \<and> LogOnBrokerAccount (launch_tokens (app_launch api)) (profileId request) p nullptr (restrictAccess request) v1
      = ((ERROR_SUCCESS, token), v2)
    \<and> launched_with api request caller token session session' (map_option SetObserver (reserved_scope api request app)) v3"
proof -
  let ?v = "if log_access request then LogLaunchAction (app_audit api) (requestId request) (profileId request)
    (wide ''launch.begin'') (workingDirectory request) ERROR_SUCCESS w else w"
  obtain pe p rest where p: "GenerateBrokerPassword SecurePassword_empty (random_draws api ?v) = Some ((pe, p), rest)"
    using assms by (auto simp: LaunchReserved_def Let_def split: option.splits)
  obtain re v1 where r: "RegistrationService_ResetPassword (app_registration api) (enrollmentDirectory app)
      (profileId request) p ?v = (re, v1)" by (metis surj_pair)
  obtain le token v2 where l: "LogOnBrokerAccount (launch_tokens (app_launch api)) (profileId request) p nullptr
      (restrictAccess request) v1 = ((le, token), v2)" by (metis surj_pair)
  have ok: "pe = ERROR_SUCCESS" "re = ERROR_SUCCESS" "le = ERROR_SUCCESS"
    using assms unfolding LaunchReserved_def Let_def
    by (auto simp: p r l dest!: CompleteLaunch_success split: if_split_asm)
  let ?v3 = "if log_access request then LogLaunchAction (app_audit api) (requestId request) (profileId request)
    (wide ''launch.account_logged_on'') [] ERROR_SUCCESS v2 else v2"
  from assms ok obtain v4 where "(if operation request = InteractiveLaunch then LaunchInteractiveSession else LaunchConsoleSession)
      api request caller token session app ?v3 = Some ((ERROR_SUCCESS, session', app'), v4)"
    unfolding LaunchReserved_def Let_def by (auto simp: p r l map_option_eq_Some)
  then have "launched_with api request caller token session session' (map_option SetObserver (reserved_scope api request app)) ?v3"
    by (auto split: if_split_asm dest: interactive_success console_success)
  with p r l ok show ?thesis by blast
qed

text \<open>
  C37: A launch succeeds only for the authorized caller and within the session limit, and then the
  process was started with a token from a logon whose password had just been generated and set, while
  the account's managed record held the SID the account has.
\<close>

theorem launch_authenticated:
  assumes "Launch api request caller session app w = Some ((ERROR_SUCCESS, session', app'), w')"
  shows "IsAuthorizedCaller (app_policy api) (authorizedCallerSid app) (userSid caller)
    \<and> sessionCount (app_sessions app) < MaximumConcurrentSessions
    \<and> (\<exists>v p rest v1 enrollment u s token v2 scope v3.
        GenerateBrokerPassword SecurePassword_empty (random_draws api v) = Some ((ERROR_SUCCESS, p), rest)
      \<and> EnrollmentStore_Load (store_of (app_registration api)) (enrollmentDirectory app) (profileId request) v
        = ((ERROR_SUCCESS, enrollment), u) \<and> brokerManaged enrollment
      \<and> GetBrokerAccountSid (tokens_of (app_registration api)) (profileId request) u = (ERROR_SUCCESS, s)
      \<and> SidEqual (tokens_of (app_registration api)) (accountSid enrollment) s
      \<and> RegistrationService_ResetPassword (app_registration api) (enrollmentDirectory app) (profileId request) p v
        = (ERROR_SUCCESS, v1)
      \<and> LogOnBrokerAccount (launch_tokens (app_launch api)) (profileId request) p nullptr (restrictAccess request) v1
        = ((ERROR_SUCCESS, token), v2)
      \<and> launched_with api request caller token session session' scope v3)"
proof -
  obtain reserved st w1 where t: "TryReserveSession (scope_env api) request (app_sessions app) w = Some ((reserved, st), w1)"
    and ok: "IsAuthorizedCaller (app_policy api) (authorizedCallerSid app) (userSid caller)" "reserved"
    and l: "LaunchReserved api request caller session (app\<lparr>app_sessions := st\<rparr>) w1 = Some ((ERROR_SUCCESS, session', app'), w')"
    using assms by (auto simp: Launch_def Let_def dest!: CompleteLaunch_success split: option.splits if_split_asm)
  have "sessionCount (app_sessions app) < MaximumConcurrentSessions"
    using t ok(2) by (auto simp: TryReserveSession_def split: if_split_asm)
  moreover have "enrollmentDirectory (app\<lparr>app_sessions := st\<rparr>) = enrollmentDirectory app" by simp
  from reserved_success[OF l, unfolded this] obtain v p rest v1 token v2 v3
    where g: "GenerateBrokerPassword SecurePassword_empty (random_draws api v) = Some ((ERROR_SUCCESS, p), rest)"
      and r: "RegistrationService_ResetPassword (app_registration api) (enrollmentDirectory app) (profileId request) p v
        = (ERROR_SUCCESS, v1)"
      and run: "LogOnBrokerAccount (launch_tokens (app_launch api)) (profileId request) p nullptr (restrictAccess request) v1
        = ((ERROR_SUCCESS, token), v2)"
        "launched_with api request caller token session session'
          (map_option SetObserver (reserved_scope api request (app\<lparr>app_sessions := st\<rparr>))) v3"
    by blast
  moreover from reset_success[OF r] obtain enrollment u s
    where "EnrollmentStore_Load (store_of (app_registration api)) (enrollmentDirectory app) (profileId request) v
        = ((ERROR_SUCCESS, enrollment), u)" "brokerManaged enrollment"
      "GetBrokerAccountSid (tokens_of (app_registration api)) (profileId request) u = (ERROR_SUCCESS, s)"
      "SidEqual (tokens_of (app_registration api)) (accountSid enrollment) s" by blast
  ultimately show ?thesis using ok(1) by blast
qed

lemma launch_authenticated_witness:
  "IsAuthorizedCaller (app_policy serving_application) [2] [2]
    \<and> (\<exists>p v v1 token v2. RegistrationService_ResetPassword serving_registration (wide ''C:'') (wide ''guest'') p v
        = (ERROR_SUCCESS, v1)
      \<and> LogOnBrokerAccount serving_tokens (wide ''guest'') p nullptr False v1 = ((ERROR_SUCCESS, token), v2))"
proof -
  have "profileId serving_request = wide ''guest''" "restrictAccess serving_request = False"
    "enrollmentDirectory serving_app = wide ''C:''" "authorizedCallerSid serving_app = [2]" "userSid serving_caller = [2]"
    by (simp_all add: serving_request_def serving_app_def BrokerApplication_new_def serving_caller_def)
  with launch_authenticated[OF serving_launch_run] show ?thesis by simp blast
qed

end
