(* ===== verification/Spec2Isabelle.thy ===== *)
theory Spec2Isabelle
  imports LeaseProtocol Invocation Password EnrollmentStore LogonToken Registration CallerPolicy Sessions ReadScopeRuns WriteScopeLabels LaunchAuthority
begin

text \<open>
  launch-as: model and properties.
\<close>

end
